(* ===== verification/Prelude.thy ===== *)
theory Prelude
  imports
    Complex_Main
    "HOL-Library.Char_ord"
    "HOL-Library.List_Lexorder"
begin

text \<open>
  The prelude of the development: exceptions as values, the error monad over sums, Python
  strings and the regular expressions the sources use, SQL tables as lists of rows in
  rowid order, and the locales that state the contracts several components share
  (a guarded machine whose operations keep an invariant, a machine with a progress order,
  a keyed table).

  Python's \<open>str\<close> is \<^typ>\<open>string\<close>: a character stands for one code point below 256.
  Messages of exceptions that the sources write in Chinese are given by an English gloss;
  \<open>OtherError\<close> holds the class name and the message of any other exception.
\<close>

section \<open>Exceptions and the error monad\<close>

datatype exn =
    ValueError string
  | KeyError string
  | TypeError string
  | AttributeError string
  | RuntimeError string
  | IntegrityError string
  | PoolConfigurationError string
  | RevisionConflictError int int
  | CommandConflictError string
  | SeatStateError string
  | CapacityExceededError
  | NoVerifiedSeatError
  | TooEarlyToReleaseError int
  | NoSpareSeatError
  | SubmissionConflictError string
  | SubmissionClosedError string
  | SubmissionLeaseLostError string
  | RealtimeJudgePermanentError string
  | RealtimeJudgeAmbiguousError string
  | RealtimeJudgeTimeout string
  | ProblemMappingError string
  | InstallTransactionError string
  | OtherError string string

type_synonym 'a res = "exn + 'a"

named_theorems res_simps \<open>rewriting rules of the error monad\<close>

definition bindE :: "'e + 'a \<Rightarrow> ('a \<Rightarrow> 'e + 'b) \<Rightarrow> 'e + 'b" where
  "bindE m f = (case m of Inl e \<Rightarrow> Inl e | Inr x \<Rightarrow> f x)"

definition of_option :: "'e \<Rightarrow> 'a option \<Rightarrow> 'e + 'a" where
  "of_option e x = (case x of None \<Rightarrow> Inl e | Some y \<Rightarrow> Inr y)"

lemma bindE_Inl [simp, res_simps]: "bindE (Inl e) f = Inl e"
  by (simp add: bindE_def)

lemma bindE_Inr [simp, res_simps]: "bindE (Inr x) f = f x"
  by (simp add: bindE_def)

lemma bindE_eq_Inr [simp, res_simps]:
  "bindE m f = Inr y \<longleftrightarrow> (\<exists>x. m = Inr x \<and> f x = Inr y)"
  by (cases m) simp_all

lemma of_option_simps [simp, res_simps]:
  "of_option e None = Inl e" "of_option e (Some y) = Inr y"
  by (simp_all add: of_option_def)

lemma of_option_eq_Inr [simp, res_simps]: "of_option e x = Inr y \<longleftrightarrow> x = Some y"
  by (cases x) simp_all

text \<open>A Python loop over a list in which the body may raise.\<close>

fun mapE :: "('a \<Rightarrow> 'e + 'b) \<Rightarrow> 'a list \<Rightarrow> 'e + 'b list" where
  "mapE f [] = Inr []"
| "mapE f (x # xs) = bindE (f x) (\<lambda>y. bindE (mapE f xs) (\<lambda>ys. Inr (y # ys)))"

fun foldE :: "('s \<Rightarrow> 'a \<Rightarrow> 'e + 's) \<Rightarrow> 's \<Rightarrow> 'a list \<Rightarrow> 'e + 's" where
  "foldE f s [] = Inr s"
| "foldE f s (x # xs) = bindE (f s x) (\<lambda>s'. foldE f s' xs)"

text \<open>\<open>next((x for x in xs if p(x)), None)\<close> with a condition that may raise.\<close>

fun findE :: "('a \<Rightarrow> 'e + bool) \<Rightarrow> 'a list \<Rightarrow> 'e + 'a option" where
  "findE p [] = Inr None"
| "findE p (x # xs) = bindE (p x) (\<lambda>b. if b then Inr (Some x) else findE p xs)"

lemma mapE_length: "mapE f xs = Inr ys \<Longrightarrow> length ys = length xs"
  by (induction xs arbitrary: ys) auto

lemma mapE_map: "(\<And>x. x \<in> set xs \<Longrightarrow> f x = Inr (g x)) \<Longrightarrow> mapE f xs = Inr (map g xs)"
  by (induction xs) auto

lemma findE_find: "(\<And>x. x \<in> set xs \<Longrightarrow> p x = Inr (q x)) \<Longrightarrow> findE p xs = Inr (find q xs)"
  by (induction xs) auto

lemma foldE_inv:
  assumes "foldE f s xs = Inr s'" and "P s"
    and "\<And>t x t'. P t \<Longrightarrow> x \<in> set xs \<Longrightarrow> f t x = Inr t' \<Longrightarrow> P t'"
  shows "P s'"
  using assms
proof (induction xs arbitrary: s)
  case Nil
  then show ?case by simp
next
  case (Cons x xs)
  from Cons.prems(1) obtain t where t: "f s x = Inr t" "foldE f t xs = Inr s'" by auto
  have "P t" using Cons.prems(3) [OF Cons.prems(2) _ t(1)] by simp
  then show ?case using Cons.IH [OF t(2)] Cons.prems(3) by (metis list.set_intros(2))
qed

section \<open>Strings\<close>

definition between :: "char \<Rightarrow> char \<Rightarrow> char \<Rightarrow> bool" where
  "between a b c \<longleftrightarrow> of_char a \<le> (of_char c :: nat) \<and> of_char c \<le> (of_char b :: nat)"

definition is_digit :: "char \<Rightarrow> bool" where
  "is_digit c = between (CHR ''0'') (CHR ''9'') c"

definition is_lower :: "char \<Rightarrow> bool" where
  "is_lower c = between (CHR ''a'') (CHR ''z'') c"

definition is_upper :: "char \<Rightarrow> bool" where
  "is_upper c = between (CHR ''A'') (CHR ''Z'') c"

definition is_hex :: "char \<Rightarrow> bool" where
  "is_hex c \<longleftrightarrow> is_digit c \<or> between (CHR ''a'') (CHR ''f'') c"

lemmas char_class_defs = between_def is_digit_def is_lower_def is_upper_def is_hex_def

text \<open>\<open>re.fullmatch("P Q{m,n}", s)\<close> and \<open>re.fullmatch("Q{n}", s)\<close> for character classes.\<close>

definition re_head :: "(char \<Rightarrow> bool) \<Rightarrow> (char \<Rightarrow> bool) \<Rightarrow> nat \<Rightarrow> nat \<Rightarrow> string \<Rightarrow> bool" where
  "re_head P Q m n s = (case s of [] \<Rightarrow> False
     | c # cs \<Rightarrow> P c \<and> list_all Q cs \<and> m \<le> length cs \<and> length cs \<le> n)"

definition re_exact :: "(char \<Rightarrow> bool) \<Rightarrow> nat \<Rightarrow> string \<Rightarrow> bool" where
  "re_exact Q n s \<longleftrightarrow> length s = n \<and> list_all Q s"

definition slug_char :: "char \<Rightarrow> bool" where
  "slug_char c \<longleftrightarrow> is_lower c \<or> is_digit c \<or> c = CHR ''_''"

definition alnum :: "char \<Rightarrow> bool" where
  "alnum c \<longleftrightarrow> is_lower c \<or> is_upper c \<or> is_digit c"

text \<open>\<open>str.strip()\<close>: the whitespace code points below 256.\<close>

definition py_space :: "char \<Rightarrow> bool" where
  "py_space c = (let n = of_char c :: nat
     in 9 \<le> n \<and> n \<le> 13 \<or> 28 \<le> n \<and> n \<le> 32 \<or> n = 133 \<or> n = 160)"

definition py_strip :: "string \<Rightarrow> string" where
  "py_strip s = rev (dropWhile py_space (rev (dropWhile py_space s)))"

text \<open>\<open>str.lower()\<close>: the letters below 128 and the Latin-1 letters.\<close>

definition lower_char :: "char \<Rightarrow> char" where
  "lower_char c = (let n = of_char c :: nat in
     if is_upper c \<or> 192 \<le> n \<and> n \<le> 222 \<and> n \<noteq> 215 then char_of (n + 32) else c)"

definition py_lower :: "string \<Rightarrow> string" where
  "py_lower s = map lower_char s"

text \<open>Decimal numerals: \<open>str(n)\<close> and the format \<open>{n:03d}\<close>.\<close>

definition digit_char :: "nat \<Rightarrow> char" where
  "digit_char d = char_of (48 + d)"

fun nat_str :: "nat \<Rightarrow> string" where
  "nat_str n = (if n < 10 then [digit_char n] else nat_str (n div 10) @ [digit_char (n mod 10)])"

declare nat_str.simps [simp del]

definition int_str :: "int \<Rightarrow> string" where
  "int_str i = (if i < 0 then CHR ''-'' # nat_str (nat (- i)) else nat_str (nat i))"

definition pad0 :: "nat \<Rightarrow> string \<Rightarrow> string" where
  "pad0 w s = replicate (w - length s) (CHR ''0'') @ s"

definition fmt03 :: "int \<Rightarrow> string" where
  "fmt03 i = (if i < 0 then CHR ''-'' # pad0 2 (nat_str (nat (- i))) else pad0 3 (nat_str (nat i)))"

fun digits_val :: "nat \<Rightarrow> string \<Rightarrow> nat" where
  "digits_val acc [] = acc"
| "digits_val acc (c # cs) = digits_val (10 * acc + (of_char c - 48)) cs"

lemma digits_val_append: "digits_val acc (xs @ ys) = digits_val (digits_val acc xs) ys"
  by (induction acc xs rule: digits_val.induct) auto

lemma of_char_digit: "d < 10 \<Longrightarrow> of_char (digit_char d) = (48 + d :: nat)"
  by (simp add: digit_char_def)

lemma digits_val_nat_str: "digits_val 0 (nat_str n) = n"
proof (induction n rule: nat_str.induct)
  case (1 n)
  show ?case
  proof (cases "n < 10")
    case True
    then show ?thesis by (simp add: nat_str.simps of_char_digit)
  next
    case False
    with 1 show ?thesis
      by (simp add: nat_str.simps [of n] digits_val_append of_char_digit)
  qed
qed

lemma nat_str_inject: "nat_str m = nat_str n \<longleftrightarrow> m = n"
  by (metis digits_val_nat_str)

lemma digits_val_zeros: "digits_val 0 (replicate k (CHR ''0'') @ s) = digits_val 0 s"
  by (induction k) auto

lemma pad0_nat_str_inject: "pad0 w (nat_str m) = pad0 w (nat_str n) \<longleftrightarrow> m = n"
  by (metis digits_val_nat_str digits_val_zeros pad0_def)

lemma nat_str_nonempty [simp]: "nat_str n \<noteq> []"
  by (subst nat_str.simps) simp

text \<open>The digits of an integer without its unary representation: how the witnesses evaluate \<open>int_str\<close>.\<close>

function int_digits :: "int \<Rightarrow> string" where
  "int_digits n = (if n < 10 then [digit_char (nat n)] else int_digits (n div 10) @ [digit_char (nat (n mod 10))])"
  by pat_completeness auto
termination
  by (relation "measure nat") auto

declare int_digits.simps [simp del]

lemma int_digits_nat: "0 \<le> n \<Longrightarrow> int_digits n = nat_str (nat n)"
proof (induction n rule: int_digits.induct)
  case (1 n)
  show ?case
  proof (cases "n < 10")
    case True
    then show ?thesis using 1 by (simp add: int_digits.simps [of n] nat_str.simps [of "nat n"])
  next
    case False
    then have "int_digits (n div 10) = nat_str (nat n div 10)" using 1 by (simp add: nat_div_distrib)
    then show ?thesis
      using False by (simp add: int_digits.simps [of n] nat_str.simps [of "nat n"] nat_mod_distrib)
  qed
qed

lemma int_str_digits [code]: "int_str i = (if i < 0 then CHR ''-'' # int_digits (- i) else int_digits i)"
  by (simp add: int_str_def int_digits_nat)

section \<open>SQL tables\<close>

text \<open>
  A table is the list of its rows in rowid order. \<open>UPDATE .. WHERE p\<close> rewrites the matching
  rows in place, \<open>DELETE\<close> drops them, \<open>SELECT .. fetchone()\<close> returns the first match, an
  \<open>INSERT\<close> appends; \<open>rowcount\<close> is the number of matching rows.
\<close>

definition sql_update :: "('r \<Rightarrow> bool) \<Rightarrow> ('r \<Rightarrow> 'r) \<Rightarrow> 'r list \<Rightarrow> 'r list" where
  "sql_update p f rows = map (\<lambda>r. if p r then f r else r) rows"

definition sql_delete :: "('r \<Rightarrow> bool) \<Rightarrow> 'r list \<Rightarrow> 'r list" where
  "sql_delete p rows = filter (\<lambda>r. \<not> p r) rows"

definition rowcount :: "('r \<Rightarrow> bool) \<Rightarrow> 'r list \<Rightarrow> nat" where
  "rowcount p rows = length (filter p rows)"

named_theorems sql_simps \<open>rewriting rules of the table operations\<close>

lemma sql_update_Nil [simp, sql_simps]: "sql_update p f [] = []"
  by (simp add: sql_update_def)

lemma sql_update_Cons [simp, sql_simps]:
  "sql_update p f (r # rs) = (if p r then f r else r) # sql_update p f rs"
  by (simp add: sql_update_def)

lemma sql_update_append [simp, sql_simps]:
  "sql_update p f (xs @ ys) = sql_update p f xs @ sql_update p f ys"
  by (simp add: sql_update_def)

lemma length_sql_update [simp, sql_simps]: "length (sql_update p f rs) = length rs"
  by (simp add: sql_update_def)

lemma set_sql_update: "set (sql_update p f rs) = (\<lambda>r. if p r then f r else r) ` set rs"
  by (simp add: sql_update_def)

lemma in_sql_update:
  "x \<in> set (sql_update p f rs) \<longleftrightarrow> (\<exists>r \<in> set rs. x = (if p r then f r else r))"
  by (simp only: set_sql_update image_iff)

lemma map_sql_update: "(\<And>r. p r \<Longrightarrow> g (f r) = g r) \<Longrightarrow> map g (sql_update p f rs) = map g rs"
  by (simp add: sql_update_def)

lemma sql_update_id: "(\<And>r. r \<in> set rs \<Longrightarrow> \<not> p r) \<Longrightarrow> sql_update p f rs = rs"
  by (induction rs) auto

lemma set_sql_delete [simp, sql_simps]: "set (sql_delete p rs) = {r \<in> set rs. \<not> p r}"
  by (auto simp: sql_delete_def)

lemma distinct_map_sql_delete: "distinct (map g rs) \<Longrightarrow> distinct (map g (sql_delete p rs))"
  by (simp add: sql_delete_def distinct_map_filter)

lemma rowcount_0: "rowcount p rs = 0 \<longleftrightarrow> (\<forall>r \<in> set rs. \<not> p r)"
  by (auto simp: rowcount_def filter_empty_conv)

lemma find_Some_iff_mem: "find p xs = Some x \<Longrightarrow> x \<in> set xs \<and> p x"
  by (induction xs) (auto split: if_splits)

lemma find_sql_update:
  assumes "\<And>r. p r \<Longrightarrow> q (f r) = q r"
  shows "find q (sql_update p f rs) = map_option (\<lambda>r. if p r then f r else r) (find q rs)"
  using assms by (induction rs) auto

lemma find_Nil_append: "find p (xs @ ys) = (case find p xs of None \<Rightarrow> find p ys | Some x \<Rightarrow> Some x)"
  by (induction xs) auto

lemma find_distinct_key:
  assumes "distinct (map k rs)" and "r \<in> set rs" and "k r = x"
  shows "find (\<lambda>r. k r = x) rs = Some r"
  using assms by (induction rs) auto

lemma rowcount_by_key:
  assumes "distinct (map key rs)" and "\<And>r. p r \<Longrightarrow> key r = k"
  shows "rowcount p rs = (case find (\<lambda>r. key r = k) rs of None \<Rightarrow> 0 | Some r \<Rightarrow> if p r then 1 else 0)"
  using assms(1)
proof (induction rs)
  case Nil
  then show ?case by (simp add: rowcount_def)
next
  case (Cons r rs)
  show ?case
  proof (cases "key r = k")
    case True
    then have "\<forall>x \<in> set rs. \<not> p x"
      using Cons.prems assms(2) by (metis distinct.simps(2) image_eqI list.set_map list.simps(9))
    then have "filter p rs = []" by (simp add: filter_empty_conv)
    with True show ?thesis by (simp add: rowcount_def)
  next
    case False
    then have "\<not> p r" using assms(2) by blast
    with False Cons show ?thesis by (simp add: rowcount_def)
  qed
qed

text \<open>Every row of one table has a row above it in another: an order of histories.\<close>

definition above :: "('r \<Rightarrow> 'r \<Rightarrow> bool) \<Rightarrow> 'r list \<Rightarrow> 'r list \<Rightarrow> bool" where
  "above le xs ys \<longleftrightarrow> (\<forall>x \<in> set xs. \<exists>y \<in> set ys. le x y)"

lemma above_refl: "(\<And>x. le x x) \<Longrightarrow> above le xs xs"
  by (auto simp: above_def)

lemma above_trans: "(\<And>x y z. le x y \<Longrightarrow> le y z \<Longrightarrow> le x z) \<Longrightarrow> above le xs ys \<Longrightarrow> above le ys zs \<Longrightarrow> above le xs zs"
  unfolding above_def by meson

lemma above_append: "(\<And>x. le x x) \<Longrightarrow> above le xs (xs @ ys)"
  by (auto simp: above_def)

lemma above_map: "(\<And>x. x \<in> set xs \<Longrightarrow> le x (f x)) \<Longrightarrow> above le xs (map f xs)"
  by (auto simp: above_def)

lemma above_update: "(\<And>x. x \<in> set xs \<Longrightarrow> p x \<Longrightarrow> le x (f x)) \<Longrightarrow> (\<And>x. le x x) \<Longrightarrow> above le xs (sql_update p f xs)"
  unfolding sql_update_def by (rule above_map) auto

section \<open>Contracts shared by the components\<close>

text \<open>
  A service applies commands to its state; a command that raises leaves the state as it was
  (the transaction is rolled back, or the frozen dataclass is simply not replaced).
\<close>

definition attempt :: "('op \<Rightarrow> 's \<Rightarrow> 'e + 's) \<Rightarrow> 'op \<Rightarrow> 's \<Rightarrow> 's" where
  "attempt step c s = (case step c s of Inl e \<Rightarrow> s | Inr s' \<Rightarrow> s')"

fun history :: "('op \<Rightarrow> 's \<Rightarrow> 'e + 's) \<Rightarrow> 'op list \<Rightarrow> 's \<Rightarrow> 's" where
  "history step [] s = s"
| "history step (c # cs) s = history step cs (attempt step c s)"

lemma history_append: "history step (cs @ ds) s = history step ds (history step cs s)"
  by (induction cs arbitrary: s) auto

text \<open>A machine whose every successful command keeps an invariant.\<close>

locale machine =
  fixes step :: "'op \<Rightarrow> 's \<Rightarrow> 'e + 's" and inv :: "'s \<Rightarrow> bool"
  assumes step_inv: "inv s \<Longrightarrow> step c s = Inr s' \<Longrightarrow> inv s'"
begin

lemma attempt_inv: "inv s \<Longrightarrow> inv (attempt step c s)"
  by (auto simp: attempt_def dest: step_inv split: sum.split)

lemma history_inv: "inv s \<Longrightarrow> inv (history step cs s)"
  by (induction cs arbitrary: s) (auto intro: attempt_inv)

end

text \<open>A machine that moreover only moves forward in a preorder of its states.\<close>

locale progress_machine = machine step inv
  for step :: "'op \<Rightarrow> 's \<Rightarrow> 'e + 's" and inv :: "'s \<Rightarrow> bool" +
  fixes le :: "'s \<Rightarrow> 's \<Rightarrow> bool"
  assumes le_refl: "le s s"
    and le_trans: "le s t \<Longrightarrow> le t u \<Longrightarrow> le s u"
    and step_le: "inv s \<Longrightarrow> step c s = Inr s' \<Longrightarrow> le s s'"
begin

lemma attempt_le: "inv s \<Longrightarrow> le s (attempt step c s)"
  by (auto simp: attempt_def le_refl dest: step_le split: sum.split)

lemma history_le: "inv s \<Longrightarrow> le s (history step cs s)"
proof (induction cs arbitrary: s)
  case Nil
  then show ?case by (simp add: le_refl)
next
  case (Cons c cs)
  have "le (attempt step c s) (history step cs (attempt step c s))"
    by (rule Cons.IH) (rule attempt_inv [OF Cons.prems])
  then show ?case by (simp add: le_trans [OF attempt_le [OF Cons.prems]])
qed

end

text \<open>
  A table with a key and an \<open>UPDATE .. WHERE key = k\<close> that does not write the key column:
  keys stay distinct, the row of that key changes, every other row is untouched.
\<close>

locale keyed_table =
  fixes key :: "'r \<Rightarrow> 'k" and upd :: "'a \<Rightarrow> 'r \<Rightarrow> 'r"
  assumes key_upd: "key (upd a r) = key r"
begin

lemma keys_update: "map key (sql_update p (upd a) rs) = map key rs"
  by (rule map_sql_update) (simp add: key_upd)

lemma lookup_update:
  "find (\<lambda>r. key r = k) (sql_update (\<lambda>r. key r = k) (upd a) rs)
     = map_option (upd a) (find (\<lambda>r. key r = k) rs)"
  by (induction rs) (auto simp: key_upd)

lemma lookup_mem: "distinct (map key rs) \<Longrightarrow> r \<in> set rs \<Longrightarrow> find (\<lambda>x. key x = key r) rs = Some r"
  by (rule find_distinct_key) auto

lemma update_guarded:
  assumes "distinct (map key rs)" and "\<And>r. p r \<Longrightarrow> key r = k"
    and "find (\<lambda>r. key r = k) rs = Some r" and "p r"
  shows "sql_update p f rs = sql_update (\<lambda>x. key x = k) f rs"
proof -
  have r: "r \<in> set rs" "key r = k" using find_Some_iff_mem [OF assms(3)] by auto
  have "p x \<longleftrightarrow> key x = k" if "x \<in> set rs" for x
    using that r assms by (metis distinct_map inj_onD)
  then show ?thesis by (simp add: sql_update_def)
qed

lemma lookup_update_other:
  "k' \<noteq> k \<Longrightarrow>
    find (\<lambda>r. key r = k') (sql_update (\<lambda>r. key r = k) (upd a) rs) = find (\<lambda>r. key r = k') rs"
  by (induction rs) (auto simp: key_upd)

end

end
