(* ===== verification/Json.thy ===== *)
theory Json
  imports Prelude
begin

text \<open>
  The JSON values the services store, hash and exchange, Python's accessors on them
  (\<open>dict.get\<close>, \<open>int()\<close>, \<open>x or ""\<close>), equality of decoded values, and the canonical encoder
  \<open>json.dumps(value, ensure_ascii=False, sort_keys=True, separators=(",", ":"))\<close>.
  A JSON object is an association list in insertion order, as a Python dict is.
  No service stores a JSON number with a fraction, so numbers are integers.
\<close>

datatype json =
    JNull
  | JBool bool
  | JInt int
  | JStr string
  | JArr "json list"
  | JObj "(string \<times> json) list"

type_synonym jdict = "(string \<times> json) list"

section \<open>Python operations on decoded values\<close>

text \<open>\<open>d[k] = v\<close> on a dict: an existing key keeps its place.\<close>

fun dict_set :: "string \<Rightarrow> 'v \<Rightarrow> (string \<times> 'v) list \<Rightarrow> (string \<times> 'v) list" where
  "dict_set k v [] = [(k, v)]"
| "dict_set k v ((k', v') # d) = (if k' = k then (k', v) # d else (k', v') # dict_set k v d)"

lemma map_of_dict_set [simp]: "map_of (dict_set k v d) = (map_of d)(k \<mapsto> v)"
  by (induction k v d rule: dict_set.induct) (auto simp: fun_eq_iff)

text \<open>\<open>x.get(k)\<close>: raises AttributeError when \<open>x\<close> is not a dict.\<close>

fun jget :: "string \<Rightarrow> json \<Rightarrow> json option res" where
  "jget k (JObj d) = Inr (map_of d k)"
| "jget k _ = Inl (AttributeError ''get'')"

text \<open>\<open>int(s)\<close> on text: optional surrounding space and sign, then decimal digits.\<close>

definition parse_int :: "string \<Rightarrow> int res" where
  "parse_int s = (let t = py_strip s;
       neg = (case t of CHR ''-'' # _ \<Rightarrow> True | _ \<Rightarrow> False);
       u = (case t of c # cs \<Rightarrow> if c = CHR ''-'' \<or> c = CHR ''+'' then cs else t | [] \<Rightarrow> t)
     in if u \<noteq> [] \<and> list_all is_digit u
        then Inr (if neg then - int (digits_val 0 u) else int (digits_val 0 u))
        else Inl (ValueError ''invalid literal for int()''))"

fun py_int :: "json \<Rightarrow> int res" where
  "py_int (JInt i) = Inr i"
| "py_int (JBool b) = Inr (if b then 1 else 0)"
| "py_int (JStr s) = parse_int s"
| "py_int _ = Inl (TypeError ''int() argument'')"

text \<open>Truth of a value: \<open>if x\<close>, \<open>x or default\<close>.\<close>

fun py_truthy :: "json \<Rightarrow> bool" where
  "py_truthy JNull = False"
| "py_truthy (JBool b) = b"
| "py_truthy (JInt i) = (i \<noteq> 0)"
| "py_truthy (JStr s) = (s \<noteq> [])"
| "py_truthy (JArr xs) = (xs \<noteq> [])"
| "py_truthy (JObj d) = (d \<noteq> [])"

text \<open>\<open>int(item.get(k, default))\<close> and \<open>int(item.get(k) or 0)\<close>.\<close>

definition jint :: "string \<Rightarrow> int \<Rightarrow> json \<Rightarrow> int res" where
  "jint k dflt x = bindE (jget k x) (\<lambda>o'. case o' of None \<Rightarrow> Inr dflt | Some v \<Rightarrow> py_int v)"

definition jint_or0 :: "string \<Rightarrow> json \<Rightarrow> int res" where
  "jint_or0 k x = bindE (jget k x)
     (\<lambda>o'. case o' of None \<Rightarrow> Inr 0 | Some v \<Rightarrow> if py_truthy v then py_int v else Inr 0)"

text \<open>
  Equality of decoded values: dicts compare without regard to order, and \<open>True == 1\<close>.
  Both are decided on a normal form that sorts the keys and reads booleans as integers.
\<close>

fun jnorm :: "json \<Rightarrow> json" where
  "jnorm JNull = JNull"
| "jnorm (JBool b) = JInt (if b then 1 else 0)"
| "jnorm (JInt i) = JInt i"
| "jnorm (JStr s) = JStr s"
| "jnorm (JArr xs) = JArr (map jnorm xs)"
| "jnorm (JObj d) = JObj (sort_key fst (map (\<lambda>(k, v). (k, jnorm v)) d))"

definition json_eq :: "json \<Rightarrow> json \<Rightarrow> bool" where
  "json_eq x y \<longleftrightarrow> jnorm x = jnorm y"

lemma json_eq_refl [simp]: "json_eq x x"
  by (simp add: json_eq_def)

lemma json_eq_sym: "json_eq x y \<Longrightarrow> json_eq y x"
  by (simp add: json_eq_def)

lemma json_eq_trans: "json_eq x y \<Longrightarrow> json_eq y z \<Longrightarrow> json_eq x z"
  by (simp add: json_eq_def)

text \<open>\<open>x or default\<close>, and \<open>str(x.get(k) or "")\<close> for a key that may be missing.\<close>

definition json_or :: "json \<Rightarrow> json \<Rightarrow> json" where
  "json_or x dflt = (if py_truthy x then x else dflt)"

text \<open>
  The value that \<open>json.loads\<close> gives back for the text of \<open>json.dumps(.., sort_keys=True)\<close>. Two such
  texts are equal exactly when these values are.
\<close>

fun jsort :: "json \<Rightarrow> json" where
  "jsort (JArr xs) = JArr (map jsort xs)"
| "jsort (JObj d) = JObj (sort_key fst (map (\<lambda>(k, v). (k, jsort v)) d))"
| "jsort x = x"

section \<open>The canonical encoder\<close>

definition hex_char :: "nat \<Rightarrow> char" where
  "hex_char d = (if d < 10 then char_of (48 + d) else char_of (87 + d))"

definition esc_char :: "char \<Rightarrow> string" where
  "esc_char c = (let n = of_char c :: nat in
     if n = 34 then [char_of (92 :: nat), char_of (34 :: nat)]
     else if n = 92 then [char_of (92 :: nat), char_of (92 :: nat)]
     else if n = 10 then [char_of (92 :: nat), CHR ''n'']
     else if n = 13 then [char_of (92 :: nat), CHR ''r'']
     else if n = 9 then [char_of (92 :: nat), CHR ''t'']
     else if n = 12 then [char_of (92 :: nat), CHR ''f'']
     else if n = 8 then [char_of (92 :: nat), CHR ''b'']
     else if n < 32 then [char_of (92 :: nat), CHR ''u'', CHR ''0'', CHR ''0'',
                          hex_char (n div 16), hex_char (n mod 16)]
     else [c])"

definition quote :: "string \<Rightarrow> string" where
  "quote s = [char_of (34 :: nat)] @ concat (map esc_char s) @ [char_of (34 :: nat)]"

fun join :: "string \<Rightarrow> string list \<Rightarrow> string" where
  "join sep [] = []"
| "join sep [x] = x"
| "join sep (x # y # ys) = x @ sep @ join sep (y # ys)"

fun dumps :: "json \<Rightarrow> string" where
  "dumps JNull = ''null''"
| "dumps (JBool b) = (if b then ''true'' else ''false'')"
| "dumps (JInt i) = int_str i"
| "dumps (JStr s) = quote s"
| "dumps (JArr xs) = ''['' @ join '','' (map dumps xs) @ '']''"
| "dumps (JObj d) = ''{'' @ join '','' (map (\<lambda>(k, v). quote k @ '':'' @ v)
     (sort_key fst (map (\<lambda>(k, v). (k, dumps v)) d))) @ ''}''"

text \<open>
  \<open>json.dumps(value, ensure_ascii=False, separators=(",", ":"))\<close> keeps the insertion order; with
  \<open>ensure_ascii=True\<close> a string also escapes every character outside the printable ASCII range.
\<close>

fun dumps_plain :: "json \<Rightarrow> string" where
  "dumps_plain JNull = ''null''"
| "dumps_plain (JBool b) = (if b then ''true'' else ''false'')"
| "dumps_plain (JInt i) = int_str i"
| "dumps_plain (JStr s) = quote s"
| "dumps_plain (JArr xs) = ''['' @ join '','' (map dumps_plain xs) @ '']''"
| "dumps_plain (JObj d) = ''{'' @ join '','' (map (\<lambda>(k, v). quote k @ '':'' @ dumps_plain v) d) @ ''}''"

definition esc_ascii :: "char \<Rightarrow> string" where
  "esc_ascii c = (let n = of_char c :: nat in
     if n < 127 then esc_char c
     else [char_of (92 :: nat), CHR ''u'', CHR ''0'', CHR ''0'', hex_char (n div 16), hex_char (n mod 16)])"

definition quote_ascii :: "string \<Rightarrow> string" where
  "quote_ascii s = [char_of (34 :: nat)] @ concat (map esc_ascii s) @ [char_of (34 :: nat)]"

section \<open>\<open>str()\<close> of a decoded value\<close>

text \<open>\<open>repr(s)\<close>: the quote that needs no escape, and escapes for the characters that do not print.\<close>

definition repr_char :: "char \<Rightarrow> char \<Rightarrow> string" where
  "repr_char q c = (let n = of_char c :: nat; bs = char_of (92 :: nat) in
     if c = q \<or> n = 92 then [bs, c]
     else if n = 10 then [bs, CHR ''n''] else if n = 13 then [bs, CHR ''r'']
     else if n = 9 then [bs, CHR ''t'']
     else if n < 32 \<or> 127 \<le> n \<and> n \<le> 160 \<or> n = 173
     then [bs, CHR ''x'', hex_char (n div 16), hex_char (n mod 16)]
     else [c])"

definition repr_str :: "string \<Rightarrow> string" where
  "repr_str s = (let q = (if char_of (39 :: nat) \<in> set s \<and> char_of (34 :: nat) \<notin> set s
       then char_of (34 :: nat) else char_of (39 :: nat))
     in [q] @ concat (map (repr_char q) s) @ [q])"

fun py_repr :: "json \<Rightarrow> string" where
  "py_repr JNull = ''None''"
| "py_repr (JBool b) = (if b then ''True'' else ''False'')"
| "py_repr (JInt i) = int_str i"
| "py_repr (JStr s) = repr_str s"
| "py_repr (JArr xs) = ''['' @ join '', '' (map py_repr xs) @ '']''"
| "py_repr (JObj d) = ''{'' @ join '', '' (map (\<lambda>(k, v). repr_str k @ '': '' @ py_repr v) d) @ ''}''"

fun py_str :: "json \<Rightarrow> string" where
  "py_str (JStr s) = s"
| "py_str x = py_repr x"

definition str_or :: "json option \<Rightarrow> string" where
  "str_or x = (case x of None \<Rightarrow> [] | Some v \<Rightarrow> if py_truthy v then py_str v else [])"

text \<open>UTF-8 of code points below 256; a byte is a character.\<close>

definition utf8_char :: "char \<Rightarrow> string" where
  "utf8_char c = (let n = of_char c :: nat in
     if n < 128 then [c] else [char_of (192 + n div 64), char_of (128 + n mod 64)])"

definition utf8 :: "string \<Rightarrow> string" where
  "utf8 s = concat (map utf8_char s)"

lemma utf8_ascii: "list_all (\<lambda>c. of_char c < (128 :: nat)) s \<Longrightarrow> utf8 s = s"
  by (induction s) (auto simp: utf8_def utf8_char_def)

lemma length_utf8: "length s \<le> length (utf8 s)"
  by (induction s) (auto simp: utf8_def utf8_char_def Let_def)

section \<open>Reading the ASCII encoding back\<close>

text \<open>Reading one escaped character back.\<close>

definition unhex :: "char \<Rightarrow> nat" where
  "unhex c = (let n = of_char c :: nat in if n < 58 then n - 48 else n - 87)"

lemma unhex_hex: "d < 16 \<Longrightarrow> unhex (hex_char d) = d"
  by (auto simp: unhex_def hex_char_def Let_def)

fun unesc :: "string \<Rightarrow> (char \<times> string) option" where
  "unesc [] = None"
| "unesc (c # s) = (if of_char c = (34 :: nat) then None
     else if of_char c \<noteq> (92 :: nat) then Some (c, s)
     else (case s of [] \<Rightarrow> None | e # t \<Rightarrow>
        if e = CHR ''u'' then (case t of z1 # z2 # h # k # t' \<Rightarrow> Some (char_of (16 * unhex h + unhex k), t') | _ \<Rightarrow> None)
        else Some (if e = CHR ''n'' then char_of (10 :: nat) else if e = CHR ''r'' then char_of (13 :: nat)
          else if e = CHR ''t'' then char_of (9 :: nat) else if e = CHR ''f'' then char_of (12 :: nat)
          else if e = CHR ''b'' then char_of (8 :: nat) else e, t)))"

lemma char_literals:
  "char_of (34 :: nat) = CHR 0x22" "char_of (92 :: nat) = CHR 0x5C" "char_of (10 :: nat) = CHR 0x0A"
  "char_of (13 :: nat) = CHR 0x0D" "char_of (9 :: nat) = CHR 0x09" "char_of (12 :: nat) = CHR 0x0C"
  "char_of (8 :: nat) = CHR 0x08"
  by code_simp+

lemma unesc_esc_nat:
  assumes "n < (256 :: nat)"
  shows "unesc (esc_ascii (char_of n) @ s) = Some (char_of n, s)"
proof -
  have n: "of_char (char_of n :: char) = n" using assms by simp
  have h: "unhex (hex_char (n div 16)) = n div 16" "unhex (hex_char (n mod 16)) = n mod 16"
    using assms by (auto intro!: unhex_hex simp: less_mult_imp_div_less)
  show ?thesis
    by (cases "n = 34"; cases "n = 92"; cases "n = 10"; cases "n = 13"; cases "n = 9"; cases "n = 12";
        cases "n = 8"; simp add: esc_ascii_def esc_char_def Let_def n h char_literals del: of_char_of)
qed

lemma unesc_esc_ascii: "unesc (esc_ascii c @ s) = Some (c, s)"
  using unesc_esc_nat [of "of_char c" s] by simp

lemma quote_end: "unesc (char_of (34 :: nat) # s) = None"
  by simp

lemma quote_body_inject:
  "concat (map esc_ascii s) @ char_of (34 :: nat) # x = concat (map esc_ascii t) @ char_of (34 :: nat) # y
     \<Longrightarrow> s = t \<and> x = y"
proof (induction s arbitrary: t)
  case Nil
  then show ?case
  proof (cases t)
    case (Cons c t')
    have "unesc (concat (map esc_ascii t) @ char_of (34 :: nat) # y) = None"
      using Nil quote_end by (metis append.left_neutral concat.simps(1) list.simps(8))
    then show ?thesis by (simp add: Cons unesc_esc_ascii)
  qed simp
next
  case (Cons c s)
  have "unesc (concat (map esc_ascii t) @ char_of (34 :: nat) # y)
      = Some (c, concat (map esc_ascii s) @ char_of (34 :: nat) # x)"
    unfolding Cons.prems [symmetric] by (simp add: unesc_esc_ascii)
  note head = this
  show ?case
  proof (cases t)
    case Nil
    with head show ?thesis by simp
  next
    case (Cons d t')
    with head have "d = c"
      and "concat (map esc_ascii s) @ char_of (34 :: nat) # x = concat (map esc_ascii t') @ char_of (34 :: nat) # y"
      by (simp_all add: unesc_esc_ascii)
    with Cons.IH Cons show ?thesis by blast
  qed
qed

lemma quote_ascii_inject: "quote_ascii s @ x = quote_ascii t @ y \<longleftrightarrow> s = t \<and> x = y"
  using quote_body_inject [of s x t y] by (auto simp: quote_ascii_def)

lemma quote_ascii_eq: "quote_ascii s = quote_ascii t \<longleftrightarrow> s = t"
  using quote_ascii_inject [of s "[]" t "[]"] by simp

lemma digit_char_digit: "d < 10 \<Longrightarrow> is_digit (digit_char d)"
  by (simp add: char_class_defs of_char_digit)

lemma nat_str_digits: "list_all is_digit (nat_str n)"
proof (induction n rule: nat_str.induct)
  case (1 n)
  then show ?case by (subst nat_str.simps) (auto intro: digit_char_digit)
qed

lemma int_str_chars: "list_all (\<lambda>c. c \<noteq> CHR '','' ) (int_str i)"
proof -
  have "is_digit c \<Longrightarrow> c \<noteq> CHR '',''" for c by (auto simp: char_class_defs)
  then have "list_all (\<lambda>c. c \<noteq> CHR '','') (nat_str n)" for n
    using nat_str_digits [of n] by (auto simp: list_all_iff)
  then show ?thesis by (simp add: int_str_def)
qed

lemma int_str_inject: "int_str i = int_str j \<longleftrightarrow> i = j"
proof -
  have "hd (nat_str n) \<noteq> CHR ''-''" for n
    using nat_str_digits [of n] nat_str_nonempty [of n]
    by (cases "nat_str n") (auto simp: char_class_defs)
  then have "CHR ''-'' # nat_str m \<noteq> nat_str n" for m n by (metis list.sel(1))
  then show ?thesis by (auto simp: int_str_def nat_str_inject dest: sym split: if_splits)
qed

lemma int_str_comma_inject:
  "int_str i @ CHR '','' # x = int_str j @ CHR '','' # y \<longleftrightarrow> i = j \<and> x = y"
proof
  assume eq: "int_str i @ CHR '','' # x = int_str j @ CHR '','' # y"
  have "takeWhile (\<lambda>c. c \<noteq> CHR '','') (int_str k @ CHR '','' # z) = int_str k" for k z
    using int_str_chars [of k] by (simp add: takeWhile_tail list_all_iff)
  from this [of i x] this [of j y] eq have "int_str i = int_str j" by metis
  with eq show "i = j \<and> x = y" by (simp add: int_str_inject)
qed simp

lemma ascii_hex_char: "d < 16 \<Longrightarrow> (of_char (hex_char d) :: nat) < 128"
  by (auto simp: hex_char_def)

lemma ascii_esc: "list_all (\<lambda>x. (of_char x :: nat) < 128) (esc_ascii c)"
proof -
  have "(of_char c :: nat) < 256" by simp
  then have "(of_char c :: nat) div 16 < 16" by (simp add: less_mult_imp_div_less)
  then show ?thesis
    by (auto simp: esc_ascii_def esc_char_def Let_def ascii_hex_char)
qed

lemma ascii_quote: "list_all (\<lambda>x. (of_char x :: nat) < 128) (quote_ascii s)"
  using ascii_esc by (auto simp: quote_ascii_def list_all_iff)

lemma ascii_int_str: "list_all (\<lambda>x. (of_char x :: nat) < 128) (int_str i)"
proof -
  have "is_digit c \<Longrightarrow> (of_char c :: nat) < 128" for c by (simp add: char_class_defs)
  then have "list_all (\<lambda>x. (of_char x :: nat) < 128) (nat_str n)" for n
    using nat_str_digits [of n] by (auto simp: list_all_iff)
  then show ?thesis by (simp add: int_str_def)
qed

section \<open>Sorting the keys\<close>

lemma sort_key_map_value:
  "map (\<lambda>(k, v). (k, f v)) (sort_key fst xs) = sort_key fst (map (\<lambda>(k, v). (k, f v)) xs)"
proof -
  have ins: "map (\<lambda>(k, v). (k, f v)) (insort_key fst x ys)
      = insort_key fst ((\<lambda>(k, v). (k, f v)) x) (map (\<lambda>(k, v). (k, f v)) ys)" for x and ys
    by (induction ys) (auto split: prod.splits)
  show ?thesis by (induction xs) (simp_all add: ins)
qed

lemma dumps_jsort: "dumps (jsort x) = dumps x"
proof (induction x rule: jsort.induct)
  case (1 xs)
  then show ?case by (simp cong: map_cong)
next
  case (2 d)
  have e: "map (\<lambda>(k, v). (k, dumps v)) (map (\<lambda>(k, v). (k, jsort v)) d) = map (\<lambda>(k, v). (k, dumps v)) d"
    using 2 by auto
  have "sort_key fst (map (\<lambda>(k, v). (k, dumps v)) (sort_key fst (map (\<lambda>(k, v). (k, jsort v)) d)))
      = sort_key fst (map (\<lambda>(k, v). (k, dumps v)) d)"
    by (simp only: sort_key_map_value e) (simp add: sort_key_id_if_sorted)
  then show ?case by simp
qed simp_all

lemma jnorm_jsort: "jnorm (jsort x) = jnorm x"
proof (induction x rule: jsort.induct)
  case (1 xs)
  then show ?case by (simp cong: map_cong)
next
  case (2 d)
  have e: "map (\<lambda>(k, v). (k, jnorm v)) (map (\<lambda>(k, v). (k, jsort v)) d) = map (\<lambda>(k, v). (k, jnorm v)) d"
    using 2 by auto
  have "sort_key fst (map (\<lambda>(k, v). (k, jnorm v)) (sort_key fst (map (\<lambda>(k, v). (k, jsort v)) d)))
      = sort_key fst (map (\<lambda>(k, v). (k, jnorm v)) d)"
    by (simp only: sort_key_map_value e) (simp add: sort_key_id_if_sorted)
  then show ?case by simp
qed simp_all

lemma json_eq_jsort: "json_eq (jsort x) x"
  by (simp add: json_eq_def jnorm_jsort)

lemma map_of_sort_key:
  assumes "distinct (map fst d)"
  shows "map_of (sort_key fst d) = map_of d"
proof -
  have "distinct (map fst (sort_key fst d))" using assms by (simp add: distinct_map)
  then have "map_of (sort_key fst d) k = Some v \<longleftrightarrow> map_of d k = Some v" for k v
    using assms by simp
  then show ?thesis by (intro ext) (metis not_Some_eq)
qed

lemma map_of_jsort:
  assumes "distinct (map fst d)"
  shows "map_of (sort_key fst (map (\<lambda>(k, v). (k, jsort v)) d)) k = map_option jsort (map_of d k)"
proof -
  have "distinct (map fst (map (\<lambda>(k, v). (k, jsort v)) d))"
    using assms by (simp add: comp_def case_prod_beta')
  then show ?thesis by (simp add: map_of_sort_key map_of_map)
qed

end
