(* ===== verification/StoreState.thy ===== *)
theory StoreState
  imports Json
begin

text \<open>
  \<^verbatim>\<open>orchestrator/services/store.py\<close>: the tables of the SQLite schema as records, the database as
  a record of tables in rowid order. A TEXT column that holds JSON is the decoded value, or
  \<open>None\<close> for text that does not decode. REAL columns are rationals. \<open>DEFAULT\<close> values are those
  of the schema; a column filled with \<open>datetime('now','localtime')\<close> takes the clock text \<open>dt\<close>
  the operation is given. The two AUTOINCREMENT counters are part of the state.
\<close>

section \<open>contests\<close>

datatype contest_state = Registered | Preparing | Ready | Collecting | SafeWait | SafeEnded | Done | Errored

record contest =
  c_tid :: string
  c_title :: string
  c_files :: "string list option"
  c_pids :: "(string \<times> string) list option"
  c_submission_mode :: string
  c_submission_session :: string
  c_paper_name :: string
  c_paper_sha256 :: string
  c_paper_size :: int
  c_testdata_name :: string
  c_testdata_sha256 :: string
  c_testdata_size :: int
  c_testdata_files :: int
  c_testdata_expanded_size :: int
  c_begin_at_ms :: int
  c_end_at_ms :: int
  c_hydro_rule :: string
  c_materials_mode :: string
  c_material_state :: string
  c_active_material_revision :: string
  c_material_manifest_sha256 :: string
  c_max_participants :: int
  c_spare_seats :: int
  c_release_lead_minutes :: int
  c_practice_groups :: int
  c_time_sync_at_ms :: int
  c_time_sync_checked_at_ms :: int
  c_time_sync_error :: string
  c_collection_run_id :: string
  c_collection_dir :: string
  c_collection_receipt_sha256 :: string
  c_collection_completed_at_ms :: int
  c_shutdown_after_ms :: int
  c_shutdown_verified_at_ms :: int
  c_workspace_purged_at_ms :: int
  c_evidence_purged_at_ms :: int
  c_state :: contest_state
  c_message :: string
  c_created_at :: string

section \<open>seats and the seat pool\<close>

record bound_seat =
  b_tid :: string
  b_uid :: int
  b_uname :: string
  b_token :: string
  b_vnc_pass :: string
  b_submit_token :: string
  b_candidate :: string
  b_container :: string
  b_cip :: string

record pool_row =
  p_tid :: string
  p_revision :: int
  p_state_json :: "json option"
  p_updated_at :: string

record resource =
  r_tid :: string
  r_slot_no :: int
  r_token :: string
  r_vnc_pass :: string
  r_submit_token :: string
  r_candidate :: string
  r_container :: string
  r_cip :: string
  r_image_digest :: string
  r_material_digest :: string
  r_credential_revision :: int
  r_created_at :: string

datatype notify_state = NPending | NRetry | NPermanentFailed | NSent

record notification =
  n_tid :: string
  n_uid :: int
  n_kind :: string
  n_credential_revision :: int
  n_notification_id :: string
  n_state :: notify_state
  n_attempts :: int
  n_last_error :: string
  n_sent_at :: string
  n_updated_at :: string

section \<open>web submissions\<close>

datatype judge_state = Local | Pending | Retry | Sending | Submitted | PermanentFailed | Ambiguous

datatype judge_kind = Realtime | Final

record submission =
  w_id :: int
  w_tid :: string
  w_uid :: int
  w_problem :: string
  w_source :: string
  w_sha256 :: string
  w_size :: int
  w_client_nonce :: string
  w_submission_id :: string
  w_submission_session :: string
  w_judge_pid :: string
  w_judge_lang :: string
  w_judge_source :: string
  w_judge_sha256 :: string
  w_judge_issues :: string
  w_judge_state :: judge_state
  w_judge_kind :: judge_kind
  w_accepted_at_ms :: int
  w_rid :: string
  w_attempts :: int
  w_next_retry_at :: rat
  w_lease_until :: rat
  w_lease_token :: string
  w_last_error :: string
  w_resolution_attempts :: int
  w_resolution_after :: rat
  w_delivered_at :: string
  w_created_at :: string

section \<open>materials\<close>

record artifact =
  v_tid :: string
  v_revision :: string
  v_state :: string
  v_source_sha256 :: string
  v_root_path :: string
  v_manifest_sha256 :: string
  v_manifest_json :: json
  v_file_io_plan_json :: json
  v_warnings_json :: json
  v_paper_name :: string
  v_paper_sha256 :: string
  v_paper_size :: int
  v_testdata_name :: string
  v_testdata_sha256 :: string
  v_testdata_size :: int
  v_testdata_files :: int
  v_testdata_expanded_size :: int
  v_approved_by :: string
  v_approved_at :: string
  v_created_at :: string
  v_updated_at :: string

datatype job_state = JQueued | JRunning | JDone | JError | JInterrupted

record job =
  j_job_id :: string
  j_tid :: string
  j_revision :: string
  j_state :: job_state
  j_progress :: int
  j_message :: string
  j_error :: string
  j_details_json :: "json option"
  j_created_at :: string
  j_updated_at :: string

record publication =
  m_tid :: string
  m_revision :: string
  m_publication_id :: string
  m_receipt_sha256 :: string
  m_receipt_json :: json
  m_published_at :: string

section \<open>audit\<close>

record audit_event =
  a_id :: int
  a_tid :: string
  a_actor :: string
  a_action :: string
  a_outcome :: string
  a_details_json :: json
  a_created_at_ms :: int
  a_created_at :: string

section \<open>the database\<close>

record db =
  contests :: "contest list"
  bound_seats :: "bound_seat list"
  web_submissions :: "submission list"
  web_seq :: int
  artifact_revisions :: "artifact list"
  artifact_jobs :: "job list"
  material_publications :: "publication list"
  seat_pools :: "pool_row list"
  seat_pool_resources :: "resource list"
  seat_notifications :: "notification list"
  audit_events :: "audit_event list"
  audit_seq :: int

definition empty_db :: db where
  "empty_db = \<lparr>contests = [], bound_seats = [], web_submissions = [], web_seq = 0,
     artifact_revisions = [], artifact_jobs = [], material_publications = [], seat_pools = [],
     seat_pool_resources = [], seat_notifications = [], audit_events = [], audit_seq = 0\<rparr>"

text \<open>\<open>SELECT .. FROM contests WHERE tid = ?\<close>.\<close>

definition get_contest :: "string \<Rightarrow> db \<Rightarrow> contest option" where
  "get_contest tid d = find (\<lambda>c. c_tid c = tid) (contests d)"

definition update_contest :: "(contest \<Rightarrow> bool) \<Rightarrow> (contest \<Rightarrow> contest) \<Rightarrow> db \<Rightarrow> db" where
  "update_contest p f d = d\<lparr>contests := sql_update p f (contests d)\<rparr>"

end
