(* ===== verification/Outbox.thy ===== *)
theory Outbox
  imports StoreState
begin

text \<open>
  The transactional outbox of \<^verbatim>\<open>orchestrator/services/store.py\<close>: enqueueing a web submission,
  leasing the next due row of a lane, recording delivery, failure or an ambiguous outcome, the
  read-only resolution of ambiguous rows, the requeue for the final collection and the health
  counters. An operation that raises returns no database: the transaction was rolled back.
  \<open>H\<close> is SHA-256 on bytes, \<open>dt\<close> the local clock text of SQLite, \<open>tok\<close> the fresh lease token of
  \<^verbatim>\<open>secrets.token_hex(16)\<close>, \<open>now\<close> the clock in seconds.
\<close>

section \<open>Time as text\<close>

text \<open>\<^verbatim>\<open>time.strftime("%Y-%m-%dT%H:%M:%SZ", time.gmtime(t))\<close>: the proleptic Gregorian date.\<close>

definition civil :: "int \<Rightarrow> int \<times> int \<times> int" where
  "civil days = (let z = days + 719468; era = z div 146097; doe = z mod 146097;
       yoe = (doe - doe div 1460 + doe div 36524 - doe div 146096) div 365;
       doy = doe - (365 * yoe + yoe div 4 - yoe div 100);
       mp = (5 * doy + 2) div 153;
       m = (if mp < 10 then mp + 3 else mp - 9)
     in (yoe + era * 400 + (if m \<le> 2 then 1 else 0), m, doy - (153 * mp + 2) div 5 + 1))"

definition iso_utc :: "rat \<Rightarrow> string" where
  "iso_utc t = (let s = \<lfloor>t\<rfloor>; sod = s mod 86400; pad = (\<lambda>w i. pad0 w (int_str i)) in
     case civil (s div 86400) of (y, m, d) \<Rightarrow>
       pad 4 y @ ''-'' @ pad 2 m @ ''-'' @ pad 2 d @ ''T'' @ pad 2 (sod div 3600) @ '':''
       @ pad 2 (sod mod 3600 div 60) @ '':'' @ pad 2 (sod mod 60) @ ''Z'')"

section \<open>Rows\<close>

definition lane :: "submission \<Rightarrow> string \<times> int \<times> string" where
  "lane r = (w_tid r, w_uid r, w_problem r)"

definition get_web_submission :: "int \<Rightarrow> db \<Rightarrow> submission option" where
  "get_web_submission i d = find (\<lambda>r. w_id r = i) (web_submissions d)"

definition get_web_submission_by_nonce ::
  "string \<Rightarrow> int \<Rightarrow> string \<Rightarrow> string \<Rightarrow> db \<Rightarrow> submission option" where
  "get_web_submission_by_nonce tid u prob nonce d =
     find (\<lambda>r. w_tid r = tid \<and> w_uid r = u \<and> w_problem r = prob \<and> w_client_nonce r = nonce)
       (web_submissions d)"

text \<open>\<open>SELECT .. ORDER BY id LIMIT 1\<close>.\<close>

definition first_by_id :: "submission list \<Rightarrow> submission option" where
  "first_by_id rows = (case sort_key w_id rows of [] \<Rightarrow> None | r # _ \<Rightarrow> Some r)"

text \<open>The \<open>SET\<close> clauses of the updates, by what they record on a row.\<close>

datatype web_set =
    SetSending rat string
  | SetSubmitted string string
  | SetFailed judge_state rat string rat
  | SetChecked rat
  | SetResolved string string
  | SetStatus string rat
  | SetFinal

fun set_web :: "web_set \<Rightarrow> submission \<Rightarrow> submission" where
  "set_web (SetSending until tok) r = r\<lparr>w_judge_state := Sending, w_attempts := w_attempts r + 1,
     w_lease_until := until, w_lease_token := tok\<rparr>"
| "set_web (SetSubmitted rid delivered) r = r\<lparr>w_judge_state := Submitted, w_rid := rid,
     w_lease_until := 0, w_lease_token := [], w_next_retry_at := 0, w_last_error := [],
     w_delivered_at := delivered\<rparr>"
| "set_web (SetFailed state next_retry err next_resolution) r = r\<lparr>w_judge_state := state,
     w_next_retry_at := next_retry, w_lease_until := 0, w_lease_token := [], w_last_error := err,
     w_resolution_after := next_resolution\<rparr>"
| "set_web (SetChecked next_check) r = r\<lparr>w_resolution_attempts := w_resolution_attempts r + 1,
     w_resolution_after := next_check\<rparr>"
| "set_web (SetResolved rid delivered) r = r\<lparr>w_judge_state := Submitted, w_rid := rid,
     w_last_error := [], w_resolution_after := 0, w_delivered_at := delivered\<rparr>"
| "set_web (SetStatus err next_check) r = r\<lparr>w_last_error := err, w_resolution_after := next_check\<rparr>"
| "set_web SetFinal r = r\<lparr>w_judge_state := Pending, w_judge_kind := Final, w_next_retry_at := 0,
     w_lease_until := 0, w_lease_token := []\<rparr>"

definition update_web :: "(submission \<Rightarrow> bool) \<Rightarrow> web_set \<Rightarrow> db \<Rightarrow> db" where
  "update_web p u d = d\<lparr>web_submissions := sql_update p (set_web u) (web_submissions d)\<rparr>"

text \<open>
  The common tail of the completing operations: \<open>UPDATE\<close>, raise when \<open>rowcount != 1\<close>, and
  return the row read back.
\<close>

definition update_one ::
  "exn \<Rightarrow> int \<Rightarrow> (submission \<Rightarrow> bool) \<Rightarrow> web_set \<Rightarrow> db \<Rightarrow> (submission \<times> db) res" where
  "update_one e i p u d =
     (if rowcount p (web_submissions d) \<noteq> 1 then Inl e
      else let d' = update_web p u d in
        bindE (of_option (TypeError ''dict(None)'') (get_web_submission i d')) (\<lambda>r. Inr (r, d')))"

section \<open>Enqueue\<close>

record submit_request =
  q_tid :: string
  q_uid :: int
  q_problem :: string
  q_source :: string
  q_client_nonce :: string
  q_submission_id :: string
  q_submission_session :: string
  q_judge_pid :: string
  q_judge_lang :: string
  q_judge_source :: string
  q_issues :: "string list"
  q_accepted_at_ms :: int
  q_allow_new :: bool

definition issues_json :: "submit_request \<Rightarrow> string" where
  "issues_json q = dumps (JArr (map JStr (q_issues q)))"

text \<open>The row an \<open>INSERT\<close> of the request makes; the columns not named take their defaults.\<close>

definition new_row :: "(string \<Rightarrow> string) \<Rightarrow> string \<Rightarrow> int \<Rightarrow> submit_request \<Rightarrow> submission" where
  "new_row H dt i q = \<lparr>w_id = i, w_tid = q_tid q, w_uid = q_uid q, w_problem = q_problem q,
     w_source = q_source q, w_sha256 = H (utf8 (q_source q)), w_size = int (length (utf8 (q_source q))),
     w_client_nonce = q_client_nonce q, w_submission_id = q_submission_id q,
     w_submission_session = q_submission_session q, w_judge_pid = q_judge_pid q,
     w_judge_lang = q_judge_lang q, w_judge_source = q_judge_source q,
     w_judge_sha256 = H (utf8 (q_judge_source q)), w_judge_issues = issues_json q,
     w_judge_state = Pending, w_judge_kind = Realtime, w_accepted_at_ms = q_accepted_at_ms q,
     w_rid = [], w_attempts = 0, w_next_retry_at = 0, w_lease_until = 0, w_lease_token = [],
     w_last_error = [], w_resolution_attempts = 0, w_resolution_after = 0, w_delivered_at = [],
     w_created_at = dt\<rparr>"

text \<open>The loop over \<open>immutable\<close>: every column of the stored row equals the request's.\<close>

definition same_payload :: "(string \<Rightarrow> string) \<Rightarrow> submit_request \<Rightarrow> submission \<Rightarrow> bool" where
  "same_payload H q r \<longleftrightarrow> w_tid r = q_tid q \<and> w_uid r = q_uid q \<and> w_problem r = q_problem q
     \<and> w_source r = q_source q \<and> w_sha256 r = H (utf8 (q_source q))
     \<and> w_size r = int (length (utf8 (q_source q))) \<and> w_client_nonce r = q_client_nonce q
     \<and> w_submission_id r = q_submission_id q \<and> w_submission_session r = q_submission_session q
     \<and> w_judge_pid r = q_judge_pid q \<and> w_judge_lang r = q_judge_lang q
     \<and> w_judge_source r = q_judge_source q \<and> w_judge_sha256 r = H (utf8 (q_judge_source q))
     \<and> w_judge_issues r = issues_json q"

definition checked_replay ::
  "(string \<Rightarrow> string) \<Rightarrow> submit_request \<Rightarrow> submission \<Rightarrow> db \<Rightarrow> ((submission \<times> bool) \<times> db) res" where
  "checked_replay H q r d =
     (if \<not> same_payload H q r
      then Inl (SubmissionConflictError ''nonce or idempotency id reused with different payload'')
      else Inr ((r, True), d))"

definition request_error :: "submit_request \<Rightarrow> exn option" where
  "request_error q =
     (if q_client_nonce q = [] \<or> length (q_client_nonce q) > 200 then Some (ValueError ''client_nonce'')
      else if \<not> re_exact is_hex 64 (q_submission_id q) then Some (ValueError ''submission_id'')
      else if q_submission_session q = [] \<or> q_judge_pid q = [] \<or> q_judge_lang q = []
      then Some (ValueError ''submission_session, judge_pid, and judge_lang are required'')
      else if q_judge_source q = [] then Some (ValueError ''judge_source is required'')
      else if q_accepted_at_ms q \<le> 0 then Some (ValueError ''accepted_at_ms'')
      else None)"

text \<open>Whether a contest row accepts a new submission received at \<open>accepted\<close>.\<close>

definition window_error :: "contest \<Rightarrow> int \<Rightarrow> exn option" where
  "window_error c accepted =
     (if c_state c \<noteq> Ready then Some (SubmissionClosedError ''contest stopped accepting'')
      else if c_begin_at_ms c \<noteq> 0 \<and> c_end_at_ms c \<noteq> 0
         \<and> (c_hydro_rule c \<noteq> ''oi'' \<or> \<not> (c_begin_at_ms c \<le> accepted \<and> accepted < c_end_at_ms c))
      then Some (SubmissionClosedError ''outside the frozen OI contest window'')
      else None)"

definition enqueue_web_submission ::
  "(string \<Rightarrow> string) \<Rightarrow> string \<Rightarrow> submit_request \<Rightarrow> db \<Rightarrow> ((submission \<times> bool) \<times> db) res" where
  "enqueue_web_submission H dt q d =
     (case request_error q of Some e \<Rightarrow> Inl e | None \<Rightarrow>
      (case get_contest (q_tid q) d of None \<Rightarrow> Inl (KeyError ''contest'') | Some c \<Rightarrow>
       if c_submission_session c \<noteq> q_submission_session q
       then Inl (SubmissionConflictError ''contest submission session changed'') else
       (case c_pids c of None \<Rightarrow> Inl (ValueError ''contest problem mapping is invalid'')
        | Some pid_map \<Rightarrow>
         if (case map_of pid_map (q_problem q) of None \<Rightarrow> [] | Some v \<Rightarrow> v) \<noteq> q_judge_pid q
         then Inl (SubmissionConflictError ''contest problem mapping changed'') else
         (case get_web_submission_by_nonce (q_tid q) (q_uid q) (q_problem q) (q_client_nonce q) d of
            Some r \<Rightarrow> checked_replay H q r d
          | None \<Rightarrow>
            (case find (\<lambda>r. w_submission_id r = q_submission_id q) (web_submissions d) of
               Some r \<Rightarrow> checked_replay H q r d
             | None \<Rightarrow>
               if \<not> q_allow_new q then Inl (SubmissionClosedError ''outside the contest window'')
               else (case window_error c (q_accepted_at_ms q) of
                   Some e \<Rightarrow> Inl e
                 | None \<Rightarrow>
                     let i = web_seq d + 1; r = new_row H dt i q
                     in Inr ((r, False), d\<lparr>web_submissions := web_submissions d @ [r],
                                            web_seq := i\<rparr>)))))))"

text \<open>The legacy local-only row.\<close>

definition local_row ::
  "(string \<Rightarrow> string) \<Rightarrow> string \<Rightarrow> int \<Rightarrow> string \<Rightarrow> int \<Rightarrow> string \<Rightarrow> string \<Rightarrow> submission" where
  "local_row H dt i tid u prob src = \<lparr>w_id = i, w_tid = tid, w_uid = u, w_problem = prob,
     w_source = src, w_sha256 = H (utf8 src), w_size = int (length (utf8 src)),
     w_client_nonce = [], w_submission_id = [], w_submission_session = [], w_judge_pid = [],
     w_judge_lang = [], w_judge_source = [], w_judge_sha256 = [], w_judge_issues = ''[]'',
     w_judge_state = Local, w_judge_kind = Realtime, w_accepted_at_ms = 0,
     w_rid = [], w_attempts = 0, w_next_retry_at = 0, w_lease_until = 0, w_lease_token = [],
     w_last_error = [], w_resolution_attempts = 0, w_resolution_after = 0, w_delivered_at = [],
     w_created_at = dt\<rparr>"

definition add_web_submission ::
  "(string \<Rightarrow> string) \<Rightarrow> string \<Rightarrow> string \<Rightarrow> int \<Rightarrow> string \<Rightarrow> string \<Rightarrow> db \<Rightarrow> submission \<times> db" where
  "add_web_submission H dt tid u prob src d =
     (let i = web_seq d + 1; r = local_row H dt i tid u prob src
      in (r, d\<lparr>web_submissions := web_submissions d @ [r], web_seq := i\<rparr>))"

section \<open>Claim\<close>

definition unfinished :: "judge_state \<Rightarrow> bool" where
  "unfinished s \<longleftrightarrow> s \<in> {Pending, Retry, Sending, Ambiguous}"

definition due :: "rat \<Rightarrow> submission \<Rightarrow> bool" where
  "due now r \<longleftrightarrow> (w_judge_state r \<in> {Pending, Retry} \<and> w_next_retry_at r \<le> now)
     \<or> (w_judge_state r = Sending \<and> w_lease_until r \<le> now)"

definition older_unfinished :: "submission list \<Rightarrow> submission \<Rightarrow> bool" where
  "older_unfinished rows q = list_ex (\<lambda>o'. lane o' = lane q \<and> w_id o' < w_id q
     \<and> unfinished (w_judge_state o')) rows"

definition filter_ok :: "'a option \<Rightarrow> 'a \<Rightarrow> bool" where
  "filter_ok f x = (case f of None \<Rightarrow> True | Some y \<Rightarrow> x = y)"

definition claimable ::
  "rat \<Rightarrow> string option \<Rightarrow> int option \<Rightarrow> string option \<Rightarrow> db \<Rightarrow> submission option" where
  "claimable now tid u prob d = first_by_id (filter (\<lambda>r. due now r \<and> filter_ok tid (w_tid r)
       \<and> filter_ok u (w_uid r) \<and> filter_ok prob (w_problem r)
       \<and> \<not> older_unfinished (web_submissions d) r) (web_submissions d))"

definition claim_next_web_submission ::
  "string \<Rightarrow> rat \<Rightarrow> rat \<Rightarrow> string option \<Rightarrow> int option \<Rightarrow> string option \<Rightarrow> db
     \<Rightarrow> (submission option \<times> db) res" where
  "claim_next_web_submission tok now lease_seconds tid u prob d =
     (if lease_seconds \<le> 0 then Inl (ValueError ''lease_seconds must be positive'') else
      case claimable now tid u prob d of
        None \<Rightarrow> Inr (None, d)
      | Some r \<Rightarrow>
          let d' = update_web (\<lambda>x. w_id x = w_id r)
                (SetSending (now + lease_seconds) tok) d
          in Inr (get_web_submission (w_id r) d', d'))"

definition ambiguous_web_submission_blocker :: "int \<Rightarrow> db \<Rightarrow> int option" where
  "ambiguous_web_submission_blocker i d =
     (case get_web_submission i d of None \<Rightarrow> None
      | Some t \<Rightarrow> map_option w_id (first_by_id (filter (\<lambda>o'. lane o' = lane t \<and> w_id o' \<le> w_id t
           \<and> w_judge_state o' = Ambiguous) (web_submissions d))))"

section \<open>Completion\<close>

definition leased :: "int \<Rightarrow> string \<Rightarrow> submission \<Rightarrow> bool" where
  "leased i tok r \<longleftrightarrow> w_id r = i \<and> w_judge_state r = Sending \<and> w_lease_token r = tok"

definition mark_web_submission_submitted ::
  "int \<Rightarrow> string \<Rightarrow> string \<Rightarrow> rat \<Rightarrow> db \<Rightarrow> (submission \<times> db) res" where
  "mark_web_submission_submitted i tok rid now d =
     (if rid = [] then Inl (ValueError ''rid is required'') else
      update_one (SubmissionLeaseLostError ''submission delivery lease was lost'') i (leased i tok)
        (SetSubmitted rid (iso_utc now)) d)"

definition failed_state :: "bool \<Rightarrow> rat option \<Rightarrow> judge_state" where
  "failed_state ambiguous retry_at =
     (if ambiguous then Ambiguous else if retry_at = None then PermanentFailed else Retry)"

definition mark_web_submission_failed ::
  "int \<Rightarrow> string \<Rightarrow> string \<Rightarrow> rat option \<Rightarrow> bool \<Rightarrow> rat option \<Rightarrow> db \<Rightarrow> (submission \<times> db) res" where
  "mark_web_submission_failed i tok err retry_at ambiguous resolution_after d =
     (if ambiguous \<and> retry_at \<noteq> None
      then Inl (ValueError ''an ambiguous submission cannot be scheduled for retry'')
      else if resolution_after \<noteq> None \<and> \<not> ambiguous
      then Inl (ValueError ''only ambiguous submissions have a resolution schedule'')
      else update_one (SubmissionLeaseLostError ''submission delivery lease was lost'') i (leased i tok)
        (SetFailed (failed_state ambiguous retry_at) (case retry_at of None \<Rightarrow> 0 | Some t \<Rightarrow> t)
           (take 4000 err) (case resolution_after of None \<Rightarrow> 0 | Some t \<Rightarrow> t)) d)"

section \<open>Ambiguous rows\<close>

definition due_resolution :: "rat \<Rightarrow> submission \<Rightarrow> bool" where
  "due_resolution now r \<longleftrightarrow> w_judge_state r = Ambiguous \<and> 0 < w_resolution_after r
     \<and> w_resolution_after r \<le> now"

definition claim_ambiguous_web_submission ::
  "rat \<Rightarrow> rat \<Rightarrow> db \<Rightarrow> (submission option \<times> db) res" where
  "claim_ambiguous_web_submission now check_seconds d =
     (if check_seconds \<le> 0 then Inl (ValueError ''check_seconds must be positive'') else
      case first_by_id (filter (due_resolution now) (web_submissions d)) of
        None \<Rightarrow> Inr (None, d)
      | Some r \<Rightarrow>
          let p = (\<lambda>x. w_id x = w_id r \<and> due_resolution now x);
              d' = update_web p (SetChecked (now + check_seconds)) d
          in if rowcount p (web_submissions d) \<noteq> 1 then Inr (None, d')
             else Inr (get_web_submission (w_id r) d', d'))"

text \<open>The statuses a resolution may report, in the order of \<^verbatim>\<open>allowed\<close>.\<close>

definition resolution_statuses :: "string list" where
  "resolution_statuses = [''missing'', ''multiple'', ''pending'', ''unknown'', ''unsupported'',
     ''unavailable'']"

definition finish_ambiguous_web_submission ::
  "int \<Rightarrow> string \<Rightarrow> string option \<Rightarrow> string \<Rightarrow> rat \<Rightarrow> db \<Rightarrow> (submission \<times> db) res" where
  "finish_ambiguous_web_submission i sid rid status now d =
     (let p = (\<lambda>r. w_id r = i \<and> w_submission_id r = sid \<and> w_judge_state r = Ambiguous);
          lost = SubmissionLeaseLostError ''ambiguous submission state changed''
      in case rid of
        Some text \<Rightarrow>
          (let rid_text = map lower_char text in
           if \<not> re_exact is_hex 24 rid_text then Inl (ValueError ''resolved rid'') else
           update_one lost i p
             (SetResolved rid_text (iso_utc now)) d)
      | None \<Rightarrow>
          (if status \<notin> set resolution_statuses
           then Inl (ValueError ''invalid ambiguous resolution status'') else
           update_one lost i p
             (SetStatus (''OJ read-only check: '' @ status)
                (if status \<in> {''missing'', ''multiple'', ''unknown'', ''unsupported''} then - 1
                 else now + 30)) d))"

section \<open>Requeue for the final collection\<close>

definition requeued :: "submission \<Rightarrow> submission \<Rightarrow> bool" where
  "requeued t r \<longleftrightarrow> lane r = lane t \<and> w_id r \<le> w_id t
     \<and> w_judge_state r \<in> {Pending, Retry, Sending, PermanentFailed} \<and> w_submission_id r \<noteq> []"

definition requeue_web_submission_for_final :: "int \<Rightarrow> db \<Rightarrow> (submission \<times> db) res" where
  "requeue_web_submission_for_final i d =
     (case get_web_submission i d of
        None \<Rightarrow> Inl (KeyError ''web submission does not exist'')
      | Some t \<Rightarrow>
          if w_submission_id t = [] \<or> w_judge_state t = Local
          then Inl (ValueError ''legacy local-only submission has no Hydro payload'')
          else if w_judge_state t = Submitted \<and> w_rid t \<noteq> [] then Inr (t, d)
          else if w_judge_state t = Ambiguous then Inr (t, d)
          else
            let d' = update_web (requeued t) SetFinal d
            in bindE (of_option (TypeError ''dict(None)'') (get_web_submission i d'))
                 (\<lambda>r. Inr (r, d')))"

section \<open>Queries\<close>

definition latest_web_submissions :: "string \<Rightarrow> int \<Rightarrow> db \<Rightarrow> (string \<times> submission) list" where
  "latest_web_submissions tid u d =
     (let mine = filter (\<lambda>r. w_tid r = tid \<and> w_uid r = u) (web_submissions d);
          newest = filter (\<lambda>r. \<not> list_ex (\<lambda>x. w_problem x = w_problem r \<and> w_id r < w_id x) mine) mine
      in map (\<lambda>r. (w_problem r, r)) (sort_key w_problem newest))"

definition web_submission_count :: "string \<Rightarrow> string option \<Rightarrow> db \<Rightarrow> int" where
  "web_submission_count tid session d =
     int (rowcount (\<lambda>r. w_tid r = tid \<and> filter_ok session (w_submission_session r))
       (web_submissions d))"

definition health_states :: "judge_state list" where
  "health_states = [Pending, Sending, Retry, PermanentFailed, Ambiguous, Submitted]"

definition waiting_states :: "judge_state list" where
  "waiting_states = [Pending, Sending, Retry, PermanentFailed, Ambiguous]"

definition delivery_counts :: "submission list \<Rightarrow> (judge_state \<times> int) list" where
  "delivery_counts rows =
     (let tracked = filter (\<lambda>r. w_submission_id r \<noteq> []) rows
      in map (\<lambda>s. (s, int (rowcount (\<lambda>r. w_judge_state r = s) tracked))) (health_states
           @ (if list_ex (\<lambda>r. w_judge_state r = Local) tracked then [Local] else [])))"

definition realtime_queue_health :: "int \<Rightarrow> db \<Rightarrow> (judge_state \<times> int) list \<times> int" where
  "realtime_queue_health now_ms d =
     (let tracked = filter (\<lambda>r. w_submission_id r \<noteq> []) (web_submissions d);
          oldest = (\<lambda>s. case map w_accepted_at_ms (filter (\<lambda>r. w_judge_state r = s) tracked) of
                          [] \<Rightarrow> 0 | a # as \<Rightarrow> foldl min a as)
      in (delivery_counts (web_submissions d),
          foldl (\<lambda>acc s. if oldest s > 0 then max acc (max 0 (now_ms - oldest s)) else acc) 0
            waiting_states))"

definition contest_delivery_health ::
  "string \<Rightarrow> db \<Rightarrow> (judge_state \<times> int) list \<times> int \<times> bool" where
  "contest_delivery_health tid d =
     (let counts = delivery_counts (filter (\<lambda>r. w_tid r = tid) (web_submissions d));
          unfinished_count = sum_list (map (\<lambda>s. case map_of counts s of None \<Rightarrow> 0 | Some n \<Rightarrow> n)
                               waiting_states)
      in (counts, unfinished_count, unfinished_count = 0))"

text \<open>Preparing a contest starts a fresh run.\<close>

definition reset_seats :: "string \<Rightarrow> db \<Rightarrow> db" where
  "reset_seats tid d = d\<lparr>bound_seats := sql_delete (\<lambda>b. b_tid b = tid) (bound_seats d),
     web_submissions := sql_delete (\<lambda>r. w_tid r = tid) (web_submissions d)\<rparr>"

end
