(* ===== verification/OutboxInv.thy ===== *)
theory OutboxInv
  imports Outbox
begin

text \<open>
  The outbox as a machine. The operations of the web server, the delivery worker, the resolver and
  the final collection interleave in any order; \<open>OtherTables\<close> stands for any change the other
  operations of the service make to the contests table in between. The invariant \<open>web_wf\<close> is kept by
  all of them and rows only move forward in \<open>web_le\<close>.
\<close>

section \<open>The operations as one machine\<close>

datatype web_op =
    Enqueue string submit_request
  | AddLocal string string int string string
  | Claim string rat rat "string option" "int option" "string option"
  | MarkSubmitted int string string rat
  | MarkFailed int string string "rat option" bool "rat option"
  | ClaimAmbiguous rat rat
  | FinishAmbiguous int string "string option" string rat
  | Requeue int
  | OtherTables "contest list"

fun web_step :: "(string \<Rightarrow> string) \<Rightarrow> web_op \<Rightarrow> db \<Rightarrow> db res" where
  "web_step H (Enqueue dt q) d = bindE (enqueue_web_submission H dt q d) (Inr \<circ> snd)"
| "web_step H (AddLocal dt tid u prob src) d = Inr (snd (add_web_submission H dt tid u prob src d))"
| "web_step H (Claim tok now secs tid u prob) d =
     bindE (claim_next_web_submission tok now secs tid u prob d) (Inr \<circ> snd)"
| "web_step H (MarkSubmitted i tok rid now) d =
     bindE (mark_web_submission_submitted i tok rid now d) (Inr \<circ> snd)"
| "web_step H (MarkFailed i tok err retry amb after) d =
     bindE (mark_web_submission_failed i tok err retry amb after d) (Inr \<circ> snd)"
| "web_step H (ClaimAmbiguous now secs) d =
     bindE (claim_ambiguous_web_submission now secs d) (Inr \<circ> snd)"
| "web_step H (FinishAmbiguous i sid rid status now) d =
     bindE (finish_ambiguous_web_submission i sid rid status now d) (Inr \<circ> snd)"
| "web_step H (Requeue i) d = bindE (requeue_web_submission_for_final i d) (Inr \<circ> snd)"
| "web_step H (OtherTables cs) d = Inr (d\<lparr>contests := cs\<rparr>)"

section \<open>The invariant\<close>

definition row_ok :: "submission \<Rightarrow> bool" where
  "row_ok r \<longleftrightarrow> (w_judge_state r = Local \<longleftrightarrow> w_submission_id r = [])
     \<and> (w_client_nonce r = [] \<longleftrightarrow> w_submission_id r = [])
     \<and> (w_submission_id r \<noteq> [] \<longrightarrow> re_exact is_hex 64 (w_submission_id r))
     \<and> (w_judge_state r = Submitted \<longleftrightarrow> w_rid r \<noteq> [])
     \<and> (w_judge_state r \<noteq> Sending \<longrightarrow> w_lease_token r = [])
     \<and> (w_judge_state r = Ambiguous \<longrightarrow> 0 < w_attempts r)
     \<and> (w_attempts r = 0 \<longrightarrow> w_judge_state r \<in> {Local, Pending})
     \<and> 0 \<le> w_attempts r"

definition nonce_key :: "submission \<Rightarrow> (string \<times> int \<times> string) \<times> string" where
  "nonce_key r = (lane r, w_client_nonce r)"

definition remote :: "submission list \<Rightarrow> submission list" where
  "remote rows = filter (\<lambda>r. w_submission_id r \<noteq> []) rows"

definition web_wf :: "db \<Rightarrow> bool" where
  "web_wf d \<longleftrightarrow> sorted_wrt (<) (map w_id (web_submissions d))
     \<and> (\<forall>r \<in> set (web_submissions d). 0 < w_id r \<and> w_id r \<le> web_seq d \<and> row_ok r)
     \<and> distinct (map nonce_key (remote (web_submissions d)))
     \<and> distinct (map w_submission_id (remote (web_submissions d)))
     \<and> 0 \<le> web_seq d"

lemma web_wf_empty: "web_wf empty_db"
  by (simp add: web_wf_def empty_db_def remote_def)

section \<open>The keyed table of submissions\<close>

interpretation web: keyed_table w_id set_web
proof unfold_locales
  fix u r show "w_id (set_web u r) = w_id r" by (cases u) simp_all
qed

lemma set_web_payload [simp]:
  "w_tid (set_web u r) = w_tid r
   \<and> w_uid (set_web u r) = w_uid r
   \<and> w_problem (set_web u r) = w_problem r
   \<and> w_source (set_web u r) = w_source r
   \<and> w_sha256 (set_web u r) = w_sha256 r
   \<and> w_size (set_web u r) = w_size r
   \<and> w_client_nonce (set_web u r) = w_client_nonce r
   \<and> w_submission_id (set_web u r) = w_submission_id r
   \<and> w_submission_session (set_web u r) = w_submission_session r
   \<and> w_judge_pid (set_web u r) = w_judge_pid r
   \<and> w_judge_lang (set_web u r) = w_judge_lang r
   \<and> w_judge_source (set_web u r) = w_judge_source r
   \<and> w_judge_sha256 (set_web u r) = w_judge_sha256 r
   \<and> w_judge_issues (set_web u r) = w_judge_issues r
   \<and> w_accepted_at_ms (set_web u r) = w_accepted_at_ms r
   \<and> w_created_at (set_web u r) = w_created_at r
   \<and> w_id (set_web u r) = w_id r"
  by (cases u) simp_all

lemma set_web_lane [simp]: "lane (set_web u r) = lane r" "nonce_key (set_web u r) = nonce_key r"
  by (simp_all add: lane_def nonce_key_def)

lemma web_wf_distinct: "web_wf d \<Longrightarrow> distinct (map w_id (web_submissions d))"
  by (simp add: web_wf_def strict_sorted_iff)

lemma web_wf_row: "web_wf d \<Longrightarrow> r \<in> set (web_submissions d) \<Longrightarrow> row_ok r"
  by (simp add: web_wf_def)

lemma get_web_mem:
  "web_wf d \<Longrightarrow> get_web_submission i d = Some r \<longleftrightarrow> r \<in> set (web_submissions d) \<and> w_id r = i"
  unfolding get_web_submission_def
  by (auto dest: find_Some_iff_mem web_wf_distinct intro: find_distinct_key)

lemma web_id_inj:
  "web_wf d \<Longrightarrow> r \<in> set (web_submissions d) \<Longrightarrow> x \<in> set (web_submissions d) \<Longrightarrow> w_id x = w_id r
     \<Longrightarrow> x = r"
  by (drule web_wf_distinct) (auto simp: distinct_map dest: inj_onD)

lemma web_update_simps [simp]:
  "web_submissions (update_web p u d) = sql_update p (set_web u) (web_submissions d)"
  "web_seq (update_web p u d) = web_seq d" "contests (update_web p u d) = contests d"
  by (simp_all add: update_web_def)

lemma filter_sql_update:
  "(\<And>r. q (f r) = q r) \<Longrightarrow> filter q (sql_update p f rs) = sql_update p f (filter q rs)"
  by (induction rs) auto

lemma web_wf_update:
  assumes "web_wf d" and "\<And>r. r \<in> set (web_submissions d) \<Longrightarrow> p r \<Longrightarrow> row_ok (set_web u r)"
  shows "web_wf (update_web p u d)"
proof -
  have "remote (web_submissions (update_web p u d)) = sql_update p (set_web u) (remote (web_submissions d))"
    by (simp add: remote_def filter_sql_update)
  moreover have "map w_id (web_submissions (update_web p u d)) = map w_id (web_submissions d)"
    by (simp add: web.keys_update)
  moreover have "map nonce_key (sql_update p (set_web u) rs) = map nonce_key rs"
    "map w_submission_id (sql_update p (set_web u) rs) = map w_submission_id rs" for rs
    by (simp_all add: map_sql_update)
  ultimately show ?thesis
    using assms by (auto simp: web_wf_def set_sql_update)
qed

lemma web_wf_append:
  assumes "web_wf d" and "w_id r = web_seq d + 1" and "row_ok r"
    and "w_submission_id r \<noteq> [] \<Longrightarrow>
      \<forall>x \<in> set (web_submissions d). nonce_key x \<noteq> nonce_key r \<and> w_submission_id x \<noteq> w_submission_id r"
  shows "web_wf (d\<lparr>web_submissions := web_submissions d @ [r], web_seq := web_seq d + 1\<rparr>)"
  using assms by (fastforce simp: web_wf_def sorted_wrt_append remote_def)

section \<open>What a successful operation does to the table\<close>

text \<open>The states in which each \<open>SET\<close> clause is applied.\<close>

fun change_ok :: "web_set \<Rightarrow> submission \<Rightarrow> bool" where
  "change_ok (SetSending until tok) r \<longleftrightarrow> w_judge_state r \<in> {Pending, Retry, Sending}"
| "change_ok (SetSubmitted rid delivered) r \<longleftrightarrow> w_judge_state r = Sending \<and> rid \<noteq> []"
| "change_ok (SetFailed state next_retry err next_resolution) r \<longleftrightarrow>
     w_judge_state r = Sending \<and> state \<in> {Ambiguous, PermanentFailed, Retry}"
| "change_ok (SetChecked next_check) r \<longleftrightarrow> w_judge_state r = Ambiguous"
| "change_ok (SetResolved rid delivered) r \<longleftrightarrow> w_judge_state r = Ambiguous \<and> rid \<noteq> []"
| "change_ok (SetStatus err next_check) r \<longleftrightarrow> w_judge_state r = Ambiguous"
| "change_ok SetFinal r \<longleftrightarrow> w_judge_state r \<in> {Pending, Retry, Sending, PermanentFailed}
     \<and> w_submission_id r \<noteq> []"

lemma change_row_ok: "row_ok r \<Longrightarrow> change_ok u r \<Longrightarrow> row_ok (set_web u r)"
  by (cases u) (auto simp: row_ok_def)

definition fresh_row :: "submission \<Rightarrow> db \<Rightarrow> bool" where
  "fresh_row r d \<longleftrightarrow> w_id r = web_seq d + 1 \<and> row_ok r \<and> w_attempts r = 0
     \<and> (w_submission_id r \<noteq> [] \<longrightarrow> (\<forall>x \<in> set (web_submissions d).
          nonce_key x \<noteq> nonce_key r \<and> w_submission_id x \<noteq> w_submission_id r))"

text \<open>Updates other than a claim and a requeue.\<close>

fun keeps_order :: "web_set \<Rightarrow> bool" where
  "keeps_order (SetSending until tok) \<longleftrightarrow> False"
| "keeps_order SetFinal \<longleftrightarrow> False"
| "keeps_order u \<longleftrightarrow> True"

fun is_requeue :: "web_op \<Rightarrow> bool" where
  "is_requeue (Requeue i) \<longleftrightarrow> True"
| "is_requeue c \<longleftrightarrow> False"

fun claim_token :: "web_op \<Rightarrow> string option" where
  "claim_token (Claim tok now secs tid u prob) = Some tok"
| "claim_token c = None"

text \<open>\<open>web_change k d d'\<close>: what the operation \<open>k\<close> may do to the tables.\<close>

inductive web_change :: "web_op \<Rightarrow> db \<Rightarrow> db \<Rightarrow> bool" for k :: web_op where
  web_same: "web_change k d d"
| web_others: "web_change k d (d\<lparr>contests := cs\<rparr>)"
| web_set: "(\<And>r. r \<in> set (web_submissions d) \<Longrightarrow> p r \<Longrightarrow> change_ok u r) \<Longrightarrow> keeps_order u
    \<Longrightarrow> web_change k d (update_web p u d)"
| web_claim: "claimable now tid u prob d = Some r \<Longrightarrow> claim_token k = Some tok
    \<Longrightarrow> web_change k d (update_web (\<lambda>x. w_id x = w_id r) (SetSending until tok) d)"
| web_requeue: "(\<And>r. r \<in> set (web_submissions d) \<Longrightarrow> p r \<Longrightarrow> change_ok SetFinal r) \<Longrightarrow> is_requeue k
    \<Longrightarrow> web_change k d (update_web p SetFinal d)"
| web_insert: "fresh_row r d
    \<Longrightarrow> web_change k d (d\<lparr>web_submissions := web_submissions d @ [r], web_seq := web_seq d + 1\<rparr>)"

lemma first_by_id_mem: "first_by_id rows = Some r \<Longrightarrow> r \<in> set rows"
  by (auto simp: first_by_id_def split: list.splits) (metis list.set_intros(1) set_sort)

lemma first_by_id_least: "first_by_id rows = Some r \<Longrightarrow> x \<in> set rows \<Longrightarrow> w_id r \<le> w_id x"
  by (auto simp: first_by_id_def split: list.splits)
    (metis order_refl set_ConsD set_sort sorted_simps(2) sorted_sort_key list.set_map image_eqI list.simps(9))

lemma first_by_id_None: "first_by_id rows = None \<longleftrightarrow> rows = []"
  by (auto simp: first_by_id_def split: list.splits) (metis set_sort set_empty list.set(1))

lemma claimable_mem:
  "claimable now tid u prob d = Some r \<Longrightarrow> r \<in> set (web_submissions d) \<and> due now r
     \<and> filter_ok tid (w_tid r) \<and> filter_ok u (w_uid r) \<and> filter_ok prob (w_problem r)
     \<and> \<not> older_unfinished (web_submissions d) r"
  by (drule first_by_id_mem [OF trans [OF claimable_def [symmetric]]]) simp

lemma due_state: "due now r \<Longrightarrow> w_judge_state r \<in> {Pending, Retry, Sending}"
  by (auto simp: due_def)

lemma claim_change_ok:
  assumes "web_wf d" and "claimable now tid u prob d = Some r"
    and "x \<in> set (web_submissions d)" and "w_id x = w_id r"
  shows "change_ok (SetSending until tok) x"
proof -
  note r = claimable_mem [OF assms(2)]
  have "x = r" using web_id_inj [OF assms(1) _ assms(3,4)] r by blast
  then show ?thesis using r due_state [of now r] by simp
qed

lemma web_change_wf: "web_change k d d' \<Longrightarrow> web_wf d \<Longrightarrow> web_wf d'"
proof (induction rule: web_change.induct)
  case (web_set d p u)
  then show ?case by (auto intro: web_wf_update change_row_ok web_wf_row)
next
  case (web_claim now tid u prob d r until tok)
  then show ?case
    by (intro web_wf_update change_row_ok) (auto intro: claim_change_ok web_wf_row simp del: change_ok.simps)
next
  case (web_requeue d p)
  then show ?case
    by (intro web_wf_update change_row_ok) (auto intro: web_wf_row)
next
  case (web_insert r d)
  then show ?case by (auto simp: fresh_row_def intro: web_wf_append)
qed (simp_all add: web_wf_def)

lemma update_one_eq:
  assumes "web_wf d" and "\<And>x. p x \<Longrightarrow> w_id x = i"
  shows "update_one e i p u d = (case get_web_submission i d of
      None \<Rightarrow> Inl e
    | Some r \<Rightarrow> if p r then Inr (set_web u r, update_web (\<lambda>x. w_id x = i) u d) else Inl e)"
proof -
  note dist = web_wf_distinct [OF assms(1)]
  have n: "rowcount p (web_submissions d)
      = (case get_web_submission i d of None \<Rightarrow> 0 | Some r \<Rightarrow> if p r then 1 else 0)"
    unfolding get_web_submission_def by (rule rowcount_by_key [OF dist assms(2)])
  show ?thesis
  proof (cases "get_web_submission i d")
    case None
    with n show ?thesis by (simp add: update_one_def)
  next
    case (Some r)
    show ?thesis
    proof (cases "p r")
      case True
      have "sql_update p (set_web u) (web_submissions d)
          = sql_update (\<lambda>x. w_id x = i) (set_web u) (web_submissions d)"
        by (rule web.update_guarded [where p = p, OF dist _ Some [unfolded get_web_submission_def] True])
          (rule assms(2))
      then have eq: "update_web p u d = update_web (\<lambda>x. w_id x = i) u d"
        by (simp add: update_web_def)
      have "get_web_submission i (update_web (\<lambda>x. w_id x = i) u d) = Some (set_web u r)"
        using Some by (simp add: get_web_submission_def web.lookup_update)
      with n Some True eq show ?thesis by (simp add: update_one_def Let_def)
    next
      case False
      with n Some show ?thesis by (simp add: update_one_def)
    qed
  qed
qed

lemma update_one_InrD:
  assumes "web_wf d" and "\<And>x. p x \<Longrightarrow> w_id x = i" and "update_one e i p u d = Inr (r', d')"
  obtains r where "r \<in> set (web_submissions d)" "w_id r = i" "p r" "r' = set_web u r"
    "d' = update_web (\<lambda>x. w_id x = i) u d"
  using assms(3) get_web_mem [OF assms(1)]
  by (auto simp: update_one_eq [OF assms(1,2)] split: option.splits if_splits)

lemma update_one_change:
  assumes "web_wf d" and "\<And>x. p x \<Longrightarrow> w_id x = i" and "update_one e i p u d = Inr (r', d')"
    and "\<And>x. p x \<Longrightarrow> change_ok u x" and "keeps_order u"
  shows "web_change k d d'"
proof -
  obtain r where r: "r \<in> set (web_submissions d)" "w_id r = i" "p r"
    "d' = update_web (\<lambda>x. w_id x = i) u d"
    by (rule update_one_InrD [OF assms(1,2,3)]) auto
  have "x = r" if "x \<in> set (web_submissions d)" "w_id x = i" for x
    using web_id_inj [OF assms(1) r(1) that(1)] that(2) r(2) by simp
  then show ?thesis
    unfolding r(4) using assms(4) [OF r(3)] by (intro web_set assms(5)) blast
qed

lemma claim_eq:
  assumes "web_wf d" and "0 < secs"
  shows "claim_next_web_submission tok now secs tid u prob d = (case claimable now tid u prob d of
      None \<Rightarrow> Inr (None, d)
    | Some r \<Rightarrow> Inr (Some (set_web (SetSending (now + secs) tok) r),
                    update_web (\<lambda>x. w_id x = w_id r) (SetSending (now + secs) tok) d))"
  using assms claimable_mem [of now tid u prob d] get_web_mem [OF assms(1)]
  by (auto simp: claim_next_web_submission_def Let_def get_web_submission_def web.lookup_update
      split: option.split)

lemma claim_change:
  assumes "web_wf d" and "claim_next_web_submission tok now secs tid u prob d = Inr (x, d')"
    and "claim_token k = Some tok"
  shows "web_change k d d'"
proof -
  have "0 < secs" using assms(2) by (auto simp: claim_next_web_submission_def split: if_splits)
  show ?thesis
  proof (cases "claimable now tid u prob d")
    case None
    then show ?thesis using assms(2) by (simp add: claim_eq [OF assms(1) \<open>0 < secs\<close>] web_same)
  next
    case (Some r)
    then have d': "d' = update_web (\<lambda>x. w_id x = w_id r) (SetSending (now + secs) tok) d"
      using assms(2) by (auto simp: claim_eq [OF assms(1) \<open>0 < secs\<close>])
    show ?thesis unfolding d' by (rule web_claim [OF Some assms(3)])
  qed
qed

lemma submitted_change:
  assumes "web_wf d" and "mark_web_submission_submitted i tok rid now d = Inr (x, d')"
  shows "web_change k d d'"
  using assms(2)
  by (auto simp: mark_web_submission_submitted_def leased_def split: if_splits
      elim!: update_one_change [OF assms(1), rotated])

lemma failed_change:
  assumes "web_wf d" and "mark_web_submission_failed i tok err retry amb after d = Inr (x, d')"
  shows "web_change k d d'"
  using assms(2)
  by (auto simp: mark_web_submission_failed_def leased_def failed_state_def split: if_splits
      elim!: update_one_change [OF assms(1), rotated])

lemma claim_ambiguous_change:
  assumes "web_wf d" and "claim_ambiguous_web_submission now secs d = Inr (x, d')"
  shows "web_change k d d'"
  using assms(2)
  by (auto simp: claim_ambiguous_web_submission_def Let_def due_resolution_def web_same
      split: if_splits option.splits intro!: web_set)

lemma finish_ambiguous_change:
  assumes "web_wf d" and "finish_ambiguous_web_submission i sid rid status now d = Inr (x, d')"
  shows "web_change k d d'"
proof (cases rid)
  case None
  with assms(2) show ?thesis
    by (auto simp: finish_ambiguous_web_submission_def split: if_splits
        elim!: update_one_change [OF assms(1), rotated])
next
  case (Some raw)
  then have "map lower_char raw \<noteq> []"
    using assms(2) by (auto simp: finish_ambiguous_web_submission_def re_exact_def split: if_splits)
  with assms(2) Some show ?thesis
    by (auto simp: finish_ambiguous_web_submission_def Let_def split: if_splits
        elim!: update_one_change [OF assms(1), rotated])
qed

lemma requeue_change:
  assumes "requeue_web_submission_for_final i d = Inr (x, d')" and "is_requeue k"
  shows "web_change k d d'"
  using assms
  by (auto simp: requeue_web_submission_for_final_def Let_def requeued_def web_same
      split: option.splits if_splits intro!: web_requeue)

lemma enqueue_cases:
  assumes "enqueue_web_submission H dt q d = Inr ((r, replayed), d')"
  obtains (replay) "replayed" "d' = d" "r \<in> set (web_submissions d)" "same_payload H q r"
  | (new) c where "\<not> replayed" "get_contest (q_tid q) d = Some c" "request_error q = None"
      "q_allow_new q" "window_error c (q_accepted_at_ms q) = None"
      "get_web_submission_by_nonce (q_tid q) (q_uid q) (q_problem q) (q_client_nonce q) d = None"
      "find (\<lambda>r. w_submission_id r = q_submission_id q) (web_submissions d) = None"
      "r = new_row H dt (web_seq d + 1) q"
      "d' = d\<lparr>web_submissions := web_submissions d @ [r], web_seq := web_seq d + 1\<rparr>"
  using assms
  by (auto simp: enqueue_web_submission_def checked_replay_def Let_def get_web_submission_by_nonce_def
      dest!: find_Some_iff_mem split: option.splits if_splits)

lemma request_ok:
  "request_error q = None \<Longrightarrow> q_client_nonce q \<noteq> [] \<and> q_submission_id q \<noteq> [] \<and> re_exact is_hex 64 (q_submission_id q)
     \<and> q_judge_pid q \<noteq> []
     \<and> q_judge_source q \<noteq> [] \<and> 0 < q_accepted_at_ms q"
  by (auto simp: request_error_def re_exact_def split: if_splits)

lemma enqueue_change:
  assumes "enqueue_web_submission H dt q d = Inr ((r, replayed), d')"
  shows "web_change k d d'"
  using assms
proof (cases rule: enqueue_cases)
  case replay
  then show ?thesis by (simp add: web_same)
next
  case (new c)
  have "fresh_row r d"
    using request_ok [OF new(3)] new(6,7)
    by (auto simp: fresh_row_def new(8) new_row_def row_ok_def nonce_key_def lane_def
        get_web_submission_by_nonce_def find_None_iff)
  then show ?thesis unfolding new(9) by (rule web_insert)
qed

lemma add_local_change: "web_change k d (snd (add_web_submission H dt tid u prob src d))"
proof -
  have "fresh_row (local_row H dt (web_seq d + 1) tid u prob src) d"
    by (simp add: fresh_row_def local_row_def row_ok_def)
  then show ?thesis by (auto simp: add_web_submission_def Let_def intro: web_insert)
qed

lemma web_step_change: "web_wf d \<Longrightarrow> web_step H c d = Inr d' \<Longrightarrow> web_change c d d'"
  by (cases c)
    (auto intro: claim_change submitted_change failed_change claim_ambiguous_change
      finish_ambiguous_change requeue_change enqueue_change add_local_change web_others)

interpretation outbox: machine "web_step H" web_wf for H
  by unfold_locales (rule web_change_wf [OF web_step_change])

end
