(* ===== verification/RealtimeJudge.thy ===== *)
theory RealtimeJudge
  imports OutboxInv
begin

text \<open>
  \<^verbatim>\<open>orchestrator/services/realtime_judge.py\<close> and \<^verbatim>\<open>hydro_submit.py\<close>: delivery of the outbox to Hydro.
  The HTTP service is a parameter \<open>post\<close> from requests to responses. Between the claim of a row and
  the report of its outcome the database is free for others: \<open>mid\<close> is what they did to it. The clock
  is read where the code reads it, so an operation takes one time per reading; the deployment runs on
  POSIX.
\<close>

section \<open>Requests and responses\<close>

record http_request =
  h_tid :: string
  h_uid :: int
  h_pid :: string
  h_code :: string
  h_submission_id :: string
  h_kind :: string
  h_lang :: "string option"
  h_accepted_at_ms :: "int option"

text \<open>
  A \<open>requests.RequestException\<close> with its text, or a status code with the decoded body, \<open>None\<close> when the
  body is not JSON, and the body text.
\<close>

datatype http_response = NoResponse string | Response int "json option" string

record submit_result =
  s_ok :: bool
  s_rid :: "string option"
  s_retryable :: bool
  s_ambiguous :: bool
  s_status_code :: "int option"
  s_error :: json

section \<open>The qualification failure marker\<close>

text \<open>\<open>os.open\<close>, \<open>os.fstat\<close> and \<open>os.read\<close> of the marker file, and its decoded content.\<close>

record marker_file =
  k_regular :: bool
  k_nlink :: int
  k_uid :: int
  k_group_other_bits :: bool
  k_size :: int
  k_raw :: string
  k_decoded :: "json option"

datatype marker_probe = NotConfigured | FileNotFound | OpenFailed string | MarkerFile marker_file

definition expected_marker :: "string \<Rightarrow> string \<Rightarrow> json" where
  "expected_marker qual_marker sid = JObj [(''schema_version'', JInt 1),
     (''qualification_marker'', JStr qual_marker), (''scenario'', JStr ''collection_retry''),
     (''submission_id'', JStr sid), (''failure'', JStr ''block_until_removed'')]"

definition qualification_failure_active :: "string \<Rightarrow> marker_probe \<Rightarrow> string \<Rightarrow> bool res" where
  "qualification_failure_active qual_marker probe sid = (case probe of
     NotConfigured \<Rightarrow> Inr False
   | FileNotFound \<Rightarrow> Inr False
   | OpenFailed m \<Rightarrow> Inl (OtherError ''OSError'' m)
   | MarkerFile f \<Rightarrow>
       if \<not> k_regular f \<or> k_nlink f \<noteq> 1 \<or> (k_uid f \<noteq> 0 \<or> k_group_other_bits f)
          \<or> \<not> (0 < k_size f \<and> k_size f \<le> 4096)
       then Inl (RuntimeError ''qualification failure marker metadata is unsafe'')
       else if int (length (k_raw f)) \<noteq> k_size f
       then Inl (RuntimeError ''qualification failure marker changed while reading'')
       else (case k_decoded f of
           None \<Rightarrow> Inl (RuntimeError ''qualification failure marker is invalid'')
         | Some m \<Rightarrow>
             if \<not> json_eq m (expected_marker qual_marker sid)
             then Inl (RuntimeError ''qualification failure marker identity differs'')
             else Inr True))"

section \<open>The idempotency ids\<close>

definition identity_json :: "string list \<Rightarrow> string \<Rightarrow> string \<Rightarrow> int \<Rightarrow> string \<Rightarrow> string list \<Rightarrow> string" where
  "identity_json tags session tid u pid tail = ''['' @ join '','' (map quote_ascii tags
     @ [quote_ascii session, quote_ascii tid, int_str u, quote_ascii pid] @ map quote_ascii tail) @ '']''"

definition submission_id :: "(string \<Rightarrow> string) \<Rightarrow> string \<Rightarrow> string \<Rightarrow> int \<Rightarrow> string \<Rightarrow> string" where
  "submission_id H session tid u pid = H (utf8 (identity_json [] session tid u pid []))"

definition realtime_submission_id ::
  "(string \<Rightarrow> string) \<Rightarrow> string \<Rightarrow> string \<Rightarrow> int \<Rightarrow> string \<Rightarrow> string \<Rightarrow> string" where
  "realtime_submission_id H session tid u pid nonce =
     H (utf8 (identity_json [''web-v1''] session tid u pid [nonce]))"

section \<open>Sending one submission\<close>

definition status_ok :: "int \<Rightarrow> bool" where
  "status_ok code \<longleftrightarrow> code < 400"

text \<open>\<open>payload.get("error").get("name")\<close> as text, empty when the body has no such dicts.\<close>

definition error_name :: "json \<Rightarrow> string" where
  "error_name payload = (case payload of
     JObj d \<Rightarrow> (case map_of d ''error'' of
         Some (JObj e) \<Rightarrow> (case map_of e ''name'' of
             Some v \<Rightarrow> if py_truthy v then py_str v else [] | None \<Rightarrow> [])
       | _ \<Rightarrow> [])
   | _ \<Rightarrow> [])"

definition rejected :: "int \<Rightarrow> json \<Rightarrow> submit_result" where
  "rejected code payload =
     (let ambiguous = (code = 409 \<and> error_name payload = ''OrchestratorSubmissionAmbiguousError'');
          retryable = (\<not> ambiguous \<and> (status_ok code \<or> code \<in> {401, 403, 408, 425, 429} \<or> code \<ge> 500))
      in \<lparr>s_ok = False, s_rid = None, s_retryable = retryable, s_ambiguous = ambiguous,
          s_status_code = Some code, s_error = payload\<rparr>)"

definition submit_one ::
  "string \<Rightarrow> string \<Rightarrow> marker_probe \<Rightarrow> (http_request \<Rightarrow> http_response) \<Rightarrow> string \<Rightarrow> int \<Rightarrow> string \<Rightarrow> string
     \<Rightarrow> string \<Rightarrow> string option \<Rightarrow> string \<Rightarrow> int option \<Rightarrow> submit_result res" where
  "submit_one dflt_lang qual_marker probe post tid u pid code sid lang kind accepted =
     (if kind \<notin> {''final'', ''realtime''} then Inl (ValueError ''submission_kind must be final or realtime'')
      else bindE (qualification_failure_active qual_marker probe sid) (\<lambda>active.
        if active then Inr \<lparr>s_ok = False, s_rid = None, s_retryable = False, s_ambiguous = False,
            s_status_code = None, s_error = JStr ''qualification collection retry failure''\<rparr>
        else let selected = (case lang of None \<Rightarrow> dflt_lang | Some l \<Rightarrow> l);
          q = \<lparr>h_tid = tid, h_uid = u, h_pid = pid, h_code = code, h_submission_id = sid, h_kind = kind,
               h_lang = (if selected \<noteq> [] then Some selected else None), h_accepted_at_ms = accepted\<rparr>
        in (case post q of
            NoResponse e \<Rightarrow> Inr \<lparr>s_ok = False, s_rid = None, s_retryable = True, s_ambiguous = False,
                s_status_code = None, s_error = JStr e\<rparr>
          | Response code body text \<Rightarrow>
              (let payload = (case body of Some p \<Rightarrow> p | None \<Rightarrow> JObj [(''text'', JStr (take 300 text))]) in
               if \<not> status_ok code then Inr (rejected code payload)
               else bindE (jget ''rid'' payload) (\<lambda>rid. case rid of
                   None \<Rightarrow> Inr (rejected code payload)
                 | Some v \<Rightarrow>
                     if py_truthy v
                     then Inr \<lparr>s_ok = True, s_rid = Some (py_str v), s_retryable = False,
                         s_ambiguous = False, s_status_code = None, s_error = JNull\<rparr>
                     else Inr (rejected code payload))))))"

record resolution =
  e_ok :: bool
  e_status :: string
  e_rid :: "string option"

definition str_field :: "string \<Rightarrow> json \<Rightarrow> string" where
  "str_field k payload = (case payload of
     JObj d \<Rightarrow> (case map_of d k of Some v \<Rightarrow> if py_truthy v then py_str v else [] | None \<Rightarrow> [])
   | _ \<Rightarrow> [])"

definition resolve_submission :: "(string \<Rightarrow> http_response) \<Rightarrow> string \<Rightarrow> resolution res" where
  "resolve_submission post_status sid =
     (if \<not> re_exact is_hex 64 sid then Inl (ValueError ''submission_id'') else
      case post_status sid of
        NoResponse e \<Rightarrow> Inr \<lparr>e_ok = False, e_status = ''unavailable'', e_rid = None\<rparr>
      | Response code body text \<Rightarrow>
          (let payload = (case body of Some p \<Rightarrow> p | None \<Rightarrow> JObj []);
               status = str_field ''status'' payload; rid = str_field ''rid'' payload
           in if status_ok code \<and> status = ''resolved'' \<and> re_exact is_hex 24 rid
              then Inr \<lparr>e_ok = True, e_status = status, e_rid = Some rid\<rparr>
              else if status_ok code
                \<and> status \<in> {''missing'', ''multiple'', ''pending'', ''unknown'', ''unsupported''}
              then Inr \<lparr>e_ok = False, e_status = status, e_rid = None\<rparr>
              else Inr \<lparr>e_ok = False, e_status = ''unavailable'', e_rid = None\<rparr>))"

section \<open>The dispatcher\<close>

record judge =
  g_lang :: string
  g_qualification_marker :: string
  g_lease_seconds :: rat
  g_retry_delays :: "rat list"

definition realtime_judge :: "string \<Rightarrow> string \<Rightarrow> rat \<Rightarrow> rat list \<Rightarrow> judge res" where
  "realtime_judge lang qual_marker lease delays =
     (if lease \<le> 0 then Inl (ValueError ''lease_seconds must be positive'')
      else if delays = [] \<or> list_ex (\<lambda>x. x < 0) delays
      then Inl (ValueError ''retry_delays must contain non-negative values'')
      else Inr \<lparr>g_lang = lang, g_qualification_marker = qual_marker, g_lease_seconds = lease,
                g_retry_delays = delays\<rparr>)"

definition default_delays :: "rat list" where
  "default_delays = [1, 2, 5, 10, 30, 60]"

text \<open>\<open>enqueue\<close>: the id of the submit action, then the transaction of the store.\<close>

definition judge_enqueue ::
  "(string \<Rightarrow> string) \<Rightarrow> string \<Rightarrow> judge \<Rightarrow> string \<Rightarrow> string \<Rightarrow> int \<Rightarrow> string \<Rightarrow> string \<Rightarrow> string \<Rightarrow> string
     \<Rightarrow> string list \<Rightarrow> string \<Rightarrow> int \<Rightarrow> bool \<Rightarrow> string option \<Rightarrow> db \<Rightarrow> ((submission \<times> bool) \<times> db) res" where
  "judge_enqueue H dt g session tid u problem pid source judge_source issues nonce accepted allow lang d =
     (let selected = (case lang of None \<Rightarrow> g_lang g | Some l \<Rightarrow> l) in
      if selected = [] then Inl (ValueError ''an explicit Hydro language is required'')
      else enqueue_web_submission H dt
        \<lparr>q_tid = tid, q_uid = u, q_problem = problem, q_source = source, q_client_nonce = nonce,
         q_submission_id = realtime_submission_id H session tid u pid nonce,
         q_submission_session = session, q_judge_pid = pid, q_judge_lang = selected,
         q_judge_source = judge_source, q_issues = issues, q_accepted_at_ms = accepted,
         q_allow_new = allow\<rparr> d)"

fun error_text :: "json \<Rightarrow> string" where
  "error_text (JStr s) = s"
| "error_text x = dumps_plain x"

definition retry_delay :: "judge \<Rightarrow> int \<Rightarrow> rat" where
  "retry_delay g attempts =
     g_retry_delays g ! nat (max 0 (min (attempts - 1) (int (length (g_retry_delays g)) - 1)))"

text \<open>The text of an unexpected exception of \<open>submit_one\<close>.\<close>

fun exn_text :: "exn \<Rightarrow> string" where
  "exn_text (ValueError m) = m"
| "exn_text (RuntimeError m) = m"
| "exn_text (AttributeError m) = m"
| "exn_text (KeyError m) = m"
| "exn_text (SubmissionLeaseLostError m) = m"
| "exn_text (OtherError c m) = m"
| "exn_text e = []"

definition unexpected :: "exn \<Rightarrow> submit_result" where
  "unexpected e = \<lparr>s_ok = False, s_rid = None, s_retryable = True, s_ambiguous = False,
     s_status_code = None, s_error = JStr (exn_text e)\<rparr>"

definition effective_kind :: "string \<Rightarrow> submission \<Rightarrow> string" where
  "effective_kind kind r =
     (if kind = ''final'' \<or> w_judge_kind r = Final then ''final'' else ''realtime'')"

definition deliver ::
  "judge \<Rightarrow> marker_probe \<Rightarrow> (http_request \<Rightarrow> http_response) \<Rightarrow> string \<Rightarrow> submission \<Rightarrow> submit_result" where
  "deliver g probe post kind r =
     (case submit_one (g_lang g) (g_qualification_marker g) probe post (w_tid r) (w_uid r)
        (w_judge_pid r) (w_judge_source r) (w_submission_id r) (Some (w_judge_lang r))
        (effective_kind kind r) (Some (w_accepted_at_ms r)) of
      Inl e \<Rightarrow> unexpected e | Inr x \<Rightarrow> x)"

text \<open>The second half of \<open>process_once\<close>: the report of an outcome at time \<open>now\<close>.\<close>

definition report_outcome ::
  "judge \<Rightarrow> rat \<Rightarrow> submission \<Rightarrow> submit_result \<Rightarrow> db \<Rightarrow> (submission \<times> db) res" where
  "report_outcome g now r x d =
     (case (s_ok x, s_rid x) of
        (True, Some rid) \<Rightarrow>
          if rid \<noteq> [] then mark_web_submission_submitted (w_id r) (w_lease_token r) rid now d
          else mark_web_submission_failed (w_id r) (w_lease_token r) (error_text (s_error x))
            (if s_retryable x then Some (now + retry_delay g (w_attempts r)) else None) (s_ambiguous x)
            (if s_ambiguous x then Some (now + 2) else None) d
      | _ \<Rightarrow> mark_web_submission_failed (w_id r) (w_lease_token r) (error_text (s_error x))
            (if s_retryable x then Some (now + retry_delay g (w_attempts r)) else None) (s_ambiguous x)
            (if s_ambiguous x then Some (now + 2) else None) d)"

text \<open>
  What the environment contributes to one attempt: the lease token drawn, the clock at the claim and
  at the report, the marker file, Hydro, and what other operations did in between.
\<close>

record attempt_env =
  x_token :: string
  x_now :: rat
  x_probe :: marker_probe
  x_post :: "http_request \<Rightarrow> http_response"
  x_mid :: "db \<Rightarrow> db"
  x_then :: rat

fun is_lease_lost :: "exn \<Rightarrow> bool" where
  "is_lease_lost (SubmissionLeaseLostError m) = True"
| "is_lease_lost e = False"

definition process_once ::
  "judge \<Rightarrow> attempt_env \<Rightarrow> string option \<Rightarrow> int option \<Rightarrow> string option \<Rightarrow> string \<Rightarrow> db
     \<Rightarrow> submission option res \<times> db" where
  "process_once g x tid u prob kind d =
     (if kind \<notin> {''final'', ''realtime''}
      then (Inl (ValueError ''submission_kind must be final or realtime''), d) else
      case claim_next_web_submission (x_token x) (x_now x) (g_lease_seconds g) tid u prob d of
        Inl e \<Rightarrow> (Inl e, d)
      | Inr (None, d1) \<Rightarrow> (Inr None, d1)
      | Inr (Some r, d1) \<Rightarrow>
          (let d2 = x_mid x d1; y = deliver g (x_probe x) (x_post x) kind r in
           case report_outcome g (x_then x) r y d2 of
             Inr (r', d3) \<Rightarrow> (Inr (Some r'), d3)
           | Inl e \<Rightarrow> if is_lease_lost e then (Inr (get_web_submission (w_id r) d2), d2)
                      else (Inl e, d2)))"

text \<open>\<open>drain\<close>: one environment per round.\<close>

fun drain :: "judge \<Rightarrow> attempt_env list \<Rightarrow> db \<Rightarrow> submission list res \<times> db" where
  "drain g [] d = (Inr [], d)"
| "drain g (x # xs) d = (case process_once g x None None None ''realtime'' d of
     (Inl e, d') \<Rightarrow> (Inl e, d')
   | (Inr None, d') \<Rightarrow> (Inr [], d')
   | (Inr (Some r), d') \<Rightarrow> (case drain g xs d' of
        (Inl e, d'') \<Rightarrow> (Inl e, d'')
      | (Inr rs, d'') \<Rightarrow> (Inr (r # rs), d'')))"

definition resolve_ambiguous_once ::
  "(string \<Rightarrow> http_response) \<Rightarrow> rat \<Rightarrow> (db \<Rightarrow> db) \<Rightarrow> rat \<Rightarrow> db \<Rightarrow> submission option res \<times> db" where
  "resolve_ambiguous_once post_status now mid now' d =
     (case claim_ambiguous_web_submission now 30 d of
        Inl e \<Rightarrow> (Inl e, d)
      | Inr (None, d1) \<Rightarrow> (Inr None, d1)
      | Inr (Some r, d1) \<Rightarrow>
          (let d2 = mid d1 in case resolve_submission post_status (w_submission_id r) of
             Inl e \<Rightarrow> (Inl e, d2)
           | Inr y \<Rightarrow>
               (let rid = (if e_ok y then (case e_rid y of Some t \<Rightarrow> if t \<noteq> [] then Some t else None
                                           | None \<Rightarrow> None) else None);
                    status = (if e_status y \<noteq> [] then e_status y else ''unavailable'')
                in case finish_ambiguous_web_submission (w_id r) (w_submission_id r) rid
                       (if rid = None then status else ''pending'') now' d2 of
                  Inl e \<Rightarrow> (Inl e, d2)
                | Inr (r', d3) \<Rightarrow> (Inr (Some r'), d3))))"

section \<open>Waiting for a record id\<close>

text \<open>
  \<open>ensure_submitted\<close>: one environment and one clock reading after the attempt per round of the loop.
  \<open>None\<close> means that the given rounds are used up and the loop still runs.
\<close>

type_synonym tick = "attempt_env \<times> rat"

fun row_verdict :: "submission \<Rightarrow> db \<Rightarrow> submission res option" where
  "row_verdict r d =
     (case ambiguous_web_submission_blocker (w_id r) d of
        Some b \<Rightarrow> Some (Inl (RealtimeJudgeAmbiguousError ''blocked''))
      | None \<Rightarrow>
          if w_judge_state r = Submitted \<and> w_rid r \<noteq> [] then Some (Inr r)
          else if w_judge_state r = PermanentFailed
          then Some (Inl (RealtimeJudgePermanentError (w_last_error r)))
          else if w_judge_state r = Ambiguous
          then Some (Inl (RealtimeJudgeAmbiguousError ''uncertain''))
          else if w_judge_state r = Local \<or> w_submission_id r = []
          then Some (Inl (RealtimeJudgePermanentError ''legacy local-only submission''))
          else None)"

fun ensure_loop :: "judge \<Rightarrow> int \<Rightarrow> rat \<Rightarrow> tick list \<Rightarrow> db \<Rightarrow> (submission res \<times> db) option" where
  "ensure_loop g i deadline [] d = None"
| "ensure_loop g i deadline ((x, clock) # ticks) d =
     (case get_web_submission i d of
        None \<Rightarrow> Some (Inl (KeyError ''web submission does not exist''), d)
      | Some r \<Rightarrow>
         (case row_verdict r d of
            Some v \<Rightarrow> Some (v, d)
          | None \<Rightarrow>
             (case process_once g x (Some (w_tid r)) (Some (w_uid r)) (Some (w_problem r)) ''final'' d of
                (Inl e, d1) \<Rightarrow> Some (Inl e, d1)
              | (Inr y, d1) \<Rightarrow>
                 (let latest = (case get_web_submission i d1 of Some l \<Rightarrow> l | None \<Rightarrow> r) in
                  if w_judge_state latest = Submitted \<and> w_rid latest \<noteq> [] then Some (Inr latest, d1)
                  else if deadline - clock \<le> 0
                  then Some (Inl (RealtimeJudgeTimeout ''Hydro rid not available before timeout''), d1)
                  else ensure_loop g i deadline ticks d1))))"

definition ensure_submitted ::
  "judge \<Rightarrow> int \<Rightarrow> rat \<Rightarrow> rat \<Rightarrow> rat \<Rightarrow> tick list \<Rightarrow> db \<Rightarrow> (submission res \<times> db) option" where
  "ensure_submitted g i timeout poll start ticks d =
     (if timeout \<le> 0 \<or> poll \<le> 0
      then Some (Inl (ValueError ''timeout_seconds and poll_interval must be positive''), d)
      else case requeue_web_submission_for_final i d of
        Inl e \<Rightarrow> Some (Inl e, d)
      | Inr (t, d1) \<Rightarrow> ensure_loop g i (start + timeout) ticks d1)"

section \<open>The worker\<close>

record worker =
  o_running :: bool
  o_last_ok_at :: rat
  o_last_error :: string
  o_error_count :: int

record worker_env =
  y_resolve_now :: rat
  y_status :: "string \<Rightarrow> http_response"
  y_resolve_mid :: "db \<Rightarrow> db"
  y_resolve_then :: rat
  y_attempt :: attempt_env
  y_clock :: rat

text \<open>One iteration of \<open>run_forever\<close>; the row is \<open>None\<close> when the worker goes on to wait.\<close>

definition worker_step :: "judge \<Rightarrow> worker_env \<Rightarrow> worker \<times> db \<Rightarrow> submission option \<times> worker \<times> db" where
  "worker_step g y wd = (case wd of (w, d) \<Rightarrow>
     let fail = (\<lambda>e d'. (None, w\<lparr>o_error_count := o_error_count w + 1, o_last_error := exn_text e\<rparr>, d'));
         good = (\<lambda>r d'. (r, w\<lparr>o_last_ok_at := y_clock y, o_last_error := []\<rparr>, d'))
     in case resolve_ambiguous_once (y_status y) (y_resolve_now y) (y_resolve_mid y) (y_resolve_then y) d of
          (Inl e, d') \<Rightarrow> fail e d'
        | (Inr (Some r), d') \<Rightarrow> good (Some r) d'
        | (Inr None, d') \<Rightarrow>
            (case process_once g (y_attempt y) None None None ''realtime'' d' of
               (Inl e, d'') \<Rightarrow> fail e d''
             | (Inr r, d'') \<Rightarrow> good r d''))"

definition run_forever :: "judge \<Rightarrow> rat \<Rightarrow> worker_env list \<Rightarrow> worker \<times> db \<Rightarrow> (worker \<times> db) res" where
  "run_forever g idle ys wd =
     (if idle \<le> 0 then Inl (ValueError ''idle_seconds must be positive'')
      else case foldl (\<lambda>(w, d) y. snd (worker_step g y (w, d))) ((fst wd)\<lparr>o_running := True\<rparr>, snd wd) ys of
        (w, d) \<Rightarrow> Inr (w\<lparr>o_running := False\<rparr>, d))"

end
