(* ===== verification/OutboxLife.thy ===== *)
theory OutboxLife
  imports OutboxInv
begin

text \<open>
  How rows of the outbox live: the payload never changes, a submitted row is final, an ambiguous row
  is never leased again, attempts only grow, and a lane is worked in order as long as nothing is
  requeued.
\<close>

section \<open>Rows move forward\<close>

definition payload_of :: "submission \<Rightarrow> _" where
  "payload_of r = (w_id r, (w_tid r, w_uid r, w_problem r), (w_source r, w_sha256 r, w_size r),
     (w_client_nonce r, w_submission_id r, w_submission_session r),
     (w_judge_pid r, w_judge_lang r, w_judge_source r, w_judge_sha256 r, w_judge_issues r),
     w_accepted_at_ms r, w_created_at r)"

definition row_le :: "submission \<Rightarrow> submission \<Rightarrow> bool" where
  "row_le r r' \<longleftrightarrow> payload_of r' = payload_of r \<and> w_attempts r \<le> w_attempts r'
     \<and> (w_judge_state r = Submitted \<or> w_judge_state r = Local \<longrightarrow> r' = r)
     \<and> (w_judge_state r = Ambiguous \<longrightarrow>
          w_judge_state r' \<in> {Ambiguous, Submitted} \<and> w_attempts r' = w_attempts r)
     \<and> (w_judge_kind r = Final \<longrightarrow> w_judge_kind r' = Final)"

lemma row_le_refl: "row_le r r"
  by (simp add: row_le_def)

lemma row_le_trans: "row_le r s \<Longrightarrow> row_le s t \<Longrightarrow> row_le r t"
  by (auto simp: row_le_def)

lemma payload_of_set_web [simp]: "payload_of (set_web u r) = payload_of r"
  by (simp add: payload_of_def)

lemma change_row_le: "change_ok u r \<Longrightarrow> row_le r (set_web u r)"
  by (cases u) (auto simp: row_le_def payload_of_def)

definition web_le :: "db \<Rightarrow> db \<Rightarrow> bool" where
  "web_le d d' \<longleftrightarrow> web_seq d \<le> web_seq d'
     \<and> (\<exists>old new. web_submissions d' = old @ new \<and> list_all2 row_le (web_submissions d) old
          \<and> (\<forall>r \<in> set new. web_seq d < w_id r))"

lemma list_all2_row_le_refl: "list_all2 row_le rs rs"
  by (simp add: list_all2_same row_le_refl)

lemma row_le_id: "row_le r r' \<Longrightarrow> w_id r' = w_id r"
  by (simp add: row_le_def payload_of_def)

lemma list_all2_row_le_id: "list_all2 row_le rs ts \<Longrightarrow> map w_id ts = map w_id rs"
  by (induction rule: list_all2_induct) (simp_all add: row_le_id)

lemma list_all2_row_le_ids:
  "list_all2 row_le rs ts \<Longrightarrow> \<forall>r \<in> set rs. P (w_id r) \<Longrightarrow> \<forall>r \<in> set ts. P (w_id r)"
  by (induction rule: list_all2_induct) (simp_all add: row_le_id)

lemma web_le_refl: "web_le d d"
  unfolding web_le_def using list_all2_row_le_refl by (intro conjI exI [of _ "[]"] exI) auto

lemma web_le_trans:
  assumes "web_le d e" and "web_le e f"
  shows "web_le d f"
proof -
  obtain o1 n1 where 1: "web_submissions e = o1 @ n1" "list_all2 row_le (web_submissions d) o1"
    "\<forall>r \<in> set n1. web_seq d < w_id r" "web_seq d \<le> web_seq e"
    using assms(1) by (auto simp: web_le_def)
  obtain o2 n2 where 2: "web_submissions f = o2 @ n2" "list_all2 row_le (web_submissions e) o2"
    "\<forall>r \<in> set n2. web_seq e < w_id r" "web_seq e \<le> web_seq f"
    using assms(2) by (auto simp: web_le_def)
  obtain a b where ab: "o2 = a @ b" "list_all2 row_le o1 a" "list_all2 row_le n1 b"
    using 2(2) unfolding 1(1) by (auto simp: list_all2_append1)
  have "list_all2 row_le (web_submissions d) a"
    by (rule list_all2_trans [OF _ 1(2) ab(2)]) (rule row_le_trans)
  moreover have "\<forall>r \<in> set (b @ n2). web_seq d < w_id r"
    using 1(3,4) 2(3) list_all2_row_le_ids [OF ab(3), of "\<lambda>i. web_seq d < i"] by fastforce
  ultimately show ?thesis
    using 1(4) 2(1,4) ab(1) unfolding web_le_def by (intro conjI exI [of _ a] exI [of _ "b @ n2"]) auto
qed

lemma list_all2_sql_update:
  "(\<And>r. r \<in> set rs \<Longrightarrow> p r \<Longrightarrow> P r (f r)) \<Longrightarrow> (\<And>r. P r r) \<Longrightarrow> list_all2 P rs (sql_update p f rs)"
  by (induction rs) auto

lemma web_update_le:
  assumes "\<And>r. r \<in> set (web_submissions d) \<Longrightarrow> p r \<Longrightarrow> change_ok u r"
  shows "web_le d (update_web p u d)"
proof -
  have "list_all2 row_le (web_submissions d) (sql_update p (set_web u) (web_submissions d))"
    using assms by (auto intro: list_all2_sql_update change_row_le row_le_refl)
  then show ?thesis
    unfolding web_le_def
    by (intro conjI exI [of _ "web_submissions (update_web p u d)"] exI [of _ "[]"]) auto
qed

lemma web_change_le: "web_change k d d' \<Longrightarrow> web_wf d \<Longrightarrow> web_le d d'"
proof (induction rule: web_change.induct)
  case (web_others d cs)
  then show ?case using web_le_refl [of d] by (simp add: web_le_def)
next
  case (web_claim now tid u prob d r until tok)
  then show ?case by (auto intro!: web_update_le intro: claim_change_ok simp del: change_ok.simps)
next
  case (web_insert r d)
  then show ?case
    using list_all2_row_le_refl [of "web_submissions d"] unfolding web_le_def fresh_row_def
    by (intro conjI exI [of _ "web_submissions d"] exI [of _ "[r]"]) auto
qed (simp_all add: web_le_refl web_update_le)

interpretation outbox: progress_machine "web_step H" web_wf web_le for H
  by unfold_locales
    (auto intro: web_le_refl web_change_le [OF web_step_change] dest: web_le_trans)

lemma web_le_row:
  assumes "web_le d d'" and "r \<in> set (web_submissions d)"
  obtains r' where "r' \<in> set (web_submissions d')" "row_le r r'" "w_id r' = w_id r"
proof -
  obtain old new where on: "web_submissions d' = old @ new" "list_all2 row_le (web_submissions d) old"
    using assms(1) by (auto simp: web_le_def)
  obtain k where k: "k < length (web_submissions d)" "r = web_submissions d ! k"
    using assms(2) by (metis in_set_conv_nth)
  have "row_le r (old ! k)" "k < length old"
    using list_all2_nthD [OF on(2) k(1)] k on(2) by (simp_all add: list_all2_lengthD)
  then show thesis using that [of "old ! k"] on(1) row_le_id by (simp add: nth_append)
qed

lemma web_history_row:
  assumes "web_wf d" and "r \<in> set (web_submissions d)"
  obtains r' where "get_web_submission (w_id r) (history (web_step H) ops d) = Some r'" "row_le r r'"
  using web_le_row [OF outbox.history_le [OF assms(1), of H ops] assms(2)]
    get_web_mem [OF outbox.history_inv [OF assms(1), of H ops]] by metis

section \<open>Order within a lane\<close>

text \<open>
  A row that was ever attempted has no unfinished older row in its lane. The claim query establishes
  this and every operation but the requeue keeps it.
\<close>

definition settled :: "judge_state \<Rightarrow> bool" where
  "settled s \<longleftrightarrow> s \<in> {Submitted, PermanentFailed, Local}"

definition fifo :: "db \<Rightarrow> bool" where
  "fifo d \<longleftrightarrow> (\<forall>r \<in> set (web_submissions d). \<forall>older \<in> set (web_submissions d).
     lane older = lane r \<and> w_id older < w_id r \<and> 0 < w_attempts r \<longrightarrow> settled (w_judge_state older))"

lemma settled_iff: "settled s \<longleftrightarrow> \<not> unfinished s"
  by (cases s) (simp_all add: settled_def unfinished_def)

lemma keeps_order_set:
  assumes "keeps_order u"
  shows "w_attempts (set_web u r) = w_attempts r"
    "change_ok u r \<Longrightarrow> settled (w_judge_state r) \<Longrightarrow> settled (w_judge_state (set_web u r))"
  using assms by (cases u; simp add: settled_def; fail)+

lemma fifo_update:
  assumes "fifo d" and "keeps_order u" and "\<And>r. r \<in> set (web_submissions d) \<Longrightarrow> p r \<Longrightarrow> change_ok u r"
  shows "fifo (update_web p u d)"
  using assms unfolding fifo_def
  by (auto simp: set_sql_update keeps_order_set)

lemma fifo_append:
  assumes "web_wf d" and "fifo d" and "fresh_row r d"
  shows "fifo (d\<lparr>web_submissions := web_submissions d @ [r], web_seq := web_seq d + 1\<rparr>)"
  using assms by (fastforce simp: fifo_def fresh_row_def web_wf_def)

lemma fifo_claim:
  assumes "web_wf d" and "fifo d" and "claimable now tid u prob d = Some r"
  shows "fifo (update_web (\<lambda>x. w_id x = w_id r) (SetSending until tok) d)"
proof -
  note r = claimable_mem [OF assms(3)]
  have "\<not> unfinished (w_judge_state x)"
    if "x \<in> set (web_submissions d)" "lane x = lane r" "w_id x < w_id r" for x
    using r that by (auto simp: older_unfinished_def list_ex_iff)
  note before = this
  have open_r: "unfinished (w_judge_state r)" using r due_state [of now r] by (auto simp: unfinished_def)
  show ?thesis
    unfolding fifo_def web_update_simps set_sql_update
  proof (intro ballI impI, elim imageE conjE)
    fix a' o' a b
    assume *: "a' = (if w_id a = w_id r then set_web (SetSending until tok) a else a)"
      "o' = (if w_id b = w_id r then set_web (SetSending until tok) b else b)"
      "a \<in> set (web_submissions d)" "b \<in> set (web_submissions d)"
      "lane o' = lane a'" "w_id o' < w_id a'" "0 < w_attempts a'"
    then have ids: "lane b = lane a" "w_id b < w_id a" by (auto split: if_splits simp del: set_web.simps)
    show "settled (w_judge_state o')"
    proof (cases "w_id a = w_id r")
      case True
      then have "a = r" using web_id_inj [OF assms(1) _ *(3)] r by blast
      with before [OF *(4)] ids * show ?thesis by (simp add: settled_iff)
    next
      case False
      then have sb: "settled (w_judge_state b)"
        using assms(2) * ids by (auto simp: fifo_def)
      then have "w_id b \<noteq> w_id r"
        using web_id_inj [OF assms(1) _ *(4)] r open_r by (auto simp: settled_iff)
      with sb *(2) show ?thesis by simp
    qed
  qed
qed

lemma fifo_change: "web_change k d d' \<Longrightarrow> web_wf d \<Longrightarrow> fifo d \<Longrightarrow> \<not> is_requeue k \<Longrightarrow> fifo d'"
proof (induction rule: web_change.induct)
  case (web_set d p u)
  then show ?case by (auto intro: fifo_update)
qed (simp_all add: fifo_claim fifo_append, simp add: fifo_def)

lemma fifo_history:
  "web_wf d \<Longrightarrow> fifo d \<Longrightarrow> list_all (\<lambda>c. \<not> is_requeue c) ops \<Longrightarrow> fifo (history (web_step H) ops d)"
proof (induction ops arbitrary: d)
  case (Cons c ops)
  have "fifo (attempt (web_step H) c d)"
    using Cons.prems by (auto simp: attempt_def split: sum.split intro: fifo_change web_step_change)
  then show ?case
    using Cons outbox.attempt_inv [OF Cons.prems(1)] by simp
qed simp

section \<open>Leases\<close>

definition not_leased_to :: "int \<Rightarrow> string \<Rightarrow> db \<Rightarrow> bool" where
  "not_leased_to i tok d \<longleftrightarrow> (\<forall>r \<in> set (web_submissions d). w_id r = i \<longrightarrow> w_lease_token r \<noteq> tok)"

lemma set_web_token:
  "keeps_order u \<or> u = SetFinal \<Longrightarrow> w_lease_token (set_web u r) \<in> {w_lease_token r, []}"
  by (cases u) auto

lemma not_leased_update:
  assumes "not_leased_to i tok d" and "tok \<noteq> []" and "keeps_order u \<or> u = SetFinal"
  shows "not_leased_to i tok (update_web p u d)"
proof -
  have "w_lease_token (set_web u r) \<noteq> tok" if "w_lease_token r \<noteq> tok" for r
    using set_web_token [OF assms(3), of r] that assms(2) by auto
  note step = this
  show ?thesis
    unfolding not_leased_to_def
  proof (intro ballI impI)
    fix x
    assume "x \<in> set (web_submissions (update_web p u d))" "w_id x = i"
    then obtain r where r: "r \<in> set (web_submissions d)" "x = (if p r then set_web u r else r)"
      by (simp only: web_update_simps in_sql_update) blast
    then have "w_id r = i" using \<open>w_id x = i\<close> by (cases "p r") simp_all
    with r(1) have "w_lease_token r \<noteq> tok" using assms(1) by (simp add: not_leased_to_def)
    then show "w_lease_token x \<noteq> tok" using r(2) step [of r] by (cases "p r") simp_all
  qed
qed

lemma not_leased_change:
  "web_change k d d' \<Longrightarrow> tok \<noteq> [] \<Longrightarrow> claim_token k \<noteq> Some tok \<Longrightarrow> not_leased_to i tok d
     \<Longrightarrow> not_leased_to i tok d'"
proof (induction rule: web_change.induct)
  case (web_claim now tid u prob d r tok' until)
  then show ?case by (auto simp: not_leased_to_def set_sql_update)
next
  case (web_insert r d)
  then show ?case by (auto simp: not_leased_to_def fresh_row_def row_ok_def)
qed (simp_all add: not_leased_update, simp add: not_leased_to_def)

lemma not_leased_history:
  "web_wf d \<Longrightarrow> tok \<noteq> [] \<Longrightarrow> list_all (\<lambda>c. claim_token c \<noteq> Some tok) ops \<Longrightarrow> not_leased_to i tok d
     \<Longrightarrow> not_leased_to i tok (history (web_step H) ops d)"
proof (induction ops arbitrary: d)
  case (Cons c ops)
  have "not_leased_to i tok (attempt (web_step H) c d)"
    using Cons.prems
    by (auto simp: attempt_def split: sum.split intro: not_leased_change web_step_change)
  then show ?case
    using Cons outbox.attempt_inv [OF Cons.prems(1)] by simp
qed simp

lemma not_leased_update_one:
  "not_leased_to i tok d \<Longrightarrow> update_one e i (leased i tok) u d = Inl e"
proof -
  assume "not_leased_to i tok d"
  then have "rowcount (leased i tok) (web_submissions d) = 0"
    by (auto simp: rowcount_0 not_leased_to_def leased_def)
  then show ?thesis by (simp add: update_one_def)
qed

section \<open>Requests a contest row accepts\<close>

text \<open>The contest row accepts requests of this session and problem mapping.\<close>

definition accepts :: "submit_request \<Rightarrow> db \<Rightarrow> bool" where
  "accepts q d = (case get_contest (q_tid q) d of None \<Rightarrow> False
     | Some c \<Rightarrow> c_submission_session c = q_submission_session q
        \<and> (case c_pids c of None \<Rightarrow> False | Some m \<Rightarrow> map_of m (q_problem q) = Some (q_judge_pid q)))"

end
