(* ===== verification/RealtimeInv.thy ===== *)
theory RealtimeInv
  imports RealtimeJudge OutboxLife
begin

text \<open>
  Facts about delivery: an answer of Hydro is never both ambiguous and retryable, an attempt always
  leaves a well-formed outbox and never raises, ids of submit actions are injective encodings, and the
  waiting loop ends and delivers the whole prefix of its lane.
\<close>

section \<open>Verdicts of an attempt\<close>

lemma rejected_exclusive: "\<not> (s_ambiguous (rejected c p) \<and> s_retryable (rejected c p))"
  by (simp add: rejected_def Let_def)

lemma rejected_not_ok [simp]: "s_ok (rejected c p) = False" "s_rid (rejected c p) = None"
  by (simp_all add: rejected_def Let_def)

lemma submit_one_exclusive:
  "submit_one l m probe post t u p c sid lang kind acc = Inr y \<Longrightarrow> \<not> (s_ambiguous y \<and> s_retryable y)"
  using rejected_exclusive
  by (auto simp: submit_one_def Let_def split: if_splits option.splits http_response.splits)

lemma deliver_exclusive: "\<not> (s_ambiguous (deliver g probe post kind r) \<and> s_retryable (deliver g probe post kind r))"
  unfolding deliver_def by (auto simp: unexpected_def split: sum.split dest: submit_one_exclusive)

text \<open>The report is one of the two completing operations.\<close>

definition delivered :: "submit_result \<Rightarrow> string option" where
  "delivered y = (if s_ok y then (case s_rid y of Some t \<Rightarrow> if t \<noteq> [] then Some t else None | None \<Rightarrow> None)
     else None)"

lemma report_outcome_eq:
  "report_outcome g now r y d = (case delivered y of
     Some rid \<Rightarrow> mark_web_submission_submitted (w_id r) (w_lease_token r) rid now d
   | None \<Rightarrow> mark_web_submission_failed (w_id r) (w_lease_token r) (error_text (s_error y))
       (if s_retryable y then Some (now + retry_delay g (w_attempts r)) else None) (s_ambiguous y)
       (if s_ambiguous y then Some (now + 2) else None) d)"
  by (auto simp: report_outcome_def delivered_def split: option.split bool.split)

lemma delivered_nonempty: "delivered y = Some rid \<Longrightarrow> rid \<noteq> []"
  by (auto simp: delivered_def split: if_splits option.splits)

lemma update_one_error:
  "web_wf d \<Longrightarrow> (\<And>x. p x \<Longrightarrow> w_id x = i) \<Longrightarrow> update_one e i p u d = Inl e' \<Longrightarrow> e' = e"
  by (auto simp: update_one_eq split: option.splits if_splits)

lemma report_outcome_error:
  assumes "web_wf d" and "\<not> (s_ambiguous y \<and> s_retryable y)" and "report_outcome g now r y d = Inl e"
  shows "\<exists>m. e = SubmissionLeaseLostError m"
  using assms(2,3) delivered_nonempty [of y]
  by (auto simp: report_outcome_eq mark_web_submission_submitted_def mark_web_submission_failed_def
      leased_def split: option.splits if_splits dest!: update_one_error [OF assms(1), rotated])

lemma report_outcome_change:
  assumes "web_wf d" and "report_outcome g now r y d = Inr (r', d')"
  shows "web_change k d d'"
  using assms(2)
  by (auto simp: report_outcome_eq split: option.splits
      intro: submitted_change [OF assms(1)] failed_change [OF assms(1)])

lemma report_outcome_row:
  assumes "web_wf d" and "get_web_submission (w_id r) d = Some r" and "leased (w_id r) (w_lease_token r) r"
    and "\<not> (s_ambiguous y \<and> s_retryable y)"
  shows "report_outcome g now r y d = (let u = (case delivered y of
      Some rid \<Rightarrow> SetSubmitted rid (iso_utc now)
    | None \<Rightarrow> SetFailed (failed_state (s_ambiguous y) (if s_retryable y then Some (now + retry_delay g (w_attempts r)) else None))
        (if s_retryable y then now + retry_delay g (w_attempts r) else 0) (take 4000 (error_text (s_error y)))
        (if s_ambiguous y then now + 2 else 0))
    in Inr (set_web u r, update_web (\<lambda>x. w_id x = w_id r) u d))"
proof -
  have p: "w_id x = w_id r" if "leased (w_id r) (w_lease_token r) x" for x using that by (simp add: leased_def)
  show ?thesis
    using assms(2,3,4) delivered_nonempty [of y]
    by (auto simp: report_outcome_eq mark_web_submission_submitted_def mark_web_submission_failed_def
        update_one_eq [OF assms(1) p] Let_def split: option.split)
qed

section \<open>An attempt keeps the outbox well-formed\<close>

definition quiet :: "attempt_env \<Rightarrow> bool" where
  "quiet x \<longleftrightarrow> x_mid x = (\<lambda>d. d)"

definition mid_ok :: "(string \<Rightarrow> string) \<Rightarrow> (db \<Rightarrow> db) \<Rightarrow> bool" where
  "mid_ok H mid \<longleftrightarrow> (\<exists>ops. mid = history (web_step H) ops)"

lemma mid_ok_wf: "mid_ok H mid \<Longrightarrow> web_wf d \<Longrightarrow> web_wf (mid d)"
  by (auto simp: mid_ok_def intro: outbox.history_inv)

lemma mid_ok_le: "mid_ok H mid \<Longrightarrow> web_wf d \<Longrightarrow> web_le d (mid d)"
  by (auto simp: mid_ok_def intro: outbox.history_le)

lemma process_once_result:
  assumes "web_wf d" and "kind \<in> {''final'', ''realtime''}" and "0 < g_lease_seconds g"
    and "mid_ok H (x_mid x)"
  shows "\<exists>y d'. process_once g x tid u prob kind d = (Inr y, d') \<and> web_wf d' \<and> web_le d d'"
proof (cases "claimable (x_now x) tid u prob d")
  case None
  then have "process_once g x tid u prob kind d = (Inr None, d)"
    using assms(2) by (simp add: process_once_def claim_eq [OF assms(1,3)])
  then show ?thesis using assms(1) web_le_refl by blast
next
  case (Some r0)
  define d1 where "d1 = update_web (\<lambda>y. w_id y = w_id r0)
      (SetSending (x_now x + g_lease_seconds g) (x_token x)) d"
  define r where "r = set_web (SetSending (x_now x + g_lease_seconds g) (x_token x)) r0"
  have ch: "web_change (Claim (x_token x) 0 0 None None None) d d1"
    unfolding d1_def by (rule web_claim [OF Some]) simp
  define d2 where "d2 = x_mid x d1"
  note wf1 = web_change_wf [OF ch assms(1)] and le1 = web_change_le [OF ch assms(1)]
  have wf2: "web_wf d2" and le2: "web_le d d2"
    using mid_ok_wf [OF assms(4) wf1] web_le_trans [OF le1 mid_ok_le [OF assms(4) wf1]]
    by (simp_all add: d2_def)
  let ?y = "deliver g (x_probe x) (x_post x) kind r"
  have claim: "claim_next_web_submission (x_token x) (x_now x) (g_lease_seconds g) tid u prob d = Inr (Some r, d1)"
    using Some by (simp add: claim_eq [OF assms(1,3)] r_def d1_def)
  have eq: "process_once g x tid u prob kind d = (case report_outcome g (x_then x) r ?y d2 of
      Inr (r', d3) \<Rightarrow> (Inr (Some r'), d3)
    | Inl e \<Rightarrow> if is_lease_lost e then (Inr (get_web_submission (w_id r) d2), d2) else (Inl e, d2))"
    using assms(2) unfolding d2_def by (simp add: process_once_def claim Let_def)
  show ?thesis
  proof (cases "report_outcome g (x_then x) r ?y d2")
    case (Inl e)
    then show ?thesis
      using report_outcome_error [OF wf2 deliver_exclusive Inl] wf2 le2 eq by auto
  next
    case (Inr z)
    obtain r' d3 where z: "z = (r', d3)" by (cases z)
    note c = report_outcome_change [OF wf2 Inr [unfolded z], of "OtherTables []"]
    show ?thesis
      using eq Inr z web_change_wf [OF c wf2] web_le_trans [OF le2 web_change_le [OF c wf2]] by auto
  qed
qed

section \<open>The waiting loop\<close>

text \<open>The rows of a lane up to \<open>i\<close> that still wait for delivery.\<close>

definition open_rows :: "int \<Rightarrow> string \<times> int \<times> string \<Rightarrow> db \<Rightarrow> submission list" where
  "open_rows i l d =
     filter (\<lambda>r. lane r = l \<and> w_id r \<le> i \<and> unfinished (w_judge_state r)) (web_submissions d)"

text \<open>A lane prefix in which every open row is due at any time from 0 on.\<close>

definition ready_lane :: "int \<Rightarrow> string \<times> int \<times> string \<Rightarrow> db \<Rightarrow> bool" where
  "ready_lane i l d \<longleftrightarrow> web_wf d
     \<and> (\<forall>r \<in> set (open_rows i l d). w_judge_state r = Pending \<and> w_next_retry_at r \<le> 0)
     \<and> (\<exists>t \<in> set (web_submissions d). w_id t = i \<and> lane t = l \<and> w_submission_id t \<noteq> []
          \<and> w_judge_state t \<in> {Pending, Submitted})"

lemma requeue_ready:
  assumes "web_wf d" and "get_web_submission i d = Some t"
    and "w_judge_state t \<in> {Pending, Retry, Sending, PermanentFailed, Submitted}"
    and "w_judge_state t = Submitted \<or> ambiguous_web_submission_blocker i d = None"
    and "requeue_web_submission_for_final i d = Inr (t', d')"
  shows "w_judge_state t = Submitted \<and> d' = d \<or> ready_lane i (lane t) d'"
proof (cases "w_judge_state t = Submitted")
  case True
  have "w_rid t \<noteq> []" "w_submission_id t \<noteq> []"
    using web_wf_row [OF assms(1), of t] get_web_mem [OF assms(1)] assms(2) True by (auto simp: row_ok_def)
  then show ?thesis using assms(2,5) True by (simp add: requeue_web_submission_for_final_def)
next
  case False
  have mem: "t \<in> set (web_submissions d)" "w_id t = i" using assms(2) get_web_mem [OF assms(1)] by auto
  have d': "d' = update_web (requeued t) SetFinal d" and sid: "w_submission_id t \<noteq> []"
    using assms(2,3,5) False
    by (auto simp: requeue_web_submission_for_final_def Let_def split: if_splits)
  have wf': "web_wf d'"
    by (rule web_change_wf [OF requeue_change [OF assms(5), of "Requeue i"] assms(1)]) simp
  have noamb: "w_judge_state r \<noteq> Ambiguous" if "r \<in> set (web_submissions d)" "lane r = lane t" "w_id r \<le> i" for r
    using assms(2,4) False that mem(2)
    by (auto simp: ambiguous_web_submission_blocker_def first_by_id_None filter_empty_conv)
  have open_ok: "w_judge_state r = Pending \<and> w_next_retry_at r \<le> 0" if r: "r \<in> set (open_rows i (lane t) d')" for r
  proof -
    obtain r0 where r0: "r0 \<in> set (web_submissions d)" "r = (if requeued t r0 then set_web SetFinal r0 else r0)"
      using r unfolding open_rows_def d' web_update_simps set_filter in_sql_update by blast
    have l: "lane r0 = lane t" "w_id r0 \<le> w_id t" "unfinished (w_judge_state r)"
      using r r0(2) mem(2) by (auto simp: open_rows_def split: if_splits simp del: set_web.simps)
    have "requeued t r0"
    proof (rule ccontr)
      assume n: "\<not> requeued t r0"
      then have "unfinished (w_judge_state r0)" using l(3) r0(2) by simp
      then have "w_judge_state r0 \<in> {Pending, Retry, Sending}"
        using noamb [OF r0(1) l(1)] l(2) mem(2) by (auto simp: unfinished_def)
      moreover have "w_submission_id r0 \<noteq> []"
        using web_wf_row [OF assms(1) r0(1)] calculation by (auto simp: row_ok_def)
      ultimately show False using n l by (auto simp: requeued_def)
    qed
    then show ?thesis using r0(2) by simp
  qed
  have "requeued t t" using False assms(3) sid by (auto simp: requeued_def)
  then have "set_web SetFinal t \<in> set (web_submissions d')"
    unfolding d' web_update_simps in_sql_update using mem(1) by force
  then show ?thesis
    using wf' open_ok mem(2) sid unfolding ready_lane_def
    by (intro disjI2 conjI ballI bexI [of _ "set_web SetFinal t"]) (auto simp: lane_def)
qed

lemma claimable_ready:
  assumes "ready_lane i l d" and "open_rows i l d \<noteq> []" and "0 \<le> now"
  shows "\<exists>r. claimable now (Some (fst l)) (Some (fst (snd l))) (Some (snd (snd l))) d = Some r
    \<and> r \<in> set (open_rows i l d)"
proof -
  have wf: "web_wf d" using assms(1) by (simp add: ready_lane_def)
  let ?P = "\<lambda>r. due now r \<and> filter_ok (Some (fst l)) (w_tid r) \<and> filter_ok (Some (fst (snd l))) (w_uid r)
    \<and> filter_ok (Some (snd (snd l))) (w_problem r) \<and> \<not> older_unfinished (web_submissions d) r"
  obtain m where m: "first_by_id (open_rows i l d) = Some m"
    using assms(2) first_by_id_None by fastforce
  have mo: "m \<in> set (open_rows i l d)" by (rule first_by_id_mem [OF m])
  then have mm: "m \<in> set (web_submissions d)" "lane m = l" "w_id m \<le> i" by (auto simp: open_rows_def)
  have "due now m" using assms(1,3) mo by (fastforce simp: ready_lane_def due_def)
  moreover have "\<not> older_unfinished (web_submissions d) m"
    using first_by_id_least [OF m] mm by (fastforce simp: older_unfinished_def list_ex_iff open_rows_def)
  ultimately have Pm: "?P m" using mm(2) by (auto simp: lane_def filter_ok_def)
  then have "claimable now (Some (fst l)) (Some (fst (snd l))) (Some (snd (snd l))) d \<noteq> None"
    unfolding claimable_def first_by_id_None filter_empty_conv using mm(1) by blast
  then obtain r where r: "claimable now (Some (fst l)) (Some (fst (snd l))) (Some (snd (snd l))) d = Some r"
    by blast
  note rm = claimable_mem [OF r]
  have "w_id r \<le> w_id m"
    using first_by_id_least [OF r [unfolded claimable_def], of m] mm(1) Pm by simp
  moreover have "lane r = l" using rm by (cases l) (simp add: lane_def filter_ok_def)
  moreover have "unfinished (w_judge_state r)" using rm due_state [of now r] by (auto simp: unfinished_def)
  ultimately have "r \<in> set (open_rows i l d)" using rm mm(3) by (simp add: open_rows_def)
  with r show ?thesis by blast
qed

text \<open>Hydro is configured, answers every submission with a record id, and nobody interferes.\<close>

definition accepting :: "attempt_env \<Rightarrow> bool" where
  "accepting x \<longleftrightarrow> quiet x \<and> x_probe x = NotConfigured \<and> 0 \<le> x_now x
     \<and> (\<forall>q. \<exists>code body text rid. x_post x q = Response code (Some (JObj body)) text \<and> code < 400
          \<and> map_of body ''rid'' = Some (JStr rid) \<and> rid \<noteq> [])"

lemma deliver_accepting:
  assumes "accepting x"
  shows "\<exists>rid. delivered (deliver g (x_probe x) (x_post x) kind r) = Some rid"
proof -
  have k: "effective_kind kind r \<in> {''final'', ''realtime''}" by (simp add: effective_kind_def)
  let ?q = "\<lparr>h_tid = w_tid r, h_uid = w_uid r, h_pid = w_judge_pid r, h_code = w_judge_source r,
    h_submission_id = w_submission_id r, h_kind = effective_kind kind r,
    h_lang = (if w_judge_lang r \<noteq> [] then Some (w_judge_lang r) else None),
    h_accepted_at_ms = Some (w_accepted_at_ms r)\<rparr>"
  obtain code body tx rid where "x_post x ?q = Response code (Some (JObj body)) tx" "code < 400"
    "map_of body ''rid'' = Some (JStr rid)" "rid \<noteq> []"
    using assms unfolding accepting_def by blast
  then show ?thesis
    using k assms
    by (simp add: deliver_def submit_one_def qualification_failure_active_def accepting_def Let_def
        status_ok_def delivered_def)
qed

lemma process_once_accepting:
  assumes "ready_lane i l d" and "open_rows i l d \<noteq> []" and "accepting x" and "0 < g_lease_seconds g"
  shows "\<exists>r y u d'. process_once g x (Some (fst l)) (Some (fst (snd l))) (Some (snd (snd l))) ''final'' d
       = (Inr (Some y), d') \<and> r \<in> set (open_rows i l d) \<and> web_wf d'
     \<and> (\<exists>rid \<noteq> []. web_submissions d' = sql_update (\<lambda>z. w_id z = w_id r)
          (set_web (SetSubmitted rid (iso_utc (x_then x))) \<circ> set_web u) (web_submissions d))"
proof -
  have wf: "web_wf d" using assms(1) by (simp add: ready_lane_def)
  have "0 \<le> x_now x" and quiet: "x_mid x = (\<lambda>d. d)" using assms(3) by (auto simp: accepting_def quiet_def)
  then obtain r0 where r0: "claimable (x_now x) (Some (fst l)) (Some (fst (snd l))) (Some (snd (snd l))) d = Some r0"
    "r0 \<in> set (open_rows i l d)" using claimable_ready [OF assms(1,2)] by blast
  let ?u = "SetSending (x_now x + g_lease_seconds g) (x_token x)"
  let ?d1 = "update_web (\<lambda>y. w_id y = w_id r0) ?u d"
  have mem: "r0 \<in> set (web_submissions d)" using r0(2) by (simp add: open_rows_def)
  have wf1: "web_wf ?d1"
    by (rule web_change_wf [OF web_claim [OF r0(1), of "Claim (x_token x) 0 0 None None None"] wf]) simp
  have get1: "get_web_submission (w_id (set_web ?u r0)) ?d1 = Some (set_web ?u r0)"
    using get_web_mem [OF wf, of "w_id r0" r0] mem
    by (simp add: get_web_submission_def web.lookup_update del: set_web.simps)
  have leased: "leased (w_id (set_web ?u r0)) (w_lease_token (set_web ?u r0)) (set_web ?u r0)"
    by (simp add: leased_def)
  let ?y = "deliver g (x_probe x) (x_post x) ''final'' (set_web ?u r0)"
  obtain rid where rid: "delivered ?y = Some rid" using deliver_accepting [OF assms(3)] by blast
  let ?v = "SetSubmitted rid (iso_utc (x_then x))"
  let ?d2 = "update_web (\<lambda>z. w_id z = w_id r0) ?v ?d1"
  have rep: "report_outcome g (x_then x) (set_web ?u r0) ?y ?d1 = Inr (set_web ?v (set_web ?u r0), ?d2)"
    using report_outcome_row [OF wf1 get1 leased deliver_exclusive, of g "x_then x" g] rid
    by (simp add: Let_def del: set_web.simps)
  have "process_once g x (Some (fst l)) (Some (fst (snd l))) (Some (snd (snd l))) ''final'' d
      = (Inr (Some (set_web ?v (set_web ?u r0))), ?d2)"
    by (simp add: process_once_def claim_eq [OF wf assms(4)] r0(1) quiet Let_def rep del: set_web.simps)
  moreover have "web_wf ?d2"
    using web_change_wf [OF report_outcome_change [OF wf1 rep, of "OtherTables []"] wf1] .
  moreover have "web_submissions ?d2 = sql_update (\<lambda>z. w_id z = w_id r0) (set_web ?v \<circ> set_web ?u) (web_submissions d)"
    by (simp add: sql_update_def del: set_web.simps)
  ultimately show ?thesis using r0(2) delivered_nonempty [OF rid] by blast
qed

lemma filter_delivered:
  "(\<And>z. lane (f z) = lane z) \<Longrightarrow> (\<And>z. w_id (f z) = w_id z) \<Longrightarrow> (\<And>z. w_judge_state (f z) = Submitted) \<Longrightarrow>
   filter (\<lambda>z. lane z = l \<and> w_id z \<le> i \<and> unfinished (w_judge_state z)) (sql_update (\<lambda>z. w_id z = k) f rs)
     = filter (\<lambda>z. w_id z \<noteq> k) (filter (\<lambda>z. lane z = l \<and> w_id z \<le> i \<and> unfinished (w_judge_state z)) rs)"
  by (induction rs) (auto simp: unfinished_def)

lemma ready_no_blocker:
  assumes "ready_lane i l d" and "get_web_submission i d = Some t"
  shows "ambiguous_web_submission_blocker i d = None" "lane t = l" "w_submission_id t \<noteq> []"
    "w_judge_state t \<in> {Pending, Submitted}"
proof -
  have wf: "web_wf d" using assms(1) by (simp add: ready_lane_def)
  have t: "t \<in> set (web_submissions d)" "w_id t = i" using assms(2) get_web_mem [OF wf] by auto
  obtain t' where t': "t' \<in> set (web_submissions d)" "w_id t' = i" "lane t' = l" "w_submission_id t' \<noteq> []"
      "w_judge_state t' \<in> {Pending, Submitted}"
    using assms(1) by (auto simp: ready_lane_def)
  have "t' = t" using web_id_inj [OF wf t(1) t'(1)] t(2) t'(2) by simp
  with t' show l: "lane t = l" "w_submission_id t \<noteq> []" "w_judge_state t \<in> {Pending, Submitted}" by auto
  have "w_judge_state r \<noteq> Ambiguous" if "r \<in> set (web_submissions d)" "lane r = l" "w_id r \<le> i" for r
    using assms(1) that by (fastforce simp: ready_lane_def open_rows_def unfinished_def)
  then show "ambiguous_web_submission_blocker i d = None"
    using assms(2) t(2) l(1)
    by (simp add: ambiguous_web_submission_blocker_def first_by_id_None filter_empty_conv)
qed

lemma ensure_loop_delivers:
  assumes "0 < g_lease_seconds g"
  shows "ready_lane i l d \<Longrightarrow> ticks \<noteq> [] \<Longrightarrow> length (open_rows i l d) \<le> length ticks
    \<Longrightarrow> list_all (\<lambda>(x, clock). accepting x \<and> clock < deadline) ticks
    \<Longrightarrow> \<exists>r d'. ensure_loop g i deadline ticks d = Some (Inr r, d') \<and> w_id r = i
         \<and> w_judge_state r = Submitted \<and> w_rid r \<noteq> []"
proof (induction ticks arbitrary: d)
  case Nil
  then show ?case by simp
next
  case (Cons tick ticks)
  obtain x clock where tick: "tick = (x, clock)" by (cases tick)
  have wf: "web_wf d" using Cons.prems(1) by (simp add: ready_lane_def)
  obtain t where t: "get_web_submission i d = Some t"
    using Cons.prems(1) get_web_mem [OF wf] by (auto simp: ready_lane_def)
  note tm = ready_no_blocker [OF Cons.prems(1) t]
  have mem: "t \<in> set (web_submissions d)" "w_id t = i" using t get_web_mem [OF wf] by auto
  show ?case
  proof (cases "w_judge_state t = Submitted")
    case True
    then have "w_rid t \<noteq> []" using web_wf_row [OF wf mem(1)] by (simp add: row_ok_def)
    with True t tm mem(2) tick show ?thesis by simp
  next
    case False
    then have pend: "w_judge_state t = Pending" using tm(4) by simp
    then have "t \<in> set (open_rows i l d)" using mem tm(2) by (simp add: open_rows_def unfinished_def)
    then have ne: "open_rows i l d \<noteq> []" by (metis empty_iff list.set(1))
    have acc: "accepting x" "clock < deadline" using Cons.prems(4) tick by auto
    obtain r y u d' rid where p: "process_once g x (Some (fst l)) (Some (fst (snd l))) (Some (snd (snd l)))
          ''final'' d = (Inr (Some y), d')" "r \<in> set (open_rows i l d)" "web_wf d'" "rid \<noteq> []"
      and rows: "web_submissions d' = sql_update (\<lambda>z. w_id z = w_id r)
          (set_web (SetSubmitted rid (iso_utc (x_then x))) \<circ> set_web u) (web_submissions d)"
      using process_once_accepting [OF Cons.prems(1) ne acc(1) assms] by blast
    let ?f = "set_web (SetSubmitted rid (iso_utc (x_then x))) \<circ> set_web u"
    have f: "w_judge_state (?f z) = Submitted" "w_rid (?f z) = rid" "w_id (?f z) = w_id z"
      "lane (?f z) = lane z" "w_submission_id (?f z) = w_submission_id z" for z
      by (simp_all add: lane_def)
    have lanes: "w_tid t = fst l" "w_uid t = fst (snd l)" "w_problem t = snd (snd l)"
      using tm(2) by (auto simp: lane_def)
    have get': "get_web_submission i d' = Some (if i = w_id r then ?f t else t)"
      using t mem(2) unfolding get_web_submission_def rows
      by (subst find_sql_update) (simp_all del: o_apply add: f)
    have loop: "ensure_loop g i deadline (tick # ticks) d = (if i = w_id r then Some (Inr (?f t), d')
        else ensure_loop g i deadline ticks d')"
      using t tm mem(2) pend lanes p(1,4) get' f acc(2)
      by (cases "i = w_id r") (simp_all add: tick Let_def del: o_apply)
    show ?thesis
    proof (cases "i = w_id r")
      case True
      then show ?thesis using loop f mem(2) p(4) by simp
    next
      case False
      have opn: "open_rows i l d' = filter (\<lambda>z. w_id z \<noteq> w_id r) (open_rows i l d)"
        unfolding open_rows_def rows by (rule filter_delivered) (rule f)+
      have "length (open_rows i l d') < length (open_rows i l d)"
        unfolding opn by (rule length_filter_less [OF p(2)]) simp
      moreover have "ready_lane i l d'"
        using Cons.prems(1) p(3) opn tm pend get' False get_web_mem [OF p(3), of i t] mem(2)
        by (auto simp: ready_lane_def)
      moreover have "0 < length (open_rows i l d')"
        by (rule length_pos_if_in_set [of t])
          (use \<open>t \<in> set (open_rows i l d)\<close> False mem(2) in \<open>simp add: opn\<close>)
      moreover from calculation have "Suc 0 < length (tick # ticks)" using Cons.prems(3) by linarith
      then have "ticks \<noteq> []" by auto
      ultimately have "\<exists>r d''. ensure_loop g i deadline ticks d' = Some (Inr r, d'') \<and> w_id r = i
          \<and> w_judge_state r = Submitted \<and> w_rid r \<noteq> []"
        using Cons.prems(3,4) by (intro Cons.IH) (auto simp del: length_greater_0_conv)
      then show ?thesis using loop False by (simp only: if_False)
    qed
  qed
qed

text \<open>The loop ends as soon as a clock reading reaches the deadline.\<close>

lemma ensure_loop_ends:
  "(\<exists>(x, clock) \<in> set ticks. deadline \<le> clock) \<Longrightarrow> ensure_loop g i deadline ticks d \<noteq> None"
proof (induction ticks arbitrary: d)
  case (Cons tick ticks)
  obtain x clock where tick: "tick = (x, clock)" by (cases tick)
  have "deadline \<le> clock \<or> (\<forall>d. ensure_loop g i deadline ticks d \<noteq> None)"
    using Cons by (metis (no_types, lifting) case_prod_conv set_ConsD tick)
  then show ?case
    by (elim disjE) (simp_all add: tick Let_def split: option.split sum.split prod.split)
qed simp

text \<open>Every pause sleeps the polling interval, or what remains.\<close>

fun clock_advances :: "rat \<Rightarrow> rat \<Rightarrow> rat \<Rightarrow> tick list \<Rightarrow> bool" where
  "clock_advances poll deadline t [] \<longleftrightarrow> True"
| "clock_advances poll deadline t ((x, clock) # ticks) \<longleftrightarrow>
     t + min poll (deadline - t) \<le> clock \<and> clock_advances poll deadline clock ticks"

lemma clock_reaches:
  "clock_advances poll deadline t ticks \<Longrightarrow> 0 < poll \<Longrightarrow> deadline - t \<le> of_nat (length ticks) * poll
    \<Longrightarrow> ticks \<noteq> [] \<Longrightarrow> \<exists>(x, clock) \<in> set ticks. deadline \<le> clock"
proof (induction ticks arbitrary: t)
  case (Cons tick ticks)
  obtain x clock where tick: "tick = (x, clock)" by (cases tick)
  show ?case
  proof (cases "deadline \<le> clock")
    case True
    then show ?thesis by (auto simp: tick)
  next
    case False
    then have step: "t + poll \<le> clock" "clock_advances poll deadline clock ticks"
      using Cons.prems(1) by (auto simp: tick min_def split: if_splits)
    have "deadline - clock \<le> of_nat (length ticks) * poll"
      using Cons.prems(3) step(1) by (simp add: algebra_simps)
    moreover have "ticks \<noteq> []" using calculation False by auto
    ultimately show ?thesis using Cons.IH [OF step(2)] Cons.prems(2) by auto
  qed
qed simp

section \<open>The verdict of a response\<close>

text \<open>What the answer of Hydro means for a submission, without the mechanics of the outbox.\<close>

datatype verdict = Accepted string | TryAgain | Uncertain | Refused

fun hydro_verdict :: "http_response \<Rightarrow> verdict" where
  "hydro_verdict (NoResponse e) = TryAgain"
| "hydro_verdict (Response code body reply) =
     (if code < 400 then
        (case body of
           Some (JObj b) \<Rightarrow> (case map_of b ''rid'' of
               Some v \<Rightarrow> if py_truthy v then Accepted (py_str v) else TryAgain
             | None \<Rightarrow> TryAgain)
         | _ \<Rightarrow> TryAgain)
      else if code = 409 \<and> (case body of Some p \<Rightarrow> error_name p | None \<Rightarrow> [])
                              = ''OrchestratorSubmissionAmbiguousError'' then Uncertain
      else if code \<in> {401, 403, 408, 425, 429} \<or> code \<ge> 500 then TryAgain
      else Refused)"

definition request_of :: "string \<Rightarrow> submission \<Rightarrow> http_request" where
  "request_of kind r = \<lparr>h_tid = w_tid r, h_uid = w_uid r, h_pid = w_judge_pid r,
     h_code = w_judge_source r, h_submission_id = w_submission_id r, h_kind = effective_kind kind r,
     h_lang = (if w_judge_lang r \<noteq> [] then Some (w_judge_lang r) else None),
     h_accepted_at_ms = Some (w_accepted_at_ms r)\<rparr>"

lemma int_str_nonempty [simp]: "int_str i \<noteq> []"
  by (simp add: int_str_def)

lemma py_str_truthy: "py_truthy v \<Longrightarrow> py_str v \<noteq> []"
  by (cases v) (auto simp: int_str_def)

lemma text_error_name [simp]: "error_name (JObj [(''text'', v)]) = []"
  by (simp add: error_name_def)

lemma submit_one_request:
  "deliver g NotConfigured post kind r = (case post (request_of kind r) of
      NoResponse e \<Rightarrow> \<lparr>s_ok = False, s_rid = None, s_retryable = True, s_ambiguous = False,
                s_status_code = None, s_error = JStr e\<rparr>
    | Response code body reply \<Rightarrow>
        (let payload = (case body of Some p \<Rightarrow> p | None \<Rightarrow> JObj [(''text'', JStr (take 300 reply))]) in
         if \<not> status_ok code then rejected code payload
         else (case jget ''rid'' payload of Inl e \<Rightarrow> unexpected e | Inr rid \<Rightarrow> (case rid of
             None \<Rightarrow> rejected code payload
           | Some v \<Rightarrow> if py_truthy v
               then \<lparr>s_ok = True, s_rid = Some (py_str v), s_retryable = False,
                     s_ambiguous = False, s_status_code = None, s_error = JNull\<rparr>
               else rejected code payload))))"
proof -
  have k: "effective_kind kind r = ''final'' \<or> effective_kind kind r = ''realtime''"
    by (simp add: effective_kind_def)
  show ?thesis
    unfolding deliver_def submit_one_def qualification_failure_active_def Let_def
    using k
    by (auto simp: request_of_def bindE_def split: http_response.split sum.split option.split)
qed

lemma rejected_fields:
  "code < 400 \<Longrightarrow> s_retryable (rejected code p) \<and> \<not> s_ambiguous (rejected code p)"
  "400 \<le> code \<Longrightarrow> s_ambiguous (rejected code p) \<longleftrightarrow>
     code = 409 \<and> error_name p = ''OrchestratorSubmissionAmbiguousError''"
  "400 \<le> code \<Longrightarrow> s_retryable (rejected code p) \<longleftrightarrow>
     \<not> (code = 409 \<and> error_name p = ''OrchestratorSubmissionAmbiguousError'')
     \<and> (code \<in> {401, 403, 408, 425, 429} \<or> code \<ge> 500)"
  by (auto simp: rejected_def Let_def status_ok_def)

lemma delivered_rejected [simp]: "delivered (rejected code p) = None"
  by (simp add: delivered_def)

lemma deliver_ok_response:
  assumes "code < 400" and "post (request_of kind r) = Response code body reply"
  shows "case hydro_verdict (Response code body reply) of
      Accepted rid \<Rightarrow> delivered (deliver g NotConfigured post kind r) = Some rid
    | v \<Rightarrow> v = TryAgain \<and> delivered (deliver g NotConfigured post kind r) = None
        \<and> s_retryable (deliver g NotConfigured post kind r)
        \<and> \<not> s_ambiguous (deliver g NotConfigured post kind r)"
proof (cases body)
  case None
  with assms show ?thesis by (simp add: submit_one_request status_ok_def rejected_fields Let_def)
next
  case (Some p)
  show ?thesis
  proof (cases p)
    case (JObj b)
    with Some assms show ?thesis
      by (cases "map_of b ''rid''")
        (auto simp: submit_one_request status_ok_def rejected_fields Let_def delivered_def py_str_truthy)
  qed (use Some assms in \<open>simp_all add: submit_one_request status_ok_def unexpected_def delivered_def\<close>)
qed

lemma deliver_verdict:
  "case hydro_verdict (post (request_of kind r)) of
      Accepted rid \<Rightarrow> delivered (deliver g NotConfigured post kind r) = Some rid
    | TryAgain \<Rightarrow> delivered (deliver g NotConfigured post kind r) = None
        \<and> s_retryable (deliver g NotConfigured post kind r)
        \<and> \<not> s_ambiguous (deliver g NotConfigured post kind r)
    | Uncertain \<Rightarrow> delivered (deliver g NotConfigured post kind r) = None
        \<and> \<not> s_retryable (deliver g NotConfigured post kind r)
        \<and> s_ambiguous (deliver g NotConfigured post kind r)
    | Refused \<Rightarrow> delivered (deliver g NotConfigured post kind r) = None
        \<and> \<not> s_retryable (deliver g NotConfigured post kind r)
        \<and> \<not> s_ambiguous (deliver g NotConfigured post kind r)"
proof (cases "post (request_of kind r)")
  case (NoResponse e)
  then show ?thesis by (simp add: submit_one_request delivered_def)
next
  case (Response code body reply)
  show ?thesis
  proof (cases "code < 400")
    case True
    show ?thesis
      using deliver_ok_response [where g = g, OF True, of post kind r body reply] Response
      by (cases "hydro_verdict (Response code body reply)") (simp_all del: hydro_verdict.simps)
  next
    case False
    then have "error_name (case body of Some p \<Rightarrow> p | None \<Rightarrow> JObj [(''text'', JStr (take 300 reply))])
        = (case body of Some p \<Rightarrow> error_name p | None \<Rightarrow> [])"
      by (simp split: option.split)
    with False Response show ?thesis
      by (simp add: submit_one_request status_ok_def rejected_fields Let_def)
  qed
qed

section \<open>Waiting: totality and soundness\<close>

lemma requeue_Inr:
  assumes "web_wf d" and "get_web_submission i d = Some t"
    and "w_judge_state t \<in> {Pending, Retry, Sending, PermanentFailed, Submitted}"
  shows "\<exists>t' d'. requeue_web_submission_for_final i d = Inr (t', d')"
proof -
  have "w_submission_id t \<noteq> []"
    using web_wf_row [OF assms(1), of t] get_web_mem [OF assms(1)] assms(2,3) by (auto simp: row_ok_def)
  moreover have "get_web_submission i (update_web (requeued t) SetFinal d) \<noteq> None"
    using assms(2) unfolding get_web_submission_def web_update_simps
    by (subst find_sql_update) (simp_all del: set_web.simps)
  ultimately show ?thesis
    using assms(2,3) by (auto simp: requeue_web_submission_for_final_def Let_def)
qed

lemma requeue_lane_length:
  assumes "requeue_web_submission_for_final i d = Inr (t', d')"
  shows "length (filter (\<lambda>r. lane r = l \<and> w_id r \<le> i) (web_submissions d'))
    = length (filter (\<lambda>r. lane r = l \<and> w_id r \<le> i) (web_submissions d))"
proof -
  have "filter (\<lambda>r. lane r = l \<and> w_id r \<le> i) (sql_update p (set_web SetFinal) rs)
      = sql_update p (set_web SetFinal) (filter (\<lambda>r. lane r = l \<and> w_id r \<le> i) rs)" for p rs
    by (rule filter_sql_update) (simp del: set_web.simps)
  then have "length (filter (\<lambda>r. lane r = l \<and> w_id r \<le> i) (sql_update p (set_web SetFinal) rs))
      = length (filter (\<lambda>r. lane r = l \<and> w_id r \<le> i) rs)" for p rs by simp
  then show ?thesis
    using assms
    by (auto simp: requeue_web_submission_for_final_def Let_def split: option.splits if_splits
        simp del: set_web.simps)
qed

lemma open_rows_length: "length (open_rows i l d) \<le> length (filter (\<lambda>r. lane r = l \<and> w_id r \<le> i) (web_submissions d))"
proof -
  have "open_rows i l d = filter (\<lambda>r. unfinished (w_judge_state r)) (filter (\<lambda>r. lane r = l \<and> w_id r \<le> i) (web_submissions d))"
    by (auto simp: open_rows_def intro: filter_cong)
  then show ?thesis by (metis length_filter_le)
qed

lemma row_verdict_InrD: "row_verdict r d = Some (Inr r') \<Longrightarrow> w_judge_state r' = Submitted \<and> w_rid r' \<noteq> []"
  by (auto split: option.splits if_splits)

lemma ensure_loop_sound:
  "ensure_loop g i deadline ticks d = Some (Inr r, d') \<Longrightarrow> w_judge_state r = Submitted \<and> w_rid r \<noteq> []"
proof (induction ticks arbitrary: d)
  case (Cons tick ticks)
  obtain x clock where tick: "tick = (x, clock)" by (cases tick)
  show ?case
    using Cons
    by (auto simp: tick Let_def simp del: row_verdict.simps dest: row_verdict_InrD
        split: option.splits sum.splits prod.splits if_splits)
qed simp

section \<open>Read-only resolution\<close>

text \<open>The record id of an exact answer.\<close>

definition exact_rid :: "http_response \<Rightarrow> string option" where
  "exact_rid resp = (case resp of
     Response code (Some p) reply \<Rightarrow>
       if code < 400 \<and> str_field ''status'' p = ''resolved'' \<and> re_exact is_hex 24 (str_field ''rid'' p)
       then Some (str_field ''rid'' p) else None
   | _ \<Rightarrow> None)"

lemma re_exact_nonempty: "0 < n \<Longrightarrow> re_exact P n s \<Longrightarrow> s \<noteq> []"
  by (auto simp: re_exact_def)

lemma lower_hex: "re_exact is_hex n s \<Longrightarrow> map lower_char s = s"
proof -
  have "is_hex c \<Longrightarrow> lower_char c = c" for c
    by (auto simp: lower_char_def char_class_defs Let_def)
  then show "re_exact is_hex n s \<Longrightarrow> map lower_char s = s"
    by (auto simp: re_exact_def list_all_iff intro: map_idI)
qed

lemma resolve_submission_eq:
  assumes "re_exact is_hex 64 sid"
  shows "\<exists>y. resolve_submission post sid = Inr y \<and> (case exact_rid (post sid) of
      Some rid \<Rightarrow> e_ok y \<and> e_rid y = Some rid \<and> re_exact is_hex 24 rid
    | None \<Rightarrow> \<not> e_ok y \<and> e_rid y = None \<and> e_status y \<in> set resolution_statuses)"
proof (cases "post sid")
  case (NoResponse e)
  then show ?thesis
    using assms by (simp add: resolve_submission_def exact_rid_def resolution_statuses_def)
next
  case (Response code body reply)
  then show ?thesis
    using assms
    by (cases body)
      (auto simp: resolve_submission_def exact_rid_def resolution_statuses_def Let_def status_ok_def
        str_field_def [of _ "JObj []"])
qed

lemma claim_ambiguous_eq:
  assumes "web_wf d" and "first_by_id (filter (due_resolution now) (web_submissions d)) = Some r" and "0 < secs"
  shows "claim_ambiguous_web_submission now secs d = Inr (Some (set_web (SetChecked (now + secs)) r),
      update_web (\<lambda>x. w_id x = w_id r) (SetChecked (now + secs)) d)"
proof -
  let ?p = "\<lambda>x. w_id x = w_id r \<and> due_resolution now x"
  have mem: "r \<in> set (web_submissions d)" "due_resolution now r" using first_by_id_mem [OF assms(2)] by auto
  have get: "find (\<lambda>x. w_id x = w_id r) (web_submissions d) = Some r"
    using get_web_mem [OF assms(1), of "w_id r" r] mem(1) by (simp add: get_web_submission_def)
  have "rowcount ?p (web_submissions d) = 1"
    using rowcount_by_key [OF web_wf_distinct [OF assms(1)], of ?p "w_id r"] get mem(2) by simp
  moreover have "update_web ?p (SetChecked (now + secs)) d
      = update_web (\<lambda>x. w_id x = w_id r) (SetChecked (now + secs)) d"
    unfolding update_web_def
    using web.update_guarded [OF web_wf_distinct [OF assms(1)], of ?p "w_id r" r] get mem(2) by simp
  moreover have "get_web_submission (w_id r) (update_web (\<lambda>x. w_id x = w_id r) (SetChecked (now + secs)) d)
      = Some (set_web (SetChecked (now + secs)) r)"
    using get by (simp add: get_web_submission_def web.lookup_update)
  ultimately show ?thesis
    using assms(2,3) by (simp add: claim_ambiguous_web_submission_def Let_def del: set_web.simps)
qed

end
