(* ===== verification/OutboxThms.thy ===== *)
theory OutboxThms
  imports OutboxLife
begin

text \<open>
  What the outbox promises: one receipt per browser submission, exactly one lease holder, lanes in
  order, no second delivery of an ambiguous row, final receipts, and honest health counters.
  The witnesses run a small contest.
\<close>

section \<open>A contest for the witnesses\<close>

definition demo_contest :: contest where
  "demo_contest = \<lparr>c_tid = ''t'', c_title = ''demo'', c_files = Some [''a''],
     c_pids = Some [(''a'', ''P1'')], c_submission_mode = ''folder'', c_submission_session = ''s'',
     c_paper_name = [], c_paper_sha256 = [], c_paper_size = 0, c_testdata_name = [],
     c_testdata_sha256 = [], c_testdata_size = 0, c_testdata_files = 0,
     c_testdata_expanded_size = 0, c_begin_at_ms = 100, c_end_at_ms = 200, c_hydro_rule = ''oi'',
     c_materials_mode = ''manual'', c_material_state = ''pending'', c_active_material_revision = [],
     c_material_manifest_sha256 = [], c_max_participants = 15, c_spare_seats = 2,
     c_release_lead_minutes = 5, c_practice_groups = 3, c_time_sync_at_ms = 0,
     c_time_sync_checked_at_ms = 0, c_time_sync_error = [], c_collection_run_id = [],
     c_collection_dir = [], c_collection_receipt_sha256 = [], c_collection_completed_at_ms = 0,
     c_shutdown_after_ms = 0, c_shutdown_verified_at_ms = 0, c_workspace_purged_at_ms = 0,
     c_evidence_purged_at_ms = 0, c_state = Ready, c_message = [], c_created_at = []\<rparr>"

definition demo_request :: "char \<Rightarrow> submit_request" where
  "demo_request c = \<lparr>q_tid = ''t'', q_uid = 7, q_problem = ''a'', q_source = [c],
     q_client_nonce = [c], q_submission_id = replicate 64 c, q_submission_session = ''s'',
     q_judge_pid = ''P1'', q_judge_lang = ''cc'', q_judge_source = [c], q_issues = [],
     q_accepted_at_ms = 150, q_allow_new = True\<rparr>"

definition demo_db :: db where
  "demo_db = empty_db\<lparr>contests := [demo_contest]\<rparr>"

definition demo_hash :: "string \<Rightarrow> string" where
  "demo_hash s = rev s"

lemma demo_db_wf: "web_wf demo_db"
  by (simp add: web_wf_def demo_db_def empty_db_def remote_def)

definition demo_row :: submission where
  "demo_row = new_row demo_hash ''now'' 1 (demo_request (CHR ''a''))"

definition demo_db1 :: db where
  "demo_db1 = demo_db\<lparr>web_submissions := [demo_row], web_seq := 1\<rparr>"

lemma demo_enqueue:
  "enqueue_web_submission demo_hash ''now'' (demo_request (CHR ''a'')) demo_db = Inr ((demo_row, False), demo_db1)"
  by code_simp

lemma demo_db1_wf: "web_wf demo_db1"
  by (rule web_change_wf [OF enqueue_change [OF demo_enqueue] demo_db_wf])

definition tokA :: string where "tokA = replicate 32 (CHR ''a'')"
definition tokB :: string where "tokB = replicate 32 (CHR ''b'')"

definition demo_ops :: "web_op list" where
  "demo_ops = [OtherTables [demo_contest], Enqueue ''now'' (demo_request (CHR ''a'')),
     Enqueue ''now'' (demo_request (CHR ''b'')), Claim tokA 1 45 None None None,
     MarkFailed 1 tokA ''rejected'' None False None, Claim tokB 2 45 None None None,
     MarkSubmitted 2 tokB ''r2'' 3]"

definition demo_db2 :: db where
  "demo_db2 = history (web_step demo_hash) demo_ops empty_db"

lemma demo_db2_wf: "web_wf demo_db2"
  unfolding demo_db2_def by (rule outbox.history_inv [OF web_wf_empty])

definition demo_failed :: submission where
  "demo_failed = set_web (SetFailed PermanentFailed 0 ''rejected'' 0)
     (set_web (SetSending 46 tokA) demo_row)"

definition demo_submitted :: submission where
  "demo_submitted = set_web (SetSubmitted ''r2'' ''1970-01-01T00:00:03Z'')
     (set_web (SetSending 47 tokB) (new_row demo_hash ''now'' 2 (demo_request (CHR ''b''))))"

lemma demo_db2_rows: "web_submissions demo_db2 = [demo_failed, demo_submitted]"
  by code_simp

lemma demo_requests: "request_error (demo_request (CHR ''a'')) = None"
    "request_error ((demo_request (CHR ''a''))\<lparr>q_source := ''other''\<rparr>) = None"
  by code_simp+

lemma demo_accepts: "accepts (demo_request (CHR ''a'')) demo_db1"
    "accepts ((demo_request (CHR ''a''))\<lparr>q_source := ''other''\<rparr>) demo_db1"
  by code_simp+

section \<open>Helper facts\<close>

lemma empty_wf_fifo: "web_wf empty_db" "fifo empty_db"
  by (rule web_wf_empty) (simp add: fifo_def empty_db_def)

lemma nonce_lookup:
  assumes "web_wf d" and "r \<in> set (web_submissions d)" and "w_submission_id r \<noteq> []"
  shows "get_web_submission_by_nonce (w_tid r) (w_uid r) (w_problem r) (w_client_nonce r) d = Some r"
proof -
  let ?q = "\<lambda>x. w_tid x = w_tid r \<and> w_uid x = w_uid r \<and> w_problem x = w_problem r
    \<and> w_client_nonce x = w_client_nonce r"
  have "find ?q (web_submissions d) \<noteq> None" using assms(2) by (auto simp: find_None_iff)
  then obtain x where x: "find ?q (web_submissions d) = Some x" by blast
  then have m: "x \<in> set (web_submissions d)" "?q x" using find_Some_iff_mem [OF x] by auto
  have "w_client_nonce r \<noteq> []" using web_wf_row [OF assms(1,2)] assms(3) by (auto simp: row_ok_def)
  then have "w_submission_id x \<noteq> []" using web_wf_row [OF assms(1) m(1)] m(2) by (auto simp: row_ok_def)
  moreover have "inj_on nonce_key (set (remote (web_submissions d)))"
    using assms(1) by (simp add: web_wf_def distinct_map)
  moreover have "nonce_key x = nonce_key r" using m(2) by (simp add: nonce_key_def lane_def)
  ultimately have "x = r" using m(1) assms(2,3) by (auto simp: remote_def dest: inj_onD)
  with x show ?thesis by (simp add: get_web_submission_by_nonce_def)
qed

lemma enqueue_payload:
  assumes "enqueue_web_submission H dt q d = Inr ((r, b), d1)"
  shows "r \<in> set (web_submissions d1)" "same_payload H q r" "request_error q = None"
proof -
  show "r \<in> set (web_submissions d1)" "same_payload H q r"
    using assms by (cases rule: enqueue_cases; simp add: same_payload_def new_row_def)+
  show "request_error q = None"
    using assms by (auto simp: enqueue_web_submission_def split: option.splits)
qed

lemma same_payload_le: "same_payload H q r \<Longrightarrow> payload_of r' = payload_of r \<Longrightarrow> same_payload H q r'"
  by (simp add: same_payload_def payload_of_def)

lemma enqueue_known_nonce:
  assumes "accepts q d" and "request_error q = None"
    and "get_web_submission_by_nonce (q_tid q) (q_uid q) (q_problem q) (q_client_nonce q) d = Some r"
  shows "enqueue_web_submission H dt q d = checked_replay H q r d"
  using assms
  by (auto simp: enqueue_web_submission_def accepts_def split: option.splits)

lemma delivery_count_of:
  assumes "s \<in> set health_states"
  shows "map_of (delivery_counts rows) s
    = Some (int (rowcount (\<lambda>r. w_judge_state r = s) (remote rows)))"
  using assms
  by (auto simp: delivery_counts_def Let_def health_states_def remote_def)

lemma leased_update_one:
  assumes "web_wf d" and "get_web_submission i d = Some r" and "leased i tok r"
  shows "\<exists>d'. update_one e i (leased i tok) u d = Inr (set_web u r, d')
    \<and> get_web_submission i d' = Some (set_web u r)"
proof -
  have p: "w_id x = i" if "leased i tok x" for x using that by (simp add: leased_def)
  have "update_one e i (leased i tok) u d = Inr (set_web u r, update_web (\<lambda>x. w_id x = i) u d)"
    using update_one_eq [OF assms(1), of "leased i tok" i e u, OF p] assms(2,3) by simp
  moreover have "get_web_submission i (update_web (\<lambda>x. w_id x = i) u d) = Some (set_web u r)"
    using assms(2) by (simp add: get_web_submission_def web.lookup_update)
  ultimately show ?thesis by blast
qed

section \<open>Properties\<close>

text \<open>C18: After any interleaving of enqueues, claims, completions, resolutions, requeues and changes
  of the contests table, started on the empty database: row ids increase, no two remote rows share a
  browser nonce in a lane or an idempotency id, and every row's state agrees with its record id,
  lease token and attempt count.\<close>

theorem outbox_invariant: "web_wf (history (web_step H) ops empty_db)"
  by (rule outbox.history_inv [OF web_wf_empty])


text \<open>C19: While nothing is requeued a lane is worked in order: once a row has been attempted, every
  older row of its contest, student and problem is submitted, permanently failed or local-only.\<close>

theorem lane_in_order:
  assumes "list_all (\<lambda>c. \<not> is_requeue c) ops" and "d = history (web_step H) ops empty_db"
    and "r \<in> set (web_submissions d)" and "older \<in> set (web_submissions d)"
    and "lane older = lane r" and "w_id older < w_id r" and "0 < w_attempts r"
  shows "w_judge_state older \<in> {Submitted, PermanentFailed, Local}"
proof -
  have "fifo d" unfolding assms(2) by (rule fifo_history [OF empty_wf_fifo assms(1)])
  then show ?thesis using assms(3-) by (auto simp: fifo_def settled_def)
qed

text \<open>Retrying an accepted browser request, at any later time, with any receipt time and even when
  new submissions are no longer allowed, returns the row of the first receipt and stores nothing, as
  long as the contest row still has the same session and problem mapping.\<close>

theorem enqueue_retry_replays:
  assumes "web_wf d" and "enqueue_web_submission H dt q d = Inr ((r, b), d1)"
    and "d2 = history (web_step H) ops d1" and "accepts q d2" and "0 < accepted"
  shows "\<exists>r'. enqueue_web_submission H dt' (q\<lparr>q_accepted_at_ms := accepted, q_allow_new := allow\<rparr>) d2
       = Inr ((r', True), d2) \<and> w_id r' = w_id r \<and> w_accepted_at_ms r' = w_accepted_at_ms r"
proof -
  note e = enqueue_payload [OF assms(2)]
  let ?q = "q\<lparr>q_accepted_at_ms := accepted, q_allow_new := allow\<rparr>"
  have wf1: "web_wf d1" by (rule web_change_wf [OF enqueue_change [OF assms(2)] assms(1)])
  have wf2: "web_wf d2" unfolding assms(3) by (rule outbox.history_inv [OF wf1])
  obtain r' where r': "get_web_submission (w_id r) d2 = Some r'" "row_le r r'"
    using web_history_row [OF wf1 e(1)] assms(3) by metis
  then have pay: "payload_of r' = payload_of r" by (simp add: row_le_def)
  have mem: "r' \<in> set (web_submissions d2)" using get_web_mem [OF wf2] r'(1) by blast
  have same: "same_payload H ?q r'"
    using same_payload_le [OF e(2) pay] by (simp add: same_payload_def issues_json_def)
  have ok: "request_error ?q = None"
    using e(3) assms(5) by (auto simp: request_error_def split: if_splits)
  have "w_submission_id r' \<noteq> []"
    using same request_ok [OF ok] by (auto simp: same_payload_def)
  note nonce_lookup [OF wf2 mem this]
  then have "get_web_submission_by_nonce (q_tid ?q) (q_uid ?q) (q_problem ?q) (q_client_nonce ?q) d2
      = Some r'"
    using same by (simp add: same_payload_def)
  note this = enqueue_known_nonce [OF _ ok this, of H dt']
  moreover have "accepts ?q d2"
    using assms(4) by (auto simp: accepts_def split: option.splits)
  ultimately have "enqueue_web_submission H dt' ?q d2 = checked_replay H ?q r' d2" by blast
  then show ?thesis using same pay by (auto simp: checked_replay_def payload_of_def)
qed

text \<open>A browser nonce already used in its lane is never reused for another source: the request is
  refused as a conflict.\<close>

theorem nonce_reuse_refused:
  assumes "web_wf d" and "r \<in> set (web_submissions d)" and "w_submission_id r \<noteq> []"
    and "lane r = (q_tid q, q_uid q, q_problem q)" and "w_client_nonce r = q_client_nonce q"
    and "w_source r \<noteq> q_source q" and "accepts q d" and "request_error q = None"
  shows "\<exists>m. enqueue_web_submission H dt q d = Inl (SubmissionConflictError m)"
proof -
  have "get_web_submission_by_nonce (q_tid q) (q_uid q) (q_problem q) (q_client_nonce q) d = Some r"
    using nonce_lookup [OF assms(1-3)] assms(4,5) by (simp add: lane_def)
  from enqueue_known_nonce [OF assms(7,8) this, of H dt] show ?thesis
    using assms(6) by (auto simp: checked_replay_def same_payload_def)
qed

text \<open>A row is created only for a contest in state ready, with the contest's session and problem
  mapping, and inside the frozen OI window when the contest has one; it is appended as pending with the
  next id and nothing else changes.\<close>

theorem new_submission_in_window:
  assumes "enqueue_web_submission H dt q d = Inr ((r, False), d')"
  shows "\<exists>c m. get_contest (q_tid q) d = Some c \<and> c_state c = Ready
     \<and> c_submission_session c = q_submission_session q
     \<and> c_pids c = Some m \<and> map_of m (q_problem q) = Some (q_judge_pid q)
     \<and> (c_begin_at_ms c \<noteq> 0 \<and> c_end_at_ms c \<noteq> 0 \<longrightarrow> c_hydro_rule c = ''oi''
          \<and> c_begin_at_ms c \<le> q_accepted_at_ms q \<and> q_accepted_at_ms q < c_end_at_ms c)
     \<and> r = new_row H dt (web_seq d + 1) q
     \<and> d' = d\<lparr>web_submissions := web_submissions d @ [r], web_seq := web_seq d + 1\<rparr>"
proof -
  have "q_judge_pid q \<noteq> []" using request_ok [OF enqueue_payload(3) [OF assms]] by simp
  then show ?thesis
    using assms
    by (auto simp: enqueue_web_submission_def window_error_def checked_replay_def Let_def
        split: option.splits if_splits)
qed

text \<open>C26: A worker whose lease was taken over can never complete: once another worker has claimed the
  row under a different token, whatever operations follow (other than a claim that draws the old token
  again), the old worker's success or failure report is refused, while the new holder's success report
  is accepted.\<close>

theorem stale_worker_refused:
  assumes "web_wf d" and "tokA \<noteq> []" and "tokB \<noteq> tokA"
    and "claim_next_web_submission tokB now secs tid u prob d = Inr (Some r, d1)"
    and "list_all (\<lambda>c. claim_token c \<noteq> Some tokA) ops" and "d2 = history (web_step H) ops d1"
    and "rid \<noteq> []"
  shows "mark_web_submission_submitted (w_id r) tokA rid t d2
       = Inl (SubmissionLeaseLostError ''submission delivery lease was lost'')
    \<and> (\<exists>e. mark_web_submission_failed (w_id r) tokA err retry amb after d2 = Inl e)
    \<and> (\<exists>d3 r'. mark_web_submission_submitted (w_id r) tokB rid t d1 = Inr (r', d3)
       \<and> w_judge_state r' = Submitted \<and> w_rid r' = rid \<and> get_web_submission (w_id r) d3 = Some r')"
proof (intro conjI)
  have secs: "0 < secs" using assms(4) by (auto simp: claim_next_web_submission_def split: if_splits)
  obtain r0 where r0: "claimable now tid u prob d = Some r0"
    "r = set_web (SetSending (now + secs) tokB) r0"
    "d1 = update_web (\<lambda>x. w_id x = w_id r0) (SetSending (now + secs) tokB) d"
    using assms(4) by (auto simp: claim_eq [OF assms(1) secs] split: option.splits)
  have id: "w_id r = w_id r0" unfolding r0(2) by (simp del: set_web.simps)
  have wf1: "web_wf d1"
    using web_change_wf [OF web_claim [OF r0(1), of "Claim tokB now secs tid u prob"] assms(1)] r0(3)
    by simp
  have get1: "get_web_submission (w_id r) d1 = Some r"
    using claimable_mem [OF r0(1)] get_web_mem [OF assms(1), of "w_id r0" r0]
    unfolding r0(3) id by (simp add: get_web_submission_def web.lookup_update r0(2))
  have mem1: "r \<in> set (web_submissions d1)" using get1 get_web_mem [OF wf1] by blast
  have "w_lease_token r = tokB" by (simp add: r0(2))
  then have "not_leased_to (w_id r) tokA d1"
    using assms(3) web_id_inj [OF wf1 mem1] unfolding not_leased_to_def by metis
  then have lost: "not_leased_to (w_id r) tokA d2"
    unfolding assms(6) by (rule not_leased_history [OF wf1 assms(2,5)])
  from not_leased_update_one [OF lost] assms(7)
  show "mark_web_submission_submitted (w_id r) tokA rid t d2
       = Inl (SubmissionLeaseLostError ''submission delivery lease was lost'')"
    by (simp add: mark_web_submission_submitted_def)
  from not_leased_update_one [OF lost]
  show "\<exists>e. mark_web_submission_failed (w_id r) tokA err retry amb after d2 = Inl e"
    by (simp add: mark_web_submission_failed_def)
  have "leased (w_id r) tokB r" by (simp add: leased_def r0(2))
  then show "\<exists>d3 r'. mark_web_submission_submitted (w_id r) tokB rid t d1 = Inr (r', d3)
       \<and> w_judge_state r' = Submitted \<and> w_rid r' = rid \<and> get_web_submission (w_id r) d3 = Some r'"
    using leased_update_one [OF wf1 get1 \<open>leased (w_id r) tokB r\<close>,
        of "SubmissionLeaseLostError ''submission delivery lease was lost''"
           "SetSubmitted rid (iso_utc t)"] assms(7)
    by (auto simp: mark_web_submission_submitted_def)
qed

text \<open>C20: A delivery with an unknown outcome is never sent again: after any operations the row has been
  attempted no further, it is still ambiguous or was resolved to submitted, no claim returns it, and
  while it is ambiguous no claim returns a later row of its lane.\<close>

theorem ambiguous_never_redelivered:
  assumes "web_wf d" and "get_web_submission i d = Some r" and "w_judge_state r = Ambiguous"
    and "d1 = history (web_step H) ops d"
  shows "\<exists>r'. get_web_submission i d1 = Some r' \<and> w_attempts r' = w_attempts r
     \<and> w_judge_state r' \<in> {Ambiguous, Submitted}
     \<and> (\<forall>tok now secs tid u prob x d2.
          claim_next_web_submission tok now secs tid u prob d1 = Inr (Some x, d2) \<longrightarrow>
          w_id x \<noteq> i \<and> (w_judge_state r' = Ambiguous \<and> lane x = lane r \<longrightarrow> w_id x < i))"
proof -
  have r: "r \<in> set (web_submissions d)" "w_id r = i" using assms(2) get_web_mem [OF assms(1)] by auto
  have wf1: "web_wf d1" unfolding assms(4) by (rule outbox.history_inv [OF assms(1)])
  obtain r' where r': "get_web_submission i d1 = Some r'" "row_le r r'"
    using web_history_row [OF assms(1) r(1)] r(2) assms(4) by metis
  then have mem: "r' \<in> set (web_submissions d1)" "w_id r' = i" using get_web_mem [OF wf1] by auto
  have st: "w_judge_state r' \<in> {Ambiguous, Submitted}" "w_attempts r' = w_attempts r" "lane r' = lane r"
    using r'(2) assms(3) by (auto simp: row_le_def payload_of_def lane_def)
  have "w_id x \<noteq> i \<and> (w_judge_state r' = Ambiguous \<and> lane x = lane r \<longrightarrow> w_id x < i)"
    if c: "claim_next_web_submission tok now secs tid u prob d1 = Inr (Some x, d2)"
    for tok now secs tid u prob x d2
  proof -
    have secs: "0 < secs" using c by (auto simp: claim_next_web_submission_def split: if_splits)
    obtain x0 where x0: "claimable now tid u prob d1 = Some x0"
      and x: "x = set_web (SetSending (now + secs) tok) x0"
      using c by (auto simp: claim_eq [OF wf1 secs] split: option.splits)
    have same: "w_id x = w_id x0" "lane x = lane x0" unfolding x by (simp_all del: set_web.simps)
    note m = claimable_mem [OF x0]
    have ne: "w_id x0 \<noteq> i"
      using web_id_inj [OF wf1 mem(1), of x0] m mem(2) st(1) due_state [of now x0] by auto
    have "w_id x0 < i" if "w_judge_state r' = Ambiguous" "lane x0 = lane r"
    proof (rule ccontr)
      assume "\<not> w_id x0 < i"
      then have "older_unfinished (web_submissions d1) x0"
        using ne that mem st(3) by (auto simp: older_unfinished_def list_ex_iff unfinished_def)
      then show False using m by simp
    qed
    with ne same show ?thesis by simp
  qed
  with r'(1) st show ?thesis by blast
qed

text \<open>A claim leases the due row of smallest id that matches the filters and is not behind an
  unfinished row of its lane, with the new token and lease and one more attempt; it returns nothing
  exactly when there is no such row.\<close>

theorem claim_takes_oldest_due:
  assumes "web_wf d" and "0 < secs"
  shows "\<exists>res d'. claim_next_web_submission tok now secs tid u prob d = Inr (res, d') \<and> (case res of
      None \<Rightarrow> d' = d \<and> (\<forall>x \<in> set (web_submissions d). due now x \<and> filter_ok tid (w_tid x)
        \<and> filter_ok u (w_uid x) \<and> filter_ok prob (w_problem x) \<longrightarrow> older_unfinished (web_submissions d) x)
    | Some r' \<Rightarrow> \<exists>r \<in> set (web_submissions d). due now r \<and> \<not> older_unfinished (web_submissions d) r
        \<and> filter_ok tid (w_tid r) \<and> filter_ok u (w_uid r) \<and> filter_ok prob (w_problem r)
        \<and> r' = r\<lparr>w_judge_state := Sending, w_attempts := w_attempts r + 1,
                 w_lease_until := now + secs, w_lease_token := tok\<rparr>
        \<and> get_web_submission (w_id r) d' = Some r'
        \<and> (\<forall>j. j \<noteq> w_id r \<longrightarrow> get_web_submission j d' = get_web_submission j d)
        \<and> (\<forall>x \<in> set (web_submissions d). due now x \<and> filter_ok tid (w_tid x) \<and> filter_ok u (w_uid x)
             \<and> filter_ok prob (w_problem x) \<and> \<not> older_unfinished (web_submissions d) x
             \<longrightarrow> w_id r \<le> w_id x))"
proof (cases "claimable now tid u prob d")
  case None
  then have "\<forall>x \<in> set (web_submissions d). due now x \<and> filter_ok tid (w_tid x)
      \<and> filter_ok u (w_uid x) \<and> filter_ok prob (w_problem x) \<longrightarrow> older_unfinished (web_submissions d) x"
    unfolding claimable_def first_by_id_None filter_empty_conv by blast
  moreover have "claim_next_web_submission tok now secs tid u prob d = Inr (None, d)"
    using None by (simp add: claim_eq [OF assms])
  ultimately show ?thesis by auto
next
  case (Some r)
  note m = claimable_mem [OF Some]
  let ?u = "SetSending (now + secs) tok" and ?d = "update_web (\<lambda>x. w_id x = w_id r) (SetSending (now + secs) tok) d"
  have get0: "get_web_submission (w_id r) d = Some r" using m get_web_mem [OF assms(1)] by auto
  have least: "w_id r \<le> w_id x" if "x \<in> set (web_submissions d)" "due now x"
    "filter_ok tid (w_tid x)" "filter_ok u (w_uid x)" "filter_ok prob (w_problem x)"
    "\<not> older_unfinished (web_submissions d) x" for x
    using first_by_id_least [OF Some [unfolded claimable_def]] that by simp
  have claim: "claim_next_web_submission tok now secs tid u prob d = Inr (Some (set_web ?u r), ?d)"
    using Some by (simp add: claim_eq [OF assms])
  have other: "get_web_submission j ?d = get_web_submission j d" if "j \<noteq> w_id r" for j
    using that by (simp add: get_web_submission_def web.lookup_update_other)
  have this_row: "get_web_submission (w_id r) ?d = Some (set_web ?u r)"
    using get0 by (simp add: get_web_submission_def web.lookup_update)
  show ?thesis
    by (intro exI [of _ "Some (set_web ?u r)"] exI [of _ ?d] conjI claim, unfold option.case,
        rule bexI [of _ r]) (use m least other this_row in auto)
qed

text \<open>A contest's delivery health is safe exactly when every tracked submission of the contest is
  submitted with a record id.\<close>

theorem delivery_health_exact:
  assumes "web_wf d"
  shows "snd (snd (contest_delivery_health tid d)) \<longleftrightarrow>
    (\<forall>r \<in> set (web_submissions d). w_tid r = tid \<and> w_submission_id r \<noteq> [] \<longrightarrow>
       w_judge_state r = Submitted \<and> w_rid r \<noteq> [])"
proof -
  let ?rows = "remote (filter (\<lambda>r. w_tid r = tid) (web_submissions d))"
  have count: "map_of (delivery_counts (filter (\<lambda>r. w_tid r = tid) (web_submissions d))) s
      = Some (int (rowcount (\<lambda>r. w_judge_state r = s) ?rows))" if "s \<in> set waiting_states" for s
    using that by (intro delivery_count_of) (auto simp: waiting_states_def health_states_def)
  have sums: "map (\<lambda>s. case map_of (delivery_counts (filter (\<lambda>r. w_tid r = tid) (web_submissions d))) s of
        None \<Rightarrow> 0 | Some n \<Rightarrow> n) waiting_states
      = map (\<lambda>s. int (rowcount (\<lambda>r. w_judge_state r = s) ?rows)) waiting_states"
    by (rule map_cong) (simp_all add: count)
  have "snd (snd (contest_delivery_health tid d)) \<longleftrightarrow>
      (\<forall>s \<in> set waiting_states. rowcount (\<lambda>r. w_judge_state r = s) ?rows = 0)"
    unfolding contest_delivery_health_def Let_def snd_conv sums
    by (simp add: waiting_states_def, arith)
  also have "\<dots> \<longleftrightarrow> (\<forall>r \<in> set ?rows. w_judge_state r \<notin> set waiting_states)"
    by (auto simp: rowcount_0)
  also have "\<dots> \<longleftrightarrow> (\<forall>r \<in> set ?rows. w_judge_state r = Submitted)"
  proof (intro ball_cong refl)
    fix r assume "r \<in> set ?rows"
    then have "w_judge_state r \<noteq> Local"
      using web_wf_row [OF assms, of r] by (auto simp: remote_def row_ok_def)
    then show "w_judge_state r \<notin> set waiting_states \<longleftrightarrow> w_judge_state r = Submitted"
      by (cases "w_judge_state r") (simp_all add: waiting_states_def)
  qed
  finally show ?thesis using web_wf_row [OF assms] by (auto simp: remote_def row_ok_def)
qed

text \<open>A requeue for the final collection does not keep the order of a lane: after the older
  submission was rejected for good and the newer one submitted, requeueing the older one makes it
  pending again, and the next claim sends it after the newer one.\<close>

theorem requeue_breaks_lane_order:
  "\<exists>ops d newer older res d'. d = history (web_step demo_hash) ops empty_db
     \<and> web_submissions d = [older, newer] \<and> lane older = lane newer \<and> w_id older < w_id newer
     \<and> w_judge_state newer = Submitted \<and> w_judge_state older = Pending
     \<and> claim_next_web_submission tokA 4 45 None None None d = Inr (Some res, d') \<and> w_id res = w_id older"
proof -
  let ?d = "history (web_step demo_hash) (demo_ops @ [Requeue 1]) empty_db"
  have d: "?d = attempt (web_step demo_hash) (Requeue 1) demo_db2"
    by (simp add: history_append demo_db2_def)
  have req: "requeued demo_failed demo_failed" "\<not> requeued demo_failed demo_submitted"
    "w_id demo_failed = 1" "w_id demo_submitted = 2" "w_judge_state demo_failed = PermanentFailed"
    "w_submission_id demo_failed \<noteq> []" "w_judge_state demo_submitted = Submitted"
    "lane demo_failed = lane demo_submitted"
    by code_simp+
  have rows: "web_submissions ?d = [set_web SetFinal demo_failed, demo_submitted]"
    unfolding d using req demo_db2_rows
    by (simp add: attempt_def requeue_web_submission_for_final_def get_web_submission_def
        del: set_web.simps)
  have wf: "web_wf ?d" by (rule outbox.history_inv [OF web_wf_empty])
  have "due 4 (set_web SetFinal demo_failed)" by code_simp
  moreover have "\<not> due 4 demo_submitted" by code_simp
  moreover have "\<not> older_unfinished [set_web SetFinal demo_failed, demo_submitted]
      (set_web SetFinal demo_failed)"
    using req by (simp add: older_unfinished_def)
  ultimately have "claimable 4 None None None ?d = Some (set_web SetFinal demo_failed)"
    by (simp add: claimable_def rows filter_ok_def first_by_id_def del: set_web.simps)
  then show ?thesis
    using req rows claim_eq [OF wf, of 45 tokA 4 None None None]
    by (intro exI [of _ "demo_ops @ [Requeue 1]"] exI [of _ ?d]) (simp add: lane_def)
qed

text \<open>A requeue for the final collection makes the target and every delivered-or-failing row before
  it in the lane pending for final delivery without a lease, leaves submitted, ambiguous, later and
  foreign rows alone, and locks out every worker that held a lease on the requeued rows until a new
  claim draws its token again.\<close>

theorem requeue_prepares_final:
  assumes "web_wf d" and "get_web_submission i d = Some t"
    and "w_judge_state t \<in> {Pending, Retry, Sending, PermanentFailed}"
    and "requeue_web_submission_for_final i d = Inr (t', d')"
    and "r \<in> set (web_submissions d)" and "tok \<noteq> []"
    and "list_all (\<lambda>c. claim_token c \<noteq> Some tok) ops"
  shows "get_web_submission (w_id r) d' = Some (if requeued t r then r\<lparr>w_judge_state := Pending,
       w_judge_kind := Final, w_next_retry_at := 0, w_lease_until := 0, w_lease_token := []\<rparr> else r)
     \<and> requeued t t
     \<and> (requeued t r \<longrightarrow>
          mark_web_submission_submitted (w_id r) tok ''rid'' now (history (web_step H) ops d')
            = Inl (SubmissionLeaseLostError ''submission delivery lease was lost''))"
proof -
  have t: "t \<in> set (web_submissions d)" "w_id t = i" using assms(2) get_web_mem [OF assms(1)] by auto
  have d': "d' = update_web (requeued t) SetFinal d" and sid: "w_submission_id t \<noteq> []"
    using assms(2,3,4)
    by (auto simp: requeue_web_submission_for_final_def Let_def split: if_splits)
  have "get_web_submission (w_id r) d = Some r" using get_web_mem [OF assms(1)] assms(5) by blast
  then have row: "get_web_submission (w_id r) d' = Some (if requeued t r then set_web SetFinal r else r)"
    unfolding d' get_web_submission_def web_update_simps
    by (subst find_sql_update) (simp_all del: set_web.simps)
  have wf': "web_wf d'"
    by (rule web_change_wf [OF requeue_change [OF assms(4), of "Requeue i"] assms(1)]) simp
  have "mark_web_submission_submitted (w_id r) tok ''rid'' now (history (web_step H) ops d')
      = Inl (SubmissionLeaseLostError ''submission delivery lease was lost'')" if "requeued t r"
  proof -
    have mem: "set_web SetFinal r \<in> set (web_submissions d')"
      using row that get_web_mem [OF wf'] by auto
    have "w_lease_token x \<noteq> tok" if "x \<in> set (web_submissions d')" "w_id x = w_id r" for x
      using web_id_inj [OF wf' mem that(1)] that(2) assms(6) by simp
    then have "not_leased_to (w_id r) tok d'" by (simp add: not_leased_to_def)
    from not_leased_history [OF wf' assms(6,7) this] not_leased_update_one
    show ?thesis by (simp add: mark_web_submission_submitted_def)
  qed
  then show ?thesis using row t(2) assms(3) sid by (auto simp: requeued_def)
qed

section \<open>Witnesses\<close>

definition demo_db0 :: db where
  "demo_db0 = demo_db1\<lparr>web_submissions := [set_web (SetFailed Ambiguous 0 ''timeout'' 40)
     (set_web (SetSending 46 tokA) demo_row)]\<rparr>"

lemma demo_row_facts:
  "w_id demo_row = 1" "lane demo_row = (''t'', 7, ''a'')" "w_submission_id demo_row \<noteq> []"
  "w_client_nonce demo_row = ''a''" "w_source demo_row = ''a''" "w_judge_state demo_row = Pending"
  "w_attempts demo_row = 0" "due 1 demo_row" "web_submissions demo_db1 = [demo_row]"
  "get_web_submission 1 demo_db1 = Some demo_row"
  by (simp_all add: demo_row_def new_row_def demo_request_def lane_def due_def demo_db1_def
      get_web_submission_def)

lemma demo_claimable: "claimable 1 None None None demo_db1 = Some demo_row"
  using demo_row_facts by (simp add: claimable_def first_by_id_def older_unfinished_def filter_ok_def)

lemma demo_db0_wf: "web_wf demo_db0"
proof -
  let ?ops = "[Claim tokA 1 45 None None None, MarkFailed 1 tokA ''timeout'' None True (Some 40)]"
  have "demo_db0 = history (web_step demo_hash) ?ops demo_db1" by code_simp
  then show ?thesis using outbox.history_inv [OF demo_db1_wf, of demo_hash ?ops] by metis
qed


theorem lane_in_order_witness: "w_judge_state demo_failed \<in> {Submitted, PermanentFailed, Local}"
proof (rule lane_in_order [of demo_ops demo_db2 demo_hash demo_submitted])
  show "list_all (\<lambda>c. \<not> is_requeue c) demo_ops" by (simp add: demo_ops_def)
  show "demo_db2 = history (web_step demo_hash) demo_ops empty_db" by (rule demo_db2_def)
  show "lane demo_failed = lane demo_submitted" "w_id demo_failed < w_id demo_submitted"
    "0 < w_attempts demo_submitted"
    by code_simp+
qed (simp_all add: demo_db2_rows)

theorem enqueue_retry_replays_witness:
  "\<exists>d2 r'. d2 = history (web_step demo_hash) [OtherTables [demo_contest\<lparr>c_state := Collecting\<rparr>]] demo_db1
     \<and> enqueue_web_submission demo_hash ''later''
         ((demo_request (CHR ''a''))\<lparr>q_accepted_at_ms := 999, q_allow_new := False\<rparr>) d2
       = Inr ((r', True), d2) \<and> w_id r' = 1 \<and> w_accepted_at_ms r' = 150"
proof -
  let ?d2 = "history (web_step demo_hash) [OtherTables [demo_contest\<lparr>c_state := Collecting\<rparr>]] demo_db1"
  have "accepts (demo_request (CHR ''a'')) ?d2" by code_simp
  from enqueue_retry_replays [OF demo_db_wf demo_enqueue refl this, of 999 "''later''" False]
  show ?thesis by (auto simp: demo_row_def new_row_def demo_request_def)
qed

theorem nonce_reuse_refused_witness:
  "\<exists>m. enqueue_web_submission demo_hash ''later'' ((demo_request (CHR ''a''))\<lparr>q_source := ''other''\<rparr>) demo_db1
     = Inl (SubmissionConflictError m)"
  by (rule nonce_reuse_refused [OF demo_db1_wf, of demo_row])
    (use demo_row_facts demo_requests demo_accepts in \<open>simp_all add: demo_request_def\<close>)

theorem new_submission_in_window_witness:
  "\<exists>c. get_contest ''t'' demo_db = Some c \<and> c_begin_at_ms c \<le> 150 \<and> 150 < c_end_at_ms c"
proof -
  obtain c where c: "get_contest ''t'' demo_db = Some c" "c_begin_at_ms c \<noteq> 0 \<and> c_end_at_ms c \<noteq> 0 \<longrightarrow>
      c_begin_at_ms c \<le> 150 \<and> 150 < c_end_at_ms c"
    using new_submission_in_window [OF demo_enqueue] by (auto simp: demo_request_def)
  moreover have "get_contest ''t'' demo_db = Some demo_contest" by code_simp
  ultimately show ?thesis by (auto simp: demo_contest_def)
qed

theorem stale_worker_refused_witness:
  "\<exists>r d1. claim_next_web_submission tokB 1 45 None None None demo_db1 = Inr (Some r, d1)
     \<and> mark_web_submission_submitted (w_id r) tokA ''rid'' 5 (history (web_step demo_hash) [Requeue 1] d1)
       = Inl (SubmissionLeaseLostError ''submission delivery lease was lost'')"
proof -
  obtain r d1 where c: "claim_next_web_submission tokB 1 45 None None None demo_db1 = Inr (Some r, d1)"
    using claim_eq [OF demo_db1_wf, of 45 tokB 1 None None None] demo_claimable by simp
  have "tokA \<noteq> []" "tokB \<noteq> tokA" by (simp_all add: tokA_def tokB_def)
  from stale_worker_refused [OF demo_db1_wf this c, of "[Requeue 1]" _ demo_hash "''rid''" 5]
  have "mark_web_submission_submitted (w_id r) tokA ''rid'' 5 (history (web_step demo_hash) [Requeue 1] d1)
      = Inl (SubmissionLeaseLostError ''submission delivery lease was lost'')" by simp
  with c show ?thesis by blast
qed

theorem ambiguous_never_redelivered_witness:
  "\<exists>r'. get_web_submission 1 (history (web_step demo_hash)
       [ClaimAmbiguous 50 30, Requeue 1, Claim tokB 99 45 None None None] demo_db0) = Some r'
     \<and> w_attempts r' = 1 \<and> w_judge_state r' \<in> {Ambiguous, Submitted}"
proof -
  let ?r = "set_web (SetFailed Ambiguous 0 ''timeout'' 40) (set_web (SetSending 46 tokA) demo_row)"
  have "get_web_submission 1 demo_db0 = Some ?r" "w_judge_state ?r = Ambiguous" "w_attempts ?r = 1"
    using demo_row_facts by (simp_all add: demo_db0_def get_web_submission_def)
  from ambiguous_never_redelivered [OF demo_db0_wf this(1,2) refl, of demo_hash
      "[ClaimAmbiguous 50 30, Requeue 1, Claim tokB 99 45 None None None]"] this(3)
  show ?thesis by metis
qed

theorem claim_takes_oldest_due_witness:
  "\<exists>r d'. claim_next_web_submission tokA 1 45 None None None demo_db1 = Inr (Some r, d') \<and> w_id r = 1"
proof -
  obtain r' d' where c: "claim_next_web_submission tokA 1 45 None None None demo_db1 = Inr (Some r', d')"
    using claim_eq [OF demo_db1_wf, of 45 tokA 1 None None None] demo_claimable by simp
  have "\<exists>r \<in> set (web_submissions demo_db1). get_web_submission (w_id r) d' = Some r'"
    using claim_takes_oldest_due [OF demo_db1_wf, of 45 tokA 1 None None None] by (simp add: c) blast
  then have "get_web_submission 1 d' = Some r'" using demo_row_facts by simp
  then have "w_id r' = 1" by (auto simp: get_web_submission_def dest: find_Some_iff_mem)
  with c show ?thesis by blast
qed

theorem delivery_health_exact_witness: "\<not> snd (snd (contest_delivery_health ''t'' demo_db1))"
  using delivery_health_exact [OF demo_db1_wf, of "''t''"] demo_row_facts by (simp add: lane_def)

theorem requeue_prepares_final_witness:
  "\<exists>t' d'. requeue_web_submission_for_final 1 demo_db1 = Inr (t', d')
     \<and> mark_web_submission_submitted 1 tokA ''rid'' 9 (history (web_step demo_hash) [] d')
       = Inl (SubmissionLeaseLostError ''submission delivery lease was lost'')"
proof -
  have q: "requeued demo_row demo_row" using demo_row_facts by (simp add: requeued_def)
  obtain t' d' where r: "requeue_web_submission_for_final 1 demo_db1 = Inr (t', d')"
  proof -
    have "case requeue_web_submission_for_final 1 demo_db1 of Inl e \<Rightarrow> False | Inr x \<Rightarrow> True" by code_simp
    then show thesis using that by (auto split: sum.splits)
  qed
  have "mark_web_submission_submitted (w_id demo_row) tokA ''rid'' 9 (history (web_step demo_hash) [] d')
      = Inl (SubmissionLeaseLostError ''submission delivery lease was lost'')"
    using requeue_prepares_final [OF demo_db1_wf demo_row_facts(10) _ r, of demo_row tokA "[]" 9 demo_hash]
      q demo_row_facts(6,9) by (simp add: tokA_def)
  with r show ?thesis by (auto simp: demo_row_facts(1))
qed

end
