(* ===== verification/RealtimeThms.thy ===== *)
theory RealtimeThms
  imports RealtimeInv OutboxThms
begin

text \<open>
  What delivery to Hydro promises: an attempt never fails, its verdict follows the response, the wait
  for a record id ends and delivers the lane, only an exact answer resolves an ambiguous row, and the
  idempotency ids of distinct submit actions are distinct encodings.
\<close>

section \<open>Properties\<close>

text \<open>C36: One round of the dispatcher never raises, whatever the marker file and Hydro answer and
  whatever other operations run while the request is out: it returns a row or nothing, and the outbox
  stays well-formed and moves forward.\<close>

theorem attempt_never_raises:
  assumes "web_wf d" and "kind \<in> {''final'', ''realtime''}" and "0 < g_lease_seconds g"
    and "x_mid x = history (web_step H) ops"
  shows "\<exists>y d'. process_once g x tid u prob kind d = (Inr y, d') \<and> web_wf d' \<and> web_le d d'"
  by (rule process_once_result [OF assms(1-3)]) (auto simp: mid_ok_def assms(4))

text \<open>C21: When nobody interferes, the claimed row ends as the verdict of its response says: a record id
  makes it submitted; no response, an incomplete acknowledgement, an authentication or rate error or a
  server error schedules a retry after the back-off delay; the plugin's ambiguity error makes it
  ambiguous with a read-only check two seconds later; any other response is a permanent failure. The
  request carries exactly the stored payload and idempotency id.\<close>

theorem row_follows_verdict:
  assumes "web_wf d" and "0 < g_lease_seconds g" and "kind \<in> {''final'', ''realtime''}"
    and "x_mid x = (\<lambda>d. d)" and "x_probe x = NotConfigured"
    and "claim_next_web_submission (x_token x) (x_now x) (g_lease_seconds g) tid u prob d = Inr (Some r, d1)"
  shows "\<exists>r' d'. process_once g x tid u prob kind d = (Inr (Some r'), d')
     \<and> get_web_submission (w_id r) d' = Some r'
     \<and> (case hydro_verdict (x_post x (request_of kind r)) of
          Accepted rid \<Rightarrow> w_judge_state r' = Submitted \<and> w_rid r' = rid
        | TryAgain \<Rightarrow> w_judge_state r' = Retry \<and> w_next_retry_at r' = x_then x + retry_delay g (w_attempts r)
        | Uncertain \<Rightarrow> w_judge_state r' = Ambiguous \<and> w_resolution_after r' = x_then x + 2
        | Refused \<Rightarrow> w_judge_state r' = PermanentFailed)"
proof -
  obtain r0 where r0: "claimable (x_now x) tid u prob d = Some r0"
    "r = set_web (SetSending (x_now x + g_lease_seconds g) (x_token x)) r0"
    "d1 = update_web (\<lambda>y. w_id y = w_id r0) (SetSending (x_now x + g_lease_seconds g) (x_token x)) d"
    using assms(6) by (auto simp: claim_eq [OF assms(1,2)] split: option.splits)
  have wf1: "web_wf d1"
    using web_change_wf [OF web_claim [OF r0(1), of "Claim (x_token x) 0 0 None None None"] assms(1)] r0(3)
    by simp
  have id: "w_id r = w_id r0" unfolding r0(2) by (simp del: set_web.simps)
  have get1: "get_web_submission (w_id r) d1 = Some r"
    using claimable_mem [OF r0(1)] get_web_mem [OF assms(1), of "w_id r0" r0]
    unfolding r0(3) id by (simp add: get_web_submission_def web.lookup_update r0(2))
  have leased: "leased (w_id r) (w_lease_token r) r" by (simp add: leased_def r0(2))
  let ?y = "deliver g (x_probe x) (x_post x) kind r"
  define v where "v = (case delivered ?y of
      Some rid \<Rightarrow> SetSubmitted rid (iso_utc (x_then x))
    | None \<Rightarrow> SetFailed (failed_state (s_ambiguous ?y)
          (if s_retryable ?y then Some (x_then x + retry_delay g (w_attempts r)) else None))
        (if s_retryable ?y then x_then x + retry_delay g (w_attempts r) else 0)
        (take 4000 (error_text (s_error ?y))) (if s_ambiguous ?y then x_then x + 2 else 0))"
  have "report_outcome g (x_then x) r ?y d1 = Inr (set_web v r, update_web (\<lambda>z. w_id z = w_id r) v d1)"
    using report_outcome_row [OF wf1 get1 leased deliver_exclusive, of g "x_then x" g]
    unfolding v_def Let_def .
  then have p: "process_once g x tid u prob kind d
      = (Inr (Some (set_web v r)), update_web (\<lambda>z. w_id z = w_id r) v d1)"
    using assms(3,4) by (simp add: process_once_def assms(6) Let_def del: set_web.simps)
  have g2: "get_web_submission (w_id r) (update_web (\<lambda>z. w_id z = w_id r) v d1) = Some (set_web v r)"
    using get1 by (simp add: get_web_submission_def web.lookup_update)
  show ?thesis
  proof (intro exI conjI, rule p, rule g2)
    show "case hydro_verdict (x_post x (request_of kind r)) of
          Accepted rid \<Rightarrow> w_judge_state (set_web v r) = Submitted \<and> w_rid (set_web v r) = rid
        | TryAgain \<Rightarrow> w_judge_state (set_web v r) = Retry
            \<and> w_next_retry_at (set_web v r) = x_then x + retry_delay g (w_attempts r)
        | Uncertain \<Rightarrow> w_judge_state (set_web v r) = Ambiguous
            \<and> w_resolution_after (set_web v r) = x_then x + 2
        | Refused \<Rightarrow> w_judge_state (set_web v r) = PermanentFailed"
      using deliver_verdict [where post = "x_post x" and kind = kind and r = r and g = g]
      by (cases "hydro_verdict (x_post x (request_of kind r))")
        (simp_all add: assms(5) v_def failed_state_def)
  qed
qed


text \<open>C38: The wait always ends: when every pause sleeps the polling interval or what is left until the
  deadline, it returns or raises within timeout / poll rounds (at least one), whatever Hydro answers and
  whoever interferes, and a returned row is submitted with a record id.\<close>

theorem wait_ends:
  assumes "clock_advances poll (start + timeout) start ticks" and "ticks \<noteq> []"
    and "timeout \<le> of_nat (length ticks) * poll"
  shows "\<exists>v d'. ensure_submitted g i timeout poll start ticks d = Some (v, d')
     \<and> (\<forall>r. v = Inr r \<longrightarrow> w_judge_state r = Submitted \<and> w_rid r \<noteq> [])"
proof (cases "timeout \<le> 0 \<or> poll \<le> 0")
  case True
  then show ?thesis by (auto simp: ensure_submitted_def)
next
  case False
  show ?thesis
  proof (cases "requeue_web_submission_for_final i d")
    case (Inl e)
    with False show ?thesis by (simp add: ensure_submitted_def)
  next
    case (Inr z)
    obtain t d1 where z: "z = (t, d1)" by (cases z)
    have loop: "ensure_submitted g i timeout poll start ticks d = ensure_loop g i (start + timeout) ticks d1"
      using False Inr z by (simp add: ensure_submitted_def)
    have "\<exists>(x, clock) \<in> set ticks. start + timeout \<le> clock"
      using clock_reaches [OF assms(1) _ _ assms(2)] assms(3) False by simp
    then obtain v d' where r: "ensure_loop g i (start + timeout) ticks d1 = Some (v, d')"
      using ensure_loop_ends [of ticks "start + timeout" g i d1] by auto
    then show ?thesis using loop ensure_loop_sound by (cases v) auto
  qed
qed


text \<open>The idempotency ids of two submit actions agree only if the actions agree in session, contest,
  student, problem and browser nonce, or the hash collides on their encodings.\<close>

theorem submit_ids_distinct:
  assumes "realtime_submission_id H s t u p n = realtime_submission_id H s' t' u' p' n'"
  shows "(s, t, u, p, n) = (s', t', u', p', n')
    \<or> (let a = identity_json [''web-v1''] s t u p [n]; b = identity_json [''web-v1''] s' t' u' p' [n']
       in a \<noteq> b \<and> H a = H b)"
proof -
  have ids: "identity_json [''web-v1''] s t u p [n] = identity_json [''web-v1''] s' t' u' p' [n']
      \<longleftrightarrow> (s, t, u, p, n) = (s', t', u', p', n')"
    by (auto simp: identity_json_def quote_ascii_inject int_str_comma_inject quote_ascii_eq)
  have "utf8 (identity_json [''web-v1''] a b c d' [e]) = identity_json [''web-v1''] a b c d' [e]" for a b c d' e
    by (rule utf8_ascii) (simp add: identity_json_def ascii_quote ascii_int_str)
  then show ?thesis using assms ids by (auto simp: realtime_submission_id_def Let_def)
qed

section \<open>Witnesses\<close>

definition demo_judge :: judge where
  "demo_judge = \<lparr>g_lang = ''cc'', g_qualification_marker = [], g_lease_seconds = 45,
     g_retry_delays = default_delays\<rparr>"

definition demo_hydro :: "http_request \<Rightarrow> http_response" where
  "demo_hydro q = Response 200 (Some (JObj [(''rid'', JStr ''r1'')])) ''ok''"

definition demo_env :: attempt_env where
  "demo_env = \<lparr>x_token = tokA, x_now = 1, x_probe = NotConfigured, x_post = demo_hydro,
     x_mid = (\<lambda>d. d), x_then = 2\<rparr>"

lemma demo_accepting: "accepting demo_env"
  by (simp add: accepting_def quiet_def demo_env_def demo_hydro_def)

lemma demo_mid: "x_mid demo_env = history (web_step demo_hash) []"
  by (simp add: demo_env_def fun_eq_iff)

lemma demo_claim: "\<exists>d1. claim_next_web_submission (x_token demo_env) (x_now demo_env)
    (g_lease_seconds demo_judge) None None None demo_db1 = Inr (Some (set_web (SetSending 46 tokA) demo_row), d1)"
  using claim_eq [OF demo_db1_wf, of 45 tokA 1 None None None] demo_claimable
  by (simp add: demo_env_def demo_judge_def del: set_web.simps)

theorem attempt_never_raises_witness:
  "\<exists>y d'. process_once demo_judge demo_env None None None ''realtime'' demo_db1 = (Inr y, d') \<and> web_wf d'"
  using attempt_never_raises [OF demo_db1_wf _ _ demo_mid, of "''realtime''" demo_judge None None None]
  by (auto simp: demo_judge_def)

theorem row_follows_verdict_witness:
  "\<exists>r' d'. process_once demo_judge demo_env None None None ''realtime'' demo_db1 = (Inr (Some r'), d')
     \<and> w_judge_state r' = Submitted \<and> w_rid r' = ''r1''"
proof -
  obtain d1 where c: "claim_next_web_submission (x_token demo_env) (x_now demo_env)
    (g_lease_seconds demo_judge) None None None demo_db1 = Inr (Some (set_web (SetSending 46 tokA) demo_row), d1)"
    using demo_claim by blast
  have "hydro_verdict (x_post demo_env q) = Accepted ''r1''" for q
    by (simp add: demo_env_def demo_hydro_def)
  then show ?thesis
    using row_follows_verdict [OF demo_db1_wf _ _ _ _ c, of "''realtime''"]
    by (auto simp: demo_judge_def demo_env_def)
qed


definition down_env :: attempt_env where
  "down_env = demo_env\<lparr>x_post := (\<lambda>q. NoResponse ''connection refused'')\<rparr>"

theorem wait_ends_witness:
  "\<exists>v d'. ensure_submitted demo_judge 1 10 5 0 [(down_env, 5), (down_env, 10)] demo_db1 = Some (v, d')"
  using wait_ends [of 5 0 10 "[(down_env, 5), (down_env, 10)]"] by (simp del: ensure_submitted_def) blast


theorem submit_ids_distinct_witness:
  "realtime_submission_id (\<lambda>x. x) ''s'' ''t'' 7 ''P1'' ''n1'' \<noteq> realtime_submission_id (\<lambda>x. x) ''s'' ''t'' 7 ''P1'' ''n2''"
  using submit_ids_distinct [of "\<lambda>x. x" "''s''" "''t''" 7 "''P1''" "''n1''" "''s''" "''t''" 7 "''P1''" "''n2''"]
  by (auto simp: Let_def)

end
