(* ===== verification/ContestStore.thy ===== *)
theory ContestStore
  imports StoreState
begin

text \<open>
  The contest rows of \<^verbatim>\<open>orchestrator/services/store.py\<close>: registration, the time source, the problem
  mapping, the selected material, state changes, the safe-wait shutdown, retention, restart recovery and
  the audit trail. \<open>dt\<close> is the local clock text of SQLite, \<open>ms\<close> the clock in milliseconds, \<open>session\<close> the
  fresh token of \<^verbatim>\<open>secrets.token_hex(16)\<close>. Messages written in Chinese are arguments or English glosses.
\<close>

section \<open>The audit trail\<close>

definition add_audit ::
  "string \<Rightarrow> string \<Rightarrow> string \<Rightarrow> string \<Rightarrow> string \<Rightarrow> json \<Rightarrow> int \<Rightarrow> db \<Rightarrow> db" where
  "add_audit dt tid actor action outcome details ms d =
     d\<lparr>audit_events := audit_events d @ [\<lparr>a_id = audit_seq d + 1, a_tid = tid, a_actor = actor,
         a_action = action, a_outcome = outcome, a_details_json = details, a_created_at_ms = ms,
         a_created_at = dt\<rparr>], audit_seq := audit_seq d + 1\<rparr>"

text \<open>\<open>word in text\<close>.\<close>

fun contains :: "string \<Rightarrow> string \<Rightarrow> bool" where
  "contains w [] = (w = [])"
| "contains w (c # cs) = (take (length w) (c # cs) = w \<or> contains w cs)"

definition forbidden_words :: "string list" where
  "forbidden_words = [''password'', ''secret'', ''token'', ''cookie'', ''authorization'', ''source'', ''code'']"

definition detail_value_ok :: "json \<Rightarrow> bool" where
  "detail_value_ok v = (case v of JNull \<Rightarrow> True | JBool b \<Rightarrow> True | JInt i \<Rightarrow> True
     | JStr s \<Rightarrow> length s \<le> 256 | _ \<Rightarrow> False)"

definition audit_details :: "jdict option \<Rightarrow> jdict res" where
  "audit_details details = foldE (\<lambda>cleaned (key, v).
     if \<not> re_head is_lower slug_char 0 63 key then Inl (ValueError ''audit detail key is invalid'')
     else if list_ex (\<lambda>w. contains w key) forbidden_words
     then Inl (ValueError ''audit detail contains a forbidden key'')
     else if detail_value_ok v then Inr (dict_set key v cleaned)
     else Inl (ValueError ''audit detail value is invalid''))
     [] (case details of None \<Rightarrow> [] | Some x \<Rightarrow> x)"

definition action_char :: "char \<Rightarrow> bool" where
  "action_char c \<longleftrightarrow> slug_char c \<or> c = CHR ''.'' \<or> c = CHR ''-''"

definition append_audit ::
  "string \<Rightarrow> string \<Rightarrow> string \<Rightarrow> string \<Rightarrow> string \<Rightarrow> jdict option \<Rightarrow> int \<Rightarrow> db \<Rightarrow> (int \<times> db) res" where
  "append_audit dt actor action outcome tid details ms d =
     (let actor_value = py_strip actor; action_value = py_strip action;
          outcome_value = py_strip outcome; tid_value = py_strip tid in
      if actor_value = [] \<or> length actor_value > 128
         \<or> list_ex (\<lambda>c. of_char c < (32 :: nat)) actor_value
      then Inl (ValueError ''audit actor is invalid'')
      else if \<not> re_head is_lower action_char 1 127 action_value
      then Inl (ValueError ''audit action is invalid'')
      else if outcome_value \<notin> {''requested'', ''accepted'', ''completed'', ''failed''}
      then Inl (ValueError ''audit outcome is invalid'')
      else if tid_value \<noteq> [] \<and> \<not> re_exact is_hex 24 tid_value
      then Inl (ValueError ''audit tid is invalid'')
      else bindE (audit_details details) (\<lambda>payload.
        if ms \<le> 0 then Inl (ValueError ''audit timestamp is invalid'')
        else Inr (audit_seq d + 1,
          add_audit dt tid_value actor_value action_value outcome_value (JObj payload) ms d)))"

text \<open>\<open>ORDER BY a DESC\<close> keeps the order of equal rows, as a stable sort does.\<close>

definition order_desc :: "('r \<Rightarrow> 'k :: linorder) \<Rightarrow> 'r list \<Rightarrow> 'r list" where
  "order_desc k rows = rev (sort_key k (rev rows))"

definition list_audit_events :: "string \<Rightarrow> int \<Rightarrow> db \<Rightarrow> audit_event list res" where
  "list_audit_events tid maximum d =
     (if \<not> (1 \<le> maximum \<and> maximum \<le> 5000) then Inl (ValueError ''audit limit is invalid'')
      else Inr (take (nat maximum) (order_desc a_created_at_ms (order_desc a_id
             (filter (\<lambda>e. tid = [] \<or> a_tid e = tid) (audit_events d))))))"

section \<open>Registration\<close>

text \<open>The row of a first \<open>INSERT\<close>: columns that are not named take the defaults of the schema.\<close>

record registration =
  u_tid :: string
  u_title :: string
  u_files :: "string list"
  u_pids :: "(string \<times> string) list"
  u_submission_mode :: string
  u_begin_at_ms :: int
  u_end_at_ms :: int
  u_hydro_rule :: string
  u_materials_mode :: string
  u_material_state :: string
  u_max_participants :: int
  u_spare_seats :: int
  u_release_lead_minutes :: int
  u_practice_groups :: int

definition new_contest :: "string \<Rightarrow> string \<Rightarrow> registration \<Rightarrow> contest" where
  "new_contest dt session u = \<lparr>c_tid = u_tid u, c_title = u_title u, c_files = Some (u_files u),
     c_pids = Some (u_pids u), c_submission_mode = u_submission_mode u,
     c_submission_session = session, c_paper_name = [], c_paper_sha256 = [], c_paper_size = 0,
     c_testdata_name = [], c_testdata_sha256 = [], c_testdata_size = 0, c_testdata_files = 0,
     c_testdata_expanded_size = 0, c_begin_at_ms = u_begin_at_ms u, c_end_at_ms = u_end_at_ms u,
     c_hydro_rule = u_hydro_rule u, c_materials_mode = u_materials_mode u,
     c_material_state = u_material_state u, c_active_material_revision = [],
     c_material_manifest_sha256 = [], c_max_participants = u_max_participants u,
     c_spare_seats = u_spare_seats u, c_release_lead_minutes = u_release_lead_minutes u,
     c_practice_groups = u_practice_groups u, c_time_sync_at_ms = 0,
     c_time_sync_checked_at_ms = 0, c_time_sync_error = [], c_collection_run_id = [],
     c_collection_dir = [], c_collection_receipt_sha256 = [], c_collection_completed_at_ms = 0,
     c_shutdown_after_ms = 0, c_shutdown_verified_at_ms = 0, c_workspace_purged_at_ms = 0,
     c_evidence_purged_at_ms = 0, c_state = Registered, c_message = [], c_created_at = dt\<rparr>"

text \<open>\<open>ON CONFLICT(tid) DO UPDATE\<close>.\<close>

definition reregistered :: "string \<Rightarrow> registration \<Rightarrow> contest \<Rightarrow> contest" where
  "reregistered session u c = c\<lparr>c_title := u_title u, c_files := Some (u_files u),
     c_pids := Some (u_pids u), c_submission_mode := u_submission_mode u,
     c_submission_session := session, c_begin_at_ms := u_begin_at_ms u,
     c_end_at_ms := u_end_at_ms u, c_hydro_rule := u_hydro_rule u,
     c_materials_mode := u_materials_mode u, c_material_state := u_material_state u,
     c_active_material_revision := [], c_material_manifest_sha256 := [],
     c_max_participants := u_max_participants u, c_spare_seats := u_spare_seats u,
     c_release_lead_minutes := u_release_lead_minutes u, c_practice_groups := u_practice_groups u,
     c_state := Registered, c_message := []\<rparr>"

definition has_run_evidence :: "string \<Rightarrow> db \<Rightarrow> bool" where
  "has_run_evidence tid d \<longleftrightarrow> list_ex (\<lambda>b. b_tid b = tid) (bound_seats d)
     \<or> list_ex (\<lambda>w. w_tid w = tid) (web_submissions d)"

definition upsert_contest :: "string \<Rightarrow> string \<Rightarrow> registration \<Rightarrow> db \<Rightarrow> db res" where
  "upsert_contest dt session u d =
     (case get_contest (u_tid u) d of
        None \<Rightarrow> Inr (d\<lparr>contests := contests d @ [new_contest dt session u]\<rparr>)
      | Some c \<Rightarrow>
          if has_run_evidence (u_tid u) d
          then Inl (SubmissionConflictError ''cannot re-register a contest that still has run evidence'')
          else Inr (update_contest (\<lambda>c. c_tid c = u_tid u) (reregistered session u) d))"

section \<open>Updates of one contest\<close>

text \<open>\<open>UPDATE contests .. WHERE tid = ?\<close>, then raise when \<open>rowcount != 1\<close>.\<close>

definition update_known :: "string \<Rightarrow> (contest \<Rightarrow> contest) \<Rightarrow> db \<Rightarrow> db res" where
  "update_known tid f d =
     (let p = (\<lambda>c. c_tid c = tid) in
      if rowcount p (contests d) \<noteq> 1 then Inl (KeyError ''contest'') else Inr (update_contest p f d))"

definition mark_time_sync :: "string \<Rightarrow> int \<Rightarrow> string \<Rightarrow> db \<Rightarrow> db res" where
  "mark_time_sync tid observed err d = update_known tid
     (\<lambda>c. if err \<noteq> [] then c\<lparr>c_time_sync_checked_at_ms := observed, c_time_sync_error := take 1000 err\<rparr>
          else c\<lparr>c_time_sync_at_ms := observed, c_time_sync_checked_at_ms := observed,
                 c_time_sync_error := []\<rparr>) d"

definition set_paper :: "string \<Rightarrow> string \<Rightarrow> string \<Rightarrow> int \<Rightarrow> db \<Rightarrow> db res" where
  "set_paper tid name sha sz d = update_known tid
     (\<lambda>c. c\<lparr>c_paper_name := name, c_paper_sha256 := sha, c_paper_size := sz,
        c_material_state := (if c_materials_mode c = ''manual'' then ''approved'' else c_material_state c),
        c_active_material_revision :=
          (if c_materials_mode c = ''manual'' \<and> c_active_material_revision c = []
           then ''legacy-manual'' else c_active_material_revision c)\<rparr>) d"

definition clear_material_selection :: "string \<Rightarrow> db \<Rightarrow> db res" where
  "clear_material_selection tid d = update_known tid
     (\<lambda>c. c\<lparr>c_paper_name := [], c_paper_sha256 := [], c_paper_size := 0, c_testdata_name := [],
        c_testdata_sha256 := [], c_testdata_size := 0, c_testdata_files := 0,
        c_testdata_expanded_size := 0, c_material_state := ''pending'',
        c_active_material_revision := [], c_material_manifest_sha256 := []\<rparr>) d"

definition set_testdata :: "string \<Rightarrow> string \<Rightarrow> string \<Rightarrow> int \<Rightarrow> int \<Rightarrow> int \<Rightarrow> db \<Rightarrow> db res" where
  "set_testdata tid name sha sz files expanded d = update_known tid
     (\<lambda>c. c\<lparr>c_testdata_name := name, c_testdata_sha256 := sha, c_testdata_size := sz,
        c_testdata_files := files, c_testdata_expanded_size := expanded\<rparr>) d"

section \<open>Schedule and problem mapping\<close>

definition get_pool_row :: "string \<Rightarrow> db \<Rightarrow> pool_row option" where
  "get_pool_row tid d = find (\<lambda>p. p_tid p = tid) (seat_pools d)"

definition update_pool_row :: "string \<Rightarrow> string \<Rightarrow> int \<Rightarrow> json \<Rightarrow> db \<Rightarrow> db" where
  "update_pool_row dt tid revision state d = d\<lparr>seat_pools := sql_update (\<lambda>p. p_tid p = tid)
     (\<lambda>p. p\<lparr>p_revision := revision, p_state_json := Some (jsort state), p_updated_at := dt\<rparr>) (seat_pools d)\<rparr>"

definition commit_schedule_sync ::
  "string \<Rightarrow> string \<Rightarrow> int \<Rightarrow> int \<Rightarrow> int \<Rightarrow> int \<Rightarrow> string \<Rightarrow> int \<Rightarrow> int \<Rightarrow> json \<Rightarrow> db \<Rightarrow> (contest \<times> db) res" where
  "commit_schedule_sync dt tid expected_begin expected_end begin_ms end_ms rule observed
       expected_revision pool_state d =
     bindE (jint ''revision'' (- 1) pool_state) (\<lambda>new_revision.
     case get_contest tid d of
       None \<Rightarrow> Inl (SubmissionConflictError ''contest is not in a state that can be synchronised'')
     | Some c \<Rightarrow>
       if c_state c \<noteq> Ready
       then Inl (SubmissionConflictError ''contest is not in a state that can be synchronised'')
       else if c_begin_at_ms c \<noteq> expected_begin \<or> c_end_at_ms c \<noteq> expected_end
       then Inl (SubmissionConflictError ''contest time was updated by another process'')
       else (case get_pool_row tid d of
           None \<Rightarrow> Inl (SubmissionConflictError ''seat pool was updated by another process'')
         | Some p \<Rightarrow>
           if p_revision p \<noteq> expected_revision
           then Inl (SubmissionConflictError ''seat pool was updated by another process'')
           else if new_revision < expected_revision
           then Inl (SubmissionConflictError ''seat pool revision is invalid'')
           else
             let d' = update_contest (\<lambda>c. c_tid c = tid)
                   (\<lambda>c. c\<lparr>c_begin_at_ms := begin_ms, c_end_at_ms := end_ms, c_hydro_rule := rule,
                      c_time_sync_at_ms := observed, c_time_sync_checked_at_ms := observed,
                      c_time_sync_error := [], c_message := ''OJ contest time synchronised''\<rparr>)
                   (update_pool_row dt tid new_revision pool_state d)
             in bindE (of_option (TypeError ''dict(None)'') (get_contest tid d')) (\<lambda>c'. Inr (c', d'))))"

text \<open>The regular expressions \<open>_FILE_KEY\<close>, \<open>_PID_VALUE\<close>, \<open>_SESSION\<close>, \<open>_REVISION\<close>, \<open>_SHA256\<close>.\<close>

definition file_key :: "string \<Rightarrow> bool" where
  "file_key s = re_head is_lower slug_char 0 63 s"

definition pid_char :: "char \<Rightarrow> bool" where
  "pid_char c \<longleftrightarrow> alnum c \<or> c \<in> {CHR ''_'', CHR ''.'', CHR '':'', CHR ''-''}"

definition pid_value :: "string \<Rightarrow> bool" where
  "pid_value s = re_head alnum pid_char 0 127 s"

definition revision_char :: "char \<Rightarrow> bool" where
  "revision_char c \<longleftrightarrow> alnum c \<or> c \<in> {CHR ''.'', CHR ''_'', CHR ''-''}"

definition revision_ok :: "string \<Rightarrow> bool" where
  "revision_ok s = re_head alnum revision_char 0 63 s"

definition normalized_pids :: "json \<Rightarrow> (string \<times> string) list res" where
  "normalized_pids pid_map = (case pid_map of
     JObj entries \<Rightarrow>
       if entries = [] then Inl (ValueError ''pid_map must be a non-empty object'')
       else mapE (\<lambda>(key, v). case v of
           JStr s \<Rightarrow> if file_key key \<and> pid_value s then Inr (key, s)
                     else Inl (ValueError ''pid_map contains an invalid filename or pid'')
         | _ \<Rightarrow> Inl (ValueError ''pid_map contains an invalid filename or pid'')) entries
   | _ \<Rightarrow> Inl (ValueError ''pid_map must be a non-empty object''))"

definition replace_contest_pid_map :: "string \<Rightarrow> string \<Rightarrow> json \<Rightarrow> db \<Rightarrow> (contest \<times> db) res" where
  "replace_contest_pid_map tid session pid_map d =
     (if \<not> re_exact is_hex 32 session
      then Inl (ValueError ''expected_submission_session is invalid'') else
      bindE (normalized_pids pid_map) (\<lambda>normalized.
      if \<not> distinct (map snd normalized) then Inl (ValueError ''pid_map values must be unique'') else
      case get_contest tid d of
        None \<Rightarrow> Inl (KeyError ''contest'')
      | Some c \<Rightarrow>
        if c_state c \<notin> {Registered, Errored}
        then Inl (SubmissionConflictError ''contest is being prepared or running'')
        else if c_submission_session c \<noteq> session
        then Inl (SubmissionConflictError ''contest was registered again'')
        else (case c_files c of
            None \<Rightarrow> Inl (SubmissionConflictError ''contest file list is corrupt'')
          | Some files \<Rightarrow>
            if list_ex (\<lambda>f. \<not> file_key f) files \<or> \<not> distinct files \<or> set files \<noteq> set (map fst normalized)
            then Inl (SubmissionConflictError ''mapping must match the registered file names'')
            else if has_run_evidence tid d
            then Inl (SubmissionConflictError ''contest has seats or submissions'')
            else
              let d' = update_contest (\<lambda>c. c_tid c = tid) (\<lambda>c. c\<lparr>c_pids := Some (sort_key fst normalized)\<rparr>) d
              in bindE (of_option (TypeError ''dict(None)'') (get_contest tid d')) (\<lambda>c'. Inr (c', d')))))"

section \<open>State changes\<close>

fun state_text :: "contest_state \<Rightarrow> string" where
  "state_text Registered = ''registered''"
| "state_text Preparing = ''preparing''"
| "state_text Ready = ''ready''"
| "state_text Collecting = ''collecting''"
| "state_text SafeWait = ''safe_wait''"
| "state_text SafeEnded = ''safe_ended''"
| "state_text Done = ''done''"
| "state_text Errored = ''error''"

definition set_state :: "string \<Rightarrow> int \<Rightarrow> string \<Rightarrow> contest_state \<Rightarrow> string \<Rightarrow> db \<Rightarrow> db" where
  "set_state dt ms tid state message d =
     add_audit dt tid ''system'' ''contest.state.set'' ''completed''
       (JObj [(''state'', JStr (state_text state))]) ms
       (update_contest (\<lambda>c. c_tid c = tid) (\<lambda>c. c\<lparr>c_state := state, c_message := message\<rparr>) d)"

definition transition ::
  "string \<Rightarrow> int \<Rightarrow> string \<Rightarrow> contest_state list \<Rightarrow> contest_state \<Rightarrow> string \<Rightarrow> db \<Rightarrow> bool \<times> db" where
  "transition dt ms tid from_states to_state message d =
     (if from_states = [] then (False, d) else
      let p = (\<lambda>c. c_tid c = tid \<and> c_state c \<in> set from_states);
          d' = update_contest p (\<lambda>c. c\<lparr>c_state := to_state, c_message := message\<rparr>) d
      in if rowcount p (contests d) = 1
         then (True, add_audit dt tid ''system'' ''contest.state.transition'' ''completed''
             (JObj [(''from'', JStr (join '','' (sort (map state_text from_states)))),
                    (''to'', JStr (state_text to_state))]) ms d')
         else (False, d'))"

definition enter_safe_wait ::
  "string \<Rightarrow> string \<Rightarrow> string \<Rightarrow> string \<Rightarrow> int \<Rightarrow> int \<Rightarrow> string \<Rightarrow> db \<Rightarrow> (bool \<times> db) res" where
  "enter_safe_wait tid run_id collection_dir receipt completed shutdown_after message d =
     (if \<not> revision_ok run_id then Inl (ValueError ''collection run id is invalid'') else
      let directory = py_strip collection_dir; digest = map lower_char receipt in
      if directory = [] \<or> \<not> re_exact is_hex 64 digest
      then Inl (ValueError ''collection evidence is invalid'')
      else if completed \<le> 0 \<or> shutdown_after < completed
      then Inl (ValueError ''safe-wait shutdown boundary is invalid'')
      else let p = (\<lambda>c. c_tid c = tid \<and> c_state c = Collecting) in
        Inr (rowcount p (contests d) = 1, update_contest p
          (\<lambda>c. c\<lparr>c_state := SafeWait, c_message := message, c_collection_run_id := run_id,
             c_collection_dir := directory, c_collection_receipt_sha256 := digest,
             c_collection_completed_at_ms := completed, c_shutdown_after_ms := shutdown_after,
             c_shutdown_verified_at_ms := 0\<rparr>) d))"

definition mark_safe_ended :: "string \<Rightarrow> int \<Rightarrow> string \<Rightarrow> db \<Rightarrow> bool \<times> db" where
  "mark_safe_ended tid observed message d =
     (let p = (\<lambda>c. c_tid c = tid \<and> c_state c = SafeWait \<and> 0 < c_shutdown_after_ms c
            \<and> c_shutdown_after_ms c \<le> observed)
      in (rowcount p (contests d) = 1, update_contest p
          (\<lambda>c. c\<lparr>c_state := SafeEnded, c_message := message, c_shutdown_verified_at_ms := observed\<rparr>) d))"

section \<open>Retention\<close>

definition day_ms :: int where
  "day_ms = 86400000"

definition retention_due :: "int \<Rightarrow> int \<Rightarrow> int \<Rightarrow> contest \<Rightarrow> bool" where
  "retention_due now workspace_ms evidence_ms c \<longleftrightarrow> c_state c \<in> {SafeEnded, Done}
     \<and> 0 < c_shutdown_verified_at_ms c
     \<and> (c_workspace_purged_at_ms c = 0 \<and> c_shutdown_verified_at_ms c \<le> now - workspace_ms
        \<or> c_evidence_purged_at_ms c = 0 \<and> c_shutdown_verified_at_ms c \<le> now - evidence_ms)"

definition retention_candidates :: "int \<Rightarrow> int \<Rightarrow> int \<Rightarrow> db \<Rightarrow> contest list res" where
  "retention_candidates now workspace_days evidence_days d =
     (let workspace_ms = workspace_days * day_ms; evidence_ms = evidence_days * day_ms in
      if workspace_ms \<le> 0 \<or> evidence_ms < workspace_ms
      then Inl (ValueError ''retention boundaries are invalid'')
      else Inr (sort_key c_shutdown_verified_at_ms (sort_key c_tid
             (filter (retention_due now workspace_ms evidence_ms) (contests d)))))"

datatype purge_kind = Workspace | Evidence

fun purge_kind_of :: "string \<Rightarrow> purge_kind option" where
  "purge_kind_of k = (if k = ''workspace'' then Some Workspace
     else if k = ''evidence'' then Some Evidence else None)"

fun purged_at :: "purge_kind \<Rightarrow> contest \<Rightarrow> int" where
  "purged_at Workspace c = c_workspace_purged_at_ms c"
| "purged_at Evidence c = c_evidence_purged_at_ms c"

fun set_purged :: "purge_kind \<Rightarrow> int \<Rightarrow> contest \<Rightarrow> contest" where
  "set_purged Workspace ms c = c\<lparr>c_workspace_purged_at_ms := ms\<rparr>"
| "set_purged Evidence ms c = c\<lparr>c_evidence_purged_at_ms := ms\<rparr>"

definition mark_retention_purged :: "string \<Rightarrow> string \<Rightarrow> string \<Rightarrow> int \<Rightarrow> db \<Rightarrow> (bool \<times> db) res" where
  "mark_retention_purged dt tid kind observed d =
     (case purge_kind_of kind of
        None \<Rightarrow> Inl (ValueError ''retention kind is invalid'')
      | Some k \<Rightarrow>
        if observed \<le> 0 then Inl (ValueError ''retention timestamp is invalid'') else
        let p = (\<lambda>c. c_tid c = tid \<and> c_state c \<in> {SafeEnded, Done}
              \<and> 0 < c_shutdown_verified_at_ms c \<and> purged_at k c = 0);
            d' = update_contest p (set_purged k observed) d
        in if rowcount p (contests d) = 1
           then Inr (True, add_audit dt tid ''system'' ''contest.retention.purge'' ''completed''
                  (JObj [(''kind'', JStr kind)]) observed d')
           else Inr (False, d'))"

section \<open>Restart and queries\<close>

definition recover_interrupted_contests :: "string \<Rightarrow> int \<Rightarrow> db \<Rightarrow> (int \<times> db) res" where
  "recover_interrupted_contests dt observed d =
     (if observed \<le> 0 then Inl (ValueError ''recovery timestamp is invalid'') else
      let rows = filter (\<lambda>c. c_state c = Preparing) (contests d);
          d' = update_contest (\<lambda>c. c_state c = Preparing)
            (\<lambda>c. c\<lparr>c_state := Errored, c_message := ''service restarted while preparing''\<rparr>) d
      in Inr (int (length rows), foldl (\<lambda>e c. add_audit dt (c_tid c) ''system''
            ''contest.recovery.prepare_interrupted'' ''failed''
            (JObj [(''state'', JStr ''error'')]) observed e) d' rows))"

definition list_contests :: "contest_state option \<Rightarrow> db \<Rightarrow> contest list" where
  "list_contests state d = order_desc c_created_at (sort_key c_tid (filter
     (\<lambda>c. case state of None \<Rightarrow> True | Some s \<Rightarrow> c_state c = s) (contests d)))"

definition active_states :: "contest_state list" where
  "active_states = [Registered, Preparing, Ready, Collecting, SafeWait]"

definition active_seat_count :: "db \<Rightarrow> int" where
  "active_seat_count d = int (length (remdups (map b_container (filter
     (\<lambda>b. list_ex (\<lambda>c. c_tid c = b_tid b \<and> c_state c \<in> set active_states) (contests d))
     (bound_seats d)))))"

end
