(* ===== verification/PoolStore.thy ===== *)
theory PoolStore
  imports ContestStore
begin

text \<open>
  The seat pool in \<^verbatim>\<open>orchestrator/services/store.py\<close>: the compare-and-swap of the serialized pool, the
  connection resources of its slots, the three commits that change both together (expansion, replacement
  of a failed slot, repair of an isolated slot), and the seats bound to students. The pool is the decoded
  JSON the caller passes; a resource argument is the record of its columns.
\<close>

section \<open>Reading the serialized pool\<close>

text \<open>\<open>for item in x\<close>.\<close>

fun py_iter :: "json \<Rightarrow> json list res" where
  "py_iter (JArr xs) = Inr xs"
| "py_iter (JObj d) = Inr (map (\<lambda>(k, v). JStr k) d)"
| "py_iter (JStr s) = Inr (map (\<lambda>c. JStr [c]) s)"
| "py_iter _ = Inl (TypeError ''object is not iterable'')"

definition pool_items :: "json \<Rightarrow> json list res" where
  "pool_items state = bindE (jget ''seats'' state)
     (\<lambda>x. case x of None \<Rightarrow> Inr [] | Some v \<Rightarrow> py_iter v)"

definition find_slot :: "json \<Rightarrow> int \<Rightarrow> json option res" where
  "find_slot state n = bindE (pool_items state)
     (findE (\<lambda>item. bindE (jint ''slot_no'' (- 1) item) (\<lambda>i. Inr (i = n))))"

definition find_uid :: "json \<Rightarrow> int \<Rightarrow> json option res" where
  "find_uid state u = bindE (pool_items state)
     (findE (\<lambda>item. bindE (jint_or0 ''uid'' item) (\<lambda>i. Inr (i = u))))"

text \<open>\<open>{int(item.get("slot_no", -1)): item for item in ..}\<close>: a later item replaces an earlier one.\<close>

definition slot_map :: "json \<Rightarrow> (int \<times> json) list res" where
  "slot_map state = bindE (pool_items state) (\<lambda>items.
     bindE (mapE (\<lambda>item. bindE (jint ''slot_no'' (- 1) item) (\<lambda>i. Inr (i, item))) items)
       (\<lambda>ps. Inr (rev ps)))"

definition slots :: "(int \<times> json) list \<Rightarrow> int set" where
  "slots m = set (map fst m)"

text \<open>\<open>item.get(k)\<close> of an item that is known to be a dict.\<close>

fun jfield :: "string \<Rightarrow> json \<Rightarrow> json option" where
  "jfield k (JObj d) = map_of d k"
| "jfield k _ = None"

text \<open>\<open>item.get("state") in {..}\<close>: a list or a dict is not hashable.\<close>

definition state_in :: "string set \<Rightarrow> json \<Rightarrow> bool res" where
  "state_in names x = (case jfield ''state'' x of
     Some (JStr s) \<Rightarrow> Inr (s \<in> names)
   | Some (JArr _) \<Rightarrow> Inl (TypeError ''unhashable'')
   | Some (JObj _) \<Rightarrow> Inl (TypeError ''unhashable'')
   | _ \<Rightarrow> Inr False)"

definition evidence_matches :: "json \<Rightarrow> resource \<Rightarrow> bool" where
  "evidence_matches seat r \<longleftrightarrow> str_or (jfield ''container_ref'' seat) = r_container r
     \<and> str_or (jfield ''image_digest'' seat) = r_image_digest r
     \<and> str_or (jfield ''material_digest'' seat) = r_material_digest r"

text \<open>\<open>new.get(slot) != seat\<close> for some of the given slots.\<close>

definition seat_differs :: "(int \<times> json) list \<Rightarrow> (int \<times> json) list \<Rightarrow> int \<Rightarrow> bool" where
  "seat_differs new old n = (case map_of old n of
     None \<Rightarrow> False
   | Some seat \<Rightarrow> (case map_of new n of None \<Rightarrow> True | Some seat' \<Rightarrow> \<not> json_eq seat' seat))"

definition load_state :: "pool_row \<Rightarrow> json res" where
  "load_state p = of_option (ValueError ''json'') (p_state_json p)"

section \<open>The pool row\<close>

definition put_seat_pool :: "string \<Rightarrow> string \<Rightarrow> int option \<Rightarrow> json \<Rightarrow> db \<Rightarrow> (int \<times> db) res" where
  "put_seat_pool dt tid expected state d =
     bindE (jint ''revision'' 0 state) (\<lambda>new_revision.
     if new_revision < 0 then Inl (ValueError ''seat pool revision must be non-negative'') else
     case get_pool_row tid d of
       None \<Rightarrow>
         if expected \<notin> {None, Some (- 1)}
         then Inl (SubmissionConflictError ''seat pool was updated by another process'')
         else Inr (new_revision, d\<lparr>seat_pools := seat_pools d @ [\<lparr>p_tid = tid, p_revision = new_revision,
               p_state_json = Some (jsort state), p_updated_at = dt\<rparr>]\<rparr>)
     | Some p \<Rightarrow>
         if expected \<noteq> Some (p_revision p)
         then Inl (SubmissionConflictError ''seat pool was updated by another process'')
         else Inr (new_revision, update_pool_row dt tid new_revision state d))"

definition seat_pool :: "string \<Rightarrow> db \<Rightarrow> (int \<times> json \<times> string) option res" where
  "seat_pool tid d = (case get_pool_row tid d of
     None \<Rightarrow> Inr None
   | Some p \<Rightarrow> bindE (load_state p) (\<lambda>s. Inr (Some (p_revision p, s, p_updated_at p))))"

definition delete_seat_pool :: "string \<Rightarrow> db \<Rightarrow> db" where
  "delete_seat_pool tid d = d\<lparr>seat_pools := sql_delete (\<lambda>p. p_tid p = tid) (seat_pools d),
     seat_pool_resources := sql_delete (\<lambda>r. r_tid r = tid) (seat_pool_resources d)\<rparr>"

section \<open>Resources\<close>

definition resource_key :: "resource \<Rightarrow> string \<times> int" where
  "resource_key r = (r_tid r, r_slot_no r)"

definition seat_pool_resource :: "string \<Rightarrow> int \<Rightarrow> db \<Rightarrow> resource option" where
  "seat_pool_resource tid n d = find (\<lambda>r. resource_key r = (tid, n)) (seat_pool_resources d)"

definition seat_pool_resources_of :: "string \<Rightarrow> db \<Rightarrow> resource list" where
  "seat_pool_resources_of tid d = sort_key r_slot_no (filter (\<lambda>r. r_tid r = tid) (seat_pool_resources d))"

text \<open>The unique columns: token, submit token and container.\<close>

definition resource_clash :: "resource \<Rightarrow> resource list \<Rightarrow> bool" where
  "resource_clash r rs = list_ex (\<lambda>x. r_token x = r_token r \<or> r_submit_token x = r_submit_token r
     \<or> r_container x = r_container r) rs"

definition new_resource :: "string \<Rightarrow> string \<Rightarrow> resource \<Rightarrow> resource" where
  "new_resource dt tid r = r\<lparr>r_tid := tid, r_created_at := dt\<rparr>"

definition insert_resource :: "string \<Rightarrow> string \<Rightarrow> resource \<Rightarrow> db \<Rightarrow> db res" where
  "insert_resource dt tid r d =
     (if seat_pool_resource tid (r_slot_no r) d \<noteq> None \<or> resource_clash r (seat_pool_resources d)
      then Inl (IntegrityError ''seat_pool_resources'')
      else Inr (d\<lparr>seat_pool_resources := seat_pool_resources d @ [new_resource dt tid r]\<rparr>))"

definition overwrite_resource :: "resource \<Rightarrow> resource \<Rightarrow> resource" where
  "overwrite_resource r x = r\<lparr>r_tid := r_tid x, r_slot_no := r_slot_no x, r_created_at := r_created_at x\<rparr>"

definition put_seat_pool_resource :: "string \<Rightarrow> string \<Rightarrow> resource \<Rightarrow> db \<Rightarrow> db res" where
  "put_seat_pool_resource dt tid r d =
     (let own = (\<lambda>x. resource_key x = (tid, r_slot_no r)) in
      case seat_pool_resource tid (r_slot_no r) d of
        None \<Rightarrow> insert_resource dt tid r d
      | Some _ \<Rightarrow>
          if resource_clash r (filter (\<lambda>x. \<not> own x) (seat_pool_resources d))
          then Inl (IntegrityError ''seat_pool_resources'')
          else Inr (d\<lparr>seat_pool_resources := sql_update own (overwrite_resource r) (seat_pool_resources d)\<rparr>))"

section \<open>Bound seats\<close>

definition bound_key :: "bound_seat \<Rightarrow> string \<times> int" where
  "bound_key b = (b_tid b, b_uid b)"

text \<open>The unique columns: token, and submit token unless it is empty.\<close>

definition seat_clash :: "bound_seat \<Rightarrow> bound_seat \<Rightarrow> bool" where
  "seat_clash b x \<longleftrightarrow> b_token x = b_token b \<or> b_submit_token b \<noteq> [] \<and> b_submit_token x = b_submit_token b"

text \<open>\<open>INSERT OR REPLACE\<close> drops every row that clashes with the new one.\<close>

definition add_seat :: "bound_seat \<Rightarrow> db \<Rightarrow> db" where
  "add_seat b d = d\<lparr>bound_seats :=
     sql_delete (\<lambda>x. bound_key x = bound_key b \<or> seat_clash b x) (bound_seats d) @ [b]\<rparr>"

definition get_bound :: "string \<Rightarrow> int \<Rightarrow> db \<Rightarrow> bound_seat option" where
  "get_bound tid u d = find (\<lambda>b. bound_key b = (tid, u)) (bound_seats d)"

definition bound_from :: "string \<Rightarrow> int \<Rightarrow> string \<Rightarrow> resource \<Rightarrow> bound_seat" where
  "bound_from tid u uname r = \<lparr>b_tid = tid, b_uid = u, b_uname = uname, b_token = r_token r,
     b_vnc_pass = r_vnc_pass r, b_submit_token = r_submit_token r, b_candidate = r_candidate r,
     b_container = r_container r, b_cip = r_cip r\<rparr>"

definition upsert_seat :: "bound_seat \<Rightarrow> db \<Rightarrow> db res" where
  "upsert_seat b d =
     (if list_ex (\<lambda>x. bound_key x \<noteq> bound_key b \<and> seat_clash b x) (bound_seats d)
      then Inl (IntegrityError ''seats'')
      else if list_ex (\<lambda>x. bound_key x = bound_key b) (bound_seats d)
      then Inr (d\<lparr>bound_seats := sql_update (\<lambda>x. bound_key x = bound_key b) (\<lambda>_. b) (bound_seats d)\<rparr>)
      else Inr (d\<lparr>bound_seats := bound_seats d @ [b]\<rparr>))"

definition bind_pool_seat :: "string \<Rightarrow> int \<Rightarrow> string \<Rightarrow> int \<Rightarrow> db \<Rightarrow> (bound_seat \<times> db) res" where
  "bind_pool_seat tid u uname n d =
     (case (get_pool_row tid d, seat_pool_resource tid n d) of
        (Some p, Some r) \<Rightarrow>
          bindE (load_state p) (\<lambda>pool.
          bindE (find_slot pool n) (\<lambda>seat.
          case seat of
            None \<Rightarrow> Inl (SubmissionConflictError ''the pool does not bind this student'')
          | Some s \<Rightarrow>
            if \<not> py_truthy s then Inl (SubmissionConflictError ''the pool does not bind this student'') else
            bindE (jint_or0 ''uid'' s) (\<lambda>su.
            if su \<noteq> u \<or> str_or (jfield ''uname'' s) \<noteq> uname
            then Inl (SubmissionConflictError ''the pool does not bind this student'') else
            bindE (state_in {''reserved'', ''released''} s) (\<lambda>ready.
            if \<not> ready then Inl (SubmissionConflictError ''the pool does not bind this student'')
            else if \<not> evidence_matches s r
            then Inl (SubmissionConflictError ''verification evidence and resource differ'')
            else bindE (upsert_seat (bound_from tid u uname r) d) (\<lambda>d'.
              Inr (bound_from tid u uname r, d'))))))
      | _ \<Rightarrow> Inl (KeyError ''pool resource''))"

definition seat_pool_assignment :: "string \<Rightarrow> int \<Rightarrow> db \<Rightarrow> (json \<times> resource option) option res" where
  "seat_pool_assignment tid u d = (case get_pool_row tid d of
     None \<Rightarrow> Inr None
   | Some p \<Rightarrow>
     bindE (load_state p) (\<lambda>pool.
     bindE (find_uid pool u) (\<lambda>seat.
     case seat of
       None \<Rightarrow> Inr None
     | Some s \<Rightarrow>
       if \<not> py_truthy s then Inr None else
       bindE (of_option (KeyError ''slot_no'') (jfield ''slot_no'' s)) (\<lambda>v.
       bindE (py_int v) (\<lambda>n. Inr (Some (s, seat_pool_resource tid n d)))))))"

definition seats_of :: "string \<Rightarrow> db \<Rightarrow> bound_seat list" where
  "seats_of tid d = sort_key b_uname (filter (\<lambda>b. b_tid b = tid) (bound_seats d))"

definition seat_by_uname :: "string \<Rightarrow> string \<Rightarrow> db \<Rightarrow> bound_seat option" where
  "seat_by_uname tid uname d = find (\<lambda>b. b_tid b = tid \<and> b_uname b = uname) (bound_seats d)"

definition seat_by_gateway_token :: "string \<Rightarrow> db \<Rightarrow> bound_seat option" where
  "seat_by_gateway_token tok d = find (\<lambda>b. b_token b = tok) (bound_seats d)"

definition seat_by_submit_token :: "string \<Rightarrow> db \<Rightarrow> bound_seat option" where
  "seat_by_submit_token tok d = find (\<lambda>b. b_submit_token b = tok) (bound_seats d)"

section \<open>Commits of pool and resources\<close>

definition check_tid :: "string \<Rightarrow> json \<Rightarrow> unit res" where
  "check_tid tid state = bindE (jget ''tid'' state) (\<lambda>v.
     if str_or v \<noteq> tid then Inl (ValueError ''pool is for another contest'') else Inr ())"

definition validate_pool_resource :: "json \<Rightarrow> resource \<Rightarrow> json res" where
  "validate_pool_resource state r =
     bindE (find_slot state (r_slot_no r)) (\<lambda>seat.
     case seat of
       None \<Rightarrow> Inl (SubmissionConflictError ''the new seat has not been verified'')
     | Some s \<Rightarrow>
         if \<not> py_truthy s \<or> jfield ''state'' s \<noteq> Some (JStr ''verified'')
         then Inl (SubmissionConflictError ''the new seat has not been verified'')
         else if \<not> evidence_matches s r
         then Inl (SubmissionConflictError ''verification evidence and resource differ'')
         else Inr s)"

fun validate_resources :: "json \<Rightarrow> int list \<Rightarrow> resource list \<Rightarrow> unit res" where
  "validate_resources state seen [] = Inr ()"
| "validate_resources state seen (r # rs) =
     bindE (validate_pool_resource state r) (\<lambda>_.
     if r_slot_no r \<in> set seen then Inl (ValueError ''slot number is repeated'')
     else validate_resources state (r_slot_no r # seen) rs)"

text \<open>The pool row whose revision the caller has seen.\<close>

definition current_pool :: "string \<Rightarrow> int \<Rightarrow> db \<Rightarrow> pool_row res" where
  "current_pool tid expected d = (case get_pool_row tid d of
     None \<Rightarrow> Inl (SubmissionConflictError ''seat pool was updated by another process'')
   | Some p \<Rightarrow> if p_revision p \<noteq> expected
       then Inl (SubmissionConflictError ''seat pool was updated by another process'') else Inr p)"

definition commit_pool_expansion ::
  "string \<Rightarrow> string \<Rightarrow> int \<Rightarrow> json \<Rightarrow> resource list \<Rightarrow> db \<Rightarrow> (int \<times> db) res" where
  "commit_pool_expansion dt tid expected state resources d =
     bindE (jint ''revision'' 0 state) (\<lambda>new_revision.
     bindE (check_tid tid state) (\<lambda>_.
     if resources = [] then Inl (ValueError ''an expansion needs a resource'') else
     bindE (validate_resources state [] resources) (\<lambda>_.
     bindE (current_pool tid expected d) (\<lambda>p.
     bindE (load_state p) (\<lambda>previous.
     bindE (slot_map previous) (\<lambda>old.
     bindE (slot_map state) (\<lambda>new.
     if \<exists>r \<in> set resources. r_slot_no r \<in> slots old
     then Inl (SubmissionConflictError ''an expansion may not replace a seat'')
     else if \<exists>n \<in> slots old. seat_differs new old n
     then Inl (SubmissionConflictError ''an expansion may not change a seat'')
     else if slots new - slots old \<noteq> set (map r_slot_no resources)
     then Inl (SubmissionConflictError ''all new seats must be published at once'')
     else if new_revision \<le> expected
     then Inl (SubmissionConflictError ''pool revision is invalid'') else
     bindE (foldE (\<lambda>e r. insert_resource dt tid r e) d resources) (\<lambda>d1.
     bindE (jint ''max_participants'' 0 state) (\<lambda>maximum.
     bindE (jint ''spare_count'' 0 state) (\<lambda>spares.
     Inr (new_revision, update_contest (\<lambda>c. c_tid c = tid)
       (\<lambda>c. c\<lparr>c_max_participants := maximum, c_spare_seats := spares\<rparr>)
       (update_pool_row dt tid new_revision state d1))))))))))))"

text \<open>
  A replacement: \<open>u = 0\<close> when the failed slot had no student. The result is the resource with its new
  credential revision.
\<close>

definition replacement_of ::
  "string \<Rightarrow> int \<Rightarrow> json \<Rightarrow> db \<Rightarrow> (json \<times> int \<times> resource) option res" where
  "replacement_of tid u state d =
     (if u = 0 then Inr None else
      bindE (find_uid state u) (\<lambda>seat.
      case seat of
        None \<Rightarrow> Inl (SubmissionConflictError ''no spare seat took the student over'')
      | Some s \<Rightarrow>
        if \<not> py_truthy s then Inl (SubmissionConflictError ''no spare seat took the student over'') else
        bindE (state_in {''reserved'', ''released''} s) (\<lambda>taken.
        if \<not> taken then Inl (SubmissionConflictError ''no spare seat took the student over'') else
        bindE (of_option (KeyError ''slot_no'') (jfield ''slot_no'' s)) (\<lambda>v.
        bindE (py_int v) (\<lambda>n.
        case seat_pool_resource tid n d of
          None \<Rightarrow> Inl (SubmissionConflictError ''spare seat has no resource'')
        | Some r \<Rightarrow>
          if \<not> evidence_matches s r
          then Inl (SubmissionConflictError ''verification evidence and resource differ'')
          else Inr (Some (s, n, r)))))))"

definition next_credential_revision :: "resource \<Rightarrow> resource option \<Rightarrow> int" where
  "next_credential_revision r failed = max (r_credential_revision r + 1)
     (case failed of None \<Rightarrow> 2 | Some f \<Rightarrow> r_credential_revision f + 1)"

definition install_replacement ::
  "string \<Rightarrow> int \<Rightarrow> int \<Rightarrow> json \<Rightarrow> (json \<times> int \<times> resource) option \<Rightarrow> db \<Rightarrow> ((resource \<times> int) option \<times> db) res" where
  "install_replacement tid failed_slot u old replacement d =
     (let failed_resource = seat_pool_resource tid failed_slot d;
          d1 = d\<lparr>seat_pool_resources :=
            sql_delete (\<lambda>r. resource_key r = (tid, failed_slot)) (seat_pool_resources d)\<rparr>
      in case replacement of
           None \<Rightarrow> Inr (None, d1)
         | Some (s, n, r) \<Rightarrow>
           let revision = next_credential_revision r failed_resource;
               d2 = d1\<lparr>seat_pool_resources := sql_update (\<lambda>x. resource_key x = (tid, n))
                  (\<lambda>x. x\<lparr>r_credential_revision := revision\<rparr>) (seat_pool_resources d1)\<rparr>;
               uname = (if str_or (jfield ''uname'' s) \<noteq> [] then str_or (jfield ''uname'' s)
                  else str_or (jfield ''uname'' old))
           in bindE (upsert_seat (bound_from tid u uname r) d2) (\<lambda>d3.
              Inr (Some (r\<lparr>r_credential_revision := revision\<rparr>, u), d3)))"

definition replaceable :: "json option \<Rightarrow> json option \<Rightarrow> json option" where
  "replaceable old_seat failed = (case (old_seat, failed) of
     (Some old, Some new) \<Rightarrow>
       if py_truthy old \<and> py_truthy new \<and> jfield ''state'' new = Some (JStr ''planned'') then Some old else None
   | _ \<Rightarrow> None)"

definition changed_slots :: "int \<Rightarrow> (json \<times> int \<times> resource) option \<Rightarrow> int set" where
  "changed_slots failed_slot replacement =
     insert failed_slot (case replacement of None \<Rightarrow> {} | Some (s, n, r) \<Rightarrow> {n})"

definition commit_pool_replacement ::
  "string \<Rightarrow> string \<Rightarrow> int \<Rightarrow> json \<Rightarrow> int \<Rightarrow> db \<Rightarrow> ((resource \<times> int) option \<times> db) res" where
  "commit_pool_replacement dt tid expected state failed_slot d =
     bindE (jint ''revision'' 0 state) (\<lambda>new_revision.
     bindE (check_tid tid state) (\<lambda>_.
     bindE (current_pool tid expected d) (\<lambda>p.
     bindE (load_state p) (\<lambda>previous.
     if new_revision \<le> expected then Inl (SubmissionConflictError ''pool revision is invalid'') else
     bindE (find_slot previous failed_slot) (\<lambda>old_seat.
     bindE (find_slot state failed_slot) (\<lambda>failed.
     bindE (of_option (SubmissionConflictError ''failed seat cannot be replaced'')
         (replaceable old_seat failed)) (\<lambda>old.
     bindE (jint_or0 ''uid'' old) (\<lambda>u.
     bindE (replacement_of tid u state d) (\<lambda>replacement.
     bindE (slot_map previous) (\<lambda>prior.
     bindE (slot_map state) (\<lambda>after.
     if slots prior \<noteq> slots after
     then Inl (SubmissionConflictError ''a replacement may not change the capacity'')
     else if \<exists>n \<in> slots prior - changed_slots failed_slot replacement. seat_differs after prior n
     then Inl (SubmissionConflictError ''a replacement may not change another seat'') else
     bindE (install_replacement tid failed_slot u old replacement d) (\<lambda>(bound, d').
     Inr (bound, update_pool_row dt tid new_revision state d')))))))))))))"

definition none_or_null :: "json option \<Rightarrow> bool" where
  "none_or_null v \<longleftrightarrow> v \<in> {None, Some JNull}"

definition repairable :: "int \<Rightarrow> (int \<times> json) list \<Rightarrow> (int \<times> json) list \<Rightarrow> json option" where
  "repairable n old new = (case map_of old n of
     None \<Rightarrow> None
   | Some prior \<Rightarrow>
       if slots old = slots new \<and> py_truthy prior \<and> jfield ''state'' prior = Some (JStr ''planned'')
          \<and> none_or_null (jfield ''uid'' prior) then Some prior else None)"

definition commit_pool_repair ::
  "string \<Rightarrow> string \<Rightarrow> int \<Rightarrow> json \<Rightarrow> resource \<Rightarrow> int \<Rightarrow> db \<Rightarrow> (int \<times> db) res" where
  "commit_pool_repair dt tid expected state r n d =
     bindE (jint ''revision'' 0 state) (\<lambda>new_revision.
     bindE (check_tid tid state) (\<lambda>_.
     if r_slot_no r \<noteq> n then Inl (ValueError ''resource is for another slot'') else
     bindE (validate_pool_resource state r) (\<lambda>repaired.
     if \<not> none_or_null (jfield ''uid'' repaired) \<or> str_or (jfield ''uname'' repaired) \<noteq> []
     then Inl (SubmissionConflictError ''a repaired spare may not have a student'') else
     bindE (current_pool tid expected d) (\<lambda>p.
     bindE (load_state p) (\<lambda>previous.
     bindE (slot_map previous) (\<lambda>old.
     bindE (slot_map state) (\<lambda>new.
     bindE (of_option (SubmissionConflictError ''only an isolated free seat can be repaired'')
         (repairable n old new)) (\<lambda>prior.
     if \<exists>k \<in> slots old - {n}. seat_differs new old k
     then Inl (SubmissionConflictError ''a repair may not change another seat'') else
     bindE (jint ''failure_count'' (- 1) repaired) (\<lambda>fc.
     bindE (jint ''failure_count'' (- 2) prior) (\<lambda>fc'.
     if fc \<noteq> fc' \<or> str_or (jfield ''role'' repaired) \<noteq> ''spare''
     then Inl (SubmissionConflictError ''a repair may not reset the failure history or the role'')
     else if new_revision \<le> expected
     then Inl (SubmissionConflictError ''pool revision is invalid'')
     else if seat_pool_resource tid n d \<noteq> None
     then Inl (SubmissionConflictError ''the seat still has an old resource'') else
     bindE (insert_resource dt tid r d) (\<lambda>d'.
     Inr (new_revision, update_pool_row dt tid new_revision state d'))))))))))))"

end
