(* ===== verification/NotifyStore.thy ===== *)
theory NotifyStore
  imports PoolStore
begin

text \<open>
  \<^verbatim>\<open>orchestrator/services/store.py\<close>: the outbox of seat notifications. A row is one message to one student
  about one revision of the seat's credentials; its kind is \<open>seat_ready\<close> or a teacher's reminder.
\<close>

section \<open>Rows\<close>

definition notify_key :: "notification \<Rightarrow> string \<times> int \<times> string \<times> int" where
  "notify_key n = (n_tid n, n_uid n, n_kind n, n_credential_revision n)"

definition new_notification :: "string \<Rightarrow> string \<Rightarrow> int \<Rightarrow> string \<Rightarrow> int \<Rightarrow> string \<Rightarrow> notification" where
  "new_notification dt tid u kind cr nid = \<lparr>n_tid = tid, n_uid = u, n_kind = kind, n_credential_revision = cr,
     n_notification_id = nid, n_state = NPending, n_attempts = 0, n_last_error = [], n_sent_at = [], n_updated_at = dt\<rparr>"

definition find_notification :: "string \<times> int \<times> string \<times> int \<Rightarrow> db \<Rightarrow> notification option" where
  "find_notification k d = find (\<lambda>n. notify_key n = k) (seat_notifications d)"

definition queue_seat_notification ::
  "string \<Rightarrow> string \<Rightarrow> int \<Rightarrow> string \<Rightarrow> int \<Rightarrow> string \<Rightarrow> db \<Rightarrow> (notification \<times> db) res" where
  "queue_seat_notification dt tid u kind cr nid d = (case find_notification (tid, u, kind, cr) d of
     Some n \<Rightarrow> Inr (n, d)
   | None \<Rightarrow>
       if list_ex (\<lambda>n. n_notification_id n = nid) (seat_notifications d)
       then Inl (IntegrityError ''seat_notifications'')
       else let n = new_notification dt tid u kind cr nid
            in Inr (n, d\<lparr>seat_notifications := seat_notifications d @ [n]\<rparr>))"

definition outcome_state :: "bool \<Rightarrow> bool \<Rightarrow> notify_state" where
  "outcome_state sent retryable = (if sent then NSent else if retryable then NRetry else NPermanentFailed)"

definition mark_row :: "string \<Rightarrow> bool \<Rightarrow> bool \<Rightarrow> string \<Rightarrow> notification \<Rightarrow> notification" where
  "mark_row dt sent retryable error n = n\<lparr>n_state := outcome_state sent retryable, n_attempts := n_attempts n + 1,
     n_last_error := error, n_sent_at := (if sent then dt else n_sent_at n), n_updated_at := dt\<rparr>"

definition mark_seat_notification :: "string \<Rightarrow> string \<Rightarrow> bool \<Rightarrow> bool \<Rightarrow> string \<Rightarrow> db \<Rightarrow> db res" where
  "mark_seat_notification dt nid sent retryable error d =
     (if rowcount (\<lambda>n. n_notification_id n = nid) (seat_notifications d) \<noteq> 1
      then Inl (KeyError ''notification'')
      else Inr (d\<lparr>seat_notifications :=
        sql_update (\<lambda>n. n_notification_id n = nid) (mark_row dt sent retryable error) (seat_notifications d)\<rparr>))"

section \<open>Queries\<close>

text \<open>\<open>ORDER BY updated_at, uid\<close> and \<open>ORDER BY updated_at DESC, rowid DESC\<close>.\<close>

definition pending_seat_notifications :: "string option \<Rightarrow> db \<Rightarrow> notification list" where
  "pending_seat_notifications tid d = sort_key n_updated_at (sort_key n_uid
     (filter (\<lambda>n. n_state n \<noteq> NSent \<and> (case tid of None \<Rightarrow> True | Some t \<Rightarrow> n_tid n = t)) (seat_notifications d)))"

definition count_state :: "string \<Rightarrow> notify_state \<Rightarrow> db \<Rightarrow> nat" where
  "count_state tid s d = length (filter (\<lambda>n. n_tid n = tid \<and> n_state n = s) (seat_notifications d))"

definition contest_notification_health :: "string \<Rightarrow> db \<Rightarrow> (notify_state \<times> nat) list \<times> bool" where
  "contest_notification_health tid d =
     (map (\<lambda>s. (s, count_state tid s d)) [NPending, NRetry, NPermanentFailed, NSent],
      sum_list (map (\<lambda>s. count_state tid s d) [NPending, NRetry, NPermanentFailed]) = 0)"

definition seat_notification_statuses :: "string \<Rightarrow> db \<Rightarrow> (int \<times> string \<times> int \<times> notify_state \<times> string) list" where
  "seat_notification_statuses tid d =
     map (\<lambda>n. (n_uid n, n_kind n, n_credential_revision n, n_state n, n_updated_at n))
       (rev (sort_key n_updated_at (filter (\<lambda>n. n_tid n = tid) (seat_notifications d))))"

section \<open>Retry of failed notifications\<close>

text \<open>\<open>LIKE 'seat_reminder:%'\<close>: letters match in either case, and \<open>_\<close> matches any character.\<close>

definition ascii_lower :: "char \<Rightarrow> char" where
  "ascii_lower c = (if is_upper c then char_of (of_char c + 32 :: nat) else c)"

definition like_prefix :: "string \<Rightarrow> string \<Rightarrow> bool" where
  "like_prefix p s \<longleftrightarrow> length p \<le> length s
     \<and> list_all2 (\<lambda>c x. c = CHR ''_'' \<or> ascii_lower c = ascii_lower x) p (take (length p) s)"

definition retried_kind :: "string \<Rightarrow> bool" where
  "retried_kind k \<longleftrightarrow> k = ''seat_ready'' \<or> like_prefix ''seat_reminder:'' k"

text \<open>\<open>isinstance(x, int) and not isinstance(x, bool)\<close> with a lower bound.\<close>

fun plain_int :: "int \<Rightarrow> json option \<Rightarrow> int option" where
  "plain_int m (Some (JInt i)) = (if m \<le> i then Some i else None)"
| "plain_int m _ = None"

definition is_released :: "json \<Rightarrow> bool" where
  "is_released seat \<longleftrightarrow> jfield ''state'' seat = Some (JStr ''released'')"

text \<open>The list of seats of a stored pool, or an error of the decoding.\<close>

definition seat_list :: "json option \<Rightarrow> json list option" where
  "seat_list state = (case state of
     Some (JObj e) \<Rightarrow> (case map_of e ''seats'' of Some (JArr xs) \<Rightarrow> Some xs | _ \<Rightarrow> None)
   | _ \<Rightarrow> None)"

definition released_key :: "string \<Rightarrow> db \<Rightarrow> json \<Rightarrow> (int \<times> int) option res" where
  "released_key tid d seat = (if \<not> is_released seat then Inr None else
     (case (plain_int 2 (jfield ''uid'' seat), plain_int 1 (jfield ''slot_no'' seat)) of
        (Some u, Some n) \<Rightarrow> (case seat_pool_resource tid n d of
            None \<Rightarrow> Inl (SubmissionConflictError ''released seat and credentials differ'')
          | Some r \<Rightarrow> Inr (Some (u, r_credential_revision r)))
      | _ \<Rightarrow> Inl (SubmissionConflictError ''released seat and credentials differ'')))"

definition retried_row :: "string \<Rightarrow> int \<times> int \<Rightarrow> notification \<Rightarrow> bool" where
  "retried_row tid k n \<longleftrightarrow> n_tid n = tid \<and> n_uid n = fst k \<and> retried_kind (n_kind n)
     \<and> n_credential_revision n = snd k \<and> n_state n = NPermanentFailed"

definition requeue_row :: "string \<Rightarrow> notification \<Rightarrow> notification" where
  "requeue_row dt n = n\<lparr>n_state := NPending, n_last_error := [], n_updated_at := dt\<rparr>"

definition requeue_key :: "string \<Rightarrow> string \<Rightarrow> nat \<times> db \<Rightarrow> int \<times> int \<Rightarrow> nat \<times> db" where
  "requeue_key dt tid acc k = (case acc of (changed, d) \<Rightarrow>
     (changed + rowcount (retried_row tid k) (seat_notifications d),
      d\<lparr>seat_notifications := sql_update (retried_row tid k) (requeue_row dt) (seat_notifications d)\<rparr>))"

definition retry_failed_seat_notifications :: "string \<Rightarrow> string \<Rightarrow> db \<Rightarrow> (nat \<times> db) res" where
  "retry_failed_seat_notifications dt tid d = (case get_contest tid d of
     None \<Rightarrow> Inl (KeyError ''contest'')
   | Some c \<Rightarrow>
     if c_state c \<noteq> Ready then Inl (SubmissionConflictError ''only a ready contest can retry notifications'') else
     (case get_pool_row tid d of
        None \<Rightarrow> Inl (SubmissionConflictError ''contest has no seat pool'')
      | Some p \<Rightarrow> (case seat_list (p_state_json p) of
          None \<Rightarrow> Inl (SubmissionConflictError ''seat pool state is invalid'')
        | Some seats \<Rightarrow>
          bindE (mapE (released_key tid d) seats) (\<lambda>ks.
          let keys = sort_key fst (sort_key snd (remdups (List.map_filter id ks)))
          in Inr (foldl (requeue_key dt tid) (0, d) keys)))))"

section \<open>Health\<close>

record health =
  h_pending :: nat
  h_retry :: nat
  h_permanent_failed :: nat
  h_sent :: nat
  h_untracked :: nat
  h_missing_resource :: nat
  h_invalid_pool :: nat

record notify_health =
  nh_counts :: health
  nh_max_retry_attempts :: int
  nh_retry_times :: "string list"
  nh_expected :: "(string \<times> int \<times> int) list"

definition no_health :: notify_health where
  "no_health = \<lparr>nh_counts = \<lparr>h_pending = 0, h_retry = 0, h_permanent_failed = 0, h_sent = 0, h_untracked = 0,
     h_missing_resource = 0, h_invalid_pool = 0\<rparr>, nh_max_retry_attempts = 0, nh_retry_times = [], nh_expected = []\<rparr>"

definition counting :: "(health \<Rightarrow> health) \<Rightarrow> notify_health \<Rightarrow> notify_health" where
  "counting f h = h\<lparr>nh_counts := f (nh_counts h)\<rparr>"

definition invalid_one :: "notify_health \<Rightarrow> notify_health" where
  "invalid_one = counting (\<lambda>c. c\<lparr>h_invalid_pool := h_invalid_pool c + 1\<rparr>)"

definition count_row :: "notification \<Rightarrow> notify_health \<Rightarrow> notify_health" where
  "count_row n h = (case n_state n of
     NPending \<Rightarrow> counting (\<lambda>c. c\<lparr>h_pending := h_pending c + 1\<rparr>) h
   | NSent \<Rightarrow> counting (\<lambda>c. c\<lparr>h_sent := h_sent c + 1\<rparr>) h
   | NPermanentFailed \<Rightarrow> counting (\<lambda>c. c\<lparr>h_permanent_failed := h_permanent_failed c + 1\<rparr>) h
   | NRetry \<Rightarrow> (let g = counting (\<lambda>c. c\<lparr>h_retry := h_retry c + 1\<rparr>) h
       in g\<lparr>nh_max_retry_attempts := max (nh_max_retry_attempts g) (n_attempts n),
            nh_retry_times := (if n_updated_at n = [] then nh_retry_times g else nh_retry_times g @ [n_updated_at n])\<rparr>))"

text \<open>One seat: the students and slots that were released before, and the report so far.\<close>

definition seat_health ::
  "string \<Rightarrow> db \<Rightarrow> int list \<times> int list \<times> notify_health \<Rightarrow> json \<Rightarrow> int list \<times> int list \<times> notify_health" where
  "seat_health tid d acc seat = (case acc of (uids, slots', h) \<Rightarrow>
     (case seat of
        JObj e \<Rightarrow>
          if \<not> is_released seat then acc else
          (case (plain_int 2 (map_of e ''uid''), plain_int 1 (map_of e ''slot_no'')) of
             (Some u, Some n) \<Rightarrow>
               if u \<in> set uids \<or> n \<in> set slots' then (uids, slots', invalid_one h)
               else (u # uids, n # slots', case seat_pool_resource tid n d of
                   None \<Rightarrow> counting (\<lambda>c. c\<lparr>h_missing_resource := h_missing_resource c + 1\<rparr>) h
                 | Some r \<Rightarrow>
                   if r_credential_revision r < 1 then invalid_one h
                   else if (tid, u, r_credential_revision r) \<in> set (nh_expected h) then invalid_one h
                   else let g = h\<lparr>nh_expected := (tid, u, r_credential_revision r) # nh_expected h\<rparr> in
                     (case find_notification (tid, u, ''seat_ready'', r_credential_revision r) d of
                        None \<Rightarrow> counting (\<lambda>c. c\<lparr>h_untracked := h_untracked c + 1\<rparr>) g
                      | Some row \<Rightarrow> count_row row g))
           | _ \<Rightarrow> (uids, slots', invalid_one h))
      | _ \<Rightarrow> (uids, slots', invalid_one h)))"

definition pool_health :: "db \<Rightarrow> notify_health \<Rightarrow> pool_row \<Rightarrow> notify_health" where
  "pool_health d h p = (case seat_list (p_state_json p) of
     None \<Rightarrow> invalid_one h
   | Some xs \<Rightarrow> snd (snd (foldl (seat_health (p_tid p) d) ([], [], h) xs)))"

definition active_contest :: "db \<Rightarrow> string \<Rightarrow> bool" where
  "active_contest d tid \<longleftrightarrow> (case get_contest tid d of
     None \<Rightarrow> False | Some c \<Rightarrow> c_state c \<in> {Registered, Preparing, Ready, Collecting})"

definition seat_notification_health :: "db \<Rightarrow> notify_health" where
  "seat_notification_health d =
     foldl (pool_health d) no_health (filter (\<lambda>p. active_contest d (p_tid p)) (seat_pools d))"

text \<open>\<open>oldest_retry_at\<close> of the report.\<close>

definition oldest_retry_at :: "notify_health \<Rightarrow> string" where
  "oldest_retry_at h = (case sort (nh_retry_times h) of [] \<Rightarrow> [] | x # xs \<Rightarrow> x)"

end
