(* ===== verification/Effects.thy ===== *)
theory Effects
  imports ContestStore
begin

text \<open>
  Operations of \<^verbatim>\<open>orchestrator/services/pipeline.py\<close> change the database in several transactions and act on
  the contest server in between, so an exception in the middle leaves what was done before it. They are
  functions from a world to a result and a world: \<open>eff\<close> is a state monad with exceptions whose state
  survives an exception. \<open>triple P m Q E\<close> says that a run from \<open>P\<close> ends in \<open>Q\<close> with its result, or raises
  in a state of \<open>E\<close>.
\<close>

section \<open>The monad\<close>

type_synonym ('s, 'a) eff = "'s \<Rightarrow> (exn + 'a) \<times> 's"

definition ret :: "'a \<Rightarrow> ('s, 'a) eff" where
  "ret a s = (Inr a, s)"

definition raise :: "exn \<Rightarrow> ('s, 'a) eff" where
  "raise e s = (Inl e, s)"

definition andThen :: "('s, 'a) eff \<Rightarrow> ('a \<Rightarrow> ('s, 'b) eff) \<Rightarrow> ('s, 'b) eff" where
  "andThen m f s = (case m s of (Inl e, s') \<Rightarrow> (Inl e, s') | (Inr a, s') \<Rightarrow> f a s')"

definition lift :: "'a res \<Rightarrow> ('s, 'a) eff" where
  "lift x s = (x, s)"

definition asks :: "('s \<Rightarrow> 'a) \<Rightarrow> ('s, 'a) eff" where
  "asks f s = (Inr (f s), s)"

definition modify :: "('s \<Rightarrow> 's) \<Rightarrow> ('s, unit) eff" where
  "modify f s = (Inr (), f s)"

definition require :: "bool \<Rightarrow> exn \<Rightarrow> ('s, unit) eff" where
  "require b e s = ((if b then Inr () else Inl e), s)"

text \<open>\<open>try: m except Exception as e: h e\<close>.\<close>

definition handle :: "('s, 'a) eff \<Rightarrow> (exn \<Rightarrow> ('s, 'a) eff) \<Rightarrow> ('s, 'a) eff" where
  "handle m h s = (case m s of (Inl e, s') \<Rightarrow> h e s' | (Inr a, s') \<Rightarrow> (Inr a, s'))"

text \<open>\<open>try: m except Exception: log.exception(..)\<close>.\<close>

definition quietly :: "('s, unit) eff \<Rightarrow> ('s, unit) eff" where
  "quietly m = handle m (\<lambda>_. ret ())"

fun forEach :: "'x list \<Rightarrow> ('x \<Rightarrow> 'a \<Rightarrow> ('s, 'a) eff) \<Rightarrow> 'a \<Rightarrow> ('s, 'a) eff" where
  "forEach [] f a = ret a"
| "forEach (x # xs) f a = andThen (f x a) (forEach xs f)"

named_theorems eff_defs \<open>the definitions of the monad, applied to a state\<close>

lemmas eff_run [eff_defs] = ret_def raise_def andThen_def lift_def asks_def modify_def require_def handle_def quietly_def

lemma andThen_simps [simp]:
  "andThen (ret a) f = f a" "andThen (raise e) f = raise e" "andThen m ret = m"
  "andThen (lift (Inr a)) f = f a" "andThen (lift (Inl e)) f = raise e"
  by (auto simp: fun_eq_iff eff_defs split: prod.splits sum.splits)

lemma andThen_assoc: "andThen (andThen m f) g = andThen m (\<lambda>a. andThen (f a) g)"
  by (auto simp: fun_eq_iff andThen_def split: prod.splits sum.splits)

section \<open>Successful runs\<close>

text \<open>A successful run of a sequence splits into successful runs of its steps.\<close>

lemma andThen_InrE:
  assumes "andThen m f s = (Inr b, s'')"
  obtains a s' where "m s = (Inr a, s')" "f a s' = (Inr b, s'')"
  using assms by (auto simp: andThen_def split: prod.splits sum.splits)

lemma andThen_Inr: "m s = (Inr a, s') \<Longrightarrow> andThen m f s = f a s'"
  by (simp add: andThen_def)

lemma andThen_Inl: "m s = (Inl e, s') \<Longrightarrow> andThen m f s = (Inl e, s')"
  by (simp add: andThen_def)

lemma eff_InrD:
  "lift x s = (Inr a, s') \<Longrightarrow> x = Inr a \<and> s' = s"
  "require b e s = (Inr a, s') \<Longrightarrow> b \<and> s' = s"
  "asks g s = (Inr y, s') \<Longrightarrow> y = g s \<and> s' = s"
  "modify h s = (Inr a, s') \<Longrightarrow> s' = h s"
  "ret y s = (Inr z, s') \<Longrightarrow> z = y \<and> s' = s"
  by (auto simp: eff_defs split: if_splits)

lemma raise_not_Inr [simp]: "raise e s \<noteq> (Inr z, s')"
  by (simp add: raise_def)

lemma handle_Inr: "m s = (Inr a, s') \<Longrightarrow> handle m h s = (Inr a, s')"
  by (simp add: handle_def)

section \<open>Triples\<close>

definition triple :: "('s \<Rightarrow> bool) \<Rightarrow> ('s, 'a) eff \<Rightarrow> ('a \<Rightarrow> 's \<Rightarrow> bool) \<Rightarrow> ('s \<Rightarrow> bool) \<Rightarrow> bool" where
  "triple P m Q E \<longleftrightarrow> (\<forall>s. P s \<longrightarrow> (case m s of (Inl e, s') \<Rightarrow> E s' | (Inr a, s') \<Rightarrow> Q a s'))"

lemma tripleD:
  assumes "triple P m Q E" and "P s" and "m s = (r, s')"
  shows "case r of Inl e \<Rightarrow> E s' | Inr a \<Rightarrow> Q a s'"
  using assms by (auto simp: triple_def split: sum.splits)

lemma triple_ret: "(\<And>s. P s \<Longrightarrow> Q a s) \<Longrightarrow> triple P (ret a) Q E"
  by (simp add: triple_def ret_def)

lemma triple_raise: "(\<And>s. P s \<Longrightarrow> E s) \<Longrightarrow> triple P (raise e) Q E"
  by (simp add: triple_def raise_def)

lemma triple_then:
  assumes "triple P m R E" and "\<And>a. triple (R a) (f a) Q E"
  shows "triple P (andThen m f) Q E"
proof (unfold triple_def, intro allI impI)
  fix s assume s: "P s"
  obtain r s' where m: "m s = (r, s')" by fastforce
  show "case andThen m f s of (Inl e, s') \<Rightarrow> E s' | (Inr a, s') \<Rightarrow> Q a s'"
  proof (cases r)
    case (Inl e)
    then show ?thesis using tripleD [OF assms(1) s m] m by (simp add: andThen_def)
  next
    case (Inr a)
    then have "R a s'" using tripleD [OF assms(1) s m] by simp
    then show ?thesis using assms(2) [of a] m Inr by (simp add: andThen_def triple_def)
  qed
qed

lemma triple_lift: "(\<And>s e. P s \<Longrightarrow> x = Inl e \<Longrightarrow> E s) \<Longrightarrow> (\<And>s a. P s \<Longrightarrow> x = Inr a \<Longrightarrow> Q a s) \<Longrightarrow> triple P (lift x) Q E"
  by (auto simp: triple_def lift_def split: sum.splits)

lemma triple_asks: "(\<And>s. P s \<Longrightarrow> Q (f s) s) \<Longrightarrow> triple P (asks f) Q E"
  by (simp add: triple_def asks_def)

lemma triple_modify: "(\<And>s. P s \<Longrightarrow> Q () (f s)) \<Longrightarrow> triple P (modify f) Q E"
  by (simp add: triple_def modify_def)

lemma triple_require:
  "(\<And>s. P s \<Longrightarrow> \<not> b \<Longrightarrow> E s) \<Longrightarrow> (\<And>s. P s \<Longrightarrow> b \<Longrightarrow> Q () s) \<Longrightarrow> triple P (require b e) Q E"
  by (simp add: triple_def require_def)

lemma triple_weaken:
  assumes "triple P' m Q' E'" and "\<And>s. P s \<Longrightarrow> P' s" and "\<And>a s. Q' a s \<Longrightarrow> Q a s" and "\<And>s. E' s \<Longrightarrow> E s"
  shows "triple P m Q E"
  using assms unfolding triple_def by (fastforce split: prod.splits sum.splits)

lemma triple_handle:
  assumes "triple P m Q F" and "\<And>e. triple F (h e) Q E"
  shows "triple P (handle m h) Q E"
proof (unfold triple_def, intro allI impI)
  fix s assume s: "P s"
  obtain r s' where m: "m s = (r, s')" by fastforce
  show "case handle m h s of (Inl e, s') \<Rightarrow> E s' | (Inr a, s') \<Rightarrow> Q a s'"
  proof (cases r)
    case (Inl e)
    then have "F s'" using tripleD [OF assms(1) s m] by simp
    then show ?thesis using assms(2) [of e] m Inl by (simp add: handle_def triple_def)
  next
    case (Inr a)
    then show ?thesis using tripleD [OF assms(1) s m] m by (simp add: handle_def)
  qed
qed

text \<open>The invariant of a loop may depend on the elements that are done.\<close>

lemma triple_forEach:
  assumes "\<And>ys x zs a. xs = ys @ x # zs \<Longrightarrow> triple (I ys a) (f x a) (I (ys @ [x])) E"
  shows "triple (I [] a) (forEach xs f a) (I xs) E"
proof -
  have "triple (I ys a) (forEach zs f a) (I (ys @ zs)) E" if "xs = ys @ zs" for ys zs
    using that
  proof (induction zs arbitrary: ys a)
    case Nil
    then show ?case by (simp add: triple_ret)
  next
    case (Cons z zs)
    have "triple (I (ys @ [z]) b) (forEach zs f b) (I ((ys @ [z]) @ zs)) E" for b
      by (rule Cons.IH) (simp add: Cons.prems)
    then show ?case using assms [OF Cons.prems] by (auto intro: triple_then)
  qed
  from this [of "[]" xs] show ?thesis by simp
qed

lemma triple_pre:
  assumes "\<And>s. P s \<Longrightarrow> triple (\<lambda>t. t = s) m Q E"
  shows "triple P m Q E"
  using assms by (simp add: triple_def)

lemma triple_conseq: "triple P' m Q E \<Longrightarrow> (\<And>s. P s \<Longrightarrow> P' s) \<Longrightarrow> triple P m Q E"
  by (simp add: triple_def)

lemma triple_fact: "(B \<Longrightarrow> triple P m Q E) \<Longrightarrow> (\<And>s. P s \<Longrightarrow> B) \<Longrightarrow> triple P m Q E"
  by (auto simp: triple_def)

lemma triple_if: "(b \<Longrightarrow> triple P m Q E) \<Longrightarrow> (\<not> b \<Longrightarrow> triple P n Q E) \<Longrightarrow> triple P (if b then m else n) Q E"
  by simp

lemma triple_prod: "(\<And>a b. x = (a, b) \<Longrightarrow> triple P (f a b) Q E) \<Longrightarrow> triple P (case x of (a, b) \<Rightarrow> f a b) Q E"
  by (cases x) simp

lemma triple_lift_then:
  assumes "\<And>w. P w \<Longrightarrow> E w" and "\<And>a. x = Inr a \<Longrightarrow> triple P (f a) Q E"
  shows "triple P (andThen (lift x) f) Q E"
  using assms by (cases x) (auto intro: triple_raise)

lemma triple_require_then:
  assumes "\<And>w. P w \<Longrightarrow> E w" and "b \<Longrightarrow> triple P (f ()) Q E"
  shows "triple P (andThen (require b e) f) Q E"
  using assms by (cases b) (auto simp: triple_def eff_defs)

section \<open>The world\<close>

text \<open>
  The database, the contests with an operation under way (\<open>Pipeline._active\<close>), the resources the live
  gateway of the contest server routes to, and the seat containers on it. \<open>frame\<close> holds the local
  variables of the operation that its exception handler reads.
\<close>

record frame =
  connected :: bool
  attempted :: "string list"
  backup :: "resource list option"
  committed :: bool
  paused :: "string option"

definition new_frame :: frame where
  "new_frame = \<lparr>connected = False, attempted = [], backup = None, committed = False, paused = None\<rparr>"

record world =
  base :: db
  active :: "string set"
  routes :: "resource list"
  containers :: "string set"
  paused_now :: "string set"
  local_vars :: frame

definition set_frame :: "(frame \<Rightarrow> frame) \<Rightarrow> (world, unit) eff" where
  "set_frame f = modify (\<lambda>w. w\<lparr>local_vars := f (local_vars w)\<rparr>)"

text \<open>A method of the store: one transaction, rolled back when it raises.\<close>

definition store :: "(db \<Rightarrow> ('a \<times> db) res) \<Rightarrow> (world, 'a) eff" where
  "store f w = (case f (base w) of Inl e \<Rightarrow> (Inl e, w) | Inr (a, d) \<Rightarrow> (Inr a, w\<lparr>base := d\<rparr>))"

definition reading :: "(db \<Rightarrow> 'a) \<Rightarrow> (world, 'a) eff" where
  "reading f = asks (\<lambda>w. f (base w))"

definition writing :: "(db \<Rightarrow> db) \<Rightarrow> (world, unit) eff" where
  "writing f = modify (\<lambda>w. w\<lparr>base := f (base w)\<rparr>)"

lemmas world_run [eff_defs] = set_frame_def store_def reading_def writing_def

lemma triple_store:
  assumes "\<And>w e. P w \<Longrightarrow> f (base w) = Inl e \<Longrightarrow> E w"
    and "\<And>w a d. P w \<Longrightarrow> f (base w) = Inr (a, d) \<Longrightarrow> Q a (w\<lparr>base := d\<rparr>)"
  shows "triple P (store f) Q E"
  using assms by (auto simp: triple_def store_def split: sum.splits)

text \<open>\<open>_TID\<close>, \<open>_enter\<close> and the \<open>finally\<close> that calls \<open>_leave\<close>; a called operation has its own local variables.\<close>

definition hex_digit :: "char \<Rightarrow> bool" where
  "hex_digit c \<longleftrightarrow> is_hex c \<or> between (CHR ''A'') (CHR ''F'') c"

definition enter :: "string \<Rightarrow> (world, unit) eff" where
  "enter tid = andThen (require (re_exact hex_digit 24 tid) (ValueError ''tid''))
     (\<lambda>_. andThen (asks (\<lambda>w. tid \<in> active w))
     (\<lambda>busy. andThen (require (\<not> busy) (RuntimeError ''an operation of the contest is running''))
     (\<lambda>_. modify (\<lambda>w. w\<lparr>active := insert tid (active w)\<rparr>))))"

definition leave :: "string \<Rightarrow> world \<Rightarrow> world" where
  "leave tid w = w\<lparr>active := active w - {tid}\<rparr>"

definition framed :: "(world, 'a) eff \<Rightarrow> (world, 'a) eff" where
  "framed m w = (case m (w\<lparr>local_vars := new_frame\<rparr>) of (r, w') \<Rightarrow> (r, w'\<lparr>local_vars := local_vars w\<rparr>))"

definition exclusively :: "string \<Rightarrow> (world, 'a) eff \<Rightarrow> (world, 'a) eff" where
  "exclusively tid m = andThen (enter tid) (\<lambda>_ w. case m w of (r, w') \<Rightarrow> (r, leave tid w'))"

lemma exclusively_eq:
  "exclusively tid m w = (if \<not> re_exact hex_digit 24 tid then (Inl (ValueError ''tid''), w)
     else if tid \<in> active w then (Inl (RuntimeError ''an operation of the contest is running''), w)
     else (case m (w\<lparr>active := insert tid (active w)\<rparr>) of (r, w') \<Rightarrow> (r, leave tid w')))"
  by (simp add: exclusively_def enter_def eff_defs)

end
