(* ===== verification/NotifyRound.thy ===== *)
theory NotifyRound
  imports NotifyStore RealtimeJudge Effects
begin

text \<open>
  \<^verbatim>\<open>orchestrator/services/hydro_notify.py\<close>: the client that sends one seat's login to its student through
  the judge, and \<^verbatim>\<open>_notify_released_seats\<close> of \<^verbatim>\<open>orchestrator/main.py\<close>: one round of the outbox. The HTTP
  service and the parsing of URLs are parameters.
\<close>

section \<open>The client\<close>

definition control_char :: "char \<Rightarrow> bool" where
  "control_char c \<longleftrightarrow> of_char c < (32 :: nat) \<or> of_char c = (127 :: nat)"

definition seat_notification_id :: "(string \<Rightarrow> string) \<Rightarrow> string \<Rightarrow> int \<Rightarrow> int \<Rightarrow> string res" where
  "seat_notification_id H tid u cr =
     (if \<not> re_exact hex_digit 24 tid then Inl (ValueError ''tid'')
      else if u \<le> 1 then Inl (ValueError ''uid'')
      else if 128 < length (int_str cr) then Inl (ValueError ''seat_revision'')
      else Inr (H (''['' @ join '','' [quote_ascii ''noi-seat-ready-v1'', quote_ascii (py_lower tid), int_str u,
        quote_ascii (int_str cr)] @ '']'')))"

text \<open>\<open>_text\<close>: \<open>secret\<close> for the password, which is not stripped.\<close>

definition client_text :: "string \<Rightarrow> bool \<Rightarrow> string \<Rightarrow> nat \<Rightarrow> bool \<Rightarrow> string res" where
  "client_text name secret v maximum optional = (let s = (if secret then v else py_strip v) in
     if \<not> optional \<and> s = [] \<or> maximum < length (utf8 s) \<or> list_ex control_char s
     then Inl (ValueError name) else Inr s)"

record seat_message =
  sm_notification_id :: string
  sm_uid :: int
  sm_contest_title :: string
  sm_desktop_url :: string
  sm_candidate :: string
  sm_student_password :: string
  sm_available_at :: string

text \<open>The response: a connection error, or the status code with the decoded body.\<close>

type_synonym post_result = "(int \<times> json option) option"

record send_result =
  sr_ok :: bool
  sr_retryable :: bool

definition acknowledged :: "string \<Rightarrow> json \<Rightarrow> bool" where
  "acknowledged nid payload \<longleftrightarrow> jfield ''notification_id'' payload = Some (JStr nid)"

definition send_outcome :: "string \<Rightarrow> post_result \<Rightarrow> send_result res" where
  "send_outcome nid resp = (case resp of
     None \<Rightarrow> Inr \<lparr>sr_ok = False, sr_retryable = True\<rparr>
   | Some (code, body) \<Rightarrow>
       let payload = (case body of None \<Rightarrow> JObj [] | Some v \<Rightarrow> v) in
       bindE (if status_ok code then jget ''notification_id'' payload else Inr None) (\<lambda>_.
       if status_ok code \<and> acknowledged nid payload then Inr \<lparr>sr_ok = True, sr_retryable = False\<rparr>
       else Inr \<lparr>sr_ok = False, sr_retryable = status_ok code \<or> code \<in> {401, 403, 408, 425, 429} \<or> 500 \<le> code\<rparr>))"

definition send_seat_ready ::
  "(string \<Rightarrow> string res) \<Rightarrow> (seat_message \<Rightarrow> post_result) \<Rightarrow> seat_message \<Rightarrow> send_result res" where
  "send_seat_ready exam_url post m =
     (if sm_uid m \<le> 1 then Inl (ValueError ''uid'')
      else if \<not> re_exact is_hex 64 (sm_notification_id m) then Inl (ValueError ''notification_id'') else
      bindE (client_text ''contest_title'' False (sm_contest_title m) 512 False) (\<lambda>title.
      bindE (bindE (client_text ''desktop_url'' False (sm_desktop_url m) 2048 False) exam_url) (\<lambda>url.
      bindE (client_text ''candidate'' False (sm_candidate m) 128 False) (\<lambda>candidate.
      bindE (client_text ''student_password'' True (sm_student_password m) 256 False) (\<lambda>password.
      bindE (client_text ''available_at'' False (sm_available_at m) 128 True) (\<lambda>available.
      send_outcome (sm_notification_id m) (post (m\<lparr>sm_contest_title := title, sm_desktop_url := url,
        sm_candidate := candidate, sm_student_password := password, sm_available_at := available\<rparr>))))))))"

section \<open>The title shown to students\<close>

definition title_open :: "char \<Rightarrow> bool" where
  "title_open c \<longleftrightarrow> py_space c \<or> c = CHR ''[''"

definition title_close :: "char \<Rightarrow> bool" where
  "title_close c \<longleftrightarrow> py_space c \<or> c = CHR '']''"

text \<open>A run of at least four question marks between delimiters: \<open>_CORRUPTED_TITLE_RUN\<close>.\<close>

fun corrupted_from :: "bool \<Rightarrow> string \<Rightarrow> bool" where
  "corrupted_from starts [] = False"
| "corrupted_from starts (c # cs) =
     (let run = takeWhile (\<lambda>x. x = CHR ''?'') (c # cs); rest = dropWhile (\<lambda>x. x = CHR ''?'') (c # cs) in
      starts \<and> 4 \<le> length run \<and> (rest = [] \<or> title_close (hd rest)) \<or> corrupted_from (title_open c) cs)"

definition public_contest_title :: "string \<Rightarrow> string \<Rightarrow> string" where
  "public_contest_title missing value = (let title = py_strip value in
     if title = [] then missing
     else if corrupted_from True title then ''contest (title cannot be shown)'' else title)"

section \<open>One round\<close>

record notify_job =
  jb_uid :: int
  jb_notification_id :: string
  jb_resource :: resource
  jb_state :: notify_state
  jb_attempts :: int
  jb_updated_at :: string

text \<open>\<open>ne_gateway\<close>: the public base URL of the gateway is configured; \<open>ne_status\<close>: state and address of the
  server; \<open>ne_url ip token\<close>: the login URL; \<open>ne_type\<close>: the class name of an exception.\<close>

record notify_env =
  ne_dt :: string
  ne_hash :: "string \<Rightarrow> string"
  ne_gateway :: bool
  ne_status :: "(string \<times> string) res"
  ne_url :: "string \<Rightarrow> string \<Rightarrow> string"
  ne_exam_url :: "string \<Rightarrow> string res"
  ne_post :: "seat_message \<Rightarrow> post_result"
  ne_type :: "exn \<Rightarrow> string"

definition storing :: "(db \<Rightarrow> ('a \<times> db) res) \<Rightarrow> (db, 'a) eff" where
  "storing f d = (case f d of Inl e \<Rightarrow> (Inl e, d) | Inr (a, d') \<Rightarrow> (Inr a, d'))"

definition job_of :: "int \<Rightarrow> string \<Rightarrow> resource \<Rightarrow> notification \<Rightarrow> notify_job" where
  "job_of u nid r n = \<lparr>jb_uid = u, jb_notification_id = (if n_notification_id n = [] then nid else n_notification_id n),
     jb_resource = r, jb_state = n_state n, jb_attempts = n_attempts n, jb_updated_at = n_updated_at n\<rparr>"

text \<open>Queue the notification of one released seat; its row and the reminders of the same credentials
  become jobs unless they are final.\<close>

definition queue_ready ::
  "notify_env \<Rightarrow> string \<Rightarrow> notification list \<Rightarrow> int \<Rightarrow> resource \<Rightarrow> notify_job list \<Rightarrow> (db, notify_job list) eff" where
  "queue_ready E tid reminders u r jobs =
     (let cr = (if r_credential_revision r = 0 then 1 else r_credential_revision r) in
      andThen (lift (seat_notification_id (ne_hash E) tid u cr)) (\<lambda>nid.
      andThen (storing (queue_seat_notification (ne_dt E) tid u ''seat_ready'' cr nid)) (\<lambda>record.
      let records = record # filter (\<lambda>x. n_uid x = u \<and> n_credential_revision x = cr) reminders
      in ret (jobs @ map (job_of u nid r) (filter (\<lambda>x. n_state x \<notin> {NSent, NPermanentFailed}) records)))))"

definition queue_seat ::
  "notify_env \<Rightarrow> string \<Rightarrow> notification list \<Rightarrow> int \<Rightarrow> json \<Rightarrow> notify_job list \<Rightarrow> (db, notify_job list) eff" where
  "queue_seat E tid reminders u seat jobs =
     andThen (lift (bindE (of_option (KeyError ''slot_no'') (jfield ''slot_no'' seat)) py_int)) (\<lambda>n.
     andThen (asks (seat_pool_resource tid n)) (\<lambda>found. case found of
       None \<Rightarrow> raise (RuntimeError ''seat resource unavailable'')
     | Some r \<Rightarrow> queue_ready E tid reminders u r jobs))"

definition prepare_seat ::
  "notify_env \<Rightarrow> string \<Rightarrow> notification list \<Rightarrow> json \<Rightarrow> notify_job list \<Rightarrow> (db, notify_job list) eff" where
  "prepare_seat E tid reminders seat jobs =
     andThen (lift (jget ''state'' seat)) (\<lambda>s.
     if s \<noteq> Some (JStr ''released'') then ret jobs else
     (case jfield ''uid'' seat of
        None \<Rightarrow> ret jobs
      | Some v \<Rightarrow>
          if \<not> py_truthy v then ret jobs else
          andThen (lift (py_int v)) (\<lambda>u. handle (queue_seat E tid reminders u seat jobs) (\<lambda>_. ret jobs))))"

text \<open>\<open>jobs.sort(..)\<close>: rows never attempted first, then fewer attempts, older rows, smaller ids.\<close>

definition job_order :: "notify_job list \<Rightarrow> notify_job list" where
  "job_order jobs = sort_key (\<lambda>j. if jb_state j = NPending then (0 :: int) else 1)
     (sort_key jb_attempts (sort_key jb_updated_at (sort_key jb_uid jobs)))"

definition batch_size :: nat where
  "batch_size = 3"

definition mark :: "notify_env \<Rightarrow> string \<Rightarrow> bool \<Rightarrow> bool \<Rightarrow> string \<Rightarrow> (db, unit) eff" where
  "mark E nid sent retryable error = quietly (storing (\<lambda>d.
     bindE (mark_seat_notification (ne_dt E) nid sent retryable error d) (\<lambda>d'. Inr ((), d'))))"

definition deliver_job :: "notify_env \<Rightarrow> contest \<Rightarrow> string \<Rightarrow> notify_job \<Rightarrow> bool \<times> bool \<times> string" where
  "deliver_job E c ip j =
     (case send_seat_ready (ne_exam_url E) (ne_post E) \<lparr>sm_notification_id = jb_notification_id j, sm_uid = jb_uid j,
        sm_contest_title = public_contest_title (c_tid c) (c_title c), sm_desktop_url = ne_url E ip (r_token (jb_resource j)),
        sm_candidate = r_candidate (jb_resource j), sm_student_password = r_vnc_pass (jb_resource j),
        sm_available_at = ''from '' @ int_str (c_release_lead_minutes c) @ '' minutes before the contest''\<rparr> of
        Inl x \<Rightarrow> (False, True, take 120 (''provider_send:'' @ ne_type E x))
      | Inr res \<Rightarrow> (sr_ok res, sr_retryable res,
          if sr_ok res then [] else if sr_retryable res then ''provider_rejected'' else ''provider_permanent_reject''))"

text \<open>Every job of the batch ends in a mark: of its delivery, or of the missing gateway.\<close>

definition gateway_address :: "notify_env \<Rightarrow> string res" where
  "gateway_address E = (if ne_gateway E then Inr [] else
     bindE (ne_status E) (\<lambda>(state, ip). if ip = [] then Inl (RuntimeError ''gateway address unavailable'') else Inr ip))"

definition deliver_batch :: "notify_env \<Rightarrow> contest \<Rightarrow> notify_job list \<Rightarrow> (db, unit) eff" where
  "deliver_batch E c jobs = (case gateway_address E of
     Inl x \<Rightarrow> forEach jobs (\<lambda>j _. mark E (jb_notification_id j) False True (take 120 (''gateway_lookup:'' @ ne_type E x))) ()
   | Inr ip \<Rightarrow> forEach jobs (\<lambda>j _. case deliver_job E c ip j of (sent, retryable, error) \<Rightarrow>
       mark E (jb_notification_id j) sent retryable error) ())"

definition round_items :: "string \<Rightarrow> db \<Rightarrow> json list res" where
  "round_items tid d = bindE (seat_pool tid d) (\<lambda>s. case s of
     None \<Rightarrow> Inr []
   | Some (n, state, updated) \<Rightarrow> bindE (jget ''seats'' state) (\<lambda>v. case v of None \<Rightarrow> Inr [] | Some x \<Rightarrow> py_iter x))"

text \<open>\<open>_notify_released_seats\<close>; \<open>free\<close>: no other round is running.\<close>

definition notify_released_seats :: "notify_env option \<Rightarrow> bool \<Rightarrow> contest \<Rightarrow> (db, unit) eff" where
  "notify_released_seats notifier free c = (case notifier of
     None \<Rightarrow> ret ()
   | Some E \<Rightarrow> if \<not> free then ret () else
     andThen (asks (round_items (c_tid c))) (\<lambda>items.
     andThen (lift items) (\<lambda>seats.
     andThen (asks (\<lambda>d. filter (\<lambda>n. take 14 (n_kind n) = ''seat_reminder:'') (pending_seat_notifications (Some (c_tid c)) d))) (\<lambda>reminders.
     andThen (forEach seats (prepare_seat E (c_tid c) reminders) []) (\<lambda>jobs.
     deliver_batch E c (take batch_size (job_order jobs)))))))"

end
