(* ===== verification/NotifyLife.thy ===== *)
theory NotifyLife
  imports NotifyRound
begin

text \<open>
  The life of a notification row under every operation that touches the outbox: rounds of the scheduler,
  the teacher's retry and reminder. Rows are never lost, keep their identity, and a sent row is final.
\<close>

section \<open>The table\<close>

definition notes_wf :: "db \<Rightarrow> bool" where
  "notes_wf d \<longleftrightarrow> distinct (map notify_key (seat_notifications d)) \<and> distinct (map n_notification_id (seat_notifications d))
     \<and> [] \<notin> set (map n_notification_id (seat_notifications d))"

definition note_le :: "notification \<Rightarrow> notification \<Rightarrow> bool" where
  "note_le n n' \<longleftrightarrow> notify_key n' = notify_key n \<and> n_notification_id n' = n_notification_id n
     \<and> n_attempts n \<le> n_attempts n' \<and> (n_state n = NSent \<longrightarrow> n' = n)"

definition notes_le :: "db \<Rightarrow> db \<Rightarrow> bool" where
  "notes_le d d' \<longleftrightarrow> above note_le (seat_notifications d) (seat_notifications d')"

definition attempts_made :: "db \<Rightarrow> int" where
  "attempts_made d = sum_list (map n_attempts (seat_notifications d))"

lemma note_le_refl [simp]: "note_le n n"
  by (simp add: note_le_def)

lemma note_le_trans: "note_le a b \<Longrightarrow> note_le b c \<Longrightarrow> note_le a c"
  by (auto simp: note_le_def)

lemma notes_le_refl [simp]: "notes_le d d"
  by (simp add: notes_le_def above_refl)

lemma notes_le_trans: "notes_le a b \<Longrightarrow> notes_le b c \<Longrightarrow> notes_le a c"
  unfolding notes_le_def by (rule above_trans [of note_le]) (rule note_le_trans)

lemma note_unique:
  "notes_wf d \<Longrightarrow> n \<in> set (seat_notifications d) \<Longrightarrow> m \<in> set (seat_notifications d)
     \<Longrightarrow> n_notification_id n = n_notification_id m \<Longrightarrow> n = m"
  unfolding notes_wf_def by (metis distinct_map inj_onD)

lemma mark_identity [simp]:
  "notify_key (mark_row dt s r e n) = notify_key n" "n_notification_id (mark_row dt s r e n) = n_notification_id n"
  "n_attempts (mark_row dt s r e n) = n_attempts n + 1"
  by (simp_all add: mark_row_def notify_key_def)

lemma requeue_identity [simp]:
  "notify_key (requeue_row dt n) = notify_key n" "n_notification_id (requeue_row dt n) = n_notification_id n"
  "n_attempts (requeue_row dt n) = n_attempts n"
  by (simp_all add: requeue_row_def notify_key_def)

lemma notes_wf_update:
  assumes "notes_wf d" and "\<And>n. notify_key (f n) = notify_key n" and "\<And>n. n_notification_id (f n) = n_notification_id n"
  shows "notes_wf (d\<lparr>seat_notifications := sql_update p f (seat_notifications d)\<rparr>)"
  using assms map_sql_update [of p notify_key f] map_sql_update [of p n_notification_id f]
  by (simp add: notes_wf_def del: set_map)

text \<open>Queueing adds the row, or finds the one with the same key.\<close>

lemma queue_result:
  assumes "queue_seat_notification dt tid u kind cr nid d = Inr (n, d')"
  shows "notify_key n = (tid, u, kind, cr) \<and> n \<in> set (seat_notifications d')
     \<and> (d' = d \<or> d' = d\<lparr>seat_notifications := seat_notifications d @ [new_notification dt tid u kind cr nid]\<rparr>
          \<and> find_notification (tid, u, kind, cr) d = None \<and> nid \<notin> n_notification_id ` set (seat_notifications d))"
  using assms by (auto simp: queue_seat_notification_def Let_def find_notification_def new_notification_def notify_key_def
      list_ex_iff split: option.splits if_splits dest!: find_Some_iff_mem)

lemma new_identity [simp]:
  "notify_key (new_notification dt tid u kind cr nid) = (tid, u, kind, cr)"
  "n_notification_id (new_notification dt tid u kind cr nid) = nid" "n_attempts (new_notification dt tid u kind cr nid) = 0"
  by (simp_all add: new_notification_def notify_key_def)

lemma note_id_nonempty: "notes_wf d \<Longrightarrow> n \<in> set (seat_notifications d) \<Longrightarrow> n_notification_id n \<noteq> []"
  unfolding notes_wf_def by (metis image_eqI set_map)

lemma queue_wf:
  assumes "notes_wf d" and "nid \<noteq> []" and "queue_seat_notification dt tid u kind cr nid d = Inr (n, d')"
  shows "notes_wf d'"
proof -
  consider "d' = d" | "d' = d\<lparr>seat_notifications := seat_notifications d @ [new_notification dt tid u kind cr nid]\<rparr>"
      "find_notification (tid, u, kind, cr) d = None" "nid \<notin> n_notification_id ` set (seat_notifications d)"
    using queue_result [OF assms(3)] by metis
  then show ?thesis
  proof cases
    case 2
    have "(tid, u, kind, cr) \<notin> notify_key ` set (seat_notifications d)"
      using 2(2) by (auto simp: find_notification_def find_None_iff)
    with 2 assms(1,2) show ?thesis by (simp add: notes_wf_def)
  qed (use assms(1) in simp)
qed

lemma queue_rows:
  assumes "queue_seat_notification dt tid u kind cr nid d = Inr (n, d')"
  shows "\<exists>new. seat_notifications d' = seat_notifications d @ new \<and> (\<forall>x \<in> set new. n_attempts x = 0)
     \<and> d' = d\<lparr>seat_notifications := seat_notifications d'\<rparr>"
proof -
  consider "d' = d" | "d' = d\<lparr>seat_notifications := seat_notifications d @ [new_notification dt tid u kind cr nid]\<rparr>"
    using queue_result [OF assms] by blast
  then show ?thesis by cases auto
qed

lemma queue_le: "queue_seat_notification dt tid u kind cr nid d = Inr (n, d') \<Longrightarrow> notes_le d d'"
  using queue_rows [of dt tid u kind cr nid d n d'] above_append [of note_le] by (auto simp: notes_le_def)

text \<open>A mark changes one row.\<close>

lemma mark_result:
  assumes "mark_seat_notification dt nid sent retryable error d = Inr d'"
  shows "d' = d\<lparr>seat_notifications := sql_update (\<lambda>n. n_notification_id n = nid) (mark_row dt sent retryable error) (seat_notifications d)\<rparr>"
  using assms by (auto simp: mark_seat_notification_def split: if_splits)

lemma mark_attempts:
  assumes "mark_seat_notification dt nid sent retryable error d = Inr d'"
  shows "attempts_made d' = attempts_made d + 1"
proof -
  have sum: "sum_list (map n_attempts (sql_update p (mark_row dt sent retryable error) ns))
      = sum_list (map n_attempts ns) + int (rowcount p ns)" for p ns
    by (induction ns) (auto simp: rowcount_def)
  show ?thesis
    using assms by (auto simp: mark_seat_notification_def attempts_made_def sum split: if_splits)
qed

section \<open>The retry\<close>

lemma requeue_key_le: "notes_wf d \<Longrightarrow> requeue_key dt tid (k, d) x = (k', d') \<Longrightarrow> notes_wf d' \<and> notes_le d d'"
  by (auto simp: requeue_key_def notes_le_def notes_wf_update note_le_def retried_row_def intro!: above_update)

lemma requeue_keys_le: "notes_wf d \<Longrightarrow> foldl (requeue_key dt tid) (k, d) xs = (k', d') \<Longrightarrow> notes_wf d' \<and> notes_le d d'"
proof (induction xs arbitrary: k d)
  case (Cons x xs)
  obtain j e where s: "requeue_key dt tid (k, d) x = (j, e)" by fastforce
  have "notes_wf e \<and> notes_le d e" by (rule requeue_key_le [OF Cons.prems(1) s])
  with Cons.IH [of e j] Cons.prems(2) s show ?case by (auto intro: notes_le_trans)
qed simp

lemma retry_le:
  assumes "notes_wf d" and "retry_failed_seat_notifications dt tid d = Inr (k, d')"
  shows "notes_wf d' \<and> notes_le d d'"
proof -
  obtain xs where "foldl (requeue_key dt tid) (0, d) xs = (k, d')"
    using assms(2) by (auto simp: retry_failed_seat_notifications_def Let_def split: option.splits if_splits)
  then show ?thesis by (rule requeue_keys_le [OF assms(1)])
qed

section \<open>A round\<close>

text \<open>While a round prepares: rows are only added, and every job is of a row that is not final.\<close>

definition preparing :: "db \<Rightarrow> notify_job list \<Rightarrow> db \<Rightarrow> bool" where
  "preparing d0 jobs d \<longleftrightarrow> notes_wf d \<and> attempts_made d = attempts_made d0
     \<and> (\<exists>new. seat_notifications d = seat_notifications d0 @ new)
     \<and> (\<forall>j \<in> set jobs. \<exists>n \<in> set (seat_notifications d). n_notification_id n = jb_notification_id j \<and> n_state n \<noteq> NSent)"

text \<open>While it delivers.\<close>

definition delivering :: "db \<Rightarrow> nat \<Rightarrow> db \<Rightarrow> bool" where
  "delivering d0 k d \<longleftrightarrow> notes_wf d \<and> notes_le d0 d \<and> attempts_made d \<le> attempts_made d0 + int k"

definition unsent :: "db \<Rightarrow> notify_job list \<Rightarrow> bool" where
  "unsent d0 jobs \<longleftrightarrow> (\<forall>j \<in> set jobs. \<forall>n \<in> set (seat_notifications d0). n_notification_id n = jb_notification_id j \<longrightarrow> n_state n \<noteq> NSent)"

lemma preparing_unsent:
  assumes "preparing d0 jobs d"
  shows "unsent d0 jobs" and "delivering d0 0 d"
proof -
  obtain new where new: "seat_notifications d = seat_notifications d0 @ new" and wf: "notes_wf d"
    using assms by (auto simp: preparing_def)
  show "unsent d0 jobs"
    unfolding unsent_def
  proof (intro ballI impI)
    fix j n assume j: "j \<in> set jobs" and n: "n \<in> set (seat_notifications d0)" "n_notification_id n = jb_notification_id j"
    then obtain m where m: "m \<in> set (seat_notifications d)" "n_notification_id m = jb_notification_id j" "n_state m \<noteq> NSent"
      using assms by (auto simp: preparing_def)
    have "n \<in> set (seat_notifications d)" using n(1) new by simp
    with note_unique [OF wf this m(1)] n(2) m show "n_state n \<noteq> NSent" by simp
  qed
  show "delivering d0 0 d"
    using assms new by (simp add: delivering_def preparing_def notes_le_def above_append)
qed

lemma seat_id_nonempty: "(\<And>x. H x \<noteq> []) \<Longrightarrow> seat_notification_id H tid u cr = Inr nid \<Longrightarrow> nid \<noteq> []"
  by (auto simp: seat_notification_id_def split: if_splits)

lemma triple_storing:
  assumes "\<And>d a d'. P d \<Longrightarrow> f d = Inr (a, d') \<Longrightarrow> Q (g a) d'" and "\<And>d. P d \<Longrightarrow> E d"
  shows "triple P (andThen (storing f) (\<lambda>a. ret (g a))) Q E"
  using assms by (auto simp: triple_def andThen_def storing_def ret_def split: sum.splits prod.splits)

lemma queue_ready_triple:
  assumes H: "\<And>x. ne_hash E x \<noteq> []" and rem: "set reminders \<subseteq> {n \<in> set (seat_notifications d0). n_state n \<noteq> NSent}"
  shows "triple (preparing d0 jobs) (queue_ready E tid reminders u r jobs) (preparing d0) (preparing d0 jobs)"
  unfolding queue_ready_def Let_def
proof (rule triple_lift_then, assumption)
  fix nid
  let ?cr = "if r_credential_revision r = 0 then 1 else r_credential_revision r"
  let ?jobs = "\<lambda>n. map (job_of u nid r) (filter (\<lambda>x. n_state x \<notin> {NSent, NPermanentFailed})
    (n # filter (\<lambda>x. n_uid x = u \<and> n_credential_revision x = ?cr) reminders))"
  assume nid: "seat_notification_id (ne_hash E) tid u ?cr = Inr nid"
  have "preparing d0 (jobs @ ?jobs n) d'"
    if d: "preparing d0 jobs d" and q: "queue_seat_notification (ne_dt E) tid u ''seat_ready'' ?cr nid d = Inr (n, d')" for d n d'
  proof -
    obtain new where new: "seat_notifications d' = seat_notifications d @ new" "\<forall>x \<in> set new. n_attempts x = 0"
      using queue_rows [OF q] by blast
    have wf: "notes_wf d'" using queue_wf [OF _ seat_id_nonempty [OF H nid] q] d by (simp add: preparing_def)
    have "sum_list (map n_attempts new) = 0" using new(2) by (induction new) auto
    then have total: "attempts_made d' = attempts_made d0" using d new(1) by (simp add: preparing_def attempts_made_def)
    have rows: "\<exists>new. seat_notifications d' = seat_notifications d0 @ new" using d new(1) by (auto simp: preparing_def)
    have old: "\<exists>m \<in> set (seat_notifications d'). n_notification_id m = jb_notification_id j \<and> n_state m \<noteq> NSent" if "j \<in> set jobs" for j
      using d new(1) that by (auto simp: preparing_def)
    have mine: "\<exists>m \<in> set (seat_notifications d'). n_notification_id m = jb_notification_id j \<and> n_state m \<noteq> NSent"
      if j: "j \<in> set (?jobs n)" for j
    proof -
      obtain m where m: "j = job_of u nid r m" "m \<in> set (n # reminders)" "n_state m \<noteq> NSent" using j by (auto split: if_splits)
      have "m \<in> set (seat_notifications d')" using m(2) rem queue_result [OF q] rows by auto
      with m(1,3) note_id_nonempty [OF wf this] show ?thesis by (auto simp: job_of_def)
    qed
    have "\<forall>j \<in> set (jobs @ ?jobs n). \<exists>m \<in> set (seat_notifications d'). n_notification_id m = jb_notification_id j \<and> n_state m \<noteq> NSent"
      unfolding set_append using old mine by blast
    then show ?thesis unfolding preparing_def using wf total rows by blast
  qed
  then show "triple (preparing d0 jobs) (andThen (storing (queue_seat_notification (ne_dt E) tid u ''seat_ready'' ?cr nid))
      (\<lambda>record. ret (jobs @ ?jobs record))) (preparing d0) (preparing d0 jobs)"
    by (intro triple_storing)
qed

lemma queue_seat_triple:
  assumes "\<And>x. ne_hash E x \<noteq> []" and "set reminders \<subseteq> {n \<in> set (seat_notifications d0). n_state n \<noteq> NSent}"
  shows "triple (preparing d0 jobs) (queue_seat E tid reminders u seat jobs) (preparing d0) (preparing d0 jobs)"
  unfolding queue_seat_def
proof (rule triple_lift_then, assumption, rule triple_then [where R = "\<lambda>_. preparing d0 jobs", OF triple_asks], assumption)
  show "triple (preparing d0 jobs) (case found of None \<Rightarrow> raise (RuntimeError ''seat resource unavailable'')
      | Some r \<Rightarrow> queue_ready E tid reminders u r jobs) (preparing d0) (preparing d0 jobs)" for found
    by (cases found) (simp_all add: triple_raise queue_ready_triple [OF assms])
qed

lemma prepare_seat_triple:
  assumes "\<And>x. ne_hash E x \<noteq> []" and "set reminders \<subseteq> {n \<in> set (seat_notifications d0). n_state n \<noteq> NSent}"
  shows "triple (preparing d0 jobs) (prepare_seat E tid reminders seat jobs) (preparing d0) (preparing d0 jobs)"
  unfolding prepare_seat_def
  by (rule triple_lift_then, assumption, intro triple_if, simp add: triple_ret, split option.split, intro conjI impI allI triple_if)
    (auto intro!: triple_ret triple_lift_then triple_handle [OF queue_seat_triple [OF assms]])

lemma mark_triple:
  assumes "\<And>n. n \<in> set (seat_notifications d0) \<Longrightarrow> n_notification_id n = nid \<Longrightarrow> n_state n \<noteq> NSent"
  shows "triple (delivering d0 k) (mark E nid sent retryable error) (\<lambda>_. delivering d0 (Suc k)) F"
proof -
  have "delivering d0 (Suc k) d'"
    if d: "delivering d0 k d" and m: "mark_seat_notification (ne_dt E) nid sent retryable error d = Inr d'" for d d'
  proof -
    note r = mark_result [OF m]
    have "notes_wf d'" unfolding r using d by (simp add: delivering_def notes_wf_update)
    moreover have "\<exists>y \<in> set (seat_notifications d'). note_le n y" if n: "n \<in> set (seat_notifications d0)" for n
    proof -
      obtain x where x: "x \<in> set (seat_notifications d)" "note_le n x"
        using d n by (auto simp: delivering_def notes_le_def above_def)
      let ?y = "if n_notification_id x = nid then mark_row (ne_dt E) sent retryable error x else x"
      have "note_le n ?y" using x(2) assms [OF n] by (auto simp: note_le_def)
      moreover have "?y \<in> set (seat_notifications d')" unfolding r using x(1) by (simp add: set_sql_update)
      ultimately show ?thesis by blast
    qed
    ultimately show ?thesis
      using mark_attempts [OF m] d by (simp add: delivering_def notes_le_def above_def)
  qed
  moreover have "delivering d0 (Suc k) d" if "delivering d0 k d" for d
    using that by (simp add: delivering_def)
  ultimately show ?thesis
    by (auto simp: mark_def triple_def quietly_def handle_def storing_def ret_def split: sum.splits prod.splits)
qed

lemma marks_triple:
  assumes "unsent d0 jobs"
  shows "triple (delivering d0 k) (forEach jobs (\<lambda>j _. mark E (jb_notification_id j) (s j) (t j) (e j)) ())
    (\<lambda>_. delivering d0 (k + length jobs)) F"
  using assms
proof (induction jobs arbitrary: k)
  case (Cons j jobs)
  have "triple (delivering d0 k) (mark E (jb_notification_id j) (s j) (t j) (e j)) (\<lambda>_. delivering d0 (Suc k)) F"
    by (rule mark_triple) (use Cons.prems in \<open>auto simp: unsent_def\<close>)
  moreover have "triple (delivering d0 (Suc k)) (forEach jobs (\<lambda>j _. mark E (jb_notification_id j) (s j) (t j) (e j)) ())
      (\<lambda>_. delivering d0 (k + length (j # jobs))) F"
    using Cons.IH [of "Suc k"] Cons.prems by (simp add: unsent_def)
  ultimately show ?case by (simp add: triple_then)
qed (simp add: triple_ret)

lemma batch_marks:
  "\<exists>s t e. deliver_batch E c jobs = forEach jobs (\<lambda>j _. mark E (jb_notification_id j) (s j) (t j) (e j)) ()"
proof (cases "gateway_address E")
  case (Inl x)
  then show ?thesis
    by (intro exI [of _ "\<lambda>_. False"] exI [of _ "\<lambda>_. True"] exI [of _ "\<lambda>_. take 120 (''gateway_lookup:'' @ ne_type E x)"])
      (simp add: deliver_batch_def)
next
  case (Inr ip)
  then show ?thesis
    by (intro exI [of _ "\<lambda>j. fst (deliver_job E c ip j)"] exI [of _ "\<lambda>j. fst (snd (deliver_job E c ip j))"]
        exI [of _ "\<lambda>j. snd (snd (deliver_job E c ip j))"]) (simp add: deliver_batch_def split_beta)
qed

lemma job_order_set [simp]: "set (job_order jobs) = set jobs"
  by (simp add: job_order_def)

lemma round_triple:
  assumes H: "\<And>x. ne_hash E x \<noteq> []" and wf: "notes_wf d"
  shows "triple (\<lambda>x. x = d) (notify_released_seats (Some E) free c) (\<lambda>_. delivering d batch_size) (delivering d batch_size)"
proof (cases free)
  case True
  have upto: "delivering d batch_size x" if "preparing d js x" for js x
    using preparing_unsent(2) [OF that] by (simp add: delivering_def)
  have start: "preparing d [] d" using wf by (simp add: preparing_def)
  define rem where "rem = filter (\<lambda>n. take 14 (n_kind n) = ''seat_reminder:'') (pending_seat_notifications (Some (c_tid c)) d)"
  have rem: "set rem \<subseteq> {n \<in> set (seat_notifications d). n_state n \<noteq> NSent}"
    by (auto simp: rem_def pending_seat_notifications_def)
  have prep: "triple (\<lambda>x. x = d) (forEach seats (prepare_seat E (c_tid c) rem) []) (preparing d) (delivering d batch_size)" for seats
  proof (rule triple_conseq [OF triple_forEach [where I = "\<lambda>_. preparing d"]])
    show "triple (preparing d js) (prepare_seat E (c_tid c) rem seat js) (preparing d) (delivering d batch_size)" for js seat
      by (rule triple_weaken [OF prepare_seat_triple [OF H rem]]) (auto intro: upto)
  qed (use start in simp)
  have deliver: "triple (preparing d js) (deliver_batch E c (take batch_size (job_order js))) (\<lambda>_. delivering d batch_size)
      (delivering d batch_size)" for js
  proof (rule triple_fact [where B = "unsent d (take batch_size (job_order js))"])
    let ?js = "take batch_size (job_order js)"
    assume u: "unsent d ?js"
    obtain s t e where b: "deliver_batch E c ?js = forEach ?js (\<lambda>j _. mark E (jb_notification_id j) (s j) (t j) (e j)) ()"
      using batch_marks by blast
    show "triple (preparing d js) (deliver_batch E c ?js) (\<lambda>_. delivering d batch_size) (delivering d batch_size)"
      unfolding b by (rule triple_weaken [OF marks_triple [OF u, of 0]], erule preparing_unsent(2)) (auto simp: delivering_def)
  qed (auto simp: unsent_def dest!: preparing_unsent(1) in_set_takeD)
  have "triple (\<lambda>x. x = d) (andThen (asks (round_items (c_tid c))) (\<lambda>items. andThen (lift items) (\<lambda>seats.
     andThen (asks (\<lambda>d. filter (\<lambda>n. take 14 (n_kind n) = ''seat_reminder:'') (pending_seat_notifications (Some (c_tid c)) d))) (\<lambda>reminders.
     andThen (forEach seats (prepare_seat E (c_tid c) reminders) []) (\<lambda>jobs.
     deliver_batch E c (take batch_size (job_order jobs))))))) (\<lambda>_. delivering d batch_size) (delivering d batch_size)"
  proof (rule triple_then [where R = "\<lambda>_ x. x = d", OF triple_asks], assumption, rule triple_lift_then)
    show "delivering d batch_size x" if "x = d" for x using upto [OF start] that by simp
    fix seats
    show "triple (\<lambda>x. x = d) (andThen (asks (\<lambda>d. filter (\<lambda>n. take 14 (n_kind n) = ''seat_reminder:'') (pending_seat_notifications (Some (c_tid c)) d))) (\<lambda>reminders.
     andThen (forEach seats (prepare_seat E (c_tid c) reminders) []) (\<lambda>jobs.
     deliver_batch E c (take batch_size (job_order jobs))))) (\<lambda>_. delivering d batch_size) (delivering d batch_size)"
    proof (rule triple_then [where R = "\<lambda>r x. x = d \<and> r = rem", OF triple_asks])
      show "triple (\<lambda>x. x = d \<and> r = rem) (andThen (forEach seats (prepare_seat E (c_tid c) r) []) (\<lambda>jobs.
        deliver_batch E c (take batch_size (job_order jobs)))) (\<lambda>_. delivering d batch_size) (delivering d batch_size)" for r
        by (rule triple_fact [where B = "r = rem"]) (auto intro: triple_conseq [OF triple_then [OF prep deliver]])
    qed (simp add: rem_def)
  qed
  then show ?thesis by (simp add: notify_released_seats_def True)
qed (auto simp: notify_released_seats_def triple_def ret_def delivering_def wf)

end
