(* ===== verification/NotifyAdmin.thy ===== *)
theory NotifyAdmin
  imports NotifyLife
begin

text \<open>
  \<^verbatim>\<open>orchestrator/main.py\<close>: the teacher's routes to the notification outbox, and the verdict of \<open>/healthz\<close> about it;
  histories of everything that touches the outbox.
\<close>

section \<open>The teacher\<close>

text \<open>\<open>TeacherIdentity\<close>; an identity that is only a name has no scope.\<close>

record teacher =
  teacher_actor :: string
  teacher_scope :: "string option"

definition http :: "nat \<Rightarrow> exn" where
  "http code = OtherError ''HTTPException'' (nat_str code)"

definition ascii_text :: "string \<Rightarrow> bool" where
  "ascii_text s \<longleftrightarrow> list_all (\<lambda>c. of_char c < (128 :: nat)) s"

text \<open>\<open>secrets.compare_digest\<close> of two strings refuses other characters.\<close>

definition require_teacher_contest :: "teacher \<Rightarrow> string \<Rightarrow> string res" where
  "require_teacher_contest teacher tid = (let normalized = py_lower (py_strip tid) in
     case teacher_scope teacher of
       None \<Rightarrow> Inr normalized
     | Some scope \<Rightarrow>
         if \<not> (ascii_text scope \<and> ascii_text normalized) then Inl (TypeError ''compare_digest'')
         else if scope \<noteq> normalized then Inl (http 403) else Inr normalized)"

definition require_csrf :: "string \<Rightarrow> string \<Rightarrow> unit res" where
  "require_csrf expected v =
     (if \<not> (ascii_text v \<and> ascii_text expected) then Inl (TypeError ''compare_digest'')
      else if v \<noteq> expected then Inl (http 403) else Inr ())"

definition audit_teacher :: "string \<Rightarrow> int \<Rightarrow> teacher \<Rightarrow> string \<Rightarrow> string \<Rightarrow> jdict option \<Rightarrow> (db, int) eff" where
  "audit_teacher dt ms teacher tid action details =
     storing (append_audit dt (''teacher:'' @ teacher_actor teacher) action ''requested'' tid details ms)"

text \<open>A request of a teacher: the time, the token of the form and the contest.\<close>

record request =
  q_dt :: string
  q_ms :: int
  q_csrf_expected :: string
  q_csrf :: string
  q_teacher :: teacher
  q_contest :: string

section \<open>Retry\<close>

definition retry_error :: "exn \<Rightarrow> exn" where
  "retry_error x = (case x of KeyError m \<Rightarrow> http 404 | SubmissionConflictError m \<Rightarrow> http 409 | _ \<Rightarrow> x)"

text \<open>The result says whether a round is started in the background.\<close>

definition admin_retry_notifications :: "notify_env option \<Rightarrow> request \<Rightarrow> (db, bool) eff" where
  "admin_retry_notifications notifier q =
     andThen (lift (require_csrf (q_csrf_expected q) (q_csrf q))) (\<lambda>_.
     andThen (lift (require_teacher_contest (q_teacher q) (q_contest q))) (\<lambda>tid.
     andThen (require (re_exact hex_digit 24 tid) (http 400)) (\<lambda>_.
     andThen (require (notifier \<noteq> None) (http 503)) (\<lambda>_.
     andThen (handle (storing (retry_failed_seat_notifications (q_dt q) tid)) (\<lambda>x. raise (retry_error x))) (\<lambda>changed.
     andThen (audit_teacher (q_dt q) (q_ms q) (q_teacher q) tid ''contest.notifications.retry''
       (Some [(''requeued'', JInt (int changed))])) (\<lambda>_.
     ret (changed \<noteq> 0)))))))"

section \<open>A reminder for one student\<close>

definition reminder_id :: "(string \<Rightarrow> string) \<Rightarrow> string \<Rightarrow> int \<Rightarrow> int \<Rightarrow> string \<Rightarrow> string" where
  "reminder_id H tid u cr nonce = H (''seat-reminder:'' @ tid @ '':'' @ int_str u @ '':'' @ int_str cr @ '':'' @ nonce)"

text \<open>The seat that the student has and the resource of its slot.\<close>

definition reminded_resource :: "string \<Rightarrow> int \<Rightarrow> (db, resource) eff" where
  "reminded_resource tid u =
     andThen (asks (seat_pool_assignment tid u)) (\<lambda>found.
     andThen (lift found) (\<lambda>assignment. case assignment of
       None \<Rightarrow> raise (http 409)
     | Some (seat, r) \<Rightarrow>
       andThen (require (is_released seat) (http 409)) (\<lambda>_.
       andThen (lift (bindE (of_option (KeyError ''slot_no'') (jfield ''slot_no'' seat)) py_int)) (\<lambda>n.
       andThen (asks (seat_pool_resource tid n)) (\<lambda>resource. case resource of
         None \<Rightarrow> raise (http 409) | Some r \<Rightarrow> ret r)))))"

definition admin_resend_notification :: "notify_env option \<Rightarrow> request \<Rightarrow> int \<Rightarrow> string \<Rightarrow> (db, unit) eff" where
  "admin_resend_notification notifier q u nonce =
     andThen (lift (require_csrf (q_csrf_expected q) (q_csrf q))) (\<lambda>_.
     andThen (lift (require_teacher_contest (q_teacher q) (q_contest q))) (\<lambda>tid.
     case notifier of None \<Rightarrow> raise (http 503) | Some E \<Rightarrow>
     andThen (require (re_exact is_hex 32 nonce) (http 400)) (\<lambda>_.
     andThen (asks (get_contest tid)) (\<lambda>contest.
     andThen (require (case contest of None \<Rightarrow> False | Some c \<Rightarrow> c_state c = Ready \<and> q_ms q < c_end_at_ms c) (http 409)) (\<lambda>_.
     andThen (reminded_resource tid u) (\<lambda>r.
     andThen (storing (queue_seat_notification (q_dt q) tid u (''seat_reminder:'' @ nonce) (r_credential_revision r)
       (reminder_id (ne_hash E) tid u (r_credential_revision r) nonce))) (\<lambda>_.
     andThen (audit_teacher (q_dt q) (q_ms q) (q_teacher q) tid ''contest.notifications.resend'' (Some [(''uid'', JInt u)])) (\<lambda>_.
     ret ()))))))))"

text \<open>\<open>_spawn_notification_retry\<close>: one round in the background, whose exceptions are logged.\<close>

definition spawned_round :: "notify_env option \<Rightarrow> bool \<Rightarrow> string \<Rightarrow> (db, unit) eff" where
  "spawned_round notifier free tid = quietly (
     andThen (asks (get_contest tid)) (\<lambda>contest. case contest of
       None \<Rightarrow> ret ()
     | Some c \<Rightarrow> if c_state c = Ready then notify_released_seats notifier free c else ret ()))"

section \<open>Health\<close>

definition notification_healthy :: "bool \<Rightarrow> db \<Rightarrow> bool" where
  "notification_healthy enabled d \<longleftrightarrow> \<not> enabled \<or> (let c = nh_counts (seat_notification_health d) in
     h_pending c = 0 \<and> h_retry c = 0 \<and> h_permanent_failed c = 0 \<and> h_untracked c = 0 \<and> h_missing_resource c = 0
     \<and> h_invalid_pool c = 0)"

section \<open>Histories\<close>

text \<open>Everything that writes the outbox. A step of the system is the database it leaves, also when it raises.\<close>

datatype notify_op =
    Round notify_env bool contest
  | Spawned notify_env bool string
  | RetryRoute notify_env request
  | ResendRoute notify_env request int string

fun notify_run :: "notify_op \<Rightarrow> db \<Rightarrow> db" where
  "notify_run (Round E free c) d = snd (notify_released_seats (Some E) free c d)"
| "notify_run (Spawned E free tid) d = snd (spawned_round (Some E) free tid d)"
| "notify_run (RetryRoute E q) d = snd (admin_retry_notifications (Some E) q d)"
| "notify_run (ResendRoute E q u nonce) d = snd (admin_resend_notification (Some E) q u nonce d)"

fun op_env :: "notify_op \<Rightarrow> notify_env" where
  "op_env (Round E free c) = E"
| "op_env (Spawned E free tid) = E"
| "op_env (RetryRoute E q) = E"
| "op_env (ResendRoute E q u nonce) = E"

text \<open>SHA-256 is never the empty text; an environment without that is refused.\<close>

definition notify_step :: "(string \<Rightarrow> string) \<Rightarrow> notify_op \<Rightarrow> db \<Rightarrow> db res" where
  "notify_step H c d = (if ne_hash (op_env c) = H then Inr (notify_run c d) else Inl (RuntimeError ''hash''))"

end
