(* ===== verification/NotifyThms.thy ===== *)
theory NotifyThms
  imports NotifyAdmin
begin

text \<open>The properties of the notification outbox.\<close>

section \<open>Every operation moves forward\<close>

definition moving :: "db \<Rightarrow> db \<Rightarrow> bool" where
  "moving d0 d \<longleftrightarrow> notes_wf d \<and> notes_le d0 d"

lemma moving_round:
  assumes "\<And>x. ne_hash E x \<noteq> []"
  shows "triple (moving d0) (notify_released_seats (Some E) free c) (\<lambda>_. moving d0) (moving d0)"
  unfolding triple_def
proof (intro allI impI)
  fix d assume d: "moving d0 d"
  have "moving d0 x" if "delivering d batch_size x" for x
    using that d notes_le_trans [of d0 d x] by (simp add: moving_def delivering_def)
  with d round_triple [OF assms, of d free c] show "case notify_released_seats (Some E) free c d of
      (Inl e, d') \<Rightarrow> moving d0 d' | (Inr a, d') \<Rightarrow> moving d0 d'"
    by (auto simp: triple_def moving_def split: prod.splits sum.splits)
qed

lemma moving_spawned:
  assumes "\<And>x. ne_hash E x \<noteq> []"
  shows "triple (moving d0) (spawned_round (Some E) free tid) (\<lambda>_. moving d0) (moving d0)"
  unfolding spawned_round_def quietly_def
proof (rule triple_handle [OF triple_then [where R = "\<lambda>_. moving d0", OF triple_asks]], assumption)
  show "triple (moving d0) (case contest of None \<Rightarrow> ret () | Some c \<Rightarrow>
      if c_state c = Ready then notify_released_seats (Some E) free c else ret ()) (\<lambda>_. moving d0) (moving d0)" for contest
    by (cases contest) (auto intro: triple_ret moving_round [OF assms])
qed (rule triple_ret)

lemma triple_storing_step:
  assumes "\<And>d a d'. P d \<Longrightarrow> f d = Inr (a, d') \<Longrightarrow> P d'"
  shows "triple P (storing f) (\<lambda>_. P) P"
  using assms by (auto simp: triple_def storing_def split: sum.splits prod.splits)

lemma moving_audit: "triple (moving d0) (audit_teacher dt ms t tid action details) (\<lambda>_. moving d0) (moving d0)"
  unfolding audit_teacher_def
proof (rule triple_storing_step)
  fix d a d' assume d: "moving d0 d" and a: "append_audit dt (''teacher:'' @ teacher_actor t) action ''requested'' tid details ms d = Inr (a, d')"
  have "seat_notifications d' = seat_notifications d"
    using a by (auto simp: append_audit_def add_audit_def Let_def split: if_split_asm)
  then show "moving d0 d'" using d by (simp add: moving_def notes_wf_def notes_le_def)
qed

lemmas moving_rules = triple_lift_then [where P = "moving d0" and E = "moving d0" for d0]
  triple_require_then [where P = "moving d0" and E = "moving d0" for d0]

lemma moving_retry: "triple (moving d0) (admin_retry_notifications (Some E) q) (\<lambda>_. moving d0) (moving d0)"
  unfolding admin_retry_notifications_def
proof (rule moving_rules(1), assumption, rule moving_rules(1), assumption, rule moving_rules(2), assumption,
    rule moving_rules(2), assumption, rule triple_then [where R = "\<lambda>_. moving d0"])
  show "triple (moving d0) (handle (storing (retry_failed_seat_notifications (q_dt q) tid)) (\<lambda>x. raise (retry_error x)))
      (\<lambda>_. moving d0) (moving d0)" for tid
  proof (rule triple_handle [OF triple_storing_step])
    show "moving d0 d'" if "moving d0 d" "retry_failed_seat_notifications (q_dt q) tid d = Inr (k, d')" for d k d'
      using that retry_le [OF _ that(2)] notes_le_trans by (auto simp: moving_def)
  qed (simp add: triple_raise)
  show "triple (moving d0) (andThen (audit_teacher (q_dt q) (q_ms q) (q_teacher q) tid ''contest.notifications.retry''
      (Some [(''requeued'', JInt (int changed))])) (\<lambda>_. ret (changed \<noteq> 0))) (\<lambda>_. moving d0) (moving d0)" for tid changed
    by (rule triple_then [OF moving_audit]) (rule triple_ret)
qed

lemma reminded_same: "triple P (reminded_resource tid u) (\<lambda>_. P) P"
proof -
  have pure: "snd (reminded_resource tid u d) = d" for d
    by (auto simp: reminded_resource_def eff_defs split: sum.splits option.splits prod.splits)
  show ?thesis unfolding triple_def
  proof (intro allI impI)
    fix d assume "P d"
    then show "case reminded_resource tid u d of (Inl e, d') \<Rightarrow> P d' | (Inr a, d') \<Rightarrow> P d'"
      using pure [of d] by (auto split: prod.split sum.split)
  qed
qed

lemma moving_resend:
  assumes "\<And>x. ne_hash E x \<noteq> []"
  shows "triple (moving d0) (admin_resend_notification (Some E) q u nonce) (\<lambda>_. moving d0) (moving d0)"
  unfolding admin_resend_notification_def option.case
proof (rule moving_rules(1), assumption, rule moving_rules(1), assumption, rule moving_rules(2), assumption,
    rule triple_then [where R = "\<lambda>_. moving d0", OF triple_asks], assumption, rule moving_rules(2), assumption,
    rule triple_then [OF reminded_same], rule triple_then [where R = "\<lambda>_. moving d0", OF triple_storing_step])
  fix tid contest r d n d'
  assume d: "moving d0 d"
    and q: "queue_seat_notification (q_dt q) tid u (''seat_reminder:'' @ nonce) (r_credential_revision r)
       (reminder_id (ne_hash E) tid u (r_credential_revision r) nonce) d = Inr (n, d')"
  have "notes_wf d'" by (rule queue_wf [OF _ _ q]) (use d assms in \<open>auto simp: moving_def reminder_id_def\<close>)
  then show "moving d0 d'" using queue_le [OF q] d notes_le_trans by (auto simp: moving_def)
next
  show "triple (moving d0) (andThen (audit_teacher (q_dt q) (q_ms q) (q_teacher q) tid ''contest.notifications.resend''
      (Some [(''uid'', JInt u)])) (\<lambda>_. ret ())) (\<lambda>_. moving d0) (moving d0)" for tid
    by (rule triple_then [OF moving_audit]) (rule triple_ret)
qed

text \<open>The machine of the outbox; SHA-256 has no empty digest.\<close>

definition outbox_ok :: "(string \<Rightarrow> string) \<Rightarrow> db \<Rightarrow> bool" where
  "outbox_ok H d \<longleftrightarrow> notes_wf d \<and> (\<forall>x. H x \<noteq> [])"

lemma triple_snd:
  assumes "triple P m (\<lambda>_. Q) Q" and "P d"
  shows "Q (snd (m d))"
proof -
  obtain r d' where m: "m d = (r, d')" by fastforce
  with tripleD [OF assms m] show ?thesis by (simp split: sum.splits)
qed

lemma notify_step_moving:
  assumes "outbox_ok H d" and "notify_step H c d = Inr d'"
  shows "moving d d'"
proof -
  have d': "d' = notify_run c d" and d: "moving d d" and H: "ne_hash (op_env c) x \<noteq> []" for x
    using assms by (auto simp: notify_step_def outbox_ok_def moving_def split: if_split_asm)
  show ?thesis
    unfolding d' by (cases c) (use H d in \<open>auto intro!: triple_snd [OF moving_round] triple_snd [OF moving_spawned]
      triple_snd [OF moving_retry] triple_snd [OF moving_resend]\<close>)
qed

interpretation notifications: progress_machine "notify_step H" "outbox_ok H" notes_le for H
proof
  show "outbox_ok H d'" if "outbox_ok H d" "notify_step H c d = Inr d'" for d c d'
    using notify_step_moving [OF that] that(1) by (simp add: moving_def outbox_ok_def)
  show "notes_le d d'" if "outbox_ok H d" "notify_step H c d = Inr d'" for d c d'
    using notify_step_moving [OF that] by (simp add: moving_def)
qed (simp, rule notes_le_trans)

text \<open>C27: No notification is ever lost or turned into another: after any sequence of rounds, background rounds,
  retries and reminders, whatever the judge answers and however the server fails, every row is still there with
  its key and its id, it has not fewer attempts, and a row that was sent is exactly as it was, so that the
  login is not sent again under it; keys and ids stay unique.\<close>

theorem notification_rows_kept:
  assumes "notes_wf d" and "\<And>x. H x \<noteq> []" and "n \<in> set (seat_notifications d)"
  shows "notes_wf (history (notify_step H) cs d) \<and> (\<exists>n' \<in> set (seat_notifications (history (notify_step H) cs d)).
     notify_key n' = notify_key n \<and> n_notification_id n' = n_notification_id n \<and> n_attempts n \<le> n_attempts n'
     \<and> (n_state n = NSent \<longrightarrow> n' = n))"
proof -
  have ok: "outbox_ok H d" using assms(1,2) by (simp add: outbox_ok_def)
  have "\<exists>n' \<in> set (seat_notifications (history (notify_step H) cs d)). note_le n n'"
    using notifications.history_le [OF ok, of cs] assms(3) by (simp add: notes_le_def above_def)
  with notifications.history_inv [OF ok, of cs] show ?thesis by (auto simp: outbox_ok_def note_le_def)
qed

text \<open>C30: A round makes at most three delivery attempts, however many seats are released, and it never takes an
  attempt back.\<close>

theorem round_attempts_bounded:
  assumes "notes_wf d" and "\<And>x. ne_hash E x \<noteq> []" and "notify_released_seats (Some E) free c d = (r, d')"
  shows "attempts_made d' \<le> attempts_made d + 3 \<and> notes_le d d'"
  using round_triple [OF assms(2,1), of free c] assms(3) unfolding triple_def
  by (cases r) (auto simp: delivering_def batch_size_def)

end
