(* ===== verification/NotifyHealth.thy ===== *)
theory NotifyHealth
  imports NotifyThms
begin

text \<open>Exactness of the teacher's retry and of the health report of the notification outbox.\<close>

section \<open>The retry\<close>

text \<open>\<open>x\<close> is a student and the revision of the credentials of a released seat of the stored pool.\<close>

definition current_login :: "string \<Rightarrow> db \<Rightarrow> int \<times> int \<Rightarrow> bool" where
  "current_login tid d x \<longleftrightarrow> (\<exists>p xs seat. get_pool_row tid d = Some p \<and> seat_list (p_state_json p) = Some xs
     \<and> seat \<in> set xs \<and> released_key tid d seat = Inr (Some x))"

lemma rowcount_after:
  "(\<And>n. p n \<Longrightarrow> \<not> q (f n)) \<Longrightarrow> rowcount q (sql_update p f ns) = rowcount (\<lambda>n. q n \<and> \<not> p n) ns"
  by (induction ns) (auto simp: rowcount_def)

lemma sql_update_twice:
  "(\<And>n. p n \<Longrightarrow> \<not> q (f n)) \<Longrightarrow> sql_update q f (sql_update p f ns) = sql_update (\<lambda>n. p n \<or> q n) f ns"
  by (induction ns) auto

lemma rowcount_split: "rowcount p ns + rowcount (\<lambda>n. q n \<and> \<not> p n) ns = rowcount (\<lambda>n. p n \<or> q n) ns"
  by (induction ns) (auto simp: rowcount_def)

lemma requeued_once: "\<not> retried_row tid x (requeue_row dt n)"
  by (simp add: retried_row_def requeue_row_def)

lemma requeue_keys:
  "foldl (requeue_key dt tid) (k, d) xs =
     (k + rowcount (\<lambda>n. \<exists>x \<in> set xs. retried_row tid x n) (seat_notifications d),
      d\<lparr>seat_notifications := sql_update (\<lambda>n. \<exists>x \<in> set xs. retried_row tid x n) (requeue_row dt) (seat_notifications d)\<rparr>)"
proof (induction xs arbitrary: k d)
  case Nil
  show ?case by (simp add: rowcount_def sql_update_id)
next
  case (Cons x xs)
  let ?p = "retried_row tid x" and ?q = "\<lambda>n. \<exists>x \<in> set xs. retried_row tid x n" and ?ns = "seat_notifications d"
  have "foldl (requeue_key dt tid) (k, d) (x # xs) =
     (k + rowcount ?p ?ns + rowcount ?q (sql_update ?p (requeue_row dt) ?ns),
      d\<lparr>seat_notifications := sql_update ?q (requeue_row dt) (sql_update ?p (requeue_row dt) ?ns)\<rparr>)"
    by (simp add: requeue_key_def Cons.IH)
  also have "rowcount ?q (sql_update ?p (requeue_row dt) ?ns) = rowcount (\<lambda>n. ?q n \<and> \<not> ?p n) ?ns"
    by (rule rowcount_after) (simp add: requeued_once)
  also have "sql_update ?q (requeue_row dt) (sql_update ?p (requeue_row dt) ?ns) = sql_update (\<lambda>n. ?p n \<or> ?q n) (requeue_row dt) ?ns"
    by (rule sql_update_twice) (simp add: requeued_once)
  finally show ?case by (simp add: add.assoc rowcount_split)
qed

lemma mapE_mem:
  "mapE f xs = Inr ys \<Longrightarrow> y \<in> set ys \<longleftrightarrow> (\<exists>x \<in> set xs. f x = Inr y)"
  by (induction xs arbitrary: ys) auto

lemma in_map_filter: "x \<in> set (List.map_filter id ys) \<longleftrightarrow> Some x \<in> set ys"
  by (induction ys) (auto simp: List.map_filter_simps split: option.splits)

lemma retry_eq:
  "retry_failed_seat_notifications dt tid d = (case get_contest tid d of
     None \<Rightarrow> Inl (KeyError ''contest'')
   | Some c \<Rightarrow>
     if c_state c \<noteq> Ready then Inl (SubmissionConflictError ''only a ready contest can retry notifications'') else
     (case get_pool_row tid d of
        None \<Rightarrow> Inl (SubmissionConflictError ''contest has no seat pool'')
      | Some p \<Rightarrow> (case seat_list (p_state_json p) of
          None \<Rightarrow> Inl (SubmissionConflictError ''seat pool state is invalid'')
        | Some xs \<Rightarrow> bindE (mapE (released_key tid d) xs) (\<lambda>_.
            let p = \<lambda>n. \<exists>x. current_login tid d x \<and> retried_row tid x n
            in Inr (rowcount p (seat_notifications d),
              d\<lparr>seat_notifications := sql_update p (requeue_row dt) (seat_notifications d)\<rparr>)))))"
proof -
  have "(\<exists>x \<in> set (sort_key fst (sort_key snd (remdups (List.map_filter id ks)))). retried_row tid x n)
      \<longleftrightarrow> (\<exists>x. current_login tid d x \<and> retried_row tid x n)"
    if k: "get_pool_row tid d = Some p" "seat_list (p_state_json p) = Some xs" "mapE (released_key tid d) xs = Inr ks" for p xs ks n
  proof -
    have "x \<in> set (sort_key fst (sort_key snd (remdups (List.map_filter id ks)))) \<longleftrightarrow> current_login tid d x" for x
      using k(1,2) mapE_mem [OF k(3), of "Some x"] by (auto simp: in_map_filter current_login_def)
    then show ?thesis by blast
  qed
  then have pred: "(\<lambda>n. \<exists>x \<in> set (sort_key fst (sort_key snd (remdups (List.map_filter id ks)))). retried_row tid x n)
      = (\<lambda>n. \<exists>x. current_login tid d x \<and> retried_row tid x n)"
    if "get_pool_row tid d = Some p" "seat_list (p_state_json p) = Some xs" "mapE (released_key tid d) xs = Inr ks" for p xs ks
    using that by (intro ext)
  show ?thesis
  proof (cases "get_pool_row tid d")
    case (Some p)
    show ?thesis
    proof (cases "seat_list (p_state_json p)")
      case xs: (Some xs)
      show ?thesis
      proof (cases "mapE (released_key tid d) xs")
        case (Inr ks)
        show ?thesis
          unfolding retry_failed_seat_notifications_def Let_def requeue_keys Some xs option.case Inr bindE_Inr pred [OF Some xs Inr]
          by (simp split: option.split)
      qed (simp add: retry_failed_seat_notifications_def Some xs split: option.split)
    qed (simp add: retry_failed_seat_notifications_def Some split: option.split)
  qed (simp add: retry_failed_seat_notifications_def split: option.split)
qed

lemma retry_same_logins:
  assumes "d' = d\<lparr>seat_notifications := ns\<rparr>"
  shows "get_contest tid d' = get_contest tid d" "get_pool_row tid d' = get_pool_row tid d"
    "released_key tid d' = released_key tid d" "current_login tid d' = current_login tid d"
proof -
  show k: "released_key tid d' = released_key tid d"
    by (simp add: assms released_key_def seat_pool_resource_def fun_eq_iff cong: option.case_cong)
  show "get_contest tid d' = get_contest tid d" by (simp add: assms get_contest_def)
  show p: "get_pool_row tid d' = get_pool_row tid d" by (simp add: assms get_pool_row_def)
  show "current_login tid d' = current_login tid d" by (simp add: current_login_def fun_eq_iff k p)
qed

text \<open>C29: A retry requeues exactly the permanently failed logins and reminders of the students' current
  credentials and reports how many: every other row, and the rows of credentials that were replaced, are
  untouched, and pressing the button again changes nothing.\<close>

theorem retry_is_exact:
  assumes "retry_failed_seat_notifications dt tid d = Inr (k, d')"
  shows "d' = d\<lparr>seat_notifications := map (\<lambda>n. if n_state n = NPermanentFailed \<and> n_tid n = tid \<and> retried_kind (n_kind n)
       \<and> current_login tid d (n_uid n, n_credential_revision n) then requeue_row dt n else n) (seat_notifications d)\<rparr>
     \<and> k = length (filter (\<lambda>n. n_state n = NPermanentFailed \<and> n_tid n = tid \<and> retried_kind (n_kind n)
       \<and> current_login tid d (n_uid n, n_credential_revision n)) (seat_notifications d))
     \<and> retry_failed_seat_notifications dt' tid d' = Inr (0, d')"
proof -
  let ?p = "\<lambda>n. \<exists>x. current_login tid d x \<and> retried_row tid x n"
  let ?q = "\<lambda>n. n_state n = NPermanentFailed \<and> n_tid n = tid \<and> retried_kind (n_kind n)
    \<and> current_login tid d (n_uid n, n_credential_revision n)"
  have pq: "?p = ?q" by (auto simp: retried_row_def fun_eq_iff)
  obtain c p xs ys where r: "get_contest tid d = Some c" "c_state c = Ready" "get_pool_row tid d = Some p"
      "seat_list (p_state_json p) = Some xs" "mapE (released_key tid d) xs = Inr ys"
      "k = rowcount ?p (seat_notifications d)" "d' = d\<lparr>seat_notifications := sql_update ?p (requeue_row dt) (seat_notifications d)\<rparr>"
    using assms unfolding retry_eq by (auto simp: Let_def split: option.splits if_splits)
  note same = retry_same_logins [OF r(7), of tid]
  have none: "\<not> ?p n" if "n \<in> set (seat_notifications d')" for n
    using that requeued_once by (auto simp: r(7) in_sql_update split: if_splits) (metis requeued_once)+
  have "retry_failed_seat_notifications dt' tid d' = Inr (0, d')"
    unfolding retry_eq same using r(1-5) none by (simp add: Let_def rowcount_0 sql_update_id)
  then show ?thesis unfolding r(6,7) pq by (simp add: rowcount_def sql_update_def)
qed

section \<open>Health\<close>

definition troubles :: "notify_health \<Rightarrow> nat" where
  "troubles h = (let c = nh_counts h in h_pending c + h_retry c + h_permanent_failed c + h_untracked c
     + h_missing_resource c + h_invalid_pool c)"

definition all_counts :: "notify_health \<Rightarrow> nat" where
  "all_counts h = troubles h + h_sent (nh_counts h)"

fun is_dict :: "json \<Rightarrow> bool" where
  "is_dict (JObj e) = True"
| "is_dict v = False"

text \<open>The student of a released seat has been sent the login of the slot's current credentials.\<close>

definition login_sent :: "string \<Rightarrow> db \<Rightarrow> json \<Rightarrow> bool" where
  "login_sent tid d seat \<longleftrightarrow> (\<exists>u n r row. plain_int 2 (jfield ''uid'' seat) = Some u \<and> plain_int 1 (jfield ''slot_no'' seat) = Some n
     \<and> seat_pool_resource tid n d = Some r \<and> 1 \<le> r_credential_revision r
     \<and> find_notification (tid, u, ''seat_ready'', r_credential_revision r) d = Some row \<and> n_state row = NSent)"

lemma count_row_simps [simp]:
  "nh_expected (count_row n h) = nh_expected h" "nh_expected (counting f h) = nh_expected h" "nh_expected (invalid_one h) = nh_expected h"
  "all_counts (count_row n h) = Suc (all_counts h)" "all_counts (invalid_one h) = Suc (all_counts h)"
  "troubles (count_row n h) = troubles h + (if n_state n = NSent then 0 else 1)" "troubles (invalid_one h) = Suc (troubles h)"
  by (cases "n_state n"; simp add: count_row_def counting_def invalid_one_def all_counts_def troubles_def Let_def)+

text \<open>What one seat adds, and the students, slots and credentials that are remembered.\<close>

definition fresh_seat :: "int list \<Rightarrow> int list \<Rightarrow> json \<Rightarrow> bool" where
  "fresh_seat uids slots' seat \<longleftrightarrow> (\<forall>u. plain_int 2 (jfield ''uid'' seat) = Some u \<longrightarrow> u \<notin> set uids)
     \<and> (\<forall>n. plain_int 1 (jfield ''slot_no'' seat) = Some n \<longrightarrow> n \<notin> set slots')"

definition remembered :: "string \<Rightarrow> int list \<Rightarrow> notify_health \<Rightarrow> bool" where
  "remembered tid uids h \<longleftrightarrow> (\<forall>u c. (tid, u, c) \<in> set (nh_expected h) \<longrightarrow> u \<in> set uids)"

lemma remembered_simps [simp]:
  "remembered tid us (invalid_one h) = remembered tid us h" "remembered tid us (counting f h) = remembered tid us h"
  "remembered tid us (count_row n h) = remembered tid us h"
  by (simp_all add: remembered_def)

lemma seat_health_skip: "is_dict seat \<Longrightarrow> \<not> is_released seat \<Longrightarrow> seat_health tid d acc seat = acc"
  by (cases seat) (simp_all add: seat_health_def split: prod.split)

lemma seat_health_count:
  "all_counts (snd (snd (seat_health tid d (uids, slots', h) seat)))
     = all_counts h + (if is_dict seat \<and> \<not> is_released seat then 0 else 1)"
  by (cases seat) (auto simp: seat_health_def Let_def all_counts_def troubles_def counting_def invalid_one_def count_row_def
    split: option.splits notify_state.splits)

lemma seat_health_trouble:
  assumes "remembered tid uids h" and "seat_health tid d (uids, slots', h) seat = (uids', slots'', h')"
  shows "troubles h' = troubles h + (if is_dict seat \<and> (is_released seat \<longrightarrow> login_sent tid d seat \<and> fresh_seat uids slots' seat) then 0 else 1)
     \<and> remembered tid uids' h' \<and> (\<forall>t u c. (t, u, c) \<in> set (nh_expected h') \<longrightarrow> (t, u, c) \<in> set (nh_expected h) \<or> t = tid)
     \<and> (is_dict seat \<and> is_released seat \<and> login_sent tid d seat \<and> fresh_seat uids slots' seat \<longrightarrow>
        (\<exists>u n. plain_int 2 (jfield ''uid'' seat) = Some u \<and> plain_int 1 (jfield ''slot_no'' seat) = Some n
          \<and> uids' = u # uids \<and> slots'' = n # slots'))
     \<and> (is_dict seat \<and> \<not> is_released seat \<longrightarrow> uids' = uids \<and> slots'' = slots')"
proof (cases "is_dict seat \<and> is_released seat")
  case False
  then show ?thesis using assms by (cases seat) (auto simp: seat_health_def split: prod.splits)
next
  case True
  then obtain e where e: "seat = JObj e" by (cases seat) auto
  show ?thesis
  proof (cases "plain_int 2 (jfield ''uid'' seat)")
    case None
    then show ?thesis using assms True e by (auto simp: seat_health_def login_sent_def split: prod.splits)
  next
    case u: (Some u)
    show ?thesis
    proof (cases "plain_int 1 (jfield ''slot_no'' seat)")
      case None
      then show ?thesis using assms True e u by (auto simp: seat_health_def login_sent_def split: prod.splits)
    next
      case n: (Some n)
      show ?thesis
      proof (cases "u \<in> set uids \<or> n \<in> set slots'")
        case True
        then show ?thesis using assms \<open>is_dict seat \<and> is_released seat\<close> e u n
          by (auto simp: seat_health_def fresh_seat_def split: prod.splits)
      next
        case fresh: False
        then have x: "(tid, u, c) \<notin> set (nh_expected h)" for c using assms(1) by (auto simp: remembered_def)
        show ?thesis
        proof (cases "seat_pool_resource tid n d")
          case None
          then show ?thesis using assms True e u n fresh
            by (auto simp: seat_health_def login_sent_def remembered_def troubles_def counting_def Let_def) blast+
        next
          case r: (Some r)
          let ?row = "find_notification (tid, u, ''seat_ready'', r_credential_revision r) d"
          have s: "login_sent tid d seat \<longleftrightarrow> 1 \<le> r_credential_revision r \<and> (\<exists>row. ?row = Some row \<and> n_state row = NSent)"
            using u n r by (simp add: login_sent_def)
          have f: "fresh_seat uids slots' seat" using fresh u n by (simp add: fresh_seat_def)
          have h: "uids' = u # uids \<and> slots'' = n # slots' \<and> h' = (if r_credential_revision r < 1 then invalid_one h else
              (let g = h\<lparr>nh_expected := (tid, u, r_credential_revision r) # nh_expected h\<rparr> in
               case ?row of None \<Rightarrow> counting (\<lambda>c. c\<lparr>h_untracked := h_untracked c + 1\<rparr>) g | Some row \<Rightarrow> count_row row g))"
            using assms(2) True e u n r fresh x by (auto simp: seat_health_def Let_def)
          have t: "troubles (h\<lparr>nh_expected := es\<rparr>) = troubles h"
              "troubles (counting (\<lambda>c. c\<lparr>h_untracked := h_untracked c + 1\<rparr>) g) = Suc (troubles g)" for es g
            by (simp_all add: troubles_def counting_def Let_def)
          show ?thesis
            using True h f s u n t assms(1) by (cases ?row) (auto simp: Let_def remembered_def split: if_splits)
        qed
      qed
    qed
  qed
qed

text \<open>Every seat that is malformed or released is counted once.\<close>

lemma seats_counted:
  "all_counts (snd (snd (foldl (seat_health tid d) (uids, slots', h) xs)))
     = all_counts h + length (filter (\<lambda>s. \<not> is_dict s \<or> is_released s) xs)"
proof (induction xs arbitrary: uids slots' h)
  case (Cons x xs)
  obtain us ns g where s: "seat_health tid d (uids, slots', h) x = (us, ns, g)" by (metis prod_cases3)
  show ?case using Cons.IH [of us ns g] seat_health_count [of tid d uids slots' h x] by (auto simp: s)
qed simp

definition pool_green :: "string \<Rightarrow> db \<Rightarrow> int list \<Rightarrow> int list \<Rightarrow> json list \<Rightarrow> bool" where
  "pool_green tid d uids slots' xs \<longleftrightarrow> list_all is_dict xs \<and> list_all (\<lambda>s. login_sent tid d s \<and> fresh_seat uids slots' s) (filter is_released xs)
     \<and> distinct (map (jfield ''uid'') (filter is_released xs)) \<and> distinct (map (jfield ''slot_no'') (filter is_released xs))"

lemma plain_int_Some: "plain_int m v = Some i \<longleftrightarrow> v = Some (JInt i) \<and> m \<le> i"
  by (cases "(m, v)" rule: plain_int.cases) auto

lemma fresh_after:
  assumes "plain_int 2 (jfield ''uid'' x) = Some u" and "plain_int 1 (jfield ''slot_no'' x) = Some n" and "login_sent tid d s"
  shows "fresh_seat (u # uids) (n # ns) s \<longleftrightarrow> fresh_seat uids ns s \<and> jfield ''uid'' s \<noteq> jfield ''uid'' x \<and> jfield ''slot_no'' s \<noteq> jfield ''slot_no'' x"
  using assms by (auto simp: fresh_seat_def login_sent_def plain_int_Some)

lemma pool_green_Cons:
  assumes "is_dict x" and "is_released x" and "login_sent tid d x" and "fresh_seat uids ns x"
    and "plain_int 2 (jfield ''uid'' x) = Some u" and "plain_int 1 (jfield ''slot_no'' x) = Some n"
  shows "pool_green tid d uids ns (x # xs) \<longleftrightarrow> pool_green tid d (u # uids) (n # ns) xs"
proof -
  have "list_all (\<lambda>s. login_sent tid d s \<and> fresh_seat (u # uids) (n # ns) s) ys
      \<longleftrightarrow> list_all (\<lambda>s. login_sent tid d s \<and> fresh_seat uids ns s) ys
        \<and> jfield ''uid'' x \<notin> jfield ''uid'' ` set ys \<and> jfield ''slot_no'' x \<notin> jfield ''slot_no'' ` set ys" for ys
    using fresh_after [OF assms(5,6)] by (induction ys) auto
  then show ?thesis using assms by (auto simp: pool_green_def)
qed

lemma seats_green:
  assumes "remembered tid uids h" and "foldl (seat_health tid d) (uids, slots', h) xs = (uids', slots'', h')"
  shows "troubles h \<le> troubles h' \<and> (troubles h' = troubles h \<longleftrightarrow> pool_green tid d uids slots' xs)
     \<and> (\<forall>t u c. (t, u, c) \<in> set (nh_expected h') \<longrightarrow> (t, u, c) \<in> set (nh_expected h) \<or> t = tid)"
  using assms
proof (induction xs arbitrary: uids slots' h)
  case Nil
  then show ?case by (simp add: pool_green_def)
next
  case (Cons x xs)
  obtain us ns g where s: "seat_health tid d (uids, slots', h) x = (us, ns, g)" by (metis prod_cases3)
  note step = seat_health_trouble [OF Cons.prems(1) s]
  have tail: "foldl (seat_health tid d) (us, ns, g) xs = (uids', slots'', h')" using Cons.prems(2) by (simp add: s)
  have rem: "remembered tid us g" using step by blast
  note rest = Cons.IH [OF rem tail]
  have keys: "\<forall>t u c. (t, u, c) \<in> set (nh_expected h') \<longrightarrow> (t, u, c) \<in> set (nh_expected h) \<or> t = tid" using step rest by blast
  let ?ok = "is_dict x \<and> (is_released x \<longrightarrow> login_sent tid d x \<and> fresh_seat uids slots' x)"
  show ?case
  proof (cases ?ok)
    case False
    then have "\<not> pool_green tid d uids slots' (x # xs)" by (auto simp: pool_green_def)
    moreover have "troubles g = Suc (troubles h)" using step False by simp
    ultimately show ?thesis using rest keys by simp
  next
    case ok: True
    show ?thesis
    proof (cases "is_released x")
      case True
      then obtain u n where un: "plain_int 2 (jfield ''uid'' x) = Some u" "plain_int 1 (jfield ''slot_no'' x) = Some n"
          "us = u # uids" "ns = n # slots'"
        using step ok by blast
      have "pool_green tid d uids slots' (x # xs) \<longleftrightarrow> pool_green tid d us ns xs"
        unfolding un(3,4) by (rule pool_green_Cons) (use ok True un in auto)
      moreover have "troubles g = troubles h" using step ok by simp
      ultimately show ?thesis using rest keys by simp
    next
      case False
      then have "pool_green tid d uids slots' (x # xs) \<longleftrightarrow> pool_green tid d us ns xs"
        using step ok by (simp add: pool_green_def)
      moreover have "troubles g = troubles h" using step ok by simp
      ultimately show ?thesis using rest keys by simp
    qed
  qed
qed

text \<open>What the report asks of the pool of one contest, and what it counts in it.\<close>

definition all_notified :: "db \<Rightarrow> pool_row \<Rightarrow> bool" where
  "all_notified d p \<longleftrightarrow> (case seat_list (p_state_json p) of
     None \<Rightarrow> False
   | Some xs \<Rightarrow> list_all is_dict xs \<and> list_all (login_sent (p_tid p) d) (filter is_released xs)
       \<and> distinct (map (jfield ''uid'') (filter is_released xs)) \<and> distinct (map (jfield ''slot_no'') (filter is_released xs)))"

definition reported :: "pool_row \<Rightarrow> nat" where
  "reported p = (case seat_list (p_state_json p) of
     None \<Rightarrow> 1 | Some xs \<Rightarrow> length (filter (\<lambda>s. \<not> is_dict s \<or> is_released s) xs))"

lemma pool_counted: "all_counts (pool_health d h p) = all_counts h + reported p"
  by (simp add: pool_health_def reported_def seats_counted split: option.split)

lemma pools_counted: "all_counts (foldl (pool_health d) h ps) = all_counts h + sum_list (map reported ps)"
  by (induction ps arbitrary: h) (simp_all add: pool_counted)

lemma fresh_nothing [simp]: "fresh_seat [] [] s"
  by (simp add: fresh_seat_def)

lemma pool_green_eq:
  "seat_list (p_state_json p) = Some xs \<Longrightarrow> pool_green (p_tid p) d [] [] xs \<longleftrightarrow> all_notified d p"
  by (simp add: pool_green_def all_notified_def)

lemma pool_health_green:
  assumes "remembered (p_tid p) [] h"
  shows "troubles h \<le> troubles (pool_health d h p) \<and> (troubles (pool_health d h p) = troubles h \<longleftrightarrow> all_notified d p)
     \<and> (\<forall>t u c. (t, u, c) \<in> set (nh_expected (pool_health d h p)) \<longrightarrow> (t, u, c) \<in> set (nh_expected h) \<or> t = p_tid p)"
proof (cases "seat_list (p_state_json p)")
  case None
  then show ?thesis by (simp add: pool_health_def all_notified_def)
next
  case (Some xs)
  obtain us ns g where f: "foldl (seat_health (p_tid p) d) ([], [], h) xs = (us, ns, g)" by (metis prod_cases3)
  show ?thesis using seats_green [OF assms f] by (simp add: pool_health_def Some f pool_green_eq [OF Some])
qed

lemma pools_green:
  assumes "distinct (map p_tid ps)" and "\<And>p. p \<in> set ps \<Longrightarrow> remembered (p_tid p) [] h"
  shows "troubles h \<le> troubles (foldl (pool_health d) h ps)
     \<and> (troubles (foldl (pool_health d) h ps) = troubles h \<longleftrightarrow> list_all (all_notified d) ps)"
  using assms
proof (induction ps arbitrary: h)
  case (Cons p ps)
  let ?g = "pool_health d h p"
  have s: "troubles h \<le> troubles ?g" "troubles ?g = troubles h \<longleftrightarrow> all_notified d p"
    "\<And>t u c. (t, u, c) \<in> set (nh_expected ?g) \<Longrightarrow> (t, u, c) \<in> set (nh_expected h) \<or> t = p_tid p"
    using pool_health_green [of p h d] Cons.prems(2) by auto
  have "remembered (p_tid q) [] ?g" if q: "q \<in> set ps" for q
  proof -
    have "p_tid q \<noteq> p_tid p" using q Cons.prems(1) by (metis distinct.simps(2) image_eqI list.simps(9) list.set_map)
    moreover have "remembered (p_tid q) [] h" using q Cons.prems(2) by simp
    ultimately show ?thesis using s(3) by (fastforce simp: remembered_def)
  qed
  with Cons.IH [of ?g] Cons.prems(1) s(1,2) show ?case by auto
qed simp

text \<open>C28: The health report is exact: it is green just when in every contest under way the pool is readable and
  every student of a released seat has been sent the login of the seat's current credentials, on one seat
  each. Every released or malformed seat and every unreadable pool is counted exactly once.\<close>

theorem notification_health_exact:
  assumes "distinct (map p_tid (seat_pools d))"
  shows "(notification_healthy True d \<longleftrightarrow> list_all (\<lambda>p. active_contest d (p_tid p) \<longrightarrow> all_notified d p) (seat_pools d))
     \<and> all_counts (seat_notification_health d) = sum_list (map reported (filter (\<lambda>p. active_contest d (p_tid p)) (seat_pools d)))"
proof -
  let ?ps = "filter (\<lambda>p. active_contest d (p_tid p)) (seat_pools d)"
  have zero: "troubles no_health = 0" "all_counts no_health = 0" and none: "remembered t [] no_health" for t
    by (simp_all add: troubles_def all_counts_def no_health_def remembered_def)
  have "notification_healthy True d \<longleftrightarrow> troubles (seat_notification_health d) = 0"
    by (simp add: notification_healthy_def troubles_def Let_def)
  also have "\<dots> \<longleftrightarrow> list_all (all_notified d) ?ps"
    using pools_green [of ?ps no_health d] assms none zero
    by (simp add: seat_notification_health_def distinct_map_filter)
  finally show ?thesis
    using pools_counted [of d no_health ?ps] zero(2) by (auto simp: seat_notification_health_def list_all_iff)
qed

end
