(* ===== verification/SeatPool.thy ===== *)
theory SeatPool
  imports Json
begin

text \<open>
  \<^verbatim>\<open>orchestrator/services/seat_pool.py\<close>: the pre-warmed seat pool, a frozen snapshot with a
  revision and a log of command receipts. Every method of \<^verbatim>\<open>SeatPoolState\<close> is a definition here:
  the guards before \<^verbatim>\<open>_apply\<close>, the closure \<^verbatim>\<open>mutate\<close> it passes, and \<^verbatim>\<open>_apply\<close> itself
  (replay by command id, compare with the expected revision, append the receipt).
  The SHA-256 of \<^verbatim>\<open>hashlib\<close> is the parameter \<open>H\<close>, from bytes to the hexadecimal digest: every
  theorem holds for any such function. Arguments annotated \<open>int\<close> or \<open>str\<close> have that type.
\<close>

section \<open>Data\<close>

datatype seat_role = Primary | Spare

datatype seat_state = Planned | Warming | Verified | Reserved | Released | Frozen | Collected

fun role_str :: "seat_role \<Rightarrow> string" where
  "role_str Primary = ''primary''"
| "role_str Spare = ''spare''"

fun state_str :: "seat_state \<Rightarrow> string" where
  "state_str Planned = ''planned''"
| "state_str Warming = ''warming''"
| "state_str Verified = ''verified''"
| "state_str Reserved = ''reserved''"
| "state_str Released = ''released''"
| "state_str Frozen = ''frozen''"
| "state_str Collected = ''collected''"

definition SEAT_STATES :: "seat_state list" where
  "SEAT_STATES = [Planned, Warming, Verified, Reserved, Released, Frozen, Collected]"

text \<open>The order of \<^verbatim>\<open>SEAT_STATES\<close> is the life cycle of a seat.\<close>

fun seat_rank :: "seat_state \<Rightarrow> nat" where
  "seat_rank Planned = 0"
| "seat_rank Warming = 1"
| "seat_rank Verified = 2"
| "seat_rank Reserved = 3"
| "seat_rank Released = 4"
| "seat_rank Frozen = 5"
| "seat_rank Collected = 6"

lemma seat_rank_inject: "seat_rank a = seat_rank b \<longleftrightarrow> a = b"
  by (cases a; cases b) simp_all

instantiation seat_state :: linorder
begin

definition less_eq_seat_state :: "seat_state \<Rightarrow> seat_state \<Rightarrow> bool" where
  "less_eq_seat_state a b \<longleftrightarrow> seat_rank a \<le> seat_rank b"

definition less_seat_state :: "seat_state \<Rightarrow> seat_state \<Rightarrow> bool" where
  "less_seat_state a b \<longleftrightarrow> seat_rank a < seat_rank b"

instance
  by standard (auto simp: less_eq_seat_state_def less_seat_state_def seat_rank_inject)

end

record seat =
  slot_no :: int
  seat_key :: string
  role :: seat_role
  st :: seat_state
  seat_uid :: "int option"
  seat_uname :: string
  container_ref :: string
  image_digest :: string
  material_digest :: string
  failure_count :: int
  last_error :: string
  reserved_at_ms :: "int option"
  released_at_ms :: "int option"
  frozen_at_ms :: "int option"
  collected_at_ms :: "int option"

record receipt =
  command_id :: string
  fingerprint :: string
  rc_revision :: int
  rc_value :: jdict

record pool =
  pool_tid :: string
  max_participants :: int
  spare_count :: int
  begin_at_ms :: int
  release_at_ms :: int
  revision :: int
  seats :: "seat list"
  receipts :: "receipt list"

record transition =
  tr_state :: pool
  tr_value :: jdict
  replayed :: bool

definition seat_key_of :: "int \<Rightarrow> string" where
  "seat_key_of i = ''seat-'' @ fmt03 i"

text \<open>\<^verbatim>\<open>Seat(slot_no, seat_key, role)\<close> with the defaults of the dataclass.\<close>

definition new_seat :: "int \<Rightarrow> seat_role \<Rightarrow> seat" where
  "new_seat i r = \<lparr>slot_no = i, seat_key = seat_key_of i, role = r, st = Planned, seat_uid = None,
     seat_uname = [], container_ref = [], image_digest = [], material_digest = [],
     failure_count = 0, last_error = [], reserved_at_ms = None, released_at_ms = None,
     frozen_at_ms = None, collected_at_ms = None\<rparr>"

fun opt_int :: "int option \<Rightarrow> json" where
  "opt_int None = JNull"
| "opt_int (Some i) = JInt i"

text \<open>\<^verbatim>\<open>asdict(seat)\<close>.\<close>

definition seat_dict :: "seat \<Rightarrow> jdict" where
  "seat_dict s = [(''slot_no'', JInt (slot_no s)), (''seat_key'', JStr (seat_key s)),
     (''role'', JStr (role_str (role s))), (''state'', JStr (state_str (st s))),
     (''uid'', opt_int (seat_uid s)), (''uname'', JStr (seat_uname s)),
     (''container_ref'', JStr (container_ref s)), (''image_digest'', JStr (image_digest s)),
     (''material_digest'', JStr (material_digest s)), (''failure_count'', JInt (failure_count s)),
     (''last_error'', JStr (last_error s)), (''reserved_at_ms'', opt_int (reserved_at_ms s)),
     (''released_at_ms'', opt_int (released_at_ms s)), (''frozen_at_ms'', opt_int (frozen_at_ms s)),
     (''collected_at_ms'', opt_int (collected_at_ms s))]"

definition seat_json :: "seat \<Rightarrow> json" where
  "seat_json s = JObj (seat_dict s)"

section \<open>Creation and queries\<close>

definition fingerprint_of :: "(string \<Rightarrow> string) \<Rightarrow> string \<Rightarrow> jdict \<Rightarrow> string" where
  "fingerprint_of H operation arguments =
     H (utf8 (dumps (JObj [(''operation'', JStr operation), (''arguments'', JObj arguments)])))"

definition validate_int :: "string \<Rightarrow> int \<Rightarrow> int \<Rightarrow> int res" where
  "validate_int name v minimum =
     (if v < minimum then Inl (PoolConfigurationError name) else Inr v)"

definition reservation_state :: "int \<Rightarrow> int \<Rightarrow> seat_state" where
  "reservation_state now_ms release_at = (if now_ms \<ge> release_at then Released else Reserved)"

definition desired_capacity :: "int \<Rightarrow> int \<Rightarrow> int \<Rightarrow> (int \<times> int) res" where
  "desired_capacity participant_count minimum_spares spare_percent =
     bindE (validate_int ''participant_count'' participant_count 0) (\<lambda>participants.
     bindE (validate_int ''minimum_spares'' minimum_spares 0) (\<lambda>minimum.
     bindE (validate_int ''spare_percent'' spare_percent 0) (\<lambda>percent.
       let proportional = (participants * percent + 99) div 100
       in Inr (participants, max minimum proportional))))"

definition create :: "string \<Rightarrow> int \<Rightarrow> int \<Rightarrow> int \<Rightarrow> int \<Rightarrow> pool res" where
  "create tid mx sp begin_at lead_ms =
     (if py_strip tid = [] then Inl (PoolConfigurationError ''tid cannot be empty'') else
      bindE (validate_int ''max_participants'' mx 0) (\<lambda>maximum.
      bindE (validate_int ''spare_count'' sp 0) (\<lambda>spares.
      bindE (validate_int ''begin_at_ms'' begin_at 1) (\<lambda>bgn.
      bindE (validate_int ''release_lead_ms'' lead_ms 0) (\<lambda>lead.
        if lead \<ge> bgn then Inl (PoolConfigurationError ''release time cannot precede Unix epoch'')
        else Inr \<lparr>pool_tid = py_strip tid, max_participants = maximum, spare_count = spares,
               begin_at_ms = bgn, release_at_ms = bgn - lead, revision = 0,
               seats = map (\<lambda>i. new_seat i (if i \<le> maximum then Primary else Spare))
                         [1..maximum + spares],
               receipts = []\<rparr>)))))"

definition pool_seat :: "pool \<Rightarrow> int \<Rightarrow> seat res" where
  "pool_seat p n = of_option (KeyError ''unknown seat'') (find (\<lambda>s. slot_no s = n) (seats p))"

definition assignment :: "pool \<Rightarrow> int \<Rightarrow> seat option" where
  "assignment p u = find (\<lambda>s. seat_uid s = Some u) (seats p)"

text \<open>\<^verbatim>\<open>state_counts\<close>: the loop \<open>counts[seat.state] += 1\<close> over a dict with every state at zero.\<close>

definition state_counts :: "pool \<Rightarrow> (seat_state \<times> int) list" where
  "state_counts p =
     fold (\<lambda>s counts. map (\<lambda>(k, n). (k, if k = st s then n + 1 else n)) counts)
       (seats p) (map (\<lambda>k. (k, 0)) SEAT_STATES)"

section \<open>Serialization\<close>

definition receipt_dict :: "receipt \<Rightarrow> jdict" where
  "receipt_dict r = [(''command_id'', JStr (command_id r)), (''fingerprint'', JStr (fingerprint r)),
     (''revision'', JInt (rc_revision r)), (''value'', JObj (rc_value r))]"

definition to_dict :: "pool \<Rightarrow> json" where
  "to_dict p = JObj [(''schema_version'', JInt 1), (''tid'', JStr (pool_tid p)),
     (''max_participants'', JInt (max_participants p)), (''spare_count'', JInt (spare_count p)),
     (''begin_at_ms'', JInt (begin_at_ms p)), (''release_at_ms'', JInt (release_at_ms p)),
     (''revision'', JInt (revision p)), (''seats'', JArr (map seat_json (seats p))),
     (''receipts'', JArr (map (\<lambda>r. JObj (receipt_dict r)) (receipts p)))]"

definition to_json :: "pool \<Rightarrow> string" where
  "to_json p = dumps (to_dict p)"

text \<open>
  The dataclass constructor applied to a dict: an unknown or a missing required keyword is a
  TypeError. A value outside the annotated type of its field is reported as TypeError too
  (the dataclass would keep it unchecked; such a seat has no place in the record).
\<close>

fun as_int :: "json \<Rightarrow> int res" where
  "as_int (JInt i) = Inr i"
| "as_int _ = Inl (TypeError ''int field'')"

fun as_str :: "json \<Rightarrow> string res" where
  "as_str (JStr s) = Inr s"
| "as_str _ = Inl (TypeError ''str field'')"

fun as_opt_int :: "json \<Rightarrow> int option res" where
  "as_opt_int JNull = Inr None"
| "as_opt_int (JInt i) = Inr (Some i)"
| "as_opt_int _ = Inl (TypeError ''int or None field'')"

fun as_list :: "json \<Rightarrow> json list res" where
  "as_list (JArr xs) = Inr xs"
| "as_list _ = Inl (TypeError ''list field'')"

fun as_obj :: "json \<Rightarrow> jdict res" where
  "as_obj (JObj d) = Inr d"
| "as_obj _ = Inl (TypeError ''dict field'')"

definition role_of :: "string \<Rightarrow> seat_role res" where
  "role_of s = of_option (TypeError ''role field'') (find (\<lambda>r. role_str r = s) [Primary, Spare])"

definition state_of :: "string \<Rightarrow> seat_state res" where
  "state_of s = of_option (TypeError ''state field'') (find (\<lambda>k. state_str k = s) SEAT_STATES)"

definition need :: "string \<Rightarrow> (json \<Rightarrow> 'a res) \<Rightarrow> jdict \<Rightarrow> 'a res" where
  "need k conv d = (case map_of d k of None \<Rightarrow> Inl (KeyError k) | Some v \<Rightarrow> conv v)"

definition req :: "string \<Rightarrow> (json \<Rightarrow> 'a res) \<Rightarrow> jdict \<Rightarrow> 'a res" where
  "req k conv d = (case map_of d k of None \<Rightarrow> Inl (TypeError k) | Some v \<Rightarrow> conv v)"

definition opt_field :: "string \<Rightarrow> 'a \<Rightarrow> (json \<Rightarrow> 'a res) \<Rightarrow> jdict \<Rightarrow> 'a res" where
  "opt_field k dflt conv d = (case map_of d k of None \<Rightarrow> Inr dflt | Some v \<Rightarrow> conv v)"

definition seat_fields :: "string list" where
  "seat_fields = map fst (seat_dict (new_seat 1 Primary))"

definition seat_of_dict :: "jdict \<Rightarrow> seat res" where
  "seat_of_dict d =
     (if \<not> list_all (\<lambda>k. k \<in> set seat_fields) (map fst d)
      then Inl (TypeError ''unexpected keyword'') else
      bindE (req ''slot_no'' as_int d) (\<lambda>n.
      bindE (req ''seat_key'' as_str d) (\<lambda>key.
      bindE (req ''role'' (\<lambda>v. bindE (as_str v) role_of) d) (\<lambda>r.
      bindE (opt_field ''state'' Planned (\<lambda>v. bindE (as_str v) state_of) d) (\<lambda>state.
      bindE (opt_field ''uid'' None as_opt_int d) (\<lambda>u.
      bindE (opt_field ''uname'' [] as_str d) (\<lambda>name.
      bindE (opt_field ''container_ref'' [] as_str d) (\<lambda>cref.
      bindE (opt_field ''image_digest'' [] as_str d) (\<lambda>img.
      bindE (opt_field ''material_digest'' [] as_str d) (\<lambda>mat.
      bindE (opt_field ''failure_count'' 0 as_int d) (\<lambda>fc.
      bindE (opt_field ''last_error'' [] as_str d) (\<lambda>err.
      bindE (opt_field ''reserved_at_ms'' None as_opt_int d) (\<lambda>res_at.
      bindE (opt_field ''released_at_ms'' None as_opt_int d) (\<lambda>rel_at.
      bindE (opt_field ''frozen_at_ms'' None as_opt_int d) (\<lambda>fr_at.
      bindE (opt_field ''collected_at_ms'' None as_opt_int d) (\<lambda>co_at.
        Inr \<lparr>slot_no = n, seat_key = key, role = r, st = state, seat_uid = u, seat_uname = name,
          container_ref = cref, image_digest = img, material_digest = mat, failure_count = fc,
          last_error = err, reserved_at_ms = res_at, released_at_ms = rel_at,
          frozen_at_ms = fr_at, collected_at_ms = co_at\<rparr>))))))))))))))))"

definition receipt_of_dict :: "jdict \<Rightarrow> receipt res" where
  "receipt_of_dict d =
     (if \<not> list_all (\<lambda>k. k \<in> {''command_id'', ''fingerprint'', ''revision'', ''value''}) (map fst d)
      then Inl (TypeError ''unexpected keyword'') else
      bindE (req ''command_id'' as_str d) (\<lambda>cid.
      bindE (req ''fingerprint'' as_str d) (\<lambda>fp.
      bindE (req ''revision'' as_int d) (\<lambda>rev.
      bindE (req ''value'' as_obj d) (\<lambda>v.
        Inr \<lparr>command_id = cid, fingerprint = fp, rc_revision = rev, rc_value = v\<rparr>)))))"

definition from_dict :: "jdict \<Rightarrow> pool res" where
  "from_dict raw =
     (if (case map_of raw ''schema_version'' of None \<Rightarrow> True | Some v \<Rightarrow> \<not> json_eq v (JInt 1))
      then Inl (PoolConfigurationError ''unsupported seat-pool schema version'') else
      bindE (need ''tid'' as_str raw) (\<lambda>tid.
      bindE (need ''max_participants'' py_int raw) (\<lambda>mx.
      bindE (need ''spare_count'' py_int raw) (\<lambda>sp.
      bindE (need ''begin_at_ms'' py_int raw) (\<lambda>bgn.
      bindE (need ''release_at_ms'' py_int raw) (\<lambda>rel.
      bindE (need ''revision'' py_int raw) (\<lambda>rev.
      bindE (opt_field ''seats'' [] as_list raw) (\<lambda>ss.
      bindE (mapE (\<lambda>v. bindE (as_obj v) seat_of_dict) ss) (\<lambda>sts.
      bindE (opt_field ''receipts'' [] as_list raw) (\<lambda>rs.
      bindE (mapE (\<lambda>v. bindE (as_obj v) receipt_of_dict) rs) (\<lambda>rcs.
        Inr \<lparr>pool_tid = tid, max_participants = mx, spare_count = sp, begin_at_ms = bgn,
          release_at_ms = rel, revision = rev, seats = sts, receipts = rcs\<rparr>)))))))))))"

section \<open>The command protocol\<close>

type_synonym mutation = "seat list \<Rightarrow> (seat list \<times> jdict \<times> (pool \<Rightarrow> pool)) res"

definition find_receipt :: "string \<Rightarrow> pool \<Rightarrow> receipt option" where
  "find_receipt cid p = find (\<lambda>r. command_id r = cid) (receipts p)"

definition apply_cmd ::
  "(string \<Rightarrow> string) \<Rightarrow> string \<Rightarrow> jdict \<Rightarrow> string \<Rightarrow> int \<Rightarrow> mutation \<Rightarrow> pool \<Rightarrow> transition res" where
  "apply_cmd H operation arguments cid expected mutate p =
     (if py_strip cid = [] then Inl (PoolConfigurationError ''command_id cannot be empty'') else
      let fp = fingerprint_of H operation arguments in
      case find_receipt cid p of
        Some r \<Rightarrow>
          (if fingerprint r \<noteq> fp
           then Inl (CommandConflictError ''command_id was reused with different arguments'')
           else Inr \<lparr>tr_state = p, tr_value = rc_value r, replayed = True\<rparr>)
      | None \<Rightarrow>
          (if expected \<noteq> revision p then Inl (RevisionConflictError expected (revision p)) else
           bindE (mutate (seats p)) (\<lambda>(seats', value, updates).
             let rev = revision p + 1;
                 result_value = dict_set ''revision'' (JInt rev) value;
                 rc = \<lparr>command_id = cid, fingerprint = fp, rc_revision = rev,
                       rc_value = result_value\<rparr>
             in Inr \<lparr>tr_state = updates (p\<lparr>revision := rev, seats := seats',
                                            receipts := receipts p @ [rc]\<rparr>),
                     tr_value = result_value, replayed = False\<rparr>)))"

definition replace_seat :: "seat list \<Rightarrow> seat \<Rightarrow> seat list" where
  "replace_seat ss u = map (\<lambda>s. if slot_no s = slot_no u then u else s) ss"

section \<open>Warming and verification\<close>

definition mark_warming_mut :: "pool \<Rightarrow> int \<Rightarrow> mutation" where
  "mark_warming_mut p n ss =
     bindE (pool_seat p n) (\<lambda>s.
       if st s \<notin> {Planned, Warming, Verified} then Inl (SeatStateError ''cannot warm'') else
       let updated = (if st s \<noteq> Planned then s else s\<lparr>st := Warming\<rparr>)
       in Inr (replace_seat ss updated, seat_dict updated, id))"

definition mark_warming ::
  "(string \<Rightarrow> string) \<Rightarrow> int \<Rightarrow> int \<Rightarrow> string \<Rightarrow> int \<Rightarrow> pool \<Rightarrow> transition res" where
  "mark_warming H n now_ms cid expected p =
     apply_cmd H ''mark_warming'' [(''slot_no'', JInt n), (''now_ms'', JInt now_ms)]
       cid expected (mark_warming_mut p n) p"

definition mark_verified_mut :: "pool \<Rightarrow> int \<Rightarrow> string \<Rightarrow> string \<Rightarrow> string \<Rightarrow> mutation" where
  "mark_verified_mut p n cref img mat ss =
     bindE (pool_seat p n) (\<lambda>s.
     bindE (if st s = Verified then
              (if (container_ref s, image_digest s, material_digest s) \<noteq> (cref, img, mat)
               then Inl (CommandConflictError ''verified evidence cannot be changed'') else Inr s)
            else if st s \<noteq> Warming then Inl (SeatStateError ''cannot verify'')
            else if list_ex (\<lambda>other. container_ref other = cref \<and> slot_no other \<noteq> n
                               \<and> container_ref other \<noteq> []) ss
            then Inl (PoolConfigurationError ''container_ref must be unique'')
            else Inr (s\<lparr>st := Verified, container_ref := cref, image_digest := img,
                         material_digest := mat, last_error := []\<rparr>)) (\<lambda>updated.
       Inr (replace_seat ss updated, seat_dict updated, id)))"

definition mark_verified ::
  "(string \<Rightarrow> string) \<Rightarrow> int \<Rightarrow> string \<Rightarrow> string \<Rightarrow> string \<Rightarrow> int \<Rightarrow> string \<Rightarrow> int \<Rightarrow> pool
     \<Rightarrow> transition res" where
  "mark_verified H n cref img mat now_ms cid expected p =
     (let e0 = py_strip cref; e1 = py_strip img; e2 = py_strip mat in
      if e0 = [] \<or> e1 = [] \<or> e2 = []
      then Inl (PoolConfigurationError ''all verification evidence is required'')
      else apply_cmd H ''mark_verified''
             [(''slot_no'', JInt n), (''container_ref'', JStr e0), (''image_digest'', JStr e1),
              (''material_digest'', JStr e2), (''now_ms'', JInt now_ms)]
             cid expected (mark_verified_mut p n e0 e1 e2) p)"

section \<open>Reservation and release\<close>

text \<open>
  \<^verbatim>\<open>sorted(available, key=(role == "spare", slot_no))[0]\<close>: the sort is stable and \<open>False < True\<close>,
  so primaries come first, then lower slots.
\<close>

definition reserve_before :: "seat \<Rightarrow> seat \<Rightarrow> bool" where
  "reserve_before a b \<longleftrightarrow> (role a = Primary \<and> role b = Spare)
     \<or> (role a = role b \<and> slot_no a \<le> slot_no b)"

fun first_available :: "seat list \<Rightarrow> seat option" where
  "first_available [] = None"
| "first_available (s # ss) =
     (case first_available ss of None \<Rightarrow> Some s
      | Some t \<Rightarrow> if reserve_before s t then Some s else Some t)"

definition reserve_mut :: "pool \<Rightarrow> int \<Rightarrow> string \<Rightarrow> int \<Rightarrow> mutation" where
  "reserve_mut p u uname now_ms ss =
     (case find (\<lambda>s. seat_uid s = Some u) ss of
        Some existing \<Rightarrow>
          (if seat_uname existing \<noteq> uname
           then Inl (CommandConflictError ''uid already has another username'')
           else Inr (ss, seat_dict existing, id))
      | None \<Rightarrow>
          let target = reservation_state now_ms (release_at_ms p) in
          if int (length (filter (\<lambda>s. seat_uid s \<noteq> None) ss)) \<ge> max_participants p
          then Inl CapacityExceededError else
          (case first_available (filter (\<lambda>s. st s = Verified \<and> seat_uid s = None) ss) of
             None \<Rightarrow> Inl NoVerifiedSeatError
           | Some chosen \<Rightarrow>
               let updated = chosen\<lparr>st := target, seat_uid := Some u, seat_uname := uname,
                     reserved_at_ms := Some now_ms,
                     released_at_ms := (if target = Released then Some now_ms else None)\<rparr>
               in Inr (replace_seat ss updated, seat_dict updated, id)))"

definition reserve ::
  "(string \<Rightarrow> string) \<Rightarrow> int \<Rightarrow> string \<Rightarrow> int \<Rightarrow> string \<Rightarrow> int \<Rightarrow> pool \<Rightarrow> transition res" where
  "reserve H u uname now_ms cid expected p =
     bindE (validate_int ''uid'' u 1) (\<lambda>_.
       let name = py_strip uname in
       if name = [] then Inl (PoolConfigurationError ''uname cannot be empty'') else
       apply_cmd H ''reserve''
         [(''uid'', JInt u), (''uname'', JStr name), (''now_ms'', JInt now_ms)]
         cid expected (reserve_mut p u name now_ms) p)"

definition release_mut :: "pool \<Rightarrow> int \<Rightarrow> int \<Rightarrow> mutation" where
  "release_mut p u now_ms ss =
     (case find (\<lambda>s. seat_uid s = Some u) ss of
        None \<Rightarrow> Inl (KeyError ''uid has no seat'')
      | Some s \<Rightarrow>
          if st s \<in> {Released, Frozen, Collected} then Inr (ss, seat_dict s, id)
          else if st s \<noteq> Reserved then Inl (SeatStateError ''cannot release'')
          else if now_ms < release_at_ms p then Inl (TooEarlyToReleaseError (release_at_ms p))
          else let updated = s\<lparr>st := Released, released_at_ms := Some now_ms\<rparr>
               in Inr (replace_seat ss updated, seat_dict updated, id))"

definition release ::
  "(string \<Rightarrow> string) \<Rightarrow> int \<Rightarrow> int \<Rightarrow> string \<Rightarrow> int \<Rightarrow> pool \<Rightarrow> transition res" where
  "release H u now_ms cid expected p =
     apply_cmd H ''release'' [(''uid'', JInt u), (''now_ms'', JInt now_ms)]
       cid expected (release_mut p u now_ms) p"

text \<open>
  The loops of \<^verbatim>\<open>release_due\<close>, \<^verbatim>\<open>freeze\<close> and \<^verbatim>\<open>collect\<close>: walk the seats, rewrite those that
  meet the condition, and list the rewritten ones.
\<close>

fun sweep_seats :: "(seat \<Rightarrow> bool) \<Rightarrow> (seat \<Rightarrow> seat) \<Rightarrow> seat list \<Rightarrow> seat list \<times> json list" where
  "sweep_seats c f [] = ([], [])"
| "sweep_seats c f (s # ss) =
     (let (out, changed) = sweep_seats c f ss in
      if c s then (f s # out, seat_json (f s) # changed) else (s # out, changed))"

definition release_due_mut :: "pool \<Rightarrow> int \<Rightarrow> mutation" where
  "release_due_mut p now_ms ss =
     (if now_ms < release_at_ms p then Inr (ss, [(''released'', JArr [])], id)
      else let (out, changed) = sweep_seats (\<lambda>s. st s = Reserved)
                 (\<lambda>s. s\<lparr>st := Released, released_at_ms := Some now_ms\<rparr>) ss
           in Inr (out, [(''released'', JArr changed)], id))"

definition release_due ::
  "(string \<Rightarrow> string) \<Rightarrow> int \<Rightarrow> string \<Rightarrow> int \<Rightarrow> pool \<Rightarrow> transition res" where
  "release_due H now_ms cid expected p =
     apply_cmd H ''release_due'' [(''now_ms'', JInt now_ms)] cid expected
       (release_due_mut p now_ms) p"

section \<open>Replacement of a failed seat\<close>

definition reset_seat :: "seat \<Rightarrow> bool \<Rightarrow> string \<Rightarrow> seat" where
  "reset_seat failed replaced reason = failed\<lparr>role := (if replaced then Spare else role failed),
     st := Planned, seat_uid := None, seat_uname := [], container_ref := [], image_digest := [],
     material_digest := [], failure_count := failure_count failed + 1, last_error := reason,
     reserved_at_ms := None, released_at_ms := None, frozen_at_ms := None,
     collected_at_ms := None\<rparr>"

definition replace_failed_mut :: "pool \<Rightarrow> int \<Rightarrow> string \<Rightarrow> int \<Rightarrow> mutation" where
  "replace_failed_mut p n reason now_ms ss =
     bindE (pool_seat p n) (\<lambda>failed.
       if st failed \<in> {Frozen, Collected} then Inl (SeatStateError ''cannot replace'')
       else if st failed = Planned \<and> seat_uid failed = None
       then Inr (ss, [(''replacement'', JNull)], id)
       else if seat_uid failed = None then
         let reset = reset_seat failed False reason
         in Inr (replace_seat ss reset,
                 [(''failed'', seat_json reset), (''replacement'', JNull)], id)
       else
         let target = (if st failed = Released then Released
                       else reservation_state now_ms (release_at_ms p))
         in case find (\<lambda>s. role s = Spare \<and> st s = Verified \<and> seat_uid s = None) ss of
              None \<Rightarrow> Inl NoSpareSeatError
            | Some replacement \<Rightarrow>
                let reset = reset_seat failed True reason;
                    moved = replacement\<lparr>role := role failed, st := target,
                      seat_uid := seat_uid failed, seat_uname := seat_uname failed,
                      reserved_at_ms := Some now_ms,
                      released_at_ms := (if target = Released then Some now_ms else None)\<rparr>
                in Inr (replace_seat (replace_seat ss reset) moved,
                        [(''failed'', seat_json reset), (''replacement'', seat_json moved)], id))"

definition replace_failed ::
  "(string \<Rightarrow> string) \<Rightarrow> int \<Rightarrow> string \<Rightarrow> int \<Rightarrow> bool \<Rightarrow> string \<Rightarrow> int \<Rightarrow> pool \<Rightarrow> transition res" where
  "replace_failed H n reason now_ms teacher_approved cid expected p =
     (let why = py_strip reason in
      if why = [] then Inl (PoolConfigurationError ''failure reason cannot be empty'') else
      apply_cmd H ''replace_failed''
        [(''slot_no'', JInt n), (''reason'', JStr why), (''now_ms'', JInt now_ms),
         (''teacher_approved'', JBool teacher_approved)]
        cid expected (replace_failed_mut p n why now_ms) p)"

section \<open>Growth and rescheduling\<close>

text \<open>\<^verbatim>\<open>max((seat.slot_no for seat in seats), default=0) + 1\<close>.\<close>

definition next_slot_of :: "seat list \<Rightarrow> int" where
  "next_slot_of ss = (case map slot_no ss of [] \<Rightarrow> 0 | x # xs \<Rightarrow> foldl max x xs) + 1"

text \<open>The two loops that append \<open>mains\<close> primary and then \<open>spares\<close> spare seats.\<close>

definition added_seats :: "int \<Rightarrow> int \<Rightarrow> int \<Rightarrow> seat list" where
  "added_seats next_slot mains spares =
     map (\<lambda>i. new_seat (next_slot + int i) Primary) [0..<nat mains]
     @ map (\<lambda>i. new_seat (next_slot + mains + int i) Spare) [0..<nat spares]"

definition grow_mut :: "pool \<Rightarrow> int \<Rightarrow> int \<Rightarrow> jdict \<Rightarrow> mutation" where
  "grow_mut p mains spares extra ss =
     (let added = added_seats (next_slot_of ss) mains spares
      in Inr (ss @ added, (''added'', JArr (map seat_json added)) # extra,
              \<lambda>q. q\<lparr>max_participants := max_participants p + mains,
                     spare_count := spare_count p + spares\<rparr>))"

definition grow ::
  "(string \<Rightarrow> string) \<Rightarrow> int \<Rightarrow> int \<Rightarrow> string \<Rightarrow> int \<Rightarrow> pool \<Rightarrow> transition res" where
  "grow H additional_main additional_spares cid expected p =
     bindE (validate_int ''additional_main'' additional_main 0) (\<lambda>mains.
     bindE (validate_int ''additional_spares'' additional_spares 0) (\<lambda>spares.
       if mains + spares = 0
       then Inl (PoolConfigurationError ''grow must add at least one seat'')
       else apply_cmd H ''grow''
              [(''additional_main'', JInt mains), (''additional_spares'', JInt spares)]
              cid expected (grow_mut p mains spares []) p))"

definition reconcile_roster_capacity ::
  "(string \<Rightarrow> string) \<Rightarrow> int \<Rightarrow> int \<Rightarrow> int \<Rightarrow> string \<Rightarrow> int \<Rightarrow> pool \<Rightarrow> transition res" where
  "reconcile_roster_capacity H participant_count minimum_spares spare_percent cid expected p =
     bindE (desired_capacity participant_count minimum_spares spare_percent)
       (\<lambda>(target_main, target_spares).
       let additional_main = max 0 (target_main - max_participants p);
           additional_spares = max 0 (target_spares - spare_count p);
           targets = [(''target_main'', JInt target_main), (''target_spares'', JInt target_spares)]
       in if additional_main + additional_spares = 0
          then Inr \<lparr>tr_state = p,
                 tr_value = [(''revision'', JInt (revision p)), (''added'', JArr [])] @ targets,
                 replayed = False\<rparr>
          else apply_cmd H ''reconcile_roster_capacity''
                 [(''participant_count'', JInt participant_count),
                  (''minimum_spares'', JInt minimum_spares),
                  (''spare_percent'', JInt spare_percent)]
                 cid expected (grow_mut p additional_main additional_spares targets) p)"

definition reschedule ::
  "(string \<Rightarrow> string) \<Rightarrow> int \<Rightarrow> int \<Rightarrow> string \<Rightarrow> int \<Rightarrow> pool \<Rightarrow> transition res" where
  "reschedule H begin_at lead_ms cid expected p =
     bindE (validate_int ''begin_at_ms'' begin_at 1) (\<lambda>bgn.
     bindE (validate_int ''release_lead_ms'' lead_ms 0) (\<lambda>lead.
       if lead \<ge> bgn then Inl (PoolConfigurationError ''release time cannot precede Unix epoch'')
       else let rel = bgn - lead;
                value = [(''begin_at_ms'', JInt bgn), (''release_at_ms'', JInt rel)]
            in if bgn = begin_at_ms p \<and> rel = release_at_ms p
               then Inr \<lparr>tr_state = p, tr_value = (''revision'', JInt (revision p)) # value,
                         replayed = False\<rparr>
               else apply_cmd H ''reschedule''
                      [(''begin_at_ms'', JInt bgn), (''release_lead_ms'', JInt lead)]
                      cid expected
                      (\<lambda>ss. Inr (ss, value, \<lambda>q. q\<lparr>begin_at_ms := bgn, release_at_ms := rel\<rparr>)) p))"

section \<open>Freezing and collection\<close>

definition freeze_mut :: "int \<Rightarrow> mutation" where
  "freeze_mut now_ms ss =
     (let (out, changed) = sweep_seats (\<lambda>s. seat_uid s \<noteq> None \<and> st s \<in> {Reserved, Released})
            (\<lambda>s. s\<lparr>st := Frozen, frozen_at_ms := Some now_ms\<rparr>) ss
      in Inr (out, [(''frozen'', JArr changed)], id))"

definition freeze ::
  "(string \<Rightarrow> string) \<Rightarrow> int \<Rightarrow> string \<Rightarrow> int \<Rightarrow> pool \<Rightarrow> transition res" where
  "freeze H now_ms cid expected p =
     apply_cmd H ''freeze'' [(''now_ms'', JInt now_ms)] cid expected (freeze_mut now_ms) p"

definition collect_mut :: "int \<Rightarrow> mutation" where
  "collect_mut now_ms ss =
     (let (out, changed) = sweep_seats (\<lambda>s. st s = Frozen)
            (\<lambda>s. s\<lparr>st := Collected, collected_at_ms := Some now_ms\<rparr>) ss
      in Inr (out, [(''collected'', JArr changed)], id))"

definition collect ::
  "(string \<Rightarrow> string) \<Rightarrow> int \<Rightarrow> string \<Rightarrow> int \<Rightarrow> pool \<Rightarrow> transition res" where
  "collect H now_ms cid expected p =
     apply_cmd H ''collect'' [(''now_ms'', JInt now_ms)] cid expected (collect_mut now_ms) p"

section \<open>Commands as data\<close>

datatype pool_op =
    MarkWarming int int
  | MarkVerified int string string string int
  | Reserve int string int
  | Release int int
  | ReleaseDue int
  | ReplaceFailed int string int bool
  | Grow int int
  | ReconcileRoster int int int
  | Reschedule int int
  | Freeze int
  | Collect int

datatype pool_cmd = PoolCmd (cmd_op: pool_op) (cmd_id: string) (cmd_expected: int)

fun run_op :: "(string \<Rightarrow> string) \<Rightarrow> pool_op \<Rightarrow> string \<Rightarrow> int \<Rightarrow> pool \<Rightarrow> transition res" where
  "run_op H (MarkWarming n now) cid e p = mark_warming H n now cid e p"
| "run_op H (MarkVerified n c i m now) cid e p = mark_verified H n c i m now cid e p"
| "run_op H (Reserve u name now) cid e p = reserve H u name now cid e p"
| "run_op H (Release u now) cid e p = release H u now cid e p"
| "run_op H (ReleaseDue now) cid e p = release_due H now cid e p"
| "run_op H (ReplaceFailed n why now ok) cid e p = replace_failed H n why now ok cid e p"
| "run_op H (Grow a b) cid e p = grow H a b cid e p"
| "run_op H (ReconcileRoster n mn pc) cid e p = reconcile_roster_capacity H n mn pc cid e p"
| "run_op H (Reschedule b l) cid e p = reschedule H b l cid e p"
| "run_op H (Freeze now) cid e p = freeze H now cid e p"
| "run_op H (Collect now) cid e p = collect H now cid e p"

definition pool_step :: "(string \<Rightarrow> string) \<Rightarrow> pool_cmd \<Rightarrow> pool \<Rightarrow> pool res" where
  "pool_step H c p = bindE (run_op H (cmd_op c) (cmd_id c) (cmd_expected c) p)
     (\<lambda>t. Inr (tr_state t))"

end
