(* ===== verification/PoolOps.thy ===== *)
theory PoolOps
  imports Effects PoolStore SeatPool
begin

text \<open>
  \<^verbatim>\<open>orchestrator/services/pipeline.py\<close>: the three operations that change the seat pool of a running contest:
  growth, replacement of a failed seat and repair of its slot. Each one plans the change on the seat pool
  machine, builds the containers, switches the gateway and then commits the pool; an exception handler
  undoes the steps on the contest server. What the cloud, the server and the judge answer is the record
  \<open>env\<close>: arbitrary results, each of which may be an exception.
\<close>

section \<open>The environment\<close>

record oj_contest =
  oj_begin :: "int option"
  oj_end :: "int option"
  oj_rule :: string

text \<open>
  \<open>e_run n\<close>: whether the container of slot \<open>n\<close> exists after \<open>docker run\<close>, and the result of the call.
  \<open>e_gateway_private\<close>: whether the gateway address of the network parses as a private IPv4 address;
  \<open>e_paper\<close>: the digest of the paper on the server; \<open>e_public_https\<close>: whether the public base URL is one.
  \<open>e_document\<close>: what the judge stores about the contest; a timestamp that is not a datetime is \<open>None\<close>.
\<close>

record env =
  e_lock :: "unit res"
  e_document :: "oj_contest option res"
  e_limit :: int
  e_total :: int
  e_status :: "(string \<times> string) res"
  e_ssh :: "bool res"
  e_image :: "string res"
  e_gateway_private :: "bool res"
  e_paper :: "string res"
  e_public_https :: bool
  e_secret :: "int \<Rightarrow> string \<times> string \<times> string"
  e_mkdir :: "int \<Rightarrow> unit res"
  e_wipe :: "int \<Rightarrow> unit res"
  e_run :: "int \<Rightarrow> bool \<times> unit res"
  e_container_image :: "int \<Rightarrow> string res"
  e_cip :: "int \<Rightarrow> string res"
  e_private :: "string \<Rightarrow> bool"
  e_seat_ready :: "int \<Rightarrow> unit res"
  e_stage :: "unit res"
  e_restore :: "unit res"
  e_drop :: "unit res"
  e_cleanup :: "string \<Rightarrow> unit res"
  e_container_state :: "string \<Rightarrow> string res"
  e_pause :: "string \<Rightarrow> unit res"
  e_unpause :: "string \<Rightarrow> unit res"
  e_copy :: "int \<Rightarrow> int \<Rightarrow> unit res"
  e_remove :: "string \<Rightarrow> unit res"
  e_warm_at :: "int \<Rightarrow> int"
  e_verify_at :: "int \<Rightarrow> int"
  e_now :: int
  e_dt :: string
  e_audit_ms :: int
  e_text :: "exn \<Rightarrow> string"

section \<open>Checks\<close>

definition validate_contest_snapshot :: "oj_contest option res \<Rightarrow> contest \<Rightarrow> unit res" where
  "validate_contest_snapshot document c =
     (if c_begin_at_ms c = 0 \<or> c_end_at_ms c = 0 then Inr () else
      bindE document (\<lambda>doc. case doc of
        None \<Rightarrow> Inl (RuntimeError ''Hydro contest does not exist'')
      | Some x \<Rightarrow> (case (oj_begin x, oj_end x) of
          (Some b, Some e) \<Rightarrow>
            if b \<noteq> c_begin_at_ms c \<or> e \<noteq> c_end_at_ms c \<or> oj_rule x \<noteq> c_hydro_rule c
            then Inl (RuntimeError ''Hydro contest changed after registration'')
            else if c_submission_mode c \<in> {''web'', ''both''} \<and> oj_rule x \<noteq> ''oi''
            then Inl (RuntimeError ''realtime judging needs the OI rule'') else Inr ()
        | _ \<Rightarrow> Inl (RuntimeError ''Hydro contest time is invalid''))))"

definition material_digest_of :: "(string \<Rightarrow> string) \<Rightarrow> contest \<Rightarrow> string" where
  "material_digest_of H c =
     (let manifest = py_strip (c_material_manifest_sha256 c) in
      if manifest \<noteq> [] then ''sha256:'' @ manifest else
      ''sha256:'' @ H (utf8 (join [char_of (0::nat)]
        [if c_active_material_revision c = [] then ''legacy-manual'' else c_active_material_revision c,
         c_paper_sha256 c, c_testdata_sha256 c])))"

text \<open>The loop over the seats collects the slots, images and materials in use.\<close>

definition inventory_seat ::
  "resource list \<Rightarrow> int list \<times> string list \<times> string list \<Rightarrow> seat \<Rightarrow> (int list \<times> string list \<times> string list) res" where
  "inventory_seat rs acc s = (case acc of (slots', images, materials) \<Rightarrow>
     (case find (\<lambda>r. r_slot_no r = slot_no s) rs of
        None \<Rightarrow> if st s = Planned then Inr acc else Inl (RuntimeError ''seat has no resource'')
      | Some r \<Rightarrow>
          if st s = Planned then Inl (RuntimeError ''planned seat still has a resource'')
          else if container_ref s \<noteq> r_container r \<or> image_digest s \<noteq> r_image_digest r
             \<or> material_digest s \<noteq> r_material_digest r
          then Inl (RuntimeError ''verification evidence of the seat differs'')
          else Inr (List.insert (slot_no s) slots', List.insert (image_digest s) images,
                    List.insert (material_digest s) materials)))"

definition verified_pool_inventory :: "string \<Rightarrow> pool \<Rightarrow> db \<Rightarrow> (resource list \<times> string \<times> string) res" where
  "verified_pool_inventory tid p d =
     (let rs = seat_pool_resources_of tid d in
      if \<not> distinct (map r_slot_no rs) then Inl (RuntimeError ''slot numbers are repeated'') else
      bindE (foldE (inventory_seat rs) ([], [], []) (seats p)) (\<lambda>(slots', images, materials).
      if set (map r_slot_no rs) \<noteq> set slots' then Inl (RuntimeError ''resource outside the pool'') else
      case (images, materials) of
        ([i], [m]) \<Rightarrow> Inr (rs, i, m)
      | _ \<Rightarrow> Inl (RuntimeError ''seats use different images or materials'')))"

definition token_char :: "char \<Rightarrow> bool" where
  "token_char c \<longleftrightarrow> alnum c \<or> c = CHR ''_'' \<or> c = CHR ''-''"

fun gateway_check :: "(string \<Rightarrow> bool) \<Rightarrow> string list \<Rightarrow> string list \<Rightarrow> resource list \<Rightarrow> unit res" where
  "gateway_check private toks cips [] = Inr ()"
| "gateway_check private toks cips (r # rs) =
     (if length (r_token r) < 16 \<or> 64 < length (r_token r) \<or> \<not> list_all token_char (r_token r)
      then Inl (RuntimeError ''gateway token is invalid'')
      else if \<not> private (r_cip r) then Inl (RuntimeError ''gateway address is invalid'')
      else if r_token r \<in> set toks \<or> r_cip r \<in> set cips
      then Inl (RuntimeError ''gateway token or address is repeated'')
      else gateway_check private (r_token r # toks) (r_cip r # cips) rs)"

definition pool_gateway_conf :: "env \<Rightarrow> resource list \<Rightarrow> unit res" where
  "pool_gateway_conf E rs = gateway_check (e_private E) [] [] (sort_key r_slot_no rs)"

section \<open>Steps on the contest server\<close>

definition connect :: "env \<Rightarrow> (world, unit) eff" where
  "connect E = andThen (lift (e_status E)) (\<lambda>(state, ip).
     andThen (require (py_lower state = ''running'' \<and> ip \<noteq> []) (RuntimeError ''contest server is not running'')) (\<lambda>_.
     andThen (set_frame (\<lambda>f. f\<lparr>connected := True\<rparr>)) (\<lambda>_.
     andThen (lift (e_ssh E)) (\<lambda>up. require up (RuntimeError ''SSH timeout'')))))"

text \<open>The live gateway configuration is replaced; the copy of the previous one is the result. A failing
  script restores the previous configuration itself.\<close>

definition stage_pool_gateway :: "env \<Rightarrow> resource list \<Rightarrow> (world, unit) eff" where
  "stage_pool_gateway E rs = andThen (asks routes) (\<lambda>old.
     andThen (lift (e_stage E)) (\<lambda>_.
     andThen (modify (\<lambda>w. w\<lparr>routes := rs\<rparr>)) (\<lambda>_.
     set_frame (\<lambda>f. f\<lparr>backup := Some old\<rparr>))))"

definition restore_pool_gateway :: "env \<Rightarrow> (world, unit) eff" where
  "restore_pool_gateway E = andThen (asks (\<lambda>w. backup (local_vars w))) (\<lambda>b. case b of
     None \<Rightarrow> ret ()
   | Some old \<Rightarrow> andThen (lift (e_restore E)) (\<lambda>_. modify (\<lambda>w. w\<lparr>routes := old\<rparr>)))"

definition forget_backup :: "(world, unit) eff" where
  "forget_backup = set_frame (\<lambda>f. f\<lparr>backup := None\<rparr>)"

definition cleanup_incremental_slots :: "env \<Rightarrow> string list \<Rightarrow> (world, unit) eff" where
  "cleanup_incremental_slots E names = forEach names (\<lambda>n _. andThen (lift (e_cleanup E n))
     (\<lambda>_. modify (\<lambda>w. w\<lparr>containers := containers w - {n}\<rparr>))) ()"

definition pool_runtime_context ::
  "(string \<Rightarrow> string) \<Rightarrow> env \<Rightarrow> contest \<Rightarrow> pool \<Rightarrow> (world, resource list \<times> string \<times> string) eff" where
  "pool_runtime_context H E c p =
     andThen (asks (\<lambda>w. verified_pool_inventory (c_tid c) p (base w))) (\<lambda>inventory.
     andThen (lift inventory) (\<lambda>(rs, img, mat).
     andThen (require (mat = material_digest_of H c) (RuntimeError ''approved material differs'')) (\<lambda>_.
     andThen (lift (e_image E)) (\<lambda>expected.
     andThen (require (expected \<noteq> [] \<and> expected = img) (RuntimeError ''contest image changed'')) (\<lambda>_.
     andThen (lift (e_gateway_private E)) (\<lambda>inside.
     andThen (require inside (RuntimeError ''the isolated network needs a private IPv4 gateway'')) (\<lambda>_.
     andThen (lift (e_paper E)) (\<lambda>paper.
     andThen (require (py_strip paper = c_paper_sha256 c) (RuntimeError ''paper on the server differs'')) (\<lambda>_.
     andThen (require (c_submission_mode c \<notin> {''web'', ''both''} \<or> e_public_https E)
       (RuntimeError ''web submission needs a public HTTPS address'')) (\<lambda>_. ret (rs, img, mat)))))))))))"

definition container_name :: "string \<Rightarrow> int \<Rightarrow> string" where
  "container_name tid n = ''seat-'' @ take 8 tid @ ''-slot-'' @ fmt03 n"

definition new_pool_resource_spec :: "env \<Rightarrow> string \<Rightarrow> int \<Rightarrow> resource" where
  "new_pool_resource_spec E tid n = (case e_secret E n of (token, vnc_pass, submit_token) \<Rightarrow>
     \<lparr>r_tid = [], r_slot_no = n, r_token = token, r_vnc_pass = vnc_pass, r_submit_token = submit_token,
      r_candidate = ''CSP'' @ fmt03 n, r_container = container_name tid n, r_cip = [],
      r_image_digest = [], r_material_digest = [], r_credential_revision = 1, r_created_at = []\<rparr>)"

definition provision_pool_slot ::
  "env \<Rightarrow> contest \<Rightarrow> string \<Rightarrow> string \<Rightarrow> resource \<Rightarrow> string list \<Rightarrow> (world, resource) eff" where
  "provision_pool_slot E c img mat spec existing_cips = (let n = r_slot_no spec in
     andThen (lift (of_option (ValueError ''json'') (c_files c))) (\<lambda>_.
     andThen (lift (e_mkdir E n)) (\<lambda>_.
     andThen (modify (\<lambda>w. if fst (e_run E n) then w\<lparr>containers := insert (r_container spec) (containers w)\<rparr> else w)) (\<lambda>_.
     andThen (lift (snd (e_run E n))) (\<lambda>_.
     andThen (lift (e_container_image E n)) (\<lambda>actual.
     andThen (require (actual = img) (RuntimeError ''container uses another image'')) (\<lambda>_.
     andThen (lift (e_cip E n)) (\<lambda>cip.
     andThen (require (e_private E cip \<and> cip \<notin> set existing_cips) (RuntimeError ''container address is invalid'')) (\<lambda>_.
     andThen (lift (e_seat_ready E n)) (\<lambda>_.
     ret (spec\<lparr>r_cip := cip, r_image_digest := img, r_material_digest := mat\<rparr>)))))))))))"

section \<open>Reading the pool\<close>

definition read_pool :: "json \<Rightarrow> pool res" where
  "read_pool state = bindE (as_obj state) from_dict"

definition contest_and_pool :: "string \<Rightarrow> (world, contest \<times> int \<times> json) eff" where
  "contest_and_pool tid = andThen (reading (get_contest tid)) (\<lambda>c.
     andThen (asks (\<lambda>w. seat_pool tid (base w))) (\<lambda>stored.
     andThen (lift stored) (\<lambda>s. case (c, s) of
       (Some c, Some (n, state, updated)) \<Rightarrow> ret (c, n, state)
     | _ \<Rightarrow> raise (RuntimeError ''contest has no seat pool''))))"

text \<open>The common start of the operations: contest and pool, the contest's state, the judge's snapshot.\<close>

definition open_pool :: "env \<Rightarrow> contest_state set \<Rightarrow> string \<Rightarrow> (world, contest \<times> int \<times> pool) eff" where
  "open_pool E allowed tid = andThen (contest_and_pool tid) (\<lambda>(c, n, state).
     andThen (require (c_state c \<in> allowed) (RuntimeError ''contest state does not allow it'')) (\<lambda>_.
     andThen (lift (validate_contest_snapshot (e_document E) c)) (\<lambda>_.
     andThen (lift (read_pool state)) (\<lambda>p. ret (c, n, p)))))"

text \<open>\<open>self.store.set_state(tid, "ready", ..)\<close>.\<close>

definition note_ready :: "env \<Rightarrow> string \<Rightarrow> string \<Rightarrow> (world, unit) eff" where
  "note_ready E tid message = writing (set_state (e_dt E) (e_audit_ms E) tid Ready message)"

definition note_failure :: "env \<Rightarrow> string \<Rightarrow> string \<Rightarrow> (world, unit) eff" where
  "note_failure E tid message = andThen (reading (get_contest tid)) (\<lambda>c. case c of
     None \<Rightarrow> ret ()
   | Some c \<Rightarrow> if c_state c = Ready then note_ready E tid message else ret ())"

text \<open>\<open>int(item[k]) for item in value.get(key, [])\<close>.\<close>

definition int_items :: "string \<Rightarrow> string \<Rightarrow> jdict \<Rightarrow> int list res" where
  "int_items key k value = bindE (py_iter (case map_of value key of None \<Rightarrow> JArr [] | Some v \<Rightarrow> v))
     (mapE (\<lambda>item. bindE (of_option (KeyError k) (jfield k item)) py_int))"

section \<open>Growth\<close>

record grow_report =
  gr_replayed :: bool
  gr_revision :: int
  gr_added :: json
  gr_counts :: "(seat_state \<times> int) list"

definition grow_command :: "string \<Rightarrow> int \<Rightarrow> int \<Rightarrow> int \<Rightarrow> string" where
  "grow_command tid e mains spares = ''grow:'' @ tid @ '':r'' @ int_str e @ '':'' @ int_str mains @ '':'' @ int_str spares"

text \<open>One round of the loop over the added slots: state, addresses in use and new resources so far.\<close>

definition grow_slot ::
  "(string \<Rightarrow> string) \<Rightarrow> env \<Rightarrow> string \<Rightarrow> contest \<Rightarrow> string \<Rightarrow> string \<Rightarrow> int \<Rightarrow> int
     \<Rightarrow> pool \<times> string list \<times> resource list \<Rightarrow> (world, pool \<times> string list \<times> resource list) eff" where
  "grow_slot H E tid c img mat e n acc = (case acc of (p, cips, new) \<Rightarrow>
     andThen (lift (mark_warming H n (e_warm_at E n) (''warm:grow:'' @ tid @ '':r'' @ int_str e @ '':'' @ int_str n)
       (revision p) p)) (\<lambda>warming.
     let q = tr_state warming; spec = new_pool_resource_spec E tid n in
     andThen (set_frame (\<lambda>f. f\<lparr>attempted := attempted f @ [r_container spec]\<rparr>)) (\<lambda>_.
     andThen (provision_pool_slot E c img mat spec cips) (\<lambda>r.
     andThen (lift (mark_verified H n (r_container r) img mat (e_verify_at E n)
       (''verify:grow:'' @ tid @ '':r'' @ int_str e @ '':'' @ int_str n) (revision q) q)) (\<lambda>verified.
     ret (tr_state verified, r_cip r # cips, new @ [r]))))))"

text \<open>\<open>except Exception: self._restore_pool_gateway(remote, staged_backup); staged_backup = ""; raise\<close>.\<close>

definition or_restore :: "env \<Rightarrow> (world, 'a) eff \<Rightarrow> (world, 'a) eff" where
  "or_restore E m = handle m (\<lambda>x. andThen (restore_pool_gateway E) (\<lambda>_. andThen forget_backup (\<lambda>_. raise x)))"

definition publish_growth ::
  "env \<Rightarrow> string \<Rightarrow> int \<Rightarrow> int list \<Rightarrow> pool \<Rightarrow> resource list \<Rightarrow> resource list \<Rightarrow> (world, grow_report) eff" where
  "publish_growth E tid e added p rs new =
     andThen (lift (pool_gateway_conf E (rs @ new))) (\<lambda>_.
     andThen (stage_pool_gateway E (rs @ new)) (\<lambda>_.
     andThen (or_restore E (store (commit_pool_expansion (e_dt E) tid e (to_dict p) new))) (\<lambda>_.
     andThen (set_frame (\<lambda>f. f\<lparr>committed := True\<rparr>)) (\<lambda>_.
     andThen (lift (e_drop E)) (\<lambda>_.
     andThen forget_backup (\<lambda>_.
     andThen (note_ready E tid (''growth done: '' @ nat_str (length new) @ '' seats added, '' @
       nat_str (length (seats p)) @ '' seats'')) (\<lambda>_.
     ret \<lparr>gr_replayed = False, gr_revision = revision p, gr_added = JArr (map JInt added),
       gr_counts = state_counts p\<rparr>)))))))"

text \<open>The limits, the new slots, their containers and the commit.\<close>

definition provision_growth ::
  "(string \<Rightarrow> string) \<Rightarrow> env \<Rightarrow> string \<Rightarrow> int \<Rightarrow> contest \<Rightarrow> pool \<Rightarrow> transition \<Rightarrow> (world, grow_report) eff" where
  "provision_growth H E tid e c p grown =
     andThen (require (max_participants (tr_state grown) \<le> e_limit E) (RuntimeError ''too many participants'')) (\<lambda>_.
     andThen (require (int (length (seats (tr_state grown))) \<le> e_total E) (RuntimeError ''too many seats'')) (\<lambda>_.
     andThen (lift (int_items ''added'' ''slot_no'' (tr_value grown))) (\<lambda>added.
     andThen (connect E) (\<lambda>_.
     andThen (pool_runtime_context H E c p) (\<lambda>(rs, img, mat).
     andThen (forEach added (grow_slot H E tid c img mat e) (tr_state grown, map r_cip rs, [])) (\<lambda>(q, cips, new).
     publish_growth E tid e added q rs new))))))"

definition grow_body ::
  "(string \<Rightarrow> string) \<Rightarrow> env \<Rightarrow> string \<Rightarrow> int \<Rightarrow> int \<Rightarrow> int \<Rightarrow> (world, grow_report) eff" where
  "grow_body H E tid mains spares e =
     andThen (lift (e_lock E)) (\<lambda>_.
     andThen (open_pool E {Ready} tid) (\<lambda>(c, n, p).
     andThen (lift (grow H mains spares (grow_command tid e mains spares) e p)) (\<lambda>grown.
     if replayed grown
     then ret \<lparr>gr_replayed = True, gr_revision = revision (tr_state grown),
       gr_added = (case map_of (tr_value grown) ''added'' of None \<Rightarrow> JArr [] | Some v \<Rightarrow> v),
       gr_counts = state_counts (tr_state grown)\<rparr>
     else provision_growth H E tid e c p grown)))"

text \<open>The exception handler of \<open>grow_pool\<close>.\<close>

definition undo_growth :: "env \<Rightarrow> string \<Rightarrow> exn \<Rightarrow> (world, 'a) eff" where
  "undo_growth E tid x = andThen (asks local_vars) (\<lambda>f.
     andThen (if connected f \<and> backup f \<noteq> None then quietly (restore_pool_gateway E) else ret ()) (\<lambda>_.
     andThen (if connected f \<and> attempted f \<noteq> [] \<and> \<not> committed f
       then quietly (cleanup_incremental_slots E (attempted f)) else ret ()) (\<lambda>_.
     andThen (note_failure E tid (''growth failed: '' @ e_text E x)) (\<lambda>_. raise x))))"

definition grow_pool ::
  "(string \<Rightarrow> string) \<Rightarrow> env \<Rightarrow> string \<Rightarrow> int \<Rightarrow> int \<Rightarrow> int \<Rightarrow> (world, grow_report) eff" where
  "grow_pool H E tid mains spares e =
     exclusively tid (framed (handle (grow_body H E tid mains spares e) (undo_growth E tid)))"

section \<open>Repair\<close>

definition repair_command :: "string \<Rightarrow> string \<Rightarrow> int \<Rightarrow> int \<Rightarrow> string" where
  "repair_command step tid n failures = ''repair:'' @ step @ '':'' @ tid @ '':'' @ int_str n @ '':failure:'' @ int_str failures"

definition repair_steps ::
  "(string \<Rightarrow> string) \<Rightarrow> env \<Rightarrow> string \<Rightarrow> int \<Rightarrow> contest \<Rightarrow> int \<Rightarrow> resource list \<Rightarrow> string \<Rightarrow> string
     \<Rightarrow> int \<Rightarrow> pool \<Rightarrow> (world, int) eff" where
  "repair_steps H E tid n c e rs img mat failures q =
     andThen (set_frame (\<lambda>f. f\<lparr>attempted := [container_name tid n]\<rparr>)) (\<lambda>_.
     andThen (provision_pool_slot E c img mat (new_pool_resource_spec E tid n) (map r_cip rs)) (\<lambda>r.
     andThen (lift (mark_verified H n (r_container r) (r_image_digest r) (r_material_digest r) (e_verify_at E n)
       (repair_command ''verify'' tid n failures) (revision q) q)) (\<lambda>verified.
     let p = tr_state verified in
     andThen (lift (pool_gateway_conf E (rs @ [r]))) (\<lambda>_.
     andThen (stage_pool_gateway E (rs @ [r])) (\<lambda>_.
     andThen (store (commit_pool_repair (e_dt E) tid e (to_dict p) r n)) (\<lambda>_.
     andThen (set_frame (\<lambda>f. f\<lparr>committed := True\<rparr>)) (\<lambda>_.
     andThen (quietly (lift (e_drop E))) (\<lambda>_. ret (revision p)))))))))"

definition undo_repair :: "env \<Rightarrow> exn \<Rightarrow> (world, 'a) eff" where
  "undo_repair E x = andThen (asks local_vars) (\<lambda>f.
     andThen (if backup f \<noteq> None \<and> \<not> committed f then quietly (restore_pool_gateway E) else ret ()) (\<lambda>_.
     andThen (if attempted f \<noteq> [] \<and> \<not> committed f then quietly (cleanup_incremental_slots E (attempted f)) else ret ()) (\<lambda>_.
     raise x)))"

definition repair_isolated_pool_slot ::
  "(string \<Rightarrow> string) \<Rightarrow> env \<Rightarrow> string \<Rightarrow> int \<Rightarrow> int \<Rightarrow> contest \<Rightarrow> (world, int) eff" where
  "repair_isolated_pool_slot H E tid n e c = framed (
     andThen (asks (\<lambda>w. seat_pool tid (base w))) (\<lambda>stored.
     andThen (lift stored) (\<lambda>s.
     case s of None \<Rightarrow> raise (RuntimeError ''seat pool changed before the repair'')
     | Some (k, state, updated) \<Rightarrow>
     andThen (require (k = e) (RuntimeError ''seat pool changed before the repair'')) (\<lambda>_.
     andThen (lift (read_pool state)) (\<lambda>p.
     andThen (lift (pool_seat p n)) (\<lambda>failed.
     andThen (require (st failed = Planned \<and> seat_uid failed = None \<and> 1 \<le> failure_count failed)
       (RuntimeError ''seat is not isolated'')) (\<lambda>_.
     andThen (pool_runtime_context H E c p) (\<lambda>(rs, img, mat).
     andThen (lift (e_wipe E n)) (\<lambda>_.
     andThen (lift (mark_warming H n (e_warm_at E n) (repair_command ''warm'' tid n (failure_count failed))
       (revision p) p)) (\<lambda>warming.
     handle (repair_steps H E tid n c e rs img mat (failure_count failed) (tr_state warming)) (undo_repair E)))))))))))"

definition repair_pool_capacity ::
  "(string \<Rightarrow> string) \<Rightarrow> env \<Rightarrow> string \<Rightarrow> int \<Rightarrow> int \<Rightarrow> (world, int) eff" where
  "repair_pool_capacity H E tid n e = exclusively tid (framed (
     andThen (lift (e_lock E)) (\<lambda>_.
     andThen (reading (get_contest tid)) (\<lambda>c. case c of
       None \<Rightarrow> raise (RuntimeError ''only a running contest can be repaired'')
     | Some c \<Rightarrow>
     andThen (require (c_state c = Ready) (RuntimeError ''only a running contest can be repaired'')) (\<lambda>_.
     andThen (lift (validate_contest_snapshot (e_document E) c)) (\<lambda>_.
     andThen (connect E) (\<lambda>_.
     andThen (repair_isolated_pool_slot H E tid n e c) (\<lambda>k.
     andThen (note_ready E tid (''seat '' @ fmt03 n @ '' rebuilt'')) (\<lambda>_. ret k)))))))))"

section \<open>Replacement of a failed seat\<close>

record replace_report =
  rp_replayed :: bool
  rp_revision :: int
  rp_value :: jdict
  rp_credential_revision :: "int option"
  rp_capacity_recovered :: bool
  rp_capacity_revision :: int

definition replace_command :: "string \<Rightarrow> int \<Rightarrow> int \<Rightarrow> string" where
  "replace_command tid e n = ''replace:'' @ tid @ '':r'' @ int_str e @ '':'' @ int_str n"

text \<open>The failed container is paused unless it has stopped already.\<close>

definition pause_failed :: "env \<Rightarrow> string \<Rightarrow> (world, unit) eff" where
  "pause_failed E name = andThen (lift (e_container_state E name)) (\<lambda>status.
     if py_strip status = ''running'' then
       andThen (lift (e_pause E name)) (\<lambda>_.
       andThen (modify (\<lambda>w. w\<lparr>paused_now := insert name (paused_now w)\<rparr>)) (\<lambda>_.
       set_frame (\<lambda>f. f\<lparr>paused := Some name\<rparr>)))
     else require (py_strip status \<in> {''paused'', ''exited'', ''dead''})
       (RuntimeError ''state of the failed container does not allow a switch''))"

text \<open>The answers are copied to the spare that takes the student over, if one does.\<close>

definition copy_answers :: "env \<Rightarrow> int \<Rightarrow> resource list \<Rightarrow> json option \<Rightarrow> (world, unit) eff" where
  "copy_answers E n rs replacement = (case replacement of
     None \<Rightarrow> ret ()
   | Some s \<Rightarrow> if \<not> py_truthy s then ret () else
       andThen (lift (bindE (of_option (KeyError ''slot_no'') (jfield ''slot_no'' s)) py_int)) (\<lambda>m.
       andThen (require (\<exists>r \<in> set rs. r_slot_no r = m) (RuntimeError ''spare seat has no resource'')) (\<lambda>_.
       lift (e_copy E n m))))"

definition remove_container :: "env \<Rightarrow> string \<Rightarrow> (world, unit) eff" where
  "remove_container E name = andThen (lift (e_remove E name)) (\<lambda>_.
     modify (\<lambda>w. w\<lparr>containers := containers w - {name}, paused_now := paused_now w - {name}\<rparr>))"

definition replace_steps ::
  "(string \<Rightarrow> string) \<Rightarrow> env \<Rightarrow> string \<Rightarrow> int \<Rightarrow> int \<Rightarrow> contest \<Rightarrow> resource list \<Rightarrow> transition
     \<Rightarrow> (world, replace_report) eff" where
  "replace_steps H E tid n e c rs t = (case find (\<lambda>r. r_slot_no r = n) rs of
     None \<Rightarrow> raise (RuntimeError ''failed seat has no resource'')
   | Some failed \<Rightarrow>
     let q = tr_state t; replacement = map_of (tr_value t) ''replacement'';
         remaining = filter (\<lambda>r. r_slot_no r \<noteq> n) rs in
     andThen (pause_failed E (r_container failed)) (\<lambda>_.
     andThen (copy_answers E n rs replacement) (\<lambda>_.
     andThen (lift (pool_gateway_conf E remaining)) (\<lambda>_.
     andThen (stage_pool_gateway E remaining) (\<lambda>_.
     andThen (or_restore E (store (commit_pool_replacement (e_dt E) tid e (to_dict q) n))) (\<lambda>bound.
     andThen (set_frame (\<lambda>f. f\<lparr>committed := True\<rparr>)) (\<lambda>_.
     andThen (lift (e_drop E)) (\<lambda>_.
     andThen forget_backup (\<lambda>_.
     andThen (quietly (remove_container E (r_container failed))) (\<lambda>_.
     andThen (handle (andThen (repair_isolated_pool_slot H E tid n (revision q) c) (\<lambda>k. ret (Some k))) (\<lambda>_. ret None)) (\<lambda>recovered.
     andThen (note_ready E tid (''failed seat '' @ fmt03 n @ '' isolated'' @
       (case replacement of None \<Rightarrow> [] | Some r \<Rightarrow> if py_truthy r then '', student moved to a spare seat'' else []) @
       (if recovered \<noteq> None then ''; slot rebuilt, spare capacity restored'' else ''; spare capacity not restored''))) (\<lambda>_.
     ret \<lparr>rp_replayed = False, rp_revision = revision q, rp_value = tr_value t,
       rp_credential_revision = map_option (\<lambda>(r, u). r_credential_revision r) bound,
       rp_capacity_recovered = (recovered \<noteq> None),
       rp_capacity_revision = (case recovered of None \<Rightarrow> revision q | Some k \<Rightarrow> k)\<rparr>))))))))))))"

definition replace_body ::
  "(string \<Rightarrow> string) \<Rightarrow> env \<Rightarrow> string \<Rightarrow> int \<Rightarrow> string \<Rightarrow> int \<Rightarrow> (world, replace_report) eff" where
  "replace_body H E tid n reason e =
     andThen (lift (e_lock E)) (\<lambda>_.
     andThen (open_pool E {Ready} tid) (\<lambda>(c, k, p).
     andThen (lift (replace_failed H n reason (e_now E) True (replace_command tid e n) e p)) (\<lambda>t.
     if replayed t
     then ret \<lparr>rp_replayed = True, rp_revision = revision (tr_state t), rp_value = tr_value t,
       rp_credential_revision = None, rp_capacity_recovered = False,
       rp_capacity_revision = revision (tr_state t)\<rparr>
     else
     andThen (connect E) (\<lambda>_.
     andThen (pool_runtime_context H E c p) (\<lambda>(rs, img, mat).
     replace_steps H E tid n e c rs t)))))"

definition undo_replacement :: "env \<Rightarrow> string \<Rightarrow> exn \<Rightarrow> (world, 'a) eff" where
  "undo_replacement E tid x = andThen (asks local_vars) (\<lambda>f.
     andThen (if connected f \<and> backup f \<noteq> None then quietly (restore_pool_gateway E) else ret ()) (\<lambda>_.
     andThen (case paused f of
         Some name \<Rightarrow> if connected f \<and> \<not> committed f
           then quietly (andThen (lift (e_unpause E name)) (\<lambda>_. modify (\<lambda>w. w\<lparr>paused_now := paused_now w - {name}\<rparr>)))
           else ret ()
       | None \<Rightarrow> ret ()) (\<lambda>_.
     andThen (note_failure E tid (''replacement failed: '' @ e_text E x)) (\<lambda>_. raise x))))"

definition replace_failed_seat ::
  "(string \<Rightarrow> string) \<Rightarrow> env \<Rightarrow> string \<Rightarrow> int \<Rightarrow> string \<Rightarrow> int \<Rightarrow> bool \<Rightarrow> (world, replace_report) eff" where
  "replace_failed_seat H E tid n reason e teacher_approved =
     (if \<not> teacher_approved then raise (OtherError ''TeacherApprovalRequiredError'' ''teacher must approve'') else
      exclusively tid (framed (handle (replace_body H E tid n reason e) (undo_replacement E tid))))"

end
