(* ===== verification/SeatPoolInv.thy ===== *)
theory SeatPoolInv
  imports SeatPool
begin

text \<open>
  The seat pool's invariant and its preservation by every command, the append-only receipt
  log, the life cycle of seats, and the round trip through the stored dict.
\<close>

section \<open>Round trip\<close>

lemma role_of_str [simp]: "role_of (role_str r) = Inr r"
  by (cases r) (simp_all add: role_of_def)

lemma state_of_str [simp]: "state_of (state_str s) = Inr s"
  by (cases s) (simp_all add: state_of_def SEAT_STATES_def)

lemma as_opt_int_opt_int [simp]: "as_opt_int (opt_int x) = Inr x"
  by (cases x) simp_all

lemma seat_of_dict_seat_dict [simp]: "seat_of_dict (seat_dict s) = Inr s"
  by (simp add: seat_of_dict_def seat_dict_def seat_fields_def req_def opt_field_def)

lemma receipt_of_dict_receipt_dict [simp]: "receipt_of_dict (receipt_dict r) = Inr r"
  by (simp add: receipt_of_dict_def receipt_dict_def req_def)

lemma mapE_seats: "mapE (\<lambda>v. bindE (as_obj v) seat_of_dict) (map seat_json ss) = Inr ss"
  by (induction ss) (simp_all add: seat_json_def)

lemma mapE_receipts:
  "mapE (\<lambda>v. bindE (as_obj v) receipt_of_dict) (map (\<lambda>r. JObj (receipt_dict r)) rs) = Inr rs"
  by (induction rs) simp_all

section \<open>The invariant\<close>

definition seat_wf :: "seat \<Rightarrow> bool" where
  "seat_wf s \<longleftrightarrow> seat_key s = seat_key_of (slot_no s)
     \<and> (seat_uid s \<noteq> None \<longleftrightarrow> st s \<in> {Reserved, Released, Frozen, Collected})
     \<and> (container_ref s = [] \<longleftrightarrow> st s \<in> {Planned, Warming})
     \<and> (st s = Released \<longrightarrow> released_at_ms s \<noteq> None)"

definition bound_count :: "seat list \<Rightarrow> int" where
  "bound_count ss = int (length (filter (\<lambda>s. seat_uid s \<noteq> None) ss))"

definition role_count :: "seat_role \<Rightarrow> seat list \<Rightarrow> int" where
  "role_count r ss = int (length (filter (\<lambda>s. role s = r) ss))"

definition seats_wf :: "int \<Rightarrow> int \<Rightarrow> seat list \<Rightarrow> bool" where
  "seats_wf mx sp ss \<longleftrightarrow> map slot_no ss = [1..int (length ss)]
     \<and> list_all seat_wf ss
     \<and> distinct (filter (\<lambda>u. u \<noteq> None) (map seat_uid ss))
     \<and> distinct (filter (\<lambda>c. c \<noteq> []) (map container_ref ss))
     \<and> role_count Primary ss = mx \<and> role_count Spare ss = sp
     \<and> bound_count ss \<le> mx"

definition log_wf :: "int \<Rightarrow> receipt list \<Rightarrow> bool" where
  "log_wf n rs \<longleftrightarrow> 0 \<le> n \<and> map rc_revision rs = [1..n] \<and> distinct (map command_id rs)"

definition pool_wf :: "pool \<Rightarrow> bool" where
  "pool_wf p \<longleftrightarrow> seats_wf (max_participants p) (spare_count p) (seats p)
     \<and> log_wf (revision p) (receipts p)
     \<and> 0 < release_at_ms p \<and> release_at_ms p \<le> begin_at_ms p"

lemma counts_append [simp]:
  "bound_count (xs @ ys) = bound_count xs + bound_count ys"
  "role_count r (xs @ ys) = role_count r xs + role_count r ys"
  by (simp_all add: bound_count_def role_count_def)

lemma counts_Cons [simp]:
  "bound_count (s # ss) = (if seat_uid s \<noteq> None then 1 else 0) + bound_count ss"
  "role_count r (s # ss) = (if role s = r then 1 else 0) + role_count r ss"
  by (simp_all add: bound_count_def role_count_def)

lemma counts_Nil [simp]: "bound_count [] = 0" "role_count r [] = 0"
  by (simp_all add: bound_count_def role_count_def)

lemma bound_count_nonneg [simp]: "0 \<le> bound_count ss"
  by (simp add: bound_count_def)

lemma seats_wf_distinct: "seats_wf mx sp ss \<Longrightarrow> distinct (map slot_no ss)"
  by (simp add: seats_wf_def)

lemma replace_seat_split:
  assumes "distinct (map slot_no (xs @ s # ys))" and "slot_no u = slot_no s"
  shows "replace_seat (xs @ s # ys) u = xs @ u # ys"
proof -
  have "replace_seat zs u = zs" if "slot_no s \<notin> slot_no ` set zs" for zs
    using that assms(2) by (induction zs) (auto simp: replace_seat_def)
  with assms show ?thesis
    by (simp add: replace_seat_def)
qed

lemma distinct_filter_upd:
  assumes d: "distinct (filter P (map g (xs @ s # ys)))"
    and u: "\<not> P (g u) \<or> g u = g s \<or> g u \<notin> g ` set (xs @ ys)"
  shows "distinct (filter P (map g (xs @ u # ys)))"
proof (cases "P (g u) \<and> g u \<noteq> g s")
  case True
  then have "g u \<notin> g ` set xs" "g u \<notin> g ` set ys" using u by auto
  then have "g u \<notin> set (filter P (map g xs))" "g u \<notin> set (filter P (map g ys))" by auto
  then show ?thesis using d True by (simp split: if_splits)
next
  case False
  then show ?thesis using d by (cases "P (g u)") (simp_all split: if_splits)
qed

text \<open>One seat rewritten: what has to be checked of the new seat.\<close>

lemma seats_wf_upd:
  assumes wf: "seats_wf mx sp (xs @ s # ys)" and slot: "slot_no u = slot_no s" and u: "seat_wf u"
    and uid: "seat_uid u = None \<or> seat_uid u = seat_uid s \<or> seat_uid u \<notin> seat_uid ` set (xs @ ys)"
    and cref: "container_ref u = [] \<or> container_ref u = container_ref s
                 \<or> container_ref u \<notin> container_ref ` set (xs @ ys)"
    and mx': "mx' = mx - (if role s = Primary then 1 else 0) + (if role u = Primary then 1 else 0)"
    and sp': "sp' = sp - (if role s = Spare then 1 else 0) + (if role u = Spare then 1 else 0)"
    and cnt: "bound_count (xs @ u # ys) \<le> mx'"
  shows "seats_wf mx' sp' (xs @ u # ys)"
proof -
  have "map slot_no (xs @ u # ys) = [1..int (length (xs @ u # ys))]"
    using wf slot by (simp add: seats_wf_def)
  moreover have "distinct (filter (\<lambda>u. u \<noteq> None) (map seat_uid (xs @ u # ys)))"
    by (rule distinct_filter_upd [where s = s]) (use wf uid in \<open>auto simp: seats_wf_def\<close>)
  moreover have "distinct (filter (\<lambda>c. c \<noteq> []) (map container_ref (xs @ u # ys)))"
    by (rule distinct_filter_upd [where s = s]) (use wf cref in \<open>auto simp: seats_wf_def\<close>)
  moreover have "role_count Primary (xs @ u # ys) = mx'" "role_count Spare (xs @ u # ys) = sp'"
    using wf mx' sp' by (auto simp: seats_wf_def)
  ultimately show ?thesis
    using wf u cnt by (simp add: seats_wf_def)
qed

text \<open>A seat rewritten in place by \<^const>\<open>replace_seat\<close>, its role and user unchanged.\<close>

lemma seats_wf_replace:
  assumes wf: "seats_wf mx sp ss" and s: "s \<in> set ss" and u: "seat_wf u"
    and same: "slot_no u = slot_no s" "role u = role s"
    and uid: "seat_uid u = None \<or> seat_uid u = seat_uid s
                \<or> (seat_uid u \<notin> seat_uid ` set ss \<and> bound_count ss < mx)"
    and cref: "container_ref u = [] \<or> container_ref u = container_ref s
                 \<or> (\<forall>t \<in> set ss. slot_no t \<noteq> slot_no s \<longrightarrow> container_ref t \<noteq> container_ref u)"
  shows "seats_wf mx sp (replace_seat ss u)"
proof -
  obtain xs ys where ss: "ss = xs @ s # ys" using split_list [OF s] by blast
  have d: "distinct (map slot_no (xs @ s # ys))" using seats_wf_distinct wf ss by blast
  have bc: "bound_count (xs @ u # ys) \<le> mx"
    using wf uid unfolding ss seats_wf_def by (auto split: if_splits)
  have cr: "container_ref u = [] \<or> container_ref u = container_ref s
               \<or> container_ref u \<notin> container_ref ` set (xs @ ys)"
  proof -
    have "slot_no t \<noteq> slot_no s" if "t \<in> set (xs @ ys)" for t
      using d that by (auto simp: image_iff)
    then show ?thesis using cref unfolding ss by (auto simp: image_iff)
  qed
  have "seats_wf mx sp (xs @ u # ys)"
    by (rule seats_wf_upd [OF wf [unfolded ss] same(1) u _ cr]) (use uid same bc ss in auto)
  then show ?thesis using replace_seat_split [OF d same(1)] ss by simp
qed

text \<open>Seats rewritten by a sweep that keeps slots, roles, users and containers.\<close>

lemma sweep_seats_fst: "fst (sweep_seats c f ss) = map (\<lambda>s. if c s then f s else s) ss"
  by (induction ss) (auto simp: split_beta Let_def)

lemma sweep_seats_snd: "snd (sweep_seats c f ss) = map (\<lambda>s. seat_json (f s)) (filter c ss)"
  by (induction ss) (auto simp: split_beta Let_def)

lemma seats_wf_sweep:
  assumes wf: "seats_wf mx sp ss"
    and f: "\<And>s. slot_no (f s) = slot_no s \<and> role (f s) = role s \<and> seat_uid (f s) = seat_uid s
              \<and> container_ref (f s) = container_ref s"
    and fwf: "\<And>s. seat_wf s \<Longrightarrow> c s \<Longrightarrow> seat_wf (f s)"
  shows "seats_wf mx sp (fst (sweep_seats c f ss))"
proof -
  let ?g = "\<lambda>s. if c s then f s else s"
  have eq: "map h (map ?g ss) = map h ss" if "\<And>s. h (f s) = h s" for h :: "seat \<Rightarrow> 'z"
    using that by simp
  have cnt: "bound_count (map ?g ss) = bound_count ss" "role_count r (map ?g ss) = role_count r ss"
    for r by (induction ss) (simp_all add: f)
  have "list_all seat_wf (map ?g ss)"
    using wf fwf by (auto simp: seats_wf_def list_all_iff)
  then show ?thesis
    using wf eq [of slot_no] eq [of seat_uid] eq [of container_ref] f cnt
    unfolding seats_wf_def sweep_seats_fst by (simp del: map_map)
qed

section \<open>Every mutation keeps the invariant\<close>

text \<open>The fields a mutation's updates may read or write besides the seats.\<close>

definition header :: "pool \<Rightarrow> string \<times> int \<times> int \<times> int \<times> int" where
  "header p = (pool_tid p, max_participants p, spare_count p, begin_at_ms p, release_at_ms p)"

definition mut_ok :: "pool \<Rightarrow> mutation \<Rightarrow> bool" where
  "mut_ok p m \<longleftrightarrow> (\<forall>ss' v f q. m (seats p) = Inr (ss', v, f) \<and> header q = header p \<longrightarrow>
     revision (f q) = revision q \<and> receipts (f q) = receipts q \<and> seats (f q) = seats q
     \<and> seats_wf (max_participants (f q)) (spare_count (f q)) ss'
     \<and> 0 < release_at_ms (f q) \<and> release_at_ms (f q) \<le> begin_at_ms (f q))"

lemma mut_okI:
  assumes "pool_wf p"
    and "\<And>ss' v f. m (seats p) = Inr (ss', v, f) \<Longrightarrow>
           f = id \<and> seats_wf (max_participants p) (spare_count p) ss'"
  shows "mut_ok p m"
  using assms unfolding mut_ok_def pool_wf_def header_def by force

lemma pool_wf_seats: "pool_wf p \<Longrightarrow> seats_wf (max_participants p) (spare_count p) (seats p)"
  by (simp add: pool_wf_def)

lemma pool_seat_Inr: "pool_seat p n = Inr s \<Longrightarrow> s \<in> set (seats p) \<and> slot_no s = n"
  by (auto simp: pool_seat_def dest!: find_Some_iff_mem)

lemma seats_wf_mem: "seats_wf mx sp ss \<Longrightarrow> s \<in> set ss \<Longrightarrow> seat_wf s"
  by (auto simp: seats_wf_def list_all_iff)

lemma mark_warming_ok: "pool_wf p \<Longrightarrow> mut_ok p (mark_warming_mut p n)"
proof (rule mut_okI)
  fix ss' v f
  assume p: "pool_wf p" and m: "mark_warming_mut p n (seats p) = Inr (ss', v, f)"
  then obtain s where s: "pool_seat p n = Inr s"
    and out: "ss' = replace_seat (seats p) (if st s \<noteq> Planned then s else s\<lparr>st := Warming\<rparr>)" "f = id"
    by (auto simp: mark_warming_mut_def Let_def split: if_splits)
  from pool_seat_Inr [OF s] have mem: "s \<in> set (seats p)" by simp
  have "seat_wf s" using seats_wf_mem [OF pool_wf_seats [OF p] mem] .
  then have "seats_wf (max_participants p) (spare_count p) ss'"
    unfolding out by (intro seats_wf_replace [OF pool_wf_seats [OF p] mem]) (auto simp: seat_wf_def)
  with out show "f = id \<and> seats_wf (max_participants p) (spare_count p) ss'" by simp
qed

lemma mark_verified_ok:
  assumes p: "pool_wf p" and c: "c \<noteq> []"
  shows "mut_ok p (mark_verified_mut p n c i d)"
proof (rule mut_okI [OF p])
  fix ss' v f
  assume m: "mark_verified_mut p n c i d (seats p) = Inr (ss', v, f)"
  then obtain s u where s: "pool_seat p n = Inr s" and out: "ss' = replace_seat (seats p) u" "f = id"
    and u: "u = s \<and> st s = Verified \<or> st s = Warming
          \<and> \<not> list_ex (\<lambda>other. container_ref other = c \<and> slot_no other \<noteq> n \<and> container_ref other \<noteq> [])
               (seats p)
          \<and> u = s\<lparr>st := Verified, container_ref := c, image_digest := i, material_digest := d,
                  last_error := []\<rparr>"
    by (auto simp: mark_verified_mut_def split: if_splits)
  from pool_seat_Inr [OF s] have mem: "s \<in> set (seats p)" and n: "slot_no s = n" by auto
  have "seat_wf s" using seats_wf_mem [OF pool_wf_seats [OF p] mem] .
  then have "seats_wf (max_participants p) (spare_count p) ss'"
    using u c n unfolding out
    by (intro seats_wf_replace [OF pool_wf_seats [OF p] mem])
       (auto simp: seat_wf_def list_ex_iff)
  with out show "f = id \<and> seats_wf (max_participants p) (spare_count p) ss'" by simp
qed

lemma first_available_mem: "first_available ss = Some s \<Longrightarrow> s \<in> set ss"
  by (induction ss arbitrary: s) (auto split: option.splits if_splits)

lemma reserve_ok: "pool_wf p \<Longrightarrow> mut_ok p (reserve_mut p u name now)"
proof (rule mut_okI)
  fix ss' v f
  assume p: "pool_wf p" and m: "reserve_mut p u name now (seats p) = Inr (ss', v, f)"
  show "f = id \<and> seats_wf (max_participants p) (spare_count p) ss'"
  proof (cases "find (\<lambda>s. seat_uid s = Some u) (seats p)")
    case (Some e)
    with m p show ?thesis by (auto simp: reserve_mut_def pool_wf_def split: if_splits)
  next
    case None
    let ?tgt = "reservation_state now (release_at_ms p)"
    from m None obtain s
      where fa: "first_available (filter (\<lambda>s. st s = Verified \<and> seat_uid s = None) (seats p)) = Some s"
        and cap: "bound_count (seats p) < max_participants p"
        and out: "f = id" "ss' = replace_seat (seats p) (s\<lparr>st := ?tgt, seat_uid := Some u,
                     seat_uname := name, reserved_at_ms := Some now,
                     released_at_ms := (if ?tgt = Released then Some now else None)\<rparr>)"
      by (auto simp: reserve_mut_def Let_def bound_count_def split: if_splits option.splits)
    from first_available_mem [OF fa] have mem: "s \<in> set (seats p)" and v: "st s = Verified" by auto
    have wf: "seat_wf s" using seats_wf_mem [OF pool_wf_seats [OF p] mem] .
    have fresh: "Some u \<notin> seat_uid ` set (seats p)" using None by (auto simp: find_None_iff)
    have "seats_wf (max_participants p) (spare_count p) ss'"
      unfolding out
      by (rule seats_wf_replace [OF pool_wf_seats [OF p] mem])
         (use wf v fresh cap in \<open>auto simp: seat_wf_def reservation_state_def\<close>)
    with out show ?thesis by simp
  qed
qed

lemma release_ok: "pool_wf p \<Longrightarrow> mut_ok p (release_mut p u now)"
proof (rule mut_okI)
  fix ss' v f
  assume p: "pool_wf p" and m: "release_mut p u now (seats p) = Inr (ss', v, f)"
  then obtain s where s: "find (\<lambda>s. seat_uid s = Some u) (seats p) = Some s" and f: "f = id"
    and out: "ss' = seats p \<or> st s = Reserved
       \<and> ss' = replace_seat (seats p) (s\<lparr>st := Released, released_at_ms := Some now\<rparr>)"
    by (auto simp: release_mut_def Let_def split: if_splits option.splits)
  from find_Some_iff_mem [OF s] have mem: "s \<in> set (seats p)" by simp
  have wf: "seat_wf s" using seats_wf_mem [OF pool_wf_seats [OF p] mem] .
  show "f = id \<and> seats_wf (max_participants p) (spare_count p) ss'"
  proof (cases "ss' = seats p")
    case True
    with f p show ?thesis by (simp add: pool_wf_def)
  next
    case False
    with out have r: "st s = Reserved"
      and ss': "ss' = replace_seat (seats p) (s\<lparr>st := Released, released_at_ms := Some now\<rparr>)" by auto
    show ?thesis
      unfolding ss' using f
      by (auto intro!: seats_wf_replace [OF pool_wf_seats [OF p] mem])
         (use wf r in \<open>auto simp: seat_wf_def\<close>)
  qed
qed

lemma sweep_mut_ok:
  assumes p: "pool_wf p"
    and m: "\<And>ss' v f. m (seats p) = Inr (ss', v, f) \<Longrightarrow>
              f = id \<and> (ss' = seats p \<or> ss' = fst (sweep_seats c g (seats p)))"
    and g: "\<And>s. slot_no (g s) = slot_no s \<and> role (g s) = role s \<and> seat_uid (g s) = seat_uid s
              \<and> container_ref (g s) = container_ref s"
    and gwf: "\<And>s. seat_wf s \<Longrightarrow> c s \<Longrightarrow> seat_wf (g s)"
  shows "mut_ok p m"
proof (rule mut_okI [OF p])
  fix ss' v f
  assume "m (seats p) = Inr (ss', v, f)"
  from m [OF this] show "f = id \<and> seats_wf (max_participants p) (spare_count p) ss'"
    using pool_wf_seats [OF p] seats_wf_sweep [OF pool_wf_seats [OF p] g gwf] by blast
qed

lemma release_due_ok: "pool_wf p \<Longrightarrow> mut_ok p (release_due_mut p now)"
  by (rule sweep_mut_ok [where c = "\<lambda>s. st s = Reserved"
        and g = "\<lambda>s. s\<lparr>st := Released, released_at_ms := Some now\<rparr>"])
     (auto simp: release_due_mut_def seat_wf_def split_beta Let_def split: if_splits)

lemma freeze_ok: "pool_wf p \<Longrightarrow> mut_ok p (freeze_mut now)"
  by (rule sweep_mut_ok [where c = "\<lambda>s. seat_uid s \<noteq> None \<and> st s \<in> {Reserved, Released}"
        and g = "\<lambda>s. s\<lparr>st := Frozen, frozen_at_ms := Some now\<rparr>"])
     (auto simp: freeze_mut_def seat_wf_def split_beta Let_def split: if_splits)

lemma collect_ok: "pool_wf p \<Longrightarrow> mut_ok p (collect_mut now)"
  by (rule sweep_mut_ok [where c = "\<lambda>s. st s = Frozen"
        and g = "\<lambda>s. s\<lparr>st := Collected, collected_at_ms := Some now\<rparr>"])
     (auto simp: collect_mut_def seat_wf_def split_beta Let_def split: if_splits)

text \<open>Growth appends well-formed unbound seats.\<close>

lemma foldl_max_Max: "foldl max x xs = Max (set (x # xs))" for x :: int
  by (metis Max.set_eq_fold fold_simps(2) foldl_conv_fold max.commute ext)

lemma next_slot_wf:
  assumes a: "map slot_no ss = [1..int (length ss)]"
  shows "next_slot_of ss = int (length ss) + 1"
proof (cases "map slot_no ss")
  case Nil
  then show ?thesis by (simp add: next_slot_of_def)
next
  case (Cons x xs)
  have s: "set (x # xs) = {1..int (length ss)}" using a Cons by (metis set_upto)
  have "1 \<le> length ss" using Cons by (cases ss) auto
  then have "Max {1..int (length ss)} = int (length ss)" by (intro Max_eqI) simp_all
  then have "Max (set (x # xs)) = int (length ss)" unfolding s .
  then show ?thesis using Cons by (simp only: next_slot_of_def foldl_max_Max list.case)
qed

lemma map_upt_upto: "map (\<lambda>i. c + int i) [0..<n] = [c..c + int n - 1]"
  by (induction n) (auto simp: upto_rec2 algebra_simps)

lemma added_slots:
  assumes "0 \<le> a" "0 \<le> b"
  shows "map slot_no (added_seats (k + 1) a b) = [k + 1..k + a + b]"
proof -
  have "[k + 1..k + a + b] = [k + 1..k + a] @ [k + a + 1..k + a + b]"
    using assms upto_split1 [of "k + 1" "k + a + 1" "k + a + b"] by (cases "b = 0") auto
  also have "\<dots> = map (\<lambda>i. k + 1 + int i) [0..<nat a] @ map (\<lambda>i. k + 1 + a + int i) [0..<nat b]"
    using assms by (simp only: map_upt_upto) (simp add: algebra_simps)
  finally show ?thesis by (simp add: added_seats_def new_seat_def comp_def)
qed

lemma seats_wf_grow:
  assumes wf: "seats_wf mx sp ss" and a: "0 \<le> a" and b: "0 \<le> b"
  shows "seats_wf (mx + a) (sp + b) (ss @ added_seats (next_slot_of ss) a b)"
proof -
  let ?k = "int (length ss)"
  let ?new = "added_seats (?k + 1) a b"
  have slots: "map slot_no ss = [1..?k]" using wf by (simp add: seats_wf_def)
  have len: "int (length ?new) = a + b" using a b by (simp add: added_seats_def)
  have all: "map slot_no (ss @ ?new) = [1..int (length (ss @ ?new))]"
    using slots added_slots [OF a b] len upto_split1 [of 1 "?k + 1" "?k + a + b"] a b
    by (cases "a + b = 0") (auto simp: add.assoc)
  have new: "list_all (\<lambda>s. seat_wf s \<and> seat_uid s = None \<and> container_ref s = []) ?new"
    by (auto simp: added_seats_def new_seat_def seat_wf_def list_all_iff)
  then have nil: "filter (\<lambda>u. u \<noteq> None) (map seat_uid ?new) = []"
      "filter (\<lambda>c. c \<noteq> []) (map container_ref ?new) = []" "bound_count ?new = 0"
    by (auto simp: filter_empty_conv list_all_iff bound_count_def)
  have "filter (\<lambda>s. role s = Primary) (map (\<lambda>i. new_seat (f i) Primary) xs) = map (\<lambda>i. new_seat (f i) Primary) xs"
    "filter (\<lambda>s. role s = Spare) (map (\<lambda>i. new_seat (f i) Spare) xs) = map (\<lambda>i. new_seat (f i) Spare) xs"
    "filter (\<lambda>s. role s = Primary) (map (\<lambda>i. new_seat (f i) Spare) xs) = []"
    "filter (\<lambda>s. role s = Spare) (map (\<lambda>i. new_seat (f i) Primary) xs) = []"
    for f and xs :: "nat list" by (induction xs) (simp_all add: new_seat_def)
  then have rc: "role_count Primary ?new = a" "role_count Spare ?new = b"
    using a b by (simp_all add: role_count_def added_seats_def)
  show ?thesis
    using wf a all new nil rc unfolding next_slot_wf [OF slots]
    by (auto simp: seats_wf_def list_all_iff)
qed

lemma grow_ok:
  assumes p: "pool_wf p" and a: "0 \<le> a" and b: "0 \<le> b"
  shows "mut_ok p (grow_mut p a b extra)"
  using seats_wf_grow [OF pool_wf_seats [OF p] a b] p
  by (auto simp: mut_ok_def grow_mut_def Let_def header_def pool_wf_def)

text \<open>What a successful replacement does: the two seats it rewrites and how.\<close>

lemma replace_failed_cases:
  assumes "replace_failed_mut p n why now (seats p) = Inr (ss', v, f)"
  obtains (noop) s where "s \<in> set (seats p)" "slot_no s = n" "seat_uid s = None"
      "st s = Planned" "ss' = seats p" "f = id"
  | (reset) s where "s \<in> set (seats p)" "slot_no s = n" "seat_uid s = None"
      "st s \<notin> {Frozen, Collected}"
      "ss' = replace_seat (seats p) (reset_seat s False why)" "f = id"
  | (moved) s r tgt where "s \<in> set (seats p)" "slot_no s = n" "seat_uid s \<noteq> None"
      "st s \<notin> {Frozen, Collected}" "r \<in> set (seats p)" "role r = Spare" "st r = Verified"
      "seat_uid r = None" "tgt = (if st s = Released then Released
         else reservation_state now (release_at_ms p))" "f = id"
      "ss' = replace_seat (replace_seat (seats p) (reset_seat s True why))
         (r\<lparr>role := role s, st := tgt, seat_uid := seat_uid s, seat_uname := seat_uname s,
            reserved_at_ms := Some now,
            released_at_ms := (if tgt = Released then Some now else None)\<rparr>)"
proof -
  from assms obtain s where s: "pool_seat p n = Inr s" by (auto simp: replace_failed_mut_def)
  note mem = pool_seat_Inr [OF s]
  show ?thesis
  proof (cases "seat_uid s")
    case None
    have st: "st s \<notin> {Frozen, Collected}"
      using assms s by (auto simp: replace_failed_mut_def)
    show ?thesis
    proof (cases "st s = Planned")
      case True
      show ?thesis
        by (rule noop [of s]) (use assms s mem None True in \<open>simp_all add: replace_failed_mut_def\<close>)
    next
      case False
      show ?thesis
        by (rule reset [of s])
           (use assms s mem None False st in \<open>simp_all add: replace_failed_mut_def Let_def\<close>)
    qed
  next
    case (Some u)
    let ?F = "find (\<lambda>s. role s = Spare \<and> st s = Verified \<and> seat_uid s = None) (seats p)"
    have st: "st s \<notin> {Frozen, Collected}"
      using assms s by (auto simp: replace_failed_mut_def)
    obtain r where r: "?F = Some r"
      using assms s Some st by (cases ?F) (simp_all add: replace_failed_mut_def Let_def)
    note rm = find_Some_iff_mem [OF r]
    show ?thesis
    proof (rule moved [of s r "if st s = Released then Released
         else reservation_state now (release_at_ms p)"])
      show "f = id" using assms s Some st r by (simp add: replace_failed_mut_def Let_def)
    qed (use assms s Some st r rm mem in \<open>simp_all add: replace_failed_mut_def Let_def\<close>)
  qed
qed

lemma replace_seat_role:
  assumes wf: "seats_wf mx sp ss" and s: "s \<in> set ss" and u: "seat_wf u"
    and slot: "slot_no u = slot_no s"
    and uid: "seat_uid u = None \<or> seat_uid u = seat_uid s \<or> seat_uid u \<notin> seat_uid ` set ss"
    and cref: "container_ref u = [] \<or> container_ref u = container_ref s"
    and mx': "mx' = mx - (if role s = Primary then 1 else 0) + (if role u = Primary then 1 else 0)"
    and sp': "sp' = sp - (if role s = Spare then 1 else 0) + (if role u = Spare then 1 else 0)"
    and bc: "bc = bound_count ss - (if seat_uid s \<noteq> None then 1 else 0)
               + (if seat_uid u \<noteq> None then 1 else 0)" "bc \<le> mx'"
  shows "seats_wf mx' sp' (replace_seat ss u) \<and> bound_count (replace_seat ss u) = bc"
proof -
  obtain xs ys where ss: "ss = xs @ s # ys" using split_list [OF s] by blast
  have d: "distinct (map slot_no (xs @ s # ys))" using seats_wf_distinct wf ss by blast
  have b: "bound_count (xs @ u # ys) = bc" using bc ss by simp
  have "seats_wf mx' sp' (xs @ u # ys)"
    by (rule seats_wf_upd [OF wf [unfolded ss] slot u _ _ mx' sp']) (use uid cref b bc ss in auto)
  then show ?thesis using replace_seat_split [OF d slot] ss b by simp
qed

lemma mem_replace_seat:
  assumes "distinct (map slot_no ss)" and "s \<in> set ss" and "slot_no u = slot_no s"
  shows "t \<in> set (replace_seat ss u) \<longleftrightarrow> t = u \<or> (t \<in> set ss \<and> slot_no t \<noteq> slot_no u)"
  using assms by (force simp: replace_seat_def)

lemma bound_distinct:
  assumes "seats_wf mx sp ss" and "s \<in> set ss" and "t \<in> set ss"
    and "seat_uid s = seat_uid t" and "seat_uid s \<noteq> None"
  shows "s = t"
proof -
  obtain xs ys where ss: "ss = xs @ s # ys" using split_list [OF assms(2)] by blast
  have "distinct (filter (\<lambda>u. u \<noteq> None) (map seat_uid (xs @ s # ys)))"
    using assms(1) ss by (simp add: seats_wf_def)
  then have "seat_uid s \<notin> seat_uid ` set xs" "seat_uid s \<notin> seat_uid ` set ys"
    using assms(5) by (auto simp: image_iff)
  then show ?thesis using assms(3,4) ss by (auto simp: image_iff)
qed

lemma replace_failed_ok:
  assumes p: "pool_wf p"
  shows "mut_ok p (replace_failed_mut p n why now)"
proof (rule mut_okI [OF p])
  fix ss' v f
  assume m: "replace_failed_mut p n why now (seats p) = Inr (ss', v, f)"
  note W = pool_wf_seats [OF p]
  from m show "f = id \<and> seats_wf (max_participants p) (spare_count p) ss'"
  proof (cases rule: replace_failed_cases)
    case noop
    then show ?thesis using W by simp
  next
    case (reset s)
    have "seat_wf s" using seats_wf_mem [OF W reset(1)] .
    then show ?thesis using reset(5,6)
      by (auto intro!: seats_wf_replace [OF W reset(1)] simp: reset_seat_def seat_wf_def)
  next
    case (moved s r tgt)
    let ?reset = "reset_seat s True why"
    let ?mid = "replace_seat (seats p) ?reset"
    let ?mx = "max_participants p - (if role s = Primary then 1 else 0)"
    let ?sp = "spare_count p - (if role s = Spare then 1 else 0) + 1"
    let ?bc = "bound_count (seats p) - 1"
    have ws: "seat_wf s" and wr: "seat_wf r" using seats_wf_mem [OF W] moved by auto
    have bc: "bound_count (seats p) \<le> max_participants p" using W by (simp add: seats_wf_def)
    have mid: "seats_wf ?mx ?sp ?mid \<and> bound_count ?mid = ?bc"
      by (rule replace_seat_role [OF W moved(1)])
         (use ws moved bc in \<open>auto simp: reset_seat_def seat_wf_def\<close>)
    have slots: "slot_no r \<noteq> slot_no s"
      using seats_wf_distinct [OF W] moved by (auto simp: distinct_map inj_on_def)
    have rs: "slot_no ?reset = slot_no s" "seat_uid ?reset = None" by (simp_all add: reset_seat_def)
    have iff: "t \<in> set ?mid \<longleftrightarrow> t = ?reset \<or> (t \<in> set (seats p) \<and> slot_no t \<noteq> slot_no s)" for t
      using mem_replace_seat [OF seats_wf_distinct [OF W] moved(1) rs(1)] rs(1) by simp
    have mem: "r \<in> set ?mid" using iff moved(5) slots by simp
    have fresh: "seat_uid s \<notin> seat_uid ` set ?mid"
    proof
      assume "seat_uid s \<in> seat_uid ` set ?mid"
      then obtain t where t: "t \<in> set ?mid" "seat_uid t = seat_uid s" by auto
      then have "t \<in> set (seats p)" "slot_no t \<noteq> slot_no s" using iff rs(2) moved(3) by auto
      with bound_distinct [OF W moved(1)] t(2) moved(3) show False by metis
    qed
    have tgt: "tgt = Released \<or> tgt = Reserved" using moved(9) by (auto simp: reservation_state_def)
    have "seats_wf (max_participants p) (spare_count p) ss'"
      unfolding moved(11)
      by (rule conjunct1 [OF replace_seat_role [OF conjunct1 [OF mid] mem, where bc = "bound_count (seats p)"]])
         (use mid wr ws moved(3,6,7,8) tgt bc fresh in \<open>auto simp: seat_wf_def\<close>)
    with moved show ?thesis by simp
  qed
qed

section \<open>Every command keeps the invariant\<close>

lemma apply_cmd_cases:
  assumes "apply_cmd H oper args cid e m p = Inr t"
  obtains (replay) r where "find_receipt cid p = Some r" "fingerprint r = fingerprint_of H oper args"
      "t = \<lparr>tr_state = p, tr_value = rc_value r, replayed = True\<rparr>"
  | (fresh) ss' v f rc where "find_receipt cid p = None" "e = revision p"
      "m (seats p) = Inr (ss', v, f)"
      "rc = \<lparr>command_id = cid, fingerprint = fingerprint_of H oper args,
         rc_revision = revision p + 1, rc_value = dict_set ''revision'' (JInt (revision p + 1)) v\<rparr>"
      "t = \<lparr>tr_state = f (p\<lparr>revision := revision p + 1, seats := ss',
             receipts := receipts p @ [rc]\<rparr>), tr_value = rc_value rc, replayed = False\<rparr>"
proof (cases "find_receipt cid p")
  case None
  with assms fresh show ?thesis
    by (auto simp: apply_cmd_def Let_def split: if_splits)
next
  case (Some r)
  with assms replay show ?thesis
    by (auto simp: apply_cmd_def Let_def split: if_splits)
qed

lemma log_wf_snoc:
  assumes "log_wf n rs" and "find (\<lambda>r. command_id r = command_id rc) rs = None"
    and "rc_revision rc = n + 1"
  shows "log_wf (n + 1) (rs @ [rc])"
  using assms by (auto simp: log_wf_def find_None_iff upto_rec2)

lemma apply_cmd_wf:
  assumes p: "pool_wf p" and m: "mut_ok p m" and t: "apply_cmd H oper args cid e m p = Inr t"
  shows "pool_wf (tr_state t)"
  using t
proof (cases rule: apply_cmd_cases)
  case replay
  with p show ?thesis by simp
next
  case (fresh ss' v f rc)
  let ?q = "p\<lparr>revision := revision p + 1, seats := ss', receipts := receipts p @ [rc]\<rparr>"
  have "log_wf (revision p + 1) (receipts p @ [rc])"
    by (rule log_wf_snoc) (use p fresh in \<open>auto simp: pool_wf_def find_receipt_def\<close>)
  moreover have "header ?q = header p" by (simp add: header_def)
  ultimately show ?thesis
    using m fresh by (simp add: mut_ok_def pool_wf_def)
qed

lemma reschedule_ok:
  "pool_wf p \<Longrightarrow> 0 \<le> lead \<Longrightarrow> lead < bgn \<Longrightarrow>
    mut_ok p (\<lambda>ss. Inr (ss, v, \<lambda>q. q\<lparr>begin_at_ms := bgn, release_at_ms := bgn - lead\<rparr>))"
  by (auto simp: mut_ok_def pool_wf_def header_def)

lemma validate_int_Inr [simp]: "validate_int name v m = Inr w \<longleftrightarrow> m \<le> v \<and> w = v"
  by (auto simp: validate_int_def)

lemmas cmd_defs = mark_warming_def mark_verified_def reserve_def release_def release_due_def
  replace_failed_def grow_def reconcile_roster_capacity_def reschedule_def freeze_def collect_def

lemmas muts_ok = mark_warming_ok mark_verified_ok reserve_ok release_ok release_due_ok
  replace_failed_ok grow_ok reschedule_ok freeze_ok collect_ok

text \<open>
  Every command is either answered without touching the pool, or it is \<^const>\<open>apply_cmd\<close> with a
  mutation that keeps the invariant.
\<close>

fun op_mut :: "pool \<Rightarrow> pool_op \<Rightarrow> mutation" where
  "op_mut p (MarkWarming n now) = mark_warming_mut p n"
| "op_mut p (MarkVerified n c i m now) = mark_verified_mut p n (py_strip c) (py_strip i) (py_strip m)"
| "op_mut p (Reserve u name now) = reserve_mut p u (py_strip name) now"
| "op_mut p (Release u now) = release_mut p u now"
| "op_mut p (ReleaseDue now) = release_due_mut p now"
| "op_mut p (ReplaceFailed n why now ok) = replace_failed_mut p n (py_strip why) now"
| "op_mut p (Grow a b) = grow_mut p a b []"
| "op_mut p (ReconcileRoster n mn pc) =
     (let sp = max mn ((n * pc + 99) div 100) in
      grow_mut p (max 0 (n - max_participants p)) (max 0 (sp - spare_count p))
        [(''target_main'', JInt n), (''target_spares'', JInt sp)])"
| "op_mut p (Reschedule b l) = (\<lambda>ss. Inr (ss, [(''begin_at_ms'', JInt b), (''release_at_ms'', JInt (b - l))],
     \<lambda>q. q\<lparr>begin_at_ms := b, release_at_ms := b - l\<rparr>))"
| "op_mut p (Freeze now) = freeze_mut now"
| "op_mut p (Collect now) = collect_mut now"

fun op_args :: "pool_op \<Rightarrow> string \<times> jdict" where
  "op_args (MarkWarming n now) = (''mark_warming'', [(''slot_no'', JInt n), (''now_ms'', JInt now)])"
| "op_args (MarkVerified n c i m now) = (''mark_verified'',
     [(''slot_no'', JInt n), (''container_ref'', JStr (py_strip c)), (''image_digest'', JStr (py_strip i)),
      (''material_digest'', JStr (py_strip m)), (''now_ms'', JInt now)])"
| "op_args (Reserve u name now) = (''reserve'',
     [(''uid'', JInt u), (''uname'', JStr (py_strip name)), (''now_ms'', JInt now)])"
| "op_args (Release u now) = (''release'', [(''uid'', JInt u), (''now_ms'', JInt now)])"
| "op_args (ReleaseDue now) = (''release_due'', [(''now_ms'', JInt now)])"
| "op_args (ReplaceFailed n why now ok) = (''replace_failed'',
     [(''slot_no'', JInt n), (''reason'', JStr (py_strip why)), (''now_ms'', JInt now),
      (''teacher_approved'', JBool ok)])"
| "op_args (Grow a b) = (''grow'', [(''additional_main'', JInt a), (''additional_spares'', JInt b)])"
| "op_args (ReconcileRoster n mn pc) = (''reconcile_roster_capacity'',
     [(''participant_count'', JInt n), (''minimum_spares'', JInt mn), (''spare_percent'', JInt pc)])"
| "op_args (Reschedule b l) = (''reschedule'', [(''begin_at_ms'', JInt b), (''release_lead_ms'', JInt l)])"
| "op_args (Freeze now) = (''freeze'', [(''now_ms'', JInt now)])"
| "op_args (Collect now) = (''collect'', [(''now_ms'', JInt now)])"

fun op_valid :: "pool_op \<Rightarrow> bool" where
  "op_valid (MarkVerified n c i m now) \<longleftrightarrow> py_strip c \<noteq> [] \<and> py_strip i \<noteq> [] \<and> py_strip m \<noteq> []"
| "op_valid (Reserve u name now) \<longleftrightarrow> 1 \<le> u \<and> py_strip name \<noteq> []"
| "op_valid (ReplaceFailed n why now ok) \<longleftrightarrow> py_strip why \<noteq> []"
| "op_valid (Grow a b) \<longleftrightarrow> 0 \<le> a \<and> 0 \<le> b \<and> a + b \<noteq> 0"
| "op_valid (ReconcileRoster n mn pc) \<longleftrightarrow> 0 \<le> n \<and> 0 \<le> mn \<and> 0 \<le> pc"
| "op_valid (Reschedule b l) \<longleftrightarrow> 1 \<le> b \<and> 0 \<le> l \<and> l < b"
| "op_valid _ = True"

text \<open>The two commands that answer before \<^verbatim>\<open>_apply\<close> when there is nothing to change.\<close>

fun op_noop :: "pool_op \<Rightarrow> pool \<Rightarrow> bool" where
  "op_noop (ReconcileRoster n mn pc) p \<longleftrightarrow> n \<le> max_participants p
     \<and> max mn ((n * pc + 99) div 100) \<le> spare_count p"
| "op_noop (Reschedule b l) p \<longleftrightarrow> b = begin_at_ms p \<and> b - l = release_at_ms p"
| "op_noop _ p = False"

lemma desired_capacity_Inr [simp]:
  "desired_capacity n mn pc = Inr (a, b) \<longleftrightarrow>
     0 \<le> n \<and> 0 \<le> mn \<and> 0 \<le> pc \<and> a = n \<and> b = max mn ((n * pc + 99) div 100)"
  by (auto simp: desired_capacity_def Let_def)

lemma run_op_valid: "run_op H c cid e p = Inr t \<Longrightarrow> op_valid c"
  by (cases c) (auto simp: cmd_defs Let_def split: if_splits)

lemma run_op_apply:
  assumes "op_valid c" and "\<not> op_noop c p"
  shows "run_op H c cid e p = apply_cmd H (fst (op_args c)) (snd (op_args c)) cid e (op_mut p c) p"
  using assms
  by (cases c)
     (auto simp: cmd_defs desired_capacity_def validate_int_def Let_def max_def)

lemma run_op_noop:
  assumes "op_valid c" and "op_noop c p"
  shows "\<exists>v. run_op H c cid e p = Inr \<lparr>tr_state = p, tr_value = v, replayed = False\<rparr>"
  using assms
  by (cases c)
     (auto simp: cmd_defs desired_capacity_def validate_int_def Let_def max_def)

lemma op_mut_ok: "pool_wf p \<Longrightarrow> op_valid c \<Longrightarrow> mut_ok p (op_mut p c)"
  by (cases c) (auto intro: muts_ok simp: Let_def)

lemma run_op_wf:
  assumes p: "pool_wf p" and t: "run_op H c cid e p = Inr t"
  shows "pool_wf (tr_state t)"
proof (cases "op_noop c p")
  case True
  from run_op_noop [OF run_op_valid [OF t] True, of H cid e] obtain v
    where "run_op H c cid e p = Inr \<lparr>tr_state = p, tr_value = v, replayed = False\<rparr>" by blast
  with p t show ?thesis by auto
next
  case False
  with run_op_apply [OF run_op_valid [OF t] False] t
  have "apply_cmd H (fst (op_args c)) (snd (op_args c)) cid e (op_mut p c) p = Inr t" by simp
  then show ?thesis
    using apply_cmd_wf [OF p op_mut_ok [OF p run_op_valid [OF t]]] by blast
qed

lemma pool_step_wf: "pool_wf p \<Longrightarrow> pool_step H c p = Inr q \<Longrightarrow> pool_wf q"
  by (auto simp: pool_step_def dest: run_op_wf)

lemma create_wf:
  assumes "create tid mx sp bgn lead = Inr p"
  shows "pool_wf p"
proof -
  let ?mk = "\<lambda>i. new_seat i (if i \<le> mx then Primary else Spare)"
  from assms have b: "0 \<le> mx" "0 \<le> sp" "0 \<le> lead" "lead < bgn"
    and p: "seats p = map ?mk [1..mx + sp]" "max_participants p = mx" "spare_count p = sp"
      "receipts p = []" "revision p = 0" "release_at_ms p = bgn - lead" "begin_at_ms p = bgn"
    by (auto simp: create_def Let_def split: if_splits)
  have split: "[1..mx + sp] = [1..mx] @ [mx + 1..mx + sp]"
    using b upto_split1 [of 1 "mx + 1" "mx + sp"] by (cases "sp = 0") auto
  have seats: "seats p = map (\<lambda>i. new_seat i Primary) [1..mx] @ map (\<lambda>i. new_seat i Spare) [mx + 1..mx + sp]"
    unfolding p(1) split by auto
  have fp: "filter (\<lambda>s. role s = r) (map (\<lambda>i. new_seat i r') xs)
              = (if r = r' then map (\<lambda>i. new_seat i r') xs else [])" for r r' xs
    by (induction xs) (auto simp: new_seat_def)
  have "role_count Primary (seats p) = mx" "role_count Spare (seats p) = sp"
    using b unfolding seats role_count_def by (simp_all add: fp)
  moreover have "map slot_no (seats p) = [1..int (length (seats p))]"
    using b unfolding p(1) by (simp add: new_seat_def comp_def)
  moreover have nil: "\<forall>s \<in> set (seats p). seat_wf s \<and> seat_uid s = None \<and> container_ref s = []"
    unfolding p(1) by (auto simp: new_seat_def seat_wf_def)
  moreover have "filter (\<lambda>u. u \<noteq> None) (map seat_uid (seats p)) = []"
    "filter (\<lambda>c. c \<noteq> []) (map container_ref (seats p)) = []" "bound_count (seats p) = 0"
    using nil by (auto simp: filter_empty_conv bound_count_def)
  ultimately show ?thesis
    using b p by (simp add: pool_wf_def seats_wf_def log_wf_def list_all_iff)
qed

interpretation pool: machine "pool_step H" pool_wf for H
  by unfold_locales (rule pool_step_wf)

end
