(* ===== verification/SeatPoolLife.thy ===== *)
theory SeatPoolLife
  imports SeatPoolInv
begin

text \<open>
  What the seat pool promises its users over any history of commands: seats and students only
  move forward, command receipts make retries safe, stale writers are refused, and nobody is
  released early.
\<close>

section \<open>Progress of seats and students\<close>

definition slot_le :: "seat \<Rightarrow> seat \<Rightarrow> bool" where
  "slot_le s s' \<longleftrightarrow> slot_no s' = slot_no s \<and> failure_count s \<le> failure_count s'
     \<and> (st s \<in> {Frozen, Collected} \<longrightarrow> st s \<le> st s' \<and> seat_uid s' = seat_uid s
          \<and> seat_uname s' = seat_uname s \<and> container_ref s' = container_ref s
          \<and> image_digest s' = image_digest s \<and> material_digest s' = material_digest s)"

definition user_le :: "seat \<Rightarrow> seat \<Rightarrow> bool" where
  "user_le s s' \<longleftrightarrow> seat_uid s' = seat_uid s \<and> seat_uname s' = seat_uname s \<and> st s \<le> st s'"

definition seats_le :: "seat list \<Rightarrow> seat list \<Rightarrow> bool" where
  "seats_le ss ss' \<longleftrightarrow> (\<forall>s \<in> set ss. \<exists>s' \<in> set ss'. slot_le s s')
     \<and> (\<forall>s \<in> set ss. seat_uid s \<noteq> None \<longrightarrow> (\<exists>s' \<in> set ss'. user_le s s'))"

definition pool_le :: "pool \<Rightarrow> pool \<Rightarrow> bool" where
  "pool_le p q \<longleftrightarrow> pool_tid q = pool_tid p \<and> max_participants p \<le> max_participants q
     \<and> spare_count p \<le> spare_count q \<and> revision p \<le> revision q
     \<and> (\<exists>new. receipts q = receipts p @ new) \<and> seats_le (seats p) (seats q)"

lemma slot_le_refl [simp]: "slot_le s s"
  by (simp add: slot_le_def)

lemma user_le_refl [simp]: "user_le s s"
  by (simp add: user_le_def)

lemma slot_le_mem: "s \<in> A \<Longrightarrow> \<exists>s' \<in> A. slot_le s s'"
  by (rule bexI [of _ s]) simp_all

lemma user_le_mem: "s \<in> A \<Longrightarrow> \<exists>s' \<in> A. user_le s s'"
  by (rule bexI [of _ s]) simp_all

lemma map_slot_replace [simp]: "map slot_no (replace_seat ss u) = map slot_no ss"
  by (simp add: replace_seat_def)

lemma frozen_up: "st s \<in> {Frozen, Collected} \<Longrightarrow> st s \<le> st t \<Longrightarrow> st t \<in> {Frozen, Collected}"
  by (cases "st s"; cases "st t") (auto simp: less_eq_seat_state_def)

lemma slot_le_trans: "slot_le s t \<Longrightarrow> slot_le t u \<Longrightarrow> slot_le s u"
  using frozen_up [of s t] unfolding slot_le_def by (auto intro: order_trans)

lemma user_le_trans: "user_le s t \<Longrightarrow> user_le t u \<Longrightarrow> user_le s u"
  unfolding user_le_def by (auto intro: order_trans)

lemma seats_le_refl [simp]: "seats_le ss ss"
  by (simp add: seats_le_def slot_le_mem user_le_mem)

lemma seats_le_trans:
  assumes "seats_le xs ys" and "seats_le ys zs"
  shows "seats_le xs zs"
  unfolding seats_le_def
proof (intro conjI ballI impI)
  fix s
  assume "s \<in> set xs"
  then obtain t where t: "t \<in> set ys" "slot_le s t" using assms(1) by (auto simp: seats_le_def)
  then obtain u where "u \<in> set zs" "slot_le t u" using assms(2) by (auto simp: seats_le_def)
  with t show "\<exists>u \<in> set zs. slot_le s u" by (blast intro: slot_le_trans)
next
  fix s
  assume "s \<in> set xs" and b: "seat_uid s \<noteq> None"
  then obtain t where t: "t \<in> set ys" "user_le s t" using assms(1) by (auto simp: seats_le_def)
  with b have "seat_uid t \<noteq> None" by (simp add: user_le_def)
  with t obtain u where "u \<in> set zs" "user_le t u" using assms(2) by (auto simp: seats_le_def)
  with t show "\<exists>u \<in> set zs. user_le s u" by (blast intro: user_le_trans)
qed

lemma pool_le_refl: "pool_le p p"
  by (simp add: pool_le_def)

lemma pool_le_trans: "pool_le p q \<Longrightarrow> pool_le q r \<Longrightarrow> pool_le p r"
  unfolding pool_le_def by (auto intro: seats_le_trans)

lemma seats_le_replace:
  assumes "distinct (map slot_no ss)" and "s \<in> set ss"
    and "slot_le s u" and "seat_uid s \<noteq> None \<Longrightarrow> user_le s u"
  shows "seats_le ss (replace_seat ss u)"
proof -
  have slot: "slot_no u = slot_no s" using assms(3) by (simp add: slot_le_def)
  note mem = mem_replace_seat [OF assms(1,2) slot]
  have key: "t = s" if "t \<in> set ss" "slot_no t = slot_no s" for t
    using that assms(1,2) by (simp add: distinct_map inj_on_def)
  show ?thesis
    unfolding seats_le_def
  proof (intro conjI ballI impI)
    fix t
    assume t: "t \<in> set ss"
    show "\<exists>t' \<in> set (replace_seat ss u). slot_le t t'"
    proof (cases "slot_no t = slot_no s")
      case True
      with key t assms(3) mem show ?thesis by blast
    next
      case False
      with mem t slot show ?thesis by (intro bexI [of _ t]) auto
    qed
  next
    fix t
    assume t: "t \<in> set ss" and b: "seat_uid t \<noteq> None"
    show "\<exists>t' \<in> set (replace_seat ss u). user_le t t'"
    proof (cases "slot_no t = slot_no s")
      case True
      with key t b assms(4) mem show ?thesis by blast
    next
      case False
      with mem t slot show ?thesis by (intro bexI [of _ t]) auto
    qed
  qed
qed

lemma seats_le_sweep:
  assumes "\<And>s. s \<in> set ss \<Longrightarrow> c s \<Longrightarrow> slot_le s (f s) \<and> user_le s (f s)"
  shows "seats_le ss (fst (sweep_seats c f ss))"
  unfolding seats_le_def sweep_seats_fst
proof (intro conjI ballI impI)
  fix s
  assume s: "s \<in> set ss"
  then have mem: "(if c s then f s else s) \<in> set (map (\<lambda>s. if c s then f s else s) ss)" by simp
  show "\<exists>s' \<in> set (map (\<lambda>s. if c s then f s else s) ss). slot_le s s'"
    by (rule bexI [OF _ mem]) (use assms s in auto)
  show "\<exists>s' \<in> set (map (\<lambda>s. if c s then f s else s) ss). user_le s s'"
    by (rule bexI [OF _ mem]) (use assms s in auto)
qed

definition mut_le :: "pool \<Rightarrow> mutation \<Rightarrow> bool" where
  "mut_le p m \<longleftrightarrow> (\<forall>ss' v f q. m (seats p) = Inr (ss', v, f) \<and> header q = header p \<longrightarrow>
     seats_le (seats p) ss' \<and> pool_tid (f q) = pool_tid p
     \<and> max_participants p \<le> max_participants (f q) \<and> spare_count p \<le> spare_count (f q))"

lemma mut_leI:
  assumes "\<And>ss' v f. m (seats p) = Inr (ss', v, f) \<Longrightarrow> f = id \<and> seats_le (seats p) ss'"
  shows "mut_le p m"
  using assms unfolding mut_le_def header_def by force

lemma pool_wf_distinct: "pool_wf p \<Longrightarrow> distinct (map slot_no (seats p))"
  by (rule seats_wf_distinct [OF pool_wf_seats])

lemma mark_warming_le: "pool_wf p \<Longrightarrow> mut_le p (mark_warming_mut p n)"
  by (rule mut_leI)
     (auto simp: mark_warming_mut_def Let_def slot_le_def user_le_def less_eq_seat_state_def
        dest: pool_seat_Inr intro!: seats_le_replace pool_wf_distinct split: if_splits)

lemma mark_verified_le: "pool_wf p \<Longrightarrow> mut_le p (mark_verified_mut p n c i d)"
  by (rule mut_leI)
     (auto simp: mark_verified_mut_def slot_le_def user_le_def less_eq_seat_state_def
        dest: pool_seat_Inr intro!: seats_le_replace pool_wf_distinct split: if_splits)

lemma reserve_le: "pool_wf p \<Longrightarrow> mut_le p (reserve_mut p u name now)"
  by (rule mut_leI)
     (auto simp: reserve_mut_def Let_def slot_le_def
        dest: first_available_mem intro!: seats_le_replace pool_wf_distinct
        split: if_splits option.splits)

lemma release_le: "pool_wf p \<Longrightarrow> mut_le p (release_mut p u now)"
  by (rule mut_leI)
     (auto simp: release_mut_def Let_def slot_le_def user_le_def less_eq_seat_state_def
        dest!: find_Some_iff_mem intro!: seats_le_replace pool_wf_distinct
        split: if_splits option.splits)

lemma sweep_mut_le:
  assumes "\<And>ss' v f. m (seats p) = Inr (ss', v, f) \<Longrightarrow>
             f = id \<and> (ss' = seats p \<or> ss' = fst (sweep_seats c g (seats p)))"
    and "\<And>s. c s \<Longrightarrow> slot_le s (g s) \<and> user_le s (g s)"
  shows "mut_le p m"
  using assms seats_le_sweep [of "seats p" c g] by (intro mut_leI) (metis seats_le_refl)

lemma release_due_le: "mut_le p (release_due_mut p now)"
  by (rule sweep_mut_le [where c = "\<lambda>s. st s = Reserved"
        and g = "\<lambda>s. s\<lparr>st := Released, released_at_ms := Some now\<rparr>"])
     (auto simp: release_due_mut_def slot_le_def user_le_def less_eq_seat_state_def split_beta
        Let_def split: if_splits)

lemma freeze_le: "mut_le p (freeze_mut now)"
  by (rule sweep_mut_le [where c = "\<lambda>s. seat_uid s \<noteq> None \<and> st s \<in> {Reserved, Released}"
        and g = "\<lambda>s. s\<lparr>st := Frozen, frozen_at_ms := Some now\<rparr>"])
     (auto simp: freeze_mut_def slot_le_def user_le_def less_eq_seat_state_def split_beta Let_def)

lemma collect_le: "mut_le p (collect_mut now)"
  by (rule sweep_mut_le [where c = "\<lambda>s. st s = Frozen"
        and g = "\<lambda>s. s\<lparr>st := Collected, collected_at_ms := Some now\<rparr>"])
     (auto simp: collect_mut_def slot_le_def user_le_def less_eq_seat_state_def split_beta Let_def)

lemma grow_le: "0 \<le> a \<Longrightarrow> 0 \<le> b \<Longrightarrow> mut_le p (grow_mut p a b extra)"
  by (auto simp: mut_le_def grow_mut_def Let_def header_def seats_le_def
        intro!: slot_le_mem user_le_mem)

lemma reschedule_le: "mut_le p (\<lambda>ss. Inr (ss, v, \<lambda>q. q\<lparr>begin_at_ms := b, release_at_ms := r\<rparr>))"
  by (auto simp: mut_le_def header_def)

lemma replace_failed_le:
  assumes p: "pool_wf p"
  shows "mut_le p (replace_failed_mut p n why now)"
proof (rule mut_leI)
  fix ss' v f
  assume m: "replace_failed_mut p n why now (seats p) = Inr (ss', v, f)"
  note W = pool_wf_seats [OF p] and D = pool_wf_distinct [OF p]
  from m show "f = id \<and> seats_le (seats p) ss'"
  proof (cases rule: replace_failed_cases)
    case noop
    then show ?thesis by simp
  next
    case (reset s)
    have "slot_le s (reset_seat s False why)" using reset by (simp add: slot_le_def reset_seat_def)
    then show ?thesis using reset seats_le_replace [OF D reset(1)] by simp
  next
    case (moved s r tgt)
    let ?u = "reset_seat s True why"
    let ?w = "r\<lparr>role := role s, st := tgt, seat_uid := seat_uid s, seat_uname := seat_uname s,
            reserved_at_ms := Some now,
            released_at_ms := (if tgt = Released then Some now else None)\<rparr>"
    have ws: "seat_wf s" using seats_wf_mem [OF W moved(1)] .
    have key: "t = t'" if "t \<in> set (seats p)" "t' \<in> set (seats p)" "slot_no t = slot_no t'" for t t'
      using that D by (simp add: distinct_map inj_on_def)
    have ne: "slot_no r \<noteq> slot_no s" using key [OF moved(5,1)] moved by auto
    have D1: "distinct (map slot_no (replace_seat (seats p) ?u))"
      using D by simp
    have us: "slot_no ?u = slot_no s" by (simp add: reset_seat_def)
    note mem1 = mem_replace_seat [OF D moved(1) us]
    have r1: "r \<in> set (replace_seat (seats p) ?u)" using mem1 moved(5) ne us by simp
    have mem: "t \<in> set ss' \<longleftrightarrow> t = ?w \<or> ((t = ?u \<or> (t \<in> set (seats p) \<and> slot_no t \<noteq> slot_no s))
                 \<and> slot_no t \<noteq> slot_no r)" for t
      using mem_replace_seat [OF D1 r1, of ?w t] mem1 us unfolding moved(11) by auto
    have tgt: "st s \<le> tgt"
      using moved(3,4,9) ws by (auto simp: seat_wf_def reservation_state_def less_eq_seat_state_def)
    have "\<exists>t' \<in> set ss'. slot_le t t'" if t: "t \<in> set (seats p)" for t
    proof -
      consider "t = s" | "t = r" | "slot_no t \<noteq> slot_no s" "slot_no t \<noteq> slot_no r"
        using key t moved(1,5) by blast
      then show ?thesis
      proof cases
        case 1
        then show ?thesis
          using moved(4) ne us by (intro bexI [of _ ?u]) (auto simp: mem slot_le_def reset_seat_def)
      next
        case 2
        then show ?thesis
          using moved(7) by (intro bexI [of _ ?w]) (auto simp: mem slot_le_def)
      next
        case 3
        with t show ?thesis by (intro bexI [of _ t]) (auto simp: mem)
      qed
    qed
    moreover have "\<exists>t' \<in> set ss'. user_le t t'" if t: "t \<in> set (seats p)" "seat_uid t \<noteq> None" for t
    proof (cases "slot_no t = slot_no s")
      case True
      then have "t = s" using key t moved(1) by blast
      then show ?thesis using tgt by (intro bexI [of _ ?w]) (auto simp: mem user_le_def)
    next
      case False
      have "slot_no t \<noteq> slot_no r" using key [OF t(1) moved(5)] t(2) moved(8) by auto
      with False t show ?thesis by (intro bexI [of _ t]) (auto simp: mem)
    qed
    ultimately show ?thesis using moved(10) by (simp add: seats_le_def)
  qed
qed

lemma op_mut_le: "pool_wf p \<Longrightarrow> op_valid c \<Longrightarrow> mut_le p (op_mut p c)"
  by (cases c)
     (auto intro!: mark_warming_le mark_verified_le reserve_le release_le release_due_le
        replace_failed_le grow_le reschedule_le freeze_le collect_le simp: Let_def)

lemma run_op_cases:
  assumes "run_op H c cid e p = Inr t"
  obtains (unchanged) "tr_state t = p"
  | (fresh) ss' v f rc where "find_receipt cid p = None" "e = revision p" "op_valid c"
      "\<not> op_noop c p" "op_mut p c (seats p) = Inr (ss', v, f)" "command_id rc = cid"
      "fingerprint rc = fingerprint_of H (fst (op_args c)) (snd (op_args c))"
      "tr_value t = rc_value rc" "replayed t = False"
      "tr_state t = f (p\<lparr>revision := revision p + 1, seats := ss', receipts := receipts p @ [rc]\<rparr>)"
proof (cases "op_noop c p")
  case True
  from run_op_noop [OF run_op_valid [OF assms] True, of H cid e] assms unchanged show ?thesis
    by auto
next
  case False
  from assms have "apply_cmd H (fst (op_args c)) (snd (op_args c)) cid e (op_mut p c) p = Inr t"
    using run_op_apply [OF run_op_valid [OF assms] False] by simp
  then show ?thesis
  proof (cases rule: apply_cmd_cases)
    case replay
    then show ?thesis using unchanged by simp
  next
    case (fresh ss' v f rc)
    then show ?thesis using that(2) [of ss' v f rc] False run_op_valid [OF assms] by simp
  qed
qed

lemma run_op_le:
  assumes p: "pool_wf p" and t: "run_op H c cid e p = Inr t"
  shows "pool_le p (tr_state t)"
  using t
proof (cases rule: run_op_cases)
  case unchanged
  then show ?thesis by (simp add: pool_le_refl)
next
  case (fresh ss' v f rc)
  let ?q = "p\<lparr>revision := revision p + 1, seats := ss', receipts := receipts p @ [rc]\<rparr>"
  have h: "header ?q = header p" by (simp add: header_def)
  show ?thesis
    using op_mut_le [OF p fresh(3)] op_mut_ok [OF p fresh(3)] fresh(5,10) h
    unfolding mut_le_def mut_ok_def pool_le_def by fastforce
qed

interpretation pool: progress_machine "pool_step H" pool_wf pool_le for H
proof unfold_locales
  show "pool_le p q" if "pool_wf p" "pool_step H c p = Inr q" for p c q
    using that by (auto simp: pool_step_def dest: run_op_le)
qed (auto intro: pool_le_refl pool_le_trans)

end
