(* ===== verification/SeatPoolThms.thy ===== *)
theory SeatPoolThms
  imports SeatPoolLife
begin

text \<open>The properties of the seat pool, each with a run on a small pool as its witness.\<close>

definition demo_pool :: pool where
  "demo_pool = \<lparr>pool_tid = ''t'', max_participants = 1, spare_count = 1, begin_at_ms = 10,
     release_at_ms = 5, revision = 0, seats = [new_seat 1 Primary, new_seat 2 Spare],
     receipts = []\<rparr>"

definition demo_cmds :: "pool_cmd list" where
  "demo_cmds = [PoolCmd (MarkWarming 1 1) ''a'' 0,
     PoolCmd (MarkVerified 1 ''c1'' ''i'' ''m'' 2) ''b'' 1,
     PoolCmd (Reserve 7 ''amy'' 3) ''c'' 2]"

lemma create_demo: "create ''t'' 1 1 10 5 = Inr demo_pool"
  by (simp add: create_def demo_pool_def validate_int_def py_strip_def py_space_def upto_rec1)

lemma demo_wf: "pool_wf demo_pool"
  by (rule create_wf [OF create_demo])

lemmas demo_eval = history.simps attempt_def pool_step_def run_op.simps mark_warming_def
  mark_verified_def reserve_def apply_cmd_def find_receipt_def mark_warming_mut_def
  mark_verified_mut_def reserve_mut_def pool_seat_def replace_seat_def reservation_state_def
  py_strip_def py_space_def validate_int_def new_seat_def Let_def

definition demo_seat :: seat where
  "demo_seat = (new_seat 1 Primary)\<lparr>st := Reserved, seat_uid := Some 7, seat_uname := ''amy'',
     container_ref := ''c1'', image_digest := ''i'', material_digest := ''m'',
     reserved_at_ms := Some 3\<rparr>"

definition demo_reserved :: pool where
  "demo_reserved = history (pool_step (\<lambda>s. [])) demo_cmds demo_pool"

lemma demo_reserved_wf: "pool_wf demo_reserved"
  unfolding demo_reserved_def by (rule pool.history_inv [OF demo_wf])

lemma demo_reserved_facts:
  "seats demo_reserved = [demo_seat, new_seat 2 Spare]" "revision demo_reserved = 3"
  "release_at_ms demo_reserved = 5"
  by (simp_all add: demo_reserved_def demo_cmds_def demo_pool_def demo_seat_def demo_eval)


section \<open>Properties\<close>

text \<open>C16: A pool made by \<^verbatim>\<open>SeatPoolState.create\<close> keeps its invariant through every history of
  commands, accepted or refused: slots are \<open>1..n\<close> with their keys, no student and no container
  is on two seats, a seat holds a student exactly in the states reserved, released, frozen and
  collected, the primary and spare counts are the pool's capacity, no more students than
  \<^verbatim>\<open>max_participants\<close> are seated, and receipt revisions are \<open>1..revision\<close> without a repeated id.\<close>

theorem pool_history_wf:
  assumes "create tid mx sp bgn lead = Inr p"
  shows "pool_wf (history (pool_step H) cs p)"
  by (rule pool.history_inv [OF create_wf [OF assms]])

theorem pool_history_wf_witness:
  "create ''t'' 1 1 10 5 = Inr demo_pool \<and> pool_wf (history (pool_step (\<lambda>s. [])) demo_cmds demo_pool)
   \<and> map seat_uid (seats (history (pool_step (\<lambda>s. [])) demo_cmds demo_pool)) = [Some 7, None]"
  using create_demo pool_history_wf [OF create_demo, of "\<lambda>s. []" demo_cmds]
    demo_reserved_facts(1) [unfolded demo_reserved_def]
  by (simp add: demo_seat_def new_seat_def)

lemma assignment_unique:
  assumes p: "pool_wf p" and s: "s \<in> set (seats p)" and u: "seat_uid s = Some u"
  shows "assignment p u = Some s"
proof -
  obtain t where t: "assignment p u = Some t"
    using s u by (cases "assignment p u") (auto simp: assignment_def find_None_iff)
  then have "t \<in> set (seats p)" "seat_uid t = Some u"
    by (auto simp: assignment_def dest: find_Some_iff_mem)
  with bound_distinct [OF pool_wf_seats [OF p] s] u t show ?thesis by simp
qed

text \<open>C17: A student who has a seat keeps one: after any history of commands the student has
  exactly one seat, under the same name, in a state not earlier in the life cycle than before
  (a failed seat is replaced, never taken away, and a release or a freeze is never undone).\<close>

theorem student_keeps_seat:
  assumes "pool_wf p" and "s \<in> set (seats p)" and "seat_uid s = Some u"
  shows "\<exists>s'. assignment (history (pool_step H) cs p) u = Some s'
    \<and> seat_uname s' = seat_uname s \<and> st s \<le> st s'
    \<and> (\<forall>t \<in> set (seats (history (pool_step H) cs p)). seat_uid t = Some u \<longrightarrow> t = s')"
proof -
  let ?q = "history (pool_step H) cs p"
  have q: "pool_wf ?q" by (rule pool.history_inv [OF assms(1)])
  have "seats_le (seats p) (seats ?q)"
    using pool.history_le [OF assms(1), of H cs] by (simp add: pool_le_def)
  then obtain s' where s': "s' \<in> set (seats ?q)" "user_le s s'"
    using assms(2,3) by (auto simp: seats_le_def)
  then have u: "seat_uid s' = Some u" using assms(3) by (simp add: user_le_def)
  show ?thesis
  proof (intro exI conjI ballI impI)
    show "assignment ?q u = Some s'" by (rule assignment_unique [OF q s'(1) u])
    show "seat_uname s' = seat_uname s" "st s \<le> st s'" using s'(2) by (auto simp: user_le_def)
    fix t
    assume "t \<in> set (seats ?q)" "seat_uid t = Some u"
    with assignment_unique [OF q] assignment_unique [OF q s'(1) u] show "t = s'" by simp
  qed
qed

theorem student_keeps_seat_witness:
  "demo_seat \<in> set (seats demo_reserved) \<and> (\<exists>s'. assignment (history (pool_step (\<lambda>s. []))
      [PoolCmd (Freeze 8) ''d'' 3] demo_reserved) 7 = Some s' \<and> st s' \<ge> Reserved)"
proof -
  have s: "demo_seat \<in> set (seats demo_reserved)" "seat_uid demo_seat = Some 7"
    by (simp_all add: demo_reserved_facts) (simp add: demo_seat_def)
  show ?thesis
    using s(1) student_keeps_seat [OF demo_reserved_wf s, of "\<lambda>s. []" "[PoolCmd (Freeze 8) ''d'' 3]"]
    by (auto simp: demo_seat_def new_seat_def)
qed

text \<open>Evidence of a frozen or collected seat is final: whatever commands follow, the slot
  keeps its student, its container and the image and material digests, and never leaves
  frozen/collected.\<close>

theorem frozen_seat_final:
  assumes "pool_wf p" and "s \<in> set (seats p)" and "st s = Frozen \<or> st s = Collected"
  shows "\<exists>s' \<in> set (seats (history (pool_step H) cs p)). slot_no s' = slot_no s
    \<and> seat_uid s' = seat_uid s \<and> seat_uname s' = seat_uname s
    \<and> container_ref s' = container_ref s \<and> image_digest s' = image_digest s
    \<and> material_digest s' = material_digest s \<and> st s \<le> st s'"
proof -
  have "seats_le (seats p) (seats (history (pool_step H) cs p))"
    using pool.history_le [OF assms(1), of H cs] by (simp add: pool_le_def)
  then obtain s' where "s' \<in> set (seats (history (pool_step H) cs p))" "slot_le s s'"
    using assms(2) by (auto simp: seats_le_def)
  with assms(3) show ?thesis by (intro bexI [of _ s']) (auto simp: slot_le_def)
qed

definition demo_frozen :: pool where
  "demo_frozen = history (pool_step (\<lambda>s. [])) [PoolCmd (Freeze 8) ''d'' 3] demo_reserved"

lemma demo_frozen_wf: "pool_wf demo_frozen"
  unfolding demo_frozen_def by (rule pool.history_inv [OF demo_reserved_wf])

lemma demo_frozen_seats:
  "seats demo_frozen = [demo_seat\<lparr>st := Frozen, frozen_at_ms := Some 8\<rparr>, new_seat 2 Spare]"
  by (simp add: demo_frozen_def demo_reserved_def demo_cmds_def demo_pool_def demo_seat_def
      demo_eval freeze_def freeze_mut_def)

theorem frozen_seat_final_witness:
  "\<exists>s' \<in> set (seats (history (pool_step (\<lambda>s. [])) [PoolCmd (ReplaceFailed 1 ''x'' 9 True) ''e'' 4]
      demo_frozen)). seat_uid s' = Some 7 \<and> container_ref s' = ''c1''"
proof -
  let ?s = "demo_seat\<lparr>st := Frozen, frozen_at_ms := Some 8\<rparr>"
  have s: "?s \<in> set (seats demo_frozen)" "st ?s = Frozen \<or> st ?s = Collected"
    by (simp_all add: demo_frozen_seats)
  show ?thesis
    using frozen_seat_final [OF demo_frozen_wf s, of "\<lambda>s. []"
        "[PoolCmd (ReplaceFailed 1 ''x'' 9 True) ''e'' 4]"]
    by (auto simp: demo_seat_def)
qed

lemma find_receipt_append:
  "find_receipt cid p = Some r \<Longrightarrow> receipts q = receipts p @ new \<Longrightarrow> find_receipt cid q = Some r"
  by (simp add: find_receipt_def find_Nil_append)

lemma find_receipt_history:
  assumes "pool_wf p" and "find_receipt cid p = Some r"
  shows "find_receipt cid (history (pool_step H) cs p) = Some r"
  using pool.history_le [OF assms(1), of H cs] find_receipt_append [OF assms(2)]
  by (auto simp: pool_le_def)

lemma apply_cmd_nonblank: "apply_cmd H oper args cid e m p = Inr t \<Longrightarrow> py_strip cid \<noteq> []"
  by (auto simp: apply_cmd_def)

lemma run_op_recorded:
  assumes p: "pool_wf p" and t: "run_op H c cid e p = Inr t" and n: "\<not> op_noop c p"
  obtains r where "find_receipt cid (tr_state t) = Some r" "tr_value t = rc_value r"
    "fingerprint r = fingerprint_of H (fst (op_args c)) (snd (op_args c))" "py_strip cid \<noteq> []"
proof -
  have a: "apply_cmd H (fst (op_args c)) (snd (op_args c)) cid e (op_mut p c) p = Inr t"
    using t run_op_apply [OF run_op_valid [OF t] n] by simp
  show ?thesis
    using a
  proof (cases rule: apply_cmd_cases)
    case (replay r)
    with that [of r] apply_cmd_nonblank [OF a] show ?thesis by simp
  next
    case (fresh ss' v f rc)
    have "receipts (tr_state t) = receipts p @ [rc]"
      using op_mut_ok [OF p run_op_valid [OF t]] fresh by (simp add: mut_ok_def header_def)
    then have "find_receipt cid (tr_state t) = Some rc"
      using fresh by (simp add: find_receipt_def find_Nil_append)
    with that [of rc] fresh apply_cmd_nonblank [OF a] show ?thesis by simp
  qed
qed

text \<open>Retrying a command is safe: once a command was accepted under an id, sending the same
  command again with that id, with any expected revision and after any other commands, returns the
  recorded value, flags it as replayed and leaves the pool as it is. (The two commands that answer
  before looking at the receipts when nothing is to change are excluded where they do so.)\<close>

theorem retry_replays_receipt:
  assumes "pool_wf p" and "run_op H c cid e p = Inr t" and "\<not> op_noop c p"
    and "\<not> op_noop c (history (pool_step H) cs (tr_state t))"
  shows "run_op H c cid e' (history (pool_step H) cs (tr_state t))
    = Inr \<lparr>tr_state = history (pool_step H) cs (tr_state t), tr_value = tr_value t, replayed = True\<rparr>"
proof -
  obtain r where r: "find_receipt cid (tr_state t) = Some r" "tr_value t = rc_value r"
    "fingerprint r = fingerprint_of H (fst (op_args c)) (snd (op_args c))" "py_strip cid \<noteq> []"
    by (rule run_op_recorded [OF assms(1-3)])
  have "find_receipt cid (history (pool_step H) cs (tr_state t)) = Some r"
    by (rule find_receipt_history [OF run_op_wf [OF assms(1,2)] r(1)])
  then show ?thesis
    using r by (simp add: run_op_apply [OF run_op_valid [OF assms(2)] assms(4)] apply_cmd_def Let_def)
qed

theorem retry_replays_receipt_witness:
  "\<exists>t. run_op (\<lambda>s. s) (MarkWarming 1 1) ''a'' 0 demo_pool = Inr t \<and>
     run_op (\<lambda>s. s) (MarkWarming 1 1) ''a'' 99 (history (pool_step (\<lambda>s. s))
        [PoolCmd (MarkWarming 2 1) ''b'' 1] (tr_state t))
     = Inr \<lparr>tr_state = history (pool_step (\<lambda>s. s)) [PoolCmd (MarkWarming 2 1) ''b'' 1] (tr_state t),
            tr_value = tr_value t, replayed = True\<rparr>"
proof -
  obtain t where t: "run_op (\<lambda>s. s) (MarkWarming 1 1) ''a'' 0 demo_pool = Inr t"
    by (simp add: demo_pool_def demo_eval)
  show ?thesis
    using t retry_replays_receipt [OF demo_wf t, of "[PoolCmd (MarkWarming 2 1) ''b'' 1]" 99] by auto
qed

text \<open>Concurrent writers: of two commands prepared against the same snapshot, under
  different ids, at most one changes the pool; the second is refused or answered without effect.\<close>

theorem no_lost_update:
  assumes "pool_wf p" and "run_op H c1 id1 e p = Inr t1" and "tr_state t1 \<noteq> p"
    and "run_op H c2 id2 e (tr_state t1) = Inr t2"
  shows "tr_state t2 = tr_state t1 \<and> revision (tr_state t1) = e + 1"
proof -
  have r: "e = revision p \<and> revision (tr_state t1) = revision p + 1"
    using assms(2)
  proof (cases rule: run_op_cases)
    case unchanged
    with assms(3) show ?thesis by simp
  next
    case (fresh ss' v f rc)
    then show ?thesis
      using op_mut_ok [OF assms(1) fresh(3)] by (simp add: mut_ok_def header_def)
  qed
  from assms(4) have "tr_state t2 = tr_state t1"
    by (cases rule: run_op_cases) (use r in auto)
  with r show ?thesis by simp
qed

theorem no_lost_update_witness:
  "\<exists>t1 t2. run_op (\<lambda>s. s) (MarkWarming 1 1) ''a'' 0 demo_pool = Inr t1
     \<and> run_op (\<lambda>s. s) (MarkWarming 1 1) ''a'' 0 (tr_state t1) = Inr t2
     \<and> tr_state t2 = tr_state t1 \<and> revision (tr_state t1) = 1"
proof -
  obtain t1 where t1: "run_op (\<lambda>s. s) (MarkWarming 1 1) ''a'' 0 demo_pool = Inr t1"
    and ne: "tr_state t1 \<noteq> demo_pool"
    by (simp add: demo_pool_def demo_eval)
  obtain t2 where t2: "run_op (\<lambda>s. s) (MarkWarming 1 1) ''a'' 0 (tr_state t1) = Inr t2"
    using t1 by (auto simp: demo_pool_def demo_eval)
  show ?thesis using t1 t2 no_lost_update [OF demo_wf t1 ne t2] by auto
qed

text \<open>A command id cannot be reused for something else: a recorded id with a different
  fingerprint is refused as a conflict, whatever revision the caller expects.\<close>

theorem command_id_reuse_refused:
  assumes "find_receipt cid p = Some r" and "py_strip cid \<noteq> []" and "op_valid c" and "\<not> op_noop c p"
    and "fingerprint r \<noteq> fingerprint_of H (fst (op_args c)) (snd (op_args c))"
  shows "run_op H c cid e p
    = Inl (CommandConflictError ''command_id was reused with different arguments'')"
  using assms by (simp add: run_op_apply apply_cmd_def Let_def)

theorem command_id_reuse_refused_witness:
  "run_op (\<lambda>s. s) (MarkWarming 2 1) ''a'' 1
     (history (pool_step (\<lambda>s. s)) [PoolCmd (MarkWarming 1 1) ''a'' 0] demo_pool)
   = Inl (CommandConflictError ''command_id was reused with different arguments'')"
proof -
  let ?q = "history (pool_step (\<lambda>s. s)) [PoolCmd (MarkWarming 1 1) ''a'' 0] demo_pool"
  obtain r where "find_receipt ''a'' ?q = Some r"
    "fingerprint r = fingerprint_of (\<lambda>s. s) ''mark_warming'' [(''slot_no'', JInt 1), (''now_ms'', JInt 1)]"
    by (simp add: demo_pool_def demo_eval)
  moreover have "fingerprint_of (\<lambda>s. s) ''mark_warming'' [(''slot_no'', JInt 1), (''now_ms'', JInt 1)]
     \<noteq> fingerprint_of (\<lambda>s. s) ''mark_warming'' [(''slot_no'', JInt 2), (''now_ms'', JInt 1)]"
    by code_simp
  ultimately show ?thesis
    by (intro command_id_reuse_refused) (auto simp: py_strip_def py_space_def)
qed

fun op_now :: "pool_op \<Rightarrow> int option" where
  "op_now (MarkWarming n now) = Some now"
| "op_now (MarkVerified n c i m now) = Some now"
| "op_now (Reserve u name now) = Some now"
| "op_now (Release u now) = Some now"
| "op_now (ReleaseDue now) = Some now"
| "op_now (ReplaceFailed n why now ok) = Some now"
| "op_now (Freeze now) = Some now"
| "op_now (Collect now) = Some now"
| "op_now _ = None"

definition newly_released :: "seat list \<Rightarrow> seat \<Rightarrow> bool" where
  "newly_released ss s' \<longleftrightarrow> st s' = Released
     \<and> (\<forall>s \<in> set ss. seat_uid s = seat_uid s' \<longrightarrow> st s \<noteq> Released)"

lemma newly_released_not_mem: "newly_released ss s' \<Longrightarrow> s' \<notin> set ss"
  by (auto simp: newly_released_def)

lemma in_replace_seat: "t \<in> set (replace_seat ss u) \<Longrightarrow> t = u \<or> t \<in> set ss"
  by (auto simp: replace_seat_def)

lemma in_sweep: "t \<in> set (fst (sweep_seats c f ss)) \<Longrightarrow> t \<in> set ss \<or> (\<exists>s \<in> set ss. c s \<and> t = f s)"
  by (auto simp: sweep_seats_fst)

lemma added_planned: "t \<in> set (added_seats k a b) \<Longrightarrow> st t = Planned"
  by (auto simp: added_seats_def new_seat_def)

lemma mut_release_time:
  assumes p: "pool_wf p" and m: "op_mut p c (seats p) = Inr (ss', v, f)"
    and s': "s' \<in> set ss'" and r: "newly_released (seats p) s'"
  shows "\<exists>now. op_now c = Some now \<and> release_at_ms p \<le> now \<and> released_at_ms s' = Some now"
proof (cases c)
  case (MarkWarming n now)
  then show ?thesis
    using m s' newly_released_not_mem [OF r] r
    by (auto simp: mark_warming_mut_def newly_released_def Let_def dest!: in_replace_seat pool_seat_Inr
        split: if_splits)
next
  case (MarkVerified n x i d now)
  then show ?thesis
    using m s' newly_released_not_mem [OF r] r
    by (auto simp: mark_verified_mut_def newly_released_def dest!: in_replace_seat pool_seat_Inr
        split: if_splits)
next
  case (Reserve u name now)
  then show ?thesis
    using m s' newly_released_not_mem [OF r] r
    by (auto simp: reserve_mut_def newly_released_def reservation_state_def Let_def
        dest!: in_replace_seat split: if_splits option.splits)
next
  case (Release u now)
  then show ?thesis
    using m s' newly_released_not_mem [OF r]
    by (auto simp: release_mut_def Let_def dest!: in_replace_seat split: if_splits option.splits)
next
  case (ReleaseDue now)
  then show ?thesis
    using m s' newly_released_not_mem [OF r]
    by (auto simp: release_due_mut_def split_beta Let_def dest!: in_sweep split: if_splits)
next
  case (ReplaceFailed n why now ok)
  with m have "replace_failed_mut p n (py_strip why) now (seats p) = Inr (ss', v, f)" by simp
  then show ?thesis
  proof (cases rule: replace_failed_cases)
    case noop
    then show ?thesis using s' newly_released_not_mem [OF r] by simp
  next
    case (reset s)
    then show ?thesis using s' r newly_released_not_mem [OF r]
      by (auto simp: reset_seat_def newly_released_def dest!: in_replace_seat)
  next
    case (moved s x tgt)
    from s' moved(11) newly_released_not_mem [OF r] r
    have eq: "s' = x\<lparr>role := role s, st := tgt, seat_uid := seat_uid s, seat_uname := seat_uname s,
            reserved_at_ms := Some now,
            released_at_ms := (if tgt = Released then Some now else None)\<rparr>"
      by (auto simp: reset_seat_def newly_released_def dest!: in_replace_seat)
    have "st s \<noteq> Released" using r moved(1) unfolding eq newly_released_def by auto
    then show ?thesis
      using ReplaceFailed moved(9) r unfolding eq newly_released_def
      by (auto simp: reservation_state_def split: if_splits)
  qed
next
  case (Freeze now)
  then show ?thesis
    using m s' newly_released_not_mem [OF r] r
    by (auto simp: freeze_mut_def newly_released_def split_beta Let_def dest!: in_sweep)
next
  case (Collect now)
  then show ?thesis
    using m s' newly_released_not_mem [OF r] r
    by (auto simp: collect_mut_def newly_released_def split_beta Let_def dest!: in_sweep)
qed (use m s' newly_released_not_mem [OF r] r in
      \<open>auto simp: grow_mut_def newly_released_def Let_def dest!: added_planned\<close>)

text \<open>C20: No desktop is released early: whenever a command makes a student's seat released who
  had no released seat before, the command carries a time at or after the pool's release time,
  and that time is the recorded \<^verbatim>\<open>released_at_ms\<close>.\<close>

theorem never_released_early:
  assumes "pool_wf p" and "run_op H c cid e p = Inr t"
    and "s' \<in> set (seats (tr_state t))" and "newly_released (seats p) s'"
  shows "\<exists>now. op_now c = Some now \<and> release_at_ms p \<le> now \<and> released_at_ms s' = Some now"
  using assms(2)
proof (cases rule: run_op_cases)
  case unchanged
  with assms(3) newly_released_not_mem [OF assms(4)] show ?thesis by simp
next
  case (fresh ss' v f rc)
  then have "seats (tr_state t) = ss'"
    using op_mut_ok [OF assms(1) fresh(3)] by (simp add: mut_ok_def header_def)
  then show ?thesis using mut_release_time [OF assms(1) fresh(5) _ assms(4)] assms(3) by simp
qed

theorem never_released_early_witness:
  "\<exists>t s' now. run_op (\<lambda>s. []) (Release 7 6) ''r'' 3 demo_reserved = Inr t
     \<and> s' \<in> set (seats (tr_state t)) \<and> newly_released (seats demo_reserved) s'
     \<and> op_now (Release 7 6) = Some now \<and> release_at_ms demo_reserved \<le> now
     \<and> released_at_ms s' = Some now"
proof -
  obtain t where t: "run_op (\<lambda>s. []) (Release 7 6) ''r'' 3 demo_reserved = Inr t"
    and ts: "seats (tr_state t) = [demo_seat\<lparr>st := Released, released_at_ms := Some 6\<rparr>, new_seat 2 Spare]"
    by (simp add: demo_reserved_def demo_cmds_def demo_pool_def demo_seat_def demo_eval
        release_def release_mut_def)
  let ?s = "demo_seat\<lparr>st := Released, released_at_ms := Some 6\<rparr>"
  have s: "?s \<in> set (seats (tr_state t))" "newly_released (seats demo_reserved) ?s"
    by (simp_all add: ts newly_released_def demo_reserved_facts demo_seat_def new_seat_def)
  show ?thesis using t s never_released_early [OF demo_reserved_wf t s] by blast
qed

lemma run_op_seats:
  assumes "pool_wf p" and "run_op H c cid e p = Inr t" and "\<not> replayed t" and "\<not> op_noop c p"
  obtains ss' v f where "op_mut p c (seats p) = Inr (ss', v, f)" "seats (tr_state t) = ss'"
proof -
  have "apply_cmd H (fst (op_args c)) (snd (op_args c)) cid e (op_mut p c) p = Inr t"
    using assms run_op_apply [OF run_op_valid [OF assms(2)] assms(4)] by simp
  then show ?thesis
  proof (cases rule: apply_cmd_cases)
    case (fresh ss' v f rc)
    then have "seats (tr_state t) = ss'"
      using op_mut_ok [OF assms(1) run_op_valid [OF assms(2)]] by (simp add: mut_ok_def header_def)
    with that fresh show ?thesis by blast
  qed (use assms(3) in auto)
qed

text \<open>Freezing and then collecting leaves nobody behind: after both commands every seat that
  holds a student is collected, no unbound seat is, and the students sit where they sat.\<close>

theorem freeze_then_collect:
  assumes p: "pool_wf p"
    and f: "run_op H (Freeze n1) id1 e1 p = Inr t1" "\<not> replayed t1"
    and c: "run_op H (Collect n2) id2 e2 (tr_state t1) = Inr t2" "\<not> replayed t2"
  shows "map seat_uid (seats (tr_state t2)) = map seat_uid (seats p)
    \<and> (\<forall>s \<in> set (seats (tr_state t2)). seat_uid s \<noteq> None \<longleftrightarrow> st s = Collected)"
proof -
  have q: "pool_wf (tr_state t1)" by (rule run_op_wf [OF p f(1)])
  have r: "pool_wf (tr_state t2)" by (rule run_op_wf [OF q c(1)])
  let ?f = "\<lambda>s. if seat_uid s \<noteq> None \<and> st s \<in> {Reserved, Released}
              then s\<lparr>st := Frozen, frozen_at_ms := Some n1\<rparr> else s"
  let ?g = "\<lambda>s. if st s = Frozen then s\<lparr>st := Collected, collected_at_ms := Some n2\<rparr> else s"
  have "seats (tr_state t1) = map ?f (seats p)"
    by (rule run_op_seats [OF p f]) (auto simp: freeze_mut_def split_beta Let_def sweep_seats_fst)
  moreover have "seats (tr_state t2) = map ?g (seats (tr_state t1))"
    by (rule run_op_seats [OF q c]) (auto simp: collect_mut_def split_beta Let_def sweep_seats_fst)
  ultimately have t2: "seats (tr_state t2) = map (?g \<circ> ?f) (seats p)" by simp
  have wf: "seat_wf s" if "s \<in> set (seats (tr_state t2))" for s
    using seats_wf_mem [OF pool_wf_seats [OF r] that] .
  have "st ((?g \<circ> ?f) s) \<notin> {Reserved, Released, Frozen}" if "s \<in> set (seats p)" for s
    using seats_wf_mem [OF pool_wf_seats [OF p] that] by (auto simp: seat_wf_def)
  then have "st s \<notin> {Reserved, Released, Frozen}" if "s \<in> set (seats (tr_state t2))" for s
    using that unfolding t2 by (metis (no_types, lifting) imageE set_map)
  with wf have "\<forall>s \<in> set (seats (tr_state t2)). seat_uid s \<noteq> None \<longleftrightarrow> st s = Collected"
    unfolding seat_wf_def by blast
  moreover have "map seat_uid (seats (tr_state t2)) = map seat_uid (seats p)"
    unfolding t2 by simp
  ultimately show ?thesis by blast
qed

theorem freeze_then_collect_witness:
  "\<exists>t1 t2. run_op (\<lambda>s. []) (Freeze 8) ''d'' 3 demo_reserved = Inr t1
     \<and> run_op (\<lambda>s. []) (Collect 9) ''e'' 4 (tr_state t1) = Inr t2
     \<and> map seat_uid (seats (tr_state t2)) = [Some 7, None]
     \<and> (\<forall>s \<in> set (seats (tr_state t2)). seat_uid s \<noteq> None \<longleftrightarrow> st s = Collected)"
proof -
  have "\<exists>t1 t2. run_op (\<lambda>s. []) (Freeze 8) ''d'' 3 demo_reserved = Inr t1 \<and> \<not> replayed t1
     \<and> run_op (\<lambda>s. []) (Collect 9) ''e'' 4 (tr_state t1) = Inr t2 \<and> \<not> replayed t2"
    by (simp add: demo_reserved_def demo_cmds_def demo_pool_def demo_eval freeze_def freeze_mut_def
        collect_def collect_mut_def)
  then obtain t1 t2
    where f: "run_op (\<lambda>s. []) (Freeze 8) ''d'' 3 demo_reserved = Inr t1" "\<not> replayed t1"
      and c: "run_op (\<lambda>s. []) (Collect 9) ''e'' 4 (tr_state t1) = Inr t2" "\<not> replayed t2" by blast
  show ?thesis
    using f(1) c(1) freeze_then_collect [OF demo_reserved_wf f c]
    by (auto simp: demo_reserved_facts demo_seat_def new_seat_def)
qed

text \<open>Replacing a failed occupied seat: the student moves to a verified spare that takes the
  failed seat's role and keeps a released seat released; the failed slot becomes an empty planned
  seat with its failure counted and its role given to the spares; every other slot is untouched.\<close>

theorem replace_failed_moves_student:
  assumes p: "pool_wf p" and t: "run_op H (ReplaceFailed n why now ok) cid e p = Inr t" "\<not> replayed t"
    and s: "pool_seat p n = Inr s" and u: "seat_uid s = Some u"
  shows "\<exists>r \<in> set (seats p). role r = Spare \<and> st r = Verified \<and> seat_uid r = None
    \<and> (\<exists>s'. assignment (tr_state t) u = Some s' \<and> slot_no s' = slot_no r \<and> role s' = role s
          \<and> seat_uname s' = seat_uname s \<and> container_ref s' = container_ref r
          \<and> (st s = Released \<longrightarrow> st s' = Released))
    \<and> pool_seat (tr_state t) n = Inr (reset_seat s True (py_strip why))
    \<and> (\<forall>m. m \<noteq> n \<and> m \<noteq> slot_no r \<longrightarrow> pool_seat (tr_state t) m = pool_seat p m)"
proof -
  have q: "pool_wf (tr_state t)" by (rule run_op_wf [OF p t(1)])
  note S = pool_seat_Inr [OF s] and D = pool_wf_distinct [OF p]
  obtain v f where m: "replace_failed_mut p n (py_strip why) now (seats p) = Inr (seats (tr_state t), v, f)"
    by (rule run_op_seats [OF p t]) auto
  have key: "x = y" if "x \<in> set (seats p)" "y \<in> set (seats p)" "slot_no x = slot_no y" for x y
    using that D by (simp add: distinct_map inj_on_def)
  from m show ?thesis
  proof (cases rule: replace_failed_cases)
    case (noop x)
    with key S u show ?thesis by fastforce
  next
    case (reset x)
    with key S u show ?thesis by fastforce
  next
    case (moved x r tgt)
    then have x: "x = s" using key S by blast
    let ?u = "reset_seat s True (py_strip why)"
    let ?w = "r\<lparr>role := role s, st := tgt, seat_uid := seat_uid s, seat_uname := seat_uname s,
            reserved_at_ms := Some now,
            released_at_ms := (if tgt = Released then Some now else None)\<rparr>"
    have seats: "seats (tr_state t) = replace_seat (replace_seat (seats p) ?u) ?w"
      using moved(11) unfolding x .
    have ne: "slot_no r \<noteq> n" using key [OF moved(5) S[THEN conjunct1]] moved(8) u S by auto
    have us: "slot_no ?u = n" using S by (simp add: reset_seat_def)
    have inS: "n \<in> slot_no ` set (seats p)" using S by auto
    have fu: "find (\<lambda>y. slot_no y = k) (replace_seat zs y)
        = (if k = slot_no y then (if k \<in> slot_no ` set zs then Some y else None)
           else find (\<lambda>y. slot_no y = k) zs)" for k zs y
      by (induction zs) (auto simp: replace_seat_def)
    have "?w \<in> set (seats (tr_state t))"
      unfolding seats replace_seat_def using moved(5) ne us by (auto simp: image_iff)
    then have a: "assignment (tr_state t) u = Some ?w"
      using assignment_unique [OF q _ , of ?w u] u by simp
    have slots: "slot_no ` set (replace_seat zs y) = slot_no ` set zs" for zs y
      by (metis map_slot_replace set_map)
    show ?thesis
    proof (intro bexI [of _ r] conjI allI impI)
      show "\<exists>s'. assignment (tr_state t) u = Some s' \<and> slot_no s' = slot_no r \<and> role s' = role s
          \<and> seat_uname s' = seat_uname s \<and> container_ref s' = container_ref r
          \<and> (st s = Released \<longrightarrow> st s' = Released)"
        using a moved(9) x by simp
      show "pool_seat (tr_state t) n = Inr ?u"
        using ne inS unfolding pool_seat_def seats by (simp add: fu us)
      fix k assume "k \<noteq> n \<and> k \<noteq> slot_no r"
      then show "pool_seat (tr_state t) k = pool_seat p k"
        using us unfolding pool_seat_def seats by (auto simp: fu)
    qed (use moved in auto)
  qed
qed

lemma first_available_least:
  "first_available ss = Some s \<Longrightarrow> t \<in> set ss \<Longrightarrow> reserve_before s t"
proof (induction ss arbitrary: s t)
  case Nil
  then show ?case by simp
next
  case (Cons a ss)
  have tr: "reserve_before a c" if "reserve_before a b" "reserve_before b c" for a b c
    using that by (auto simp: reserve_before_def)
  have tot: "reserve_before b a" if "\<not> reserve_before a b" for a b
    using that by (cases "role a"; cases "role b") (auto simp: reserve_before_def)
  show ?case
  proof (cases "first_available ss")
    case None
    then have "ss = []" by (cases ss) (auto split: option.splits if_splits)
    with Cons.prems show ?thesis by (auto simp: reserve_before_def)
  next
    case (Some b)
    show ?thesis
    proof (cases "reserve_before a b")
      case True
      then have "s = a" using Cons.prems Some by simp
      then show ?thesis
        using Cons.prems(2) Cons.IH [OF Some] tr [OF True] by (auto simp: reserve_before_def)
    next
      case False
      then have "s = b" using Cons.prems Some by simp
      then show ?thesis using Cons.prems(2) Cons.IH [OF Some] tot [OF False] by auto
    qed
  qed
qed

text \<open>A reservation takes the right seat: a newly seated student gets a verified empty seat,
  primary before spare and the lowest slot first, released exactly when the release time has
  come; the pool was not full, and every other slot is untouched.\<close>

theorem reserve_takes_first_seat:
  assumes p: "pool_wf p" and t: "run_op H (Reserve u name now) cid e p = Inr t" "\<not> replayed t"
    and new: "assignment p u = None"
  shows "\<exists>s \<in> set (seats p). st s = Verified \<and> seat_uid s = None
    \<and> (\<forall>x \<in> set (seats p). st x = Verified \<and> seat_uid x = None \<longrightarrow> reserve_before s x)
    \<and> bound_count (seats p) < max_participants p
    \<and> (\<exists>s'. assignment (tr_state t) u = Some s' \<and> slot_no s' = slot_no s
          \<and> seat_uname s' = py_strip name
          \<and> st s' = (if release_at_ms p \<le> now then Released else Reserved)
          \<and> seats (tr_state t) = replace_seat (seats p) s')"
proof -
  have q: "pool_wf (tr_state t)" by (rule run_op_wf [OF p t(1)])
  obtain v f where m: "reserve_mut p u (py_strip name) now (seats p) = Inr (seats (tr_state t), v, f)"
    by (rule run_op_seats [OF p t]) auto
  let ?av = "filter (\<lambda>s. st s = Verified \<and> seat_uid s = None) (seats p)"
  let ?tgt = "reservation_state now (release_at_ms p)"
  from m new obtain s where s: "first_available ?av = Some s"
    and cap: "bound_count (seats p) < max_participants p"
    and out: "seats (tr_state t) = replace_seat (seats p) (s\<lparr>st := ?tgt, seat_uid := Some u,
                 seat_uname := py_strip name, reserved_at_ms := Some now,
                 released_at_ms := (if ?tgt = Released then Some now else None)\<rparr>)"
    by (auto simp: reserve_mut_def assignment_def Let_def bound_count_def split: if_splits option.splits)
  let ?w = "s\<lparr>st := ?tgt, seat_uid := Some u, seat_uname := py_strip name, reserved_at_ms := Some now,
                 released_at_ms := (if ?tgt = Released then Some now else None)\<rparr>"
  from first_available_mem [OF s] have mem: "s \<in> set (seats p)" "st s = Verified" "seat_uid s = None"
    by auto
  have "?w \<in> set (seats (tr_state t))"
    unfolding out replace_seat_def using mem(1) by (auto simp: image_iff)
  then have a: "assignment (tr_state t) u = Some ?w" using assignment_unique [OF q] by simp
  have least: "reserve_before s x" if "x \<in> set (seats p)" "st x = Verified" "seat_uid x = None" for x
    using first_available_least [OF s] that by simp
  show ?thesis
    using mem cap a out least
    by (intro bexI [of _ s]) (auto simp: reservation_state_def)
qed

theorem reserve_takes_first_seat_witness:
  "\<exists>t. run_op (\<lambda>s. []) (Reserve 7 ''amy'' 3) ''c'' 2
        (history (pool_step (\<lambda>s. [])) (take 2 demo_cmds) demo_pool) = Inr t
     \<and> (\<exists>s'. assignment (tr_state t) 7 = Some s' \<and> slot_no s' = 1 \<and> st s' = Reserved)"
proof -
  let ?p = "history (pool_step (\<lambda>s. [])) (take 2 demo_cmds) demo_pool"
  have p: "pool_wf ?p" by (rule pool.history_inv [OF demo_wf])
  have new: "assignment ?p 7 = None" and rel: "release_at_ms ?p = 5"
    and st: "seats ?p = [(new_seat 1 Primary)\<lparr>st := Verified, container_ref := ''c1'',
                image_digest := ''i'', material_digest := ''m''\<rparr>, new_seat 2 Spare]"
    by (simp_all add: assignment_def demo_cmds_def demo_pool_def demo_eval)
  have "\<exists>t. run_op (\<lambda>s. []) (Reserve 7 ''amy'' 3) ''c'' 2 ?p = Inr t \<and> \<not> replayed t"
    by (simp add: demo_cmds_def demo_pool_def demo_eval)
  then obtain t where t: "run_op (\<lambda>s. []) (Reserve 7 ''amy'' 3) ''c'' 2 ?p = Inr t" "\<not> replayed t"
    by blast
  show ?thesis
    using t(1) reserve_takes_first_seat [OF p t new] unfolding st rel
    by (auto simp: new_seat_def)
qed

definition demo_spare :: pool where
  "demo_spare = history (pool_step (\<lambda>s. []))
     [PoolCmd (MarkWarming 2 3) ''x'' 3, PoolCmd (MarkVerified 2 ''c2'' ''i'' ''m'' 3) ''y'' 4]
     demo_reserved"

lemma demo_spare_wf: "pool_wf demo_spare"
  unfolding demo_spare_def by (rule pool.history_inv [OF demo_reserved_wf])

theorem replace_failed_moves_student_witness:
  "\<exists>t. run_op (\<lambda>s. []) (ReplaceFailed 1 ''disk'' 6 True) ''z'' 5 demo_spare = Inr t
     \<and> (\<exists>s'. assignment (tr_state t) 7 = Some s' \<and> seat_uname s' = ''amy'')
     \<and> pool_seat (tr_state t) 1 = Inr (reset_seat demo_seat True ''disk'')"
proof -
  have d: "py_strip ''disk'' = ''disk''" by (simp add: py_strip_def py_space_def)
  have s: "pool_seat demo_spare 1 = Inr demo_seat" and u: "seat_uid demo_seat = Some 7"
    by (simp_all add: demo_spare_def demo_reserved_def demo_cmds_def demo_pool_def demo_seat_def demo_eval)
  have "\<exists>t. run_op (\<lambda>s. []) (ReplaceFailed 1 ''disk'' 6 True) ''z'' 5 demo_spare = Inr t \<and> \<not> replayed t"
    by (simp add: demo_spare_def demo_reserved_def demo_cmds_def demo_pool_def demo_eval
        replace_failed_def replace_failed_mut_def reset_seat_def)
  then obtain t where t: "run_op (\<lambda>s. []) (ReplaceFailed 1 ''disk'' 6 True) ''z'' 5 demo_spare = Inr t"
    "\<not> replayed t" by blast
  show ?thesis
    using t(1) replace_failed_moves_student [OF demo_spare_wf t s u] unfolding d
    by (auto simp: demo_seat_def)
qed

text \<open>The automatic capacity: for a non-negative roster, minimum and percentage the formal
  seats are the participants and the spares are the larger of the minimum and the least whole
  number that is at least the given percentage of the participants (the percentage rounded up).\<close>

theorem desired_capacity_rounds_up:
  assumes "desired_capacity n mn pc = Inr (main, spares)"
  shows "main = n \<and> mn \<le> spares \<and> n * pc \<le> 100 * spares
    \<and> (\<forall>k. mn \<le> k \<and> n * pc \<le> 100 * k \<longrightarrow> spares \<le> k)"
proof -
  have s: "main = n" "spares = max mn ((n * pc + 99) div 100)" using assms by simp_all
  have "n * pc \<le> 100 * ((n * pc + 99) div 100)" by linarith
  moreover have "(n * pc + 99) div 100 \<le> k" if "n * pc \<le> 100 * k" for k
    using that by linarith
  ultimately show ?thesis using s by (auto simp: max_def)
qed

theorem desired_capacity_rounds_up_witness:
  "desired_capacity 21 2 10 = Inr (21, 3) \<and> (21::int) * 10 \<le> 100 * 3"
proof -
  have d: "desired_capacity 21 2 10 = Inr (21, 3)" by simp
  show ?thesis using d desired_capacity_rounds_up [OF d] by simp
qed

text \<open>Growing toward the roster never shrinks or moves anything: an accepted reconciliation
  sets both capacities to the larger of the old value and the target and only appends seats; the
  same command sent again is answered without change, as a fresh no-op rather than from its
  receipt.\<close>

theorem reconcile_reaches_target:
  assumes p: "pool_wf p" and t: "run_op H (ReconcileRoster n mn pc) cid e p = Inr t" "\<not> replayed t"
  shows "max_participants (tr_state t) = max (max_participants p) n
    \<and> spare_count (tr_state t) = max (spare_count p) (max mn ((n * pc + 99) div 100))
    \<and> (\<exists>new. seats (tr_state t) = seats p @ new)
    \<and> (\<exists>v. run_op H (ReconcileRoster n mn pc) cid e (tr_state t)
             = Inr \<lparr>tr_state = tr_state t, tr_value = v, replayed = False\<rparr>
           \<and> map_of v ''added'' = Some (JArr []))"
proof -
  let ?c = "ReconcileRoster n mn pc" and ?sp = "max mn ((n * pc + 99) div 100)"
  have v: "op_valid ?c" by (rule run_op_valid [OF t(1)])
  have shape: "max_participants (tr_state t) = max (max_participants p) n
    \<and> spare_count (tr_state t) = max (spare_count p) ?sp \<and> (\<exists>new. seats (tr_state t) = seats p @ new)"
  proof (cases "op_noop ?c p")
    case True
    from run_op_noop [OF v True, of H cid e] t(1) have "tr_state t = p" by auto
    with True show ?thesis by auto
  next
    case False
    have "apply_cmd H (fst (op_args ?c)) (snd (op_args ?c)) cid e (op_mut p ?c) p = Inr t"
      using t run_op_apply [OF v False] by simp
    then show ?thesis
    proof (cases rule: apply_cmd_cases)
      case (fresh ss' w f rc)
      then show ?thesis by (auto simp: grow_mut_def Let_def)
    qed (use t(2) in auto)
  qed
  have again: "run_op H ?c cid e (tr_state t) = Inr \<lparr>tr_state = tr_state t,
      tr_value = [(''revision'', JInt (revision (tr_state t))), (''added'', JArr []),
        (''target_main'', JInt n), (''target_spares'', JInt ?sp)], replayed = False\<rparr>"
    using v shape by (simp add: reconcile_roster_capacity_def desired_capacity_def validate_int_def Let_def)
  show ?thesis using shape again by auto
qed

theorem reconcile_reaches_target_witness:
  "\<exists>t. run_op (\<lambda>s. []) (ReconcileRoster 2 1 10) ''r'' 0 demo_pool = Inr t
     \<and> max_participants (tr_state t) = 2 \<and> (\<exists>new. seats (tr_state t) = seats demo_pool @ new)
     \<and> replayed t = False"
proof -
  have "\<exists>t. run_op (\<lambda>s. []) (ReconcileRoster 2 1 10) ''r'' 0 demo_pool = Inr t \<and> \<not> replayed t"
    by (simp add: demo_pool_def demo_eval reconcile_roster_capacity_def desired_capacity_def grow_mut_def)
  then obtain t where t: "run_op (\<lambda>s. []) (ReconcileRoster 2 1 10) ''r'' 0 demo_pool = Inr t"
    "\<not> replayed t" by blast
  show ?thesis
    using t reconcile_reaches_target [OF demo_wf t] by (auto simp: demo_pool_def)
qed

text \<open>C40: Loading what was stored gives the pool back: \<^verbatim>\<open>from_dict\<close> inverts \<^verbatim>\<open>to_dict\<close>, seats,
  receipts and their recorded values included.\<close>

theorem pool_dict_roundtrip:
  "\<exists>d. to_dict p = JObj d \<and> from_dict d = Inr p"
  by (simp add: to_dict_def from_dict_def need_def opt_field_def mapE_seats mapE_receipts)

end
