(* ===== verification/MaterialStore.thy ===== *)
theory MaterialStore
  imports ContestStore
begin

text \<open>
  The contest materials of \<^verbatim>\<open>orchestrator/services/store.py\<close>: immutable revisions, the receipt of
  their publication on the OJ, the approval that promotes one revision, and the generation jobs.
  \<open>H\<close> is SHA-256 on bytes (hexdigest), \<open>dt\<close> the local clock text of SQLite. The two attachment names and
  the job messages written in Chinese are English glosses.
\<close>

section \<open>Rows\<close>

definition get_artifact :: "string \<Rightarrow> string \<Rightarrow> db \<Rightarrow> artifact option" where
  "get_artifact tid rev' d = find (\<lambda>v. v_tid v = tid \<and> v_revision v = rev') (artifact_revisions d)"

definition get_publication :: "string \<Rightarrow> string \<Rightarrow> db \<Rightarrow> publication option" where
  "get_publication tid rev' d = find (\<lambda>m. m_tid m = tid \<and> m_revision m = rev') (material_publications d)"

definition get_job :: "string \<Rightarrow> db \<Rightarrow> job option" where
  "get_job job_id d = find (\<lambda>j. j_job_id j = job_id) (artifact_jobs d)"

definition active_job :: "job \<Rightarrow> bool" where
  "active_job j \<longleftrightarrow> j_state j \<in> {JQueued, JRunning}"

text \<open>The \<open>SET\<close> clauses on the two tables.\<close>

definition update_job :: "(job \<Rightarrow> bool) \<Rightarrow> (job \<Rightarrow> job) \<Rightarrow> db \<Rightarrow> db" where
  "update_job p f d = d\<lparr>artifact_jobs := sql_update p f (artifact_jobs d)\<rparr>"

definition update_artifact :: "(artifact \<Rightarrow> bool) \<Rightarrow> (artifact \<Rightarrow> artifact) \<Rightarrow> db \<Rightarrow> db" where
  "update_artifact p f d = d\<lparr>artifact_revisions := sql_update p f (artifact_revisions d)\<rparr>"

section \<open>Job details\<close>

text \<open>\<open>s[:n]\<close> for a bound \<open>n\<close> that is not negative.\<close>

fun py_prefix :: "int \<Rightarrow> string \<Rightarrow> string" where
  "py_prefix n [] = []"
| "py_prefix n (c # s) = (if n \<le> 0 then [] else c # py_prefix (n - 1) s)"

definition encode_artifact_job_details :: "json \<Rightarrow> json res" where
  "encode_artifact_job_details details =
     (case (if details = JNull then JObj [] else details) of
        JObj e \<Rightarrow> if int (length (utf8 (dumps (JObj e)))) > 32 * 1024 * 1024
                  then Inl (ValueError ''artifact job details exceed 32 MiB'')
                  else Inr (jsort (JObj e))
      | _ \<Rightarrow> Inl (ValueError ''artifact job details must be an object''))"

definition decode_artifact_job :: "job \<Rightarrow> (job \<times> jdict) res" where
  "decode_artifact_job j = (case j_details_json j of
     None \<Rightarrow> Inl (RuntimeError ''artifact job details are corrupted'')
   | Some (JObj e) \<Rightarrow> Inr (j, e)
   | Some _ \<Rightarrow> Inl (RuntimeError ''artifact job details must be an object''))"

section \<open>Revisions\<close>

text \<open>
  A call passes the columns of the row; the three JSON arguments as they come (\<open>None\<close> is \<open>JNull\<close>).
  \<open>immutable\<close> keeps the columns that a retry must repeat.
\<close>

definition new_artifact :: "string \<Rightarrow> artifact \<Rightarrow> artifact" where
  "new_artifact dt v = v\<lparr>v_manifest_json := jsort (json_or (v_manifest_json v) (JObj [])),
     v_file_io_plan_json := jsort (json_or (v_file_io_plan_json v) (JArr [])),
     v_warnings_json := json_or (v_warnings_json v) (JArr []),
     v_approved_by := [], v_approved_at := [], v_created_at := dt, v_updated_at := dt\<rparr>"

definition immutable :: "artifact \<Rightarrow> artifact" where
  "immutable v = v\<lparr>v_state := [], v_approved_by := [], v_approved_at := [], v_created_at := [],
     v_updated_at := []\<rparr>"

definition completable :: "string \<Rightarrow> artifact \<Rightarrow> db \<Rightarrow> bool" where
  "completable job_id v d \<longleftrightarrow>
     (case find (\<lambda>j. j_job_id j = job_id \<and> j_tid j = v_tid v) (artifact_jobs d) of
        None \<Rightarrow> False
      | Some j \<Rightarrow> active_job j \<and> j_revision j = v_revision v)"

definition complete_job :: "string \<Rightarrow> json \<Rightarrow> job \<Rightarrow> job" where
  "complete_job dt payload j = j\<lparr>j_state := JDone, j_progress := 100,
     j_message := ''materials generated, waiting for the teacher's review'', j_error := [],
     j_details_json := Some payload, j_updated_at := dt\<rparr>"

definition put_artifact_revision :: "string \<Rightarrow> artifact \<Rightarrow> string \<Rightarrow> json \<Rightarrow> db \<Rightarrow> db res" where
  "put_artifact_revision dt v job_id details d =
     bindE (if job_id = [] then Inr JNull else encode_artifact_job_details details) (\<lambda>payload.
     if get_contest (v_tid v) d = None then Inl (KeyError ''contest'')
     else if job_id \<noteq> [] \<and> \<not> completable job_id v d
     then Inl (SubmissionConflictError ''the job has ended or its revision does not match'')
     else if job_id \<noteq> [] \<and> get_artifact (v_tid v) (v_revision v) d \<noteq> None
     then Inl (SubmissionConflictError ''the review revision exists already'')
     else (case get_artifact (v_tid v) (v_revision v) d of
         Some old \<Rightarrow> if immutable old = immutable (new_artifact dt v) then Inr d
           else Inl (SubmissionConflictError ''a revision cannot be overwritten'')
       | None \<Rightarrow>
           let d' = update_contest (\<lambda>c. c_tid c = v_tid v) (\<lambda>c. c\<lparr>c_material_state := v_state v\<rparr>)
                 (d\<lparr>artifact_revisions := artifact_revisions d @ [new_artifact dt v]\<rparr>)
           in Inr (if job_id = [] then d'
                   else update_job (\<lambda>j. j_job_id j = job_id) (complete_job dt payload) d')))"

definition artifact_revisions_of :: "string \<Rightarrow> db \<Rightarrow> artifact list" where
  "artifact_revisions_of tid d = order_desc v_created_at (order_desc v_revision
     (filter (\<lambda>v. v_tid v = tid) (artifact_revisions d)))"

definition approvable :: "string \<Rightarrow> string \<Rightarrow> db \<Rightarrow> artifact res" where
  "approvable tid rev' d = (case get_contest tid d of
     None \<Rightarrow> Inl (KeyError ''contest'')
   | Some c \<Rightarrow>
     if c_state c \<notin> {Registered, Errored}
     then Inl (SubmissionConflictError ''materials cannot change once seats are being prepared'')
     else (case get_artifact tid rev' d of
         None \<Rightarrow> Inl (SubmissionConflictError ''revision has not passed its checks'')
       | Some v \<Rightarrow>
         if v_state v \<notin> {''review'', ''approved''}
         then Inl (SubmissionConflictError ''revision has not passed its checks'')
         else if v_state v = ''approved''
              \<and> (c_material_state c \<noteq> ''approved'' \<or> c_active_material_revision c \<noteq> rev')
         then Inl (SubmissionConflictError ''approved revision is not the active one'')
         else Inr v))"

definition artifact_approval_candidate :: "string \<Rightarrow> string \<Rightarrow> db \<Rightarrow> artifact res" where
  "artifact_approval_candidate tid rev' d = bindE (approvable tid rev' d) (\<lambda>v.
     if v_manifest_sha256 v = [] \<or> v_paper_sha256 v = []
     then Inl (SubmissionConflictError ''revision lacks its paper or manifest'') else Inr v)"

section \<open>Publication receipts\<close>

definition canonical_json_sha256 :: "(string \<Rightarrow> string) \<Rightarrow> json \<Rightarrow> string" where
  "canonical_json_sha256 H x = H (utf8 (dumps x))"

definition MATERIAL_ATTACHMENTS :: "string \<times> string" where
  "MATERIAL_ATTACHMENTS = (''01_paper.pdf'', ''02_practice_data.tar.gz'')"

definition attachments_json :: "string \<Rightarrow> int \<Rightarrow> string \<Rightarrow> int \<Rightarrow> json" where
  "attachments_json paper_sha paper_size data_sha data_size = JArr
     [JObj [(''name'', JStr (fst MATERIAL_ATTACHMENTS)), (''sha256'', JStr paper_sha), (''size'', JInt paper_size)],
      JObj [(''name'', JStr (snd MATERIAL_ATTACHMENTS)), (''sha256'', JStr data_sha), (''size'', JInt data_size)]]"

definition expected_attachments :: "artifact \<Rightarrow> json" where
  "expected_attachments v =
     attachments_json (v_paper_sha256 v) (v_paper_size v) (v_testdata_sha256 v) (v_testdata_size v)"

definition receipt_json :: "string \<Rightarrow> artifact \<Rightarrow> json" where
  "receipt_json publication_id v = JObj [(''publication_id'', JStr publication_id),
     (''tid'', JStr (py_lower (v_tid v))), (''revision'', JStr (v_revision v)),
     (''attachments'', expected_attachments v)]"

text \<open>\<open>publication\<close> is the decoded answer of the OJ; \<open>v\<close> the row it is checked against.\<close>

definition validate_material_publication ::
  "(string \<Rightarrow> string) \<Rightarrow> json \<Rightarrow> artifact \<Rightarrow> (string \<times> string \<times> json) res" where
  "validate_material_publication H publication v = (case publication of
     JObj p \<Rightarrow>
       if set (map fst p) \<noteq> {''ok'', ''publication_id'', ''tid'', ''revision'', ''attachments'', ''receipt_sha256''}
       then Inl (SubmissionConflictError ''receipt fields are incomplete'') else
       let publication_id = str_or (map_of p ''publication_id'');
           receipt_sha256 = str_or (map_of p ''receipt_sha256'');
           receipt = receipt_json publication_id v in
       if map_of p ''ok'' \<noteq> Some (JBool True)
       then Inl (SubmissionConflictError ''OJ has not confirmed the publication'')
       else if \<not> re_exact is_hex 64 publication_id \<or> \<not> re_exact is_hex 64 receipt_sha256
       then Inl (SubmissionConflictError ''receipt digest is invalid'')
       else if py_lower (str_or (map_of p ''tid'')) \<noteq> py_lower (v_tid v)
       then Inl (SubmissionConflictError ''receipt is for another contest'')
       else if str_or (map_of p ''revision'') \<noteq> v_revision v
       then Inl (SubmissionConflictError ''receipt is for another revision'')
       else if \<not> json_eq (case map_of p ''attachments'' of None \<Rightarrow> JNull | Some a \<Rightarrow> a) (expected_attachments v)
       then Inl (SubmissionConflictError ''the bytes on the OJ differ from the desktop'')
       else if canonical_json_sha256 H receipt \<noteq> receipt_sha256
       then Inl (SubmissionConflictError ''receipt check failed'')
       else Inr (publication_id, receipt_sha256, jsort receipt)
   | _ \<Rightarrow> Inl (SubmissionConflictError ''receipt fields are incomplete''))"

text \<open>\<open>{**receipt, "ok": True, ..}\<close>.\<close>

definition decode_material_publication :: "(string \<Rightarrow> string) \<Rightarrow> publication \<Rightarrow> jdict res" where
  "decode_material_publication H m = (case m_receipt_json m of
     JObj r \<Rightarrow>
       if map_of r ''publication_id'' \<noteq> Some (JStr (m_publication_id m))
          \<or> canonical_json_sha256 H (JObj r) \<noteq> m_receipt_sha256 m
       then Inl (RuntimeError ''receipt digest does not match'')
       else Inr (dict_set ''published_at'' (JStr (m_published_at m))
           (dict_set ''receipt_sha256'' (JStr (m_receipt_sha256 m)) (dict_set ''ok'' (JBool True) r)))
   | _ \<Rightarrow> Inl (RuntimeError ''receipt is corrupt''))"

definition material_publication ::
  "(string \<Rightarrow> string) \<Rightarrow> string \<Rightarrow> string \<Rightarrow> db \<Rightarrow> jdict option res" where
  "material_publication H tid rev' d = (case get_publication tid rev' d of
     None \<Rightarrow> Inr None
   | Some m \<Rightarrow> bindE (decode_material_publication H m) (\<lambda>p. Inr (Some p)))"

text \<open>The receipt is stored once; another receipt for the same revision is refused.\<close>

definition store_publication ::
  "(string \<Rightarrow> string) \<Rightarrow> string \<Rightarrow> json \<Rightarrow> artifact \<Rightarrow> db \<Rightarrow> db res" where
  "store_publication H dt publication v d =
     bindE (validate_material_publication H publication v) (\<lambda>(publication_id, receipt_sha256, receipt).
     case get_publication (v_tid v) (v_revision v) d of
       Some m \<Rightarrow>
         if m_publication_id m \<noteq> publication_id \<or> m_receipt_sha256 m \<noteq> receipt_sha256
            \<or> m_receipt_json m \<noteq> receipt
         then Inl (SubmissionConflictError ''receipts conflict'') else Inr d
     | None \<Rightarrow>
         if list_ex (\<lambda>m. m_publication_id m = publication_id) (material_publications d)
         then Inl (SubmissionConflictError ''publication id belongs to another revision'')
         else Inr (d\<lparr>material_publications := material_publications d @ [\<lparr>m_tid = v_tid v,
             m_revision = v_revision v, m_publication_id = publication_id,
             m_receipt_sha256 = receipt_sha256, m_receipt_json = receipt, m_published_at = dt\<rparr>]\<rparr>))"

section \<open>Approval\<close>

definition supersede :: "string \<Rightarrow> artifact \<Rightarrow> artifact" where
  "supersede dt v = v\<lparr>v_state := ''superseded'', v_updated_at := dt\<rparr>"

definition approve :: "string \<Rightarrow> string \<Rightarrow> artifact \<Rightarrow> artifact" where
  "approve dt teacher v = v\<lparr>v_state := ''approved'', v_approved_by := teacher, v_approved_at := dt,
     v_updated_at := dt\<rparr>"

definition select_material :: "artifact \<Rightarrow> contest \<Rightarrow> contest" where
  "select_material v c = c\<lparr>c_material_state := ''approved'',
     c_active_material_revision := v_revision v, c_material_manifest_sha256 := v_manifest_sha256 v,
     c_paper_name := v_paper_name v, c_paper_sha256 := v_paper_sha256 v,
     c_paper_size := v_paper_size v, c_testdata_name := v_testdata_name v,
     c_testdata_sha256 := v_testdata_sha256 v, c_testdata_size := v_testdata_size v,
     c_testdata_files := v_testdata_files v, c_testdata_expanded_size := v_testdata_expanded_size v\<rparr>"

definition promote :: "string \<Rightarrow> string \<Rightarrow> artifact \<Rightarrow> db \<Rightarrow> db" where
  "promote dt teacher v d =
     update_contest (\<lambda>c. c_tid c = v_tid v) (select_material v)
     (update_artifact (\<lambda>x. v_tid x = v_tid v \<and> v_revision x = v_revision v) (approve dt teacher)
     (update_artifact (\<lambda>x. v_tid x = v_tid v \<and> v_revision x \<noteq> v_revision v \<and> v_state x = ''approved'')
        (supersede dt) d))"

definition approve_artifact_row ::
  "(string \<Rightarrow> string) \<Rightarrow> string \<Rightarrow> string \<Rightarrow> string \<Rightarrow> string \<Rightarrow> json option \<Rightarrow> db \<Rightarrow> (artifact \<times> db) res" where
  "approve_artifact_row H dt tid rev' teacher publication d =
     bindE (approvable tid rev' d) (\<lambda>v.
     if v_manifest_sha256 v = [] \<or> v_paper_sha256 v = [] \<or> v_testdata_sha256 v = []
        \<or> v_paper_size v \<le> 0 \<or> v_testdata_size v \<le> 0
     then Inl (SubmissionConflictError ''revision lacks its paper, data or manifest'') else
     bindE (case publication of
         Some p \<Rightarrow> store_publication H dt p v d
       | None \<Rightarrow> if get_publication tid rev' d = None
           then Inl (SubmissionConflictError ''no publication receipt has been stored'') else Inr d)
       (\<lambda>d1. if v_state v = ''approved'' then Inr (v, d1) else
         let d2 = promote dt teacher v d1
         in bindE (of_option (RuntimeError ''row'') (get_artifact tid rev' d2)) (\<lambda>v'. Inr (v', d2))))"

definition approve_artifact_with_publication ::
  "(string \<Rightarrow> string) \<Rightarrow> string \<Rightarrow> string \<Rightarrow> string \<Rightarrow> string \<Rightarrow> json \<Rightarrow> db \<Rightarrow> (artifact \<times> db) res" where
  "approve_artifact_with_publication H dt tid rev' teacher publication d =
     approve_artifact_row H dt tid rev' teacher (Some publication) d"

definition approve_artifact ::
  "(string \<Rightarrow> string) \<Rightarrow> string \<Rightarrow> string \<Rightarrow> string \<Rightarrow> string \<Rightarrow> db \<Rightarrow> (artifact \<times> db) res" where
  "approve_artifact H dt tid rev' teacher d = approve_artifact_row H dt tid rev' teacher None d"

section \<open>Generation jobs\<close>

definition new_job :: "string \<Rightarrow> string \<Rightarrow> string \<Rightarrow> string \<Rightarrow> json \<Rightarrow> string \<Rightarrow> job" where
  "new_job dt job_id tid rev' payload message = \<lparr>j_job_id = job_id, j_tid = tid, j_revision = rev',
     j_state = JQueued, j_progress = 0, j_message = py_prefix 2000 message, j_error = [],
     j_details_json = Some payload, j_created_at = dt, j_updated_at = dt\<rparr>"

definition add_job :: "job \<Rightarrow> contest \<Rightarrow> db \<Rightarrow> db" where
  "add_job j c d = (let d1 = d\<lparr>artifact_jobs := artifact_jobs d @ [j]\<rparr>
     in if c_active_material_revision c = []
        then update_contest (\<lambda>c. c_tid c = j_tid j) (\<lambda>c. c\<lparr>c_material_state := ''generating''\<rparr>) d1
        else d1)"

definition start_artifact_job ::
  "string \<Rightarrow> string \<Rightarrow> string \<Rightarrow> string \<Rightarrow> json \<Rightarrow> string \<Rightarrow> db \<Rightarrow> ((job \<times> jdict) \<times> db) res" where
  "start_artifact_job dt job_id tid rev' details message d =
     (if \<not> re_exact is_hex 32 job_id
      then Inl (ValueError ''artifact job_id must be 32 lowercase hexadecimal characters'')
      else if \<not> revision_ok rev' then Inl (ValueError ''artifact revision is invalid'')
      else bindE (encode_artifact_job_details details) (\<lambda>payload.
      case get_contest tid d of
        None \<Rightarrow> Inl (KeyError ''contest'')
      | Some c \<Rightarrow>
        if c_materials_mode c \<noteq> ''ai''
        then Inl (SubmissionConflictError ''contest does not generate its materials'')
        else if c_state c \<notin> {Registered, Errored}
        then Inl (SubmissionConflictError ''contest is being prepared or running'')
        else if list_ex (\<lambda>j. j_tid j = tid \<and> active_job j) (artifact_jobs d)
        then Inl (SubmissionConflictError ''a job of the contest is running'')
        else if has_run_evidence tid d
        then Inl (SubmissionConflictError ''contest has seats or submissions'')
        else if list_ex (\<lambda>j. j_job_id j = job_id) (artifact_jobs d)
        then Inl (SubmissionConflictError ''a job of the contest is running'')
        else
          let j = new_job dt job_id tid rev' payload message
          in bindE (decode_artifact_job j) (\<lambda>r. Inr (r, add_job j c d))))"

definition reset_pending :: "string \<Rightarrow> db \<Rightarrow> db" where
  "reset_pending tid d = update_contest (\<lambda>c. c_tid c = tid \<and> c_active_material_revision c = [])
     (\<lambda>c. c\<lparr>c_material_state := ''pending''\<rparr>) d"

definition job_state_of :: "string \<Rightarrow> job_state option" where
  "job_state_of s = (if s = ''queued'' then Some JQueued else if s = ''running'' then Some JRunning
     else if s = ''done'' then Some JDone else if s = ''error'' then Some JError
     else if s = ''interrupted'' then Some JInterrupted else None)"

definition set_job :: "string \<Rightarrow> job_state \<Rightarrow> int \<Rightarrow> string \<Rightarrow> string \<Rightarrow> json option \<Rightarrow> job \<Rightarrow> job" where
  "set_job dt s progress message err payload j = j\<lparr>j_state := s, j_progress := progress,
     j_message := py_prefix 2000 message, j_error := py_prefix 8000 err, j_details_json := payload,
     j_updated_at := dt\<rparr>"

definition store_job :: "job \<Rightarrow> (job \<Rightarrow> job) \<Rightarrow> job_state \<Rightarrow> db \<Rightarrow> db" where
  "store_job j f s d = (let d1 = update_job (\<lambda>x. j_job_id x = j_job_id j) f d
     in if s \<in> {JError, JInterrupted} then reset_pending (j_tid j) d1 else d1)"

text \<open>
  The row is decoded after the commit: an undecodable row raises although the update is stored. An
  outer \<open>Inl\<close> is a rolled back transaction, the inner result what the caller gets after the commit.
  \<open>details\<close> is \<open>JNull\<close> for \<open>None\<close>.
\<close>

definition update_artifact_job ::
  "string \<Rightarrow> string \<Rightarrow> string \<Rightarrow> int \<Rightarrow> string \<Rightarrow> string \<Rightarrow> json \<Rightarrow> db \<Rightarrow> ((job \<times> jdict) res \<times> db) res" where
  "update_artifact_job dt job_id state progress message err details d =
     (case job_state_of state of
        None \<Rightarrow> Inl (ValueError ''artifact job state is invalid'')
      | Some s \<Rightarrow>
        (case get_job job_id d of
           None \<Rightarrow> Inl (KeyError ''job'')
         | Some j \<Rightarrow>
           if \<not> active_job j \<and> s \<noteq> j_state j
           then Inl (SubmissionConflictError ''a finished job cannot be activated again'') else
           let bounded = max 0 (min 100 progress) in
           if bounded < j_progress j
           then Inl (SubmissionConflictError ''job progress cannot go back'') else
           bindE (if details = JNull then Inr (j_details_json j)
                  else bindE (encode_artifact_job_details details) (\<lambda>p. Inr (Some p))) (\<lambda>payload.
           let f = set_job dt s bounded message err payload
           in Inr (decode_artifact_job (f j), store_job j f s d))))"

definition artifact_job :: "string \<Rightarrow> db \<Rightarrow> (job \<times> jdict) option res" where
  "artifact_job job_id d = (case get_job job_id d of
     None \<Rightarrow> Inr None
   | Some j \<Rightarrow> bindE (decode_artifact_job j) (\<lambda>r. Inr (Some r)))"

text \<open>Two transactions: the job that was started stays when its update is refused.\<close>

definition put_artifact_job ::
  "string \<Rightarrow> string \<Rightarrow> string \<Rightarrow> string \<Rightarrow> string \<Rightarrow> int \<Rightarrow> string \<Rightarrow> string \<Rightarrow> json \<Rightarrow> db \<Rightarrow> unit res \<times> db" where
  "put_artifact_job dt job_id tid rev' state progress message err details d =
     (let update = (\<lambda>d1. case update_artifact_job dt job_id state progress message err details d1 of
            Inl e \<Rightarrow> (Inl e, d1)
          | Inr (r, d2) \<Rightarrow> (bindE r (\<lambda>_. Inr ()), d2))
      in case artifact_job job_id d of
           Inl e \<Rightarrow> (Inl e, d)
         | Inr (Some _) \<Rightarrow> update d
         | Inr None \<Rightarrow>
             (case start_artifact_job dt job_id tid rev' (json_or details (JObj []))
                 (if message = [] then ''queued'' else message) d of
                Inl e \<Rightarrow> (Inl e, d)
              | Inr (_, d1) \<Rightarrow> update d1))"

definition interrupt_job :: "string \<Rightarrow> job \<Rightarrow> job" where
  "interrupt_job dt j = j\<lparr>j_state := JInterrupted,
     j_error := ''service restarted, the job was interrupted'', j_updated_at := dt\<rparr>"

definition recover_interrupted_artifact_jobs :: "string \<Rightarrow> db \<Rightarrow> int \<times> db" where
  "recover_interrupted_artifact_jobs dt d =
     (let rows = filter active_job (artifact_jobs d)
      in (int (length rows), foldl (\<lambda>e tid. reset_pending tid e)
            (update_job active_job (interrupt_job dt) d) (remdups (map j_tid rows))))"

text \<open>\<open>ORDER BY created_at DESC, rowid DESC LIMIT 1\<close>: rowids increase along the table.\<close>

definition latest_artifact_job :: "string \<Rightarrow> db \<Rightarrow> (job \<times> jdict) option res" where
  "latest_artifact_job tid d =
     (case order_desc j_created_at (rev (filter (\<lambda>j. j_tid j = tid) (artifact_jobs d))) of
        [] \<Rightarrow> Inr None
      | j # _ \<Rightarrow> bindE (decode_artifact_job j) (\<lambda>r. Inr (Some r)))"

end
