(* ===== verification/ContestInv.thy ===== *)
theory ContestInv
  imports ContestStore
begin

text \<open>
  The contest rows as a machine: registration, state changes, the safe-wait shutdown, retention and
  restart recovery in any order. The invariant \<open>contest_wf\<close> says that a row waiting for or past its
  shutdown carries the evidence of its collection. It is kept by every operation that does not name a
  protected state as the target of a plain state write, which the callers never do except to rewrite
  the message of a waiting contest.
\<close>

section \<open>The operations as one machine\<close>

datatype contest_op =
    Register string string registration
  | SetState string int string contest_state string
  | Transition string int string "contest_state list" contest_state string
  | EnterSafeWait string string string string int int string
  | MarkSafeEnded string int string
  | MarkPurged string string string int
  | Recover string int
  | TimeSync string int string
  | SetPaper string string string int
  | ClearSelection string
  | SetTestdata string string string int int int
  | AppendAudit string string string string string "jdict option" int

definition protected :: "contest_state list" where
  "protected = [SafeWait, SafeEnded, Done]"

text \<open>A plain write of \<open>safe_wait\<close> only rewrites the message of a contest that already waits.\<close>

fun contest_step :: "contest_op \<Rightarrow> db \<Rightarrow> db res" where
  "contest_step (Register dt session u) d = upsert_contest dt session u d"
| "contest_step (SetState dt ms tid s m) d =
     (if s \<in> set protected \<and> map_option c_state (get_contest tid d) \<noteq> Some s
      then Inl (RuntimeError ''not called'') else Inr (set_state dt ms tid s m d))"
| "contest_step (Transition dt ms tid from to m) d =
     (if to \<in> set protected then Inl (RuntimeError ''not called'')
      else Inr (snd (transition dt ms tid from to m d)))"
| "contest_step (EnterSafeWait tid run dir rec completed after m) d =
     bindE (enter_safe_wait tid run dir rec completed after m d) (Inr \<circ> snd)"
| "contest_step (MarkSafeEnded tid obs m) d = Inr (snd (mark_safe_ended tid obs m d))"
| "contest_step (MarkPurged dt tid kind obs) d =
     bindE (mark_retention_purged dt tid kind obs d) (Inr \<circ> snd)"
| "contest_step (Recover dt obs) d = bindE (recover_interrupted_contests dt obs d) (Inr \<circ> snd)"
| "contest_step (TimeSync tid obs err) d = mark_time_sync tid obs err d"
| "contest_step (SetPaper tid name sha sz) d = set_paper tid name sha sz d"
| "contest_step (ClearSelection tid) d = clear_material_selection tid d"
| "contest_step (SetTestdata tid name sha sz n expanded) d = set_testdata tid name sha sz n expanded d"
| "contest_step (AppendAudit dt actor action outcome tid details ms) d =
     bindE (append_audit dt actor action outcome tid details ms d) (Inr \<circ> snd)"

section \<open>The invariant\<close>

definition evidence_ok :: "contest \<Rightarrow> bool" where
  "evidence_ok c \<longleftrightarrow> revision_ok (c_collection_run_id c) \<and> c_collection_dir c \<noteq> []
     \<and> re_exact is_hex 64 (c_collection_receipt_sha256 c)
     \<and> 0 < c_collection_completed_at_ms c \<and> c_collection_completed_at_ms c \<le> c_shutdown_after_ms c"

definition contest_ok :: "contest \<Rightarrow> bool" where
  "contest_ok c \<longleftrightarrow> (c_state c \<in> set protected \<longrightarrow> evidence_ok c)
     \<and> (c_state c \<in> {SafeEnded, Done} \<longrightarrow> c_shutdown_after_ms c \<le> c_shutdown_verified_at_ms c)"

definition audit_ok :: "db \<Rightarrow> bool" where
  "audit_ok d \<longleftrightarrow> sorted_wrt (<) (map a_id (audit_events d))
     \<and> (\<forall>e \<in> set (audit_events d). 0 < a_id e \<and> a_id e \<le> audit_seq d) \<and> 0 \<le> audit_seq d"

definition contest_wf :: "db \<Rightarrow> bool" where
  "contest_wf d \<longleftrightarrow> distinct (map c_tid (contests d)) \<and> list_all contest_ok (contests d) \<and> audit_ok d"

lemma contest_wf_empty: "contest_wf empty_db"
  by (simp add: contest_wf_def empty_db_def audit_ok_def)

lemma add_audit_simps [simp]:
  "contests (add_audit dt tid actor action outcome details ms d) = contests d"
  "bound_seats (add_audit dt tid actor action outcome details ms d) = bound_seats d"
  "web_submissions (add_audit dt tid actor action outcome details ms d) = web_submissions d"
  by (simp_all add: add_audit_def)

lemma audit_ok_add: "audit_ok d \<Longrightarrow> audit_ok (add_audit dt tid actor action outcome details ms d)"
  by (fastforce simp: audit_ok_def add_audit_def sorted_wrt_append)

lemma update_contest_simps [simp]:
  "contests (update_contest p f d) = sql_update p f (contests d)"
  "audit_events (update_contest p f d) = audit_events d"
  "audit_seq (update_contest p f d) = audit_seq d"
  "bound_seats (update_contest p f d) = bound_seats d"
  "web_submissions (update_contest p f d) = web_submissions d"
  by (simp_all add: update_contest_def)

lemma audit_ok_update [simp]: "audit_ok (update_contest p f d) = audit_ok d"
  by (simp add: audit_ok_def)

lemma contest_wf_add: "contest_wf d \<Longrightarrow> contest_wf (add_audit dt tid actor action outcome details ms d)"
  by (simp add: contest_wf_def audit_ok_add)

lemma contest_wf_update:
  assumes "contest_wf d" and "\<And>c. p c \<Longrightarrow> c_tid (f c) = c_tid c"
    and "\<And>c. c \<in> set (contests d) \<Longrightarrow> contest_ok c \<Longrightarrow> p c \<Longrightarrow> contest_ok (f c)"
  shows "contest_wf (update_contest p f d)"
  using assms by (auto simp: contest_wf_def map_sql_update list_all_iff set_sql_update)

lemma contest_ok_unprotected: "c_state c \<notin> set protected \<Longrightarrow> contest_ok c"
  by (auto simp: contest_ok_def protected_def)

lemma update_known_wf:
  assumes "contest_wf d" and "update_known tid f d = Inr d'" and "\<And>c. c_tid (f c) = c_tid c"
    and "\<And>c. contest_ok c \<Longrightarrow> contest_ok (f c)"
  shows "contest_wf d'"
  using assms(2)
  by (auto simp: update_known_def Let_def split: if_splits intro!: contest_wf_update [OF assms(1)] assms(3,4))

lemma set_state_wf:
  assumes "contest_wf d"
    and "s \<in> set protected \<Longrightarrow> map_option c_state (get_contest tid d) = Some s"
  shows "contest_wf (set_state dt ms tid s m d)"
proof -
  have "contest_ok (c\<lparr>c_state := s, c_message := m\<rparr>)"
    if c: "c \<in> set (contests d)" "contest_ok c" "c_tid c = tid" for c
  proof (cases "s \<in> set protected")
    case True
    have "get_contest tid d = Some c"
      unfolding get_contest_def
      by (rule find_distinct_key) (use assms(1) c in \<open>simp_all add: contest_wf_def\<close>)
    then have "c_state c = s" using assms(2) True by simp
    then show ?thesis using c(2) by (simp add: contest_ok_def evidence_ok_def)
  qed (simp add: contest_ok_unprotected)
  then show ?thesis
    unfolding set_state_def by (intro contest_wf_add contest_wf_update [OF assms(1)]) simp_all
qed

lemma transition_wf:
  "contest_wf d \<Longrightarrow> to \<notin> set protected \<Longrightarrow> contest_wf (snd (transition dt ms tid from to m d))"
  by (simp add: transition_def Let_def contest_wf_add contest_wf_update contest_ok_unprotected)

lemma enter_safe_wait_wf:
  assumes "contest_wf d" and "enter_safe_wait tid run dir rec completed after m d = Inr (b, d')"
  shows "contest_wf d'"
  using assms(2)
  by (auto simp: enter_safe_wait_def Let_def contest_ok_def evidence_ok_def split: if_splits
      intro!: contest_wf_update [OF assms(1)])

lemma mark_safe_ended_wf: "contest_wf d \<Longrightarrow> contest_wf (snd (mark_safe_ended tid obs m d))"
  by (auto simp: mark_safe_ended_def Let_def contest_ok_def evidence_ok_def protected_def
      intro!: contest_wf_update)

lemma set_purged_ok: "contest_ok c \<Longrightarrow> contest_ok (set_purged k ms c)" "c_tid (set_purged k ms c) = c_tid c"
  by (cases k; simp add: contest_ok_def evidence_ok_def)+

lemma mark_purged_wf:
  assumes "contest_wf d" and "mark_retention_purged dt tid kind obs d = Inr (b, d')"
  shows "contest_wf d'"
  using assms(2)
  by (auto simp: mark_retention_purged_def Let_def split: option.splits if_splits
      intro!: contest_wf_add contest_wf_update [OF assms(1)] set_purged_ok)

lemma recover_wf:
  assumes "contest_wf d" and "recover_interrupted_contests dt obs d = Inr (n, d')"
  shows "contest_wf d'"
proof -
  have fold: "contest_wf (foldl (\<lambda>e c. add_audit dt (c_tid c) a b o' j obs e) e rows)"
    if "contest_wf e" for e rows a b o' j
    using that by (induction rows arbitrary: e) (simp_all add: contest_wf_add)
  show ?thesis
    using assms(2)
    by (auto simp: recover_interrupted_contests_def Let_def contest_ok_unprotected protected_def
        split: if_splits intro!: fold contest_wf_update [OF assms(1)])
qed

lemma upsert_wf:
  assumes "contest_wf d" and "upsert_contest dt session u d = Inr d'"
  shows "contest_wf d'"
proof (cases "get_contest (u_tid u) d")
  case None
  then have "c_tid (new_contest dt session u) \<notin> c_tid ` set (contests d)"
    by (auto simp: get_contest_def find_None_iff new_contest_def)
  moreover have "contest_ok (new_contest dt session u)"
    by (simp add: new_contest_def contest_ok_unprotected protected_def)
  ultimately show ?thesis
    using assms None by (auto simp: upsert_contest_def contest_wf_def audit_ok_def)
next
  case (Some c)
  then show ?thesis
    using assms(2)
    by (auto simp: upsert_contest_def reregistered_def contest_ok_unprotected protected_def split: if_splits
        intro!: contest_wf_update [OF assms(1)])
qed

lemma append_audit_wf:
  "contest_wf d \<Longrightarrow> append_audit dt actor action outcome tid details ms d = Inr (i, d') \<Longrightarrow> contest_wf d'"
  by (auto simp: append_audit_def Let_def split: if_splits intro: contest_wf_add)

lemma contest_step_wf: "contest_wf d \<Longrightarrow> contest_step c d = Inr d' \<Longrightarrow> contest_wf d'"
  by (cases c)
    (auto simp: mark_time_sync_def set_paper_def clear_material_selection_def set_testdata_def
        contest_ok_def evidence_ok_def split: if_splits
      intro: upsert_wf set_state_wf transition_wf enter_safe_wait_wf mark_safe_ended_wf mark_purged_wf
        recover_wf append_audit_wf elim!: update_known_wf [rotated])

interpretation contest: machine contest_step contest_wf
  by unfold_locales (rule contest_step_wf)

end
