(* ===== verification/MaterialInv.thy ===== *)
theory MaterialInv
  imports MaterialStore ContestInv
begin

text \<open>
  Materials, jobs and contest rows as one machine. The invariant \<open>material_wf\<close> ties the three tables
  together: every stored receipt lists the bytes of its revision, an approved revision has a receipt,
  a contest has at most one approved revision and its selected bytes are those of that revision, and a
  contest has at most one running job. \<open>material_le\<close> is what can never be undone.
\<close>

section \<open>The machine\<close>

datatype material_op =
    PutRevision string artifact string json
  | Approve string string string string "json option"
  | StartJob string string string string json string
  | UpdateJob string string string int string string json
  | RecoverJobs string
  | Contest contest_op

definition unselected :: "contest \<Rightarrow> bool" where
  "unselected c \<longleftrightarrow> c_active_material_revision c \<in> {[], ''legacy-manual''}"

text \<open>
  The callers put revisions as drafts or for review, and upload a paper or test data by hand only after a
  registration has cleared the selection.
\<close>

fun uploaded_tid :: "contest_op \<Rightarrow> string option" where
  "uploaded_tid (SetPaper tid name sha sz) = Some tid"
| "uploaded_tid (SetTestdata tid name sha sz n expanded) = Some tid"
| "uploaded_tid _ = None"

definition upload_allowed :: "contest_op \<Rightarrow> db \<Rightarrow> bool" where
  "upload_allowed op d \<longleftrightarrow> (case uploaded_tid op of None \<Rightarrow> True
     | Some tid \<Rightarrow> list_all (\<lambda>c. c_tid c = tid \<longrightarrow> unselected c) (contests d))"

fun material_step :: "(string \<Rightarrow> string) \<Rightarrow> material_op \<Rightarrow> db \<Rightarrow> db res" where
  "material_step H (PutRevision dt v job_id details) d =
     (if v_state v \<in> {''draft'', ''review''} then put_artifact_revision dt v job_id details d
      else Inl (RuntimeError ''not called''))"
| "material_step H (Approve dt tid rev' teacher publication) d =
     bindE (approve_artifact_row H dt tid rev' teacher publication d) (Inr \<circ> snd)"
| "material_step H (StartJob dt job_id tid rev' details message) d =
     bindE (start_artifact_job dt job_id tid rev' details message d) (Inr \<circ> snd)"
| "material_step H (UpdateJob dt job_id state progress message err details) d =
     bindE (update_artifact_job dt job_id state progress message err details d) (Inr \<circ> snd)"
| "material_step H (RecoverJobs dt) d = Inr (snd (recover_interrupted_artifact_jobs dt d))"
| "material_step H (Contest op) d =
     (if upload_allowed op d then contest_step op d else Inl (RuntimeError ''not called''))"

section \<open>The invariant\<close>

definition art_key :: "artifact \<Rightarrow> string \<times> string" where
  "art_key v = (v_tid v, v_revision v)"

definition pub_key :: "publication \<Rightarrow> string \<times> string" where
  "pub_key m = (m_tid m, m_revision m)"

definition approved :: "artifact \<Rightarrow> bool" where
  "approved v \<longleftrightarrow> v_state v = ''approved''"

definition bytes :: "artifact \<Rightarrow> string \<times> int \<times> string \<times> int" where
  "bytes v = (v_paper_sha256 v, v_paper_size v, v_testdata_sha256 v, v_testdata_size v)"

definition selected_bytes :: "contest \<Rightarrow> string \<times> int \<times> string \<times> int" where
  "selected_bytes c = (c_paper_sha256 c, c_paper_size c, c_testdata_sha256 c, c_testdata_size c)"

definition receipt_ok :: "(string \<Rightarrow> string) \<Rightarrow> artifact list \<Rightarrow> publication \<Rightarrow> bool" where
  "receipt_ok H vs m \<longleftrightarrow> (\<exists>v \<in> set vs. art_key v = pub_key m
     \<and> m_receipt_json m = jsort (receipt_json (m_publication_id m) v)
     \<and> m_receipt_sha256 m = canonical_json_sha256 H (receipt_json (m_publication_id m) v))"

definition artifacts_ok :: "artifact list \<Rightarrow> bool" where
  "artifacts_ok vs \<longleftrightarrow> distinct (map art_key vs)
     \<and> (\<forall>x \<in> set vs. \<forall>y \<in> set vs. approved x \<and> approved y \<and> v_tid x = v_tid y \<longrightarrow> art_key x = art_key y)"

definition publications_ok :: "(string \<Rightarrow> string) \<Rightarrow> artifact list \<Rightarrow> publication list \<Rightarrow> bool" where
  "publications_ok H vs ms \<longleftrightarrow> distinct (map pub_key ms) \<and> distinct (map m_publication_id ms)
     \<and> list_all (receipt_ok H vs) ms
     \<and> list_all (\<lambda>v. approved v \<longrightarrow> art_key v \<in> pub_key ` set ms) vs"

definition jobs_ok :: "job list \<Rightarrow> bool" where
  "jobs_ok js \<longleftrightarrow> distinct (map j_job_id js)
     \<and> (\<forall>i \<in> set js. \<forall>j \<in> set js. active_job i \<and> active_job j \<and> j_tid i = j_tid j \<longrightarrow> j_job_id i = j_job_id j)
     \<and> list_all (\<lambda>j. 0 \<le> j_progress j \<and> j_progress j \<le> 100) js"

definition selection_ok :: "artifact list \<Rightarrow> contest \<Rightarrow> bool" where
  "selection_ok vs c \<longleftrightarrow> unselected c \<or> (\<exists>v \<in> set vs. approved v
     \<and> art_key v = (c_tid c, c_active_material_revision c) \<and> bytes v = selected_bytes c)"

definition material_wf :: "(string \<Rightarrow> string) \<Rightarrow> db \<Rightarrow> bool" where
  "material_wf H d \<longleftrightarrow> contest_wf d \<and> artifacts_ok (artifact_revisions d)
     \<and> publications_ok H (artifact_revisions d) (material_publications d)
     \<and> jobs_ok (artifact_jobs d)
     \<and> list_all (selection_ok (artifact_revisions d)) (contests d)"

lemma material_wf_empty: "material_wf H empty_db"
  by (simp add: material_wf_def contest_wf_empty artifacts_ok_def publications_ok_def jobs_ok_def)
    (simp add: empty_db_def)

text \<open>The parts of a database outside the contest rows, and the rows' selections.\<close>

definition selection :: "contest \<Rightarrow> string \<times> string \<times> string \<times> int \<times> string \<times> int" where
  "selection c = (c_tid c, c_active_material_revision c, selected_bytes c)"

definition same_materials :: "db \<Rightarrow> db \<Rightarrow> bool" where
  "same_materials d d' \<longleftrightarrow> artifact_revisions d' = artifact_revisions d
     \<and> material_publications d' = material_publications d \<and> artifact_jobs d' = artifact_jobs d"

definition selections_kept :: "db \<Rightarrow> db \<Rightarrow> bool" where
  "selections_kept d d' \<longleftrightarrow> (\<forall>c' \<in> set (contests d').
     unselected c' \<or> selection c' \<in> selection ` set (contests d))"

lemma selection_ok_cong: "selection c = selection c' \<Longrightarrow> selection_ok vs c = selection_ok vs c'"
  by (simp add: selection_ok_def selection_def unselected_def)

lemma selections_kept_ok:
  assumes "selections_kept d d'" and "list_all (selection_ok vs) (contests d)"
  shows "list_all (selection_ok vs) (contests d')"
  unfolding list_all_iff
proof
  fix c' assume "c' \<in> set (contests d')"
  then consider "unselected c'" | c where "c \<in> set (contests d)" "selection c' = selection c"
    using assms(1) unfolding selections_kept_def by blast
  then show "selection_ok vs c'"
  proof cases
    case 1
    then show ?thesis by (simp add: selection_ok_def)
  next
    case 2
    then show ?thesis using assms(2) selection_ok_cong [OF 2(2)] by (simp add: list_all_iff)
  qed
qed

lemma selections_kept_update:
  assumes "contests d' = sql_update p f (contests d)"
    and "\<And>c. c \<in> set (contests d) \<Longrightarrow> p c \<Longrightarrow> unselected (f c) \<or> selection (f c) = selection c"
  shows "selections_kept d d'"
  unfolding selections_kept_def assms(1)
proof
  fix c' assume "c' \<in> set (sql_update p f (contests d))"
  then obtain c where c: "c \<in> set (contests d)" "c' = (if p c then f c else c)"
    unfolding in_sql_update by blast
  show "unselected c' \<or> selection c' \<in> selection ` set (contests d)"
  proof (cases "p c")
    case True
    then show ?thesis using assms(2) [OF c(1)] c by auto
  next
    case False
    then show ?thesis using c by simp
  qed
qed

lemma selections_kept_refl: "contests d' = contests d \<Longrightarrow> selections_kept d d'"
  by (auto simp: selections_kept_def)

section \<open>Contest operations\<close>

lemma add_audit_materials [simp]:
  "artifact_revisions (add_audit dt tid actor action outcome details ms d) = artifact_revisions d"
  "material_publications (add_audit dt tid actor action outcome details ms d) = material_publications d"
  "artifact_jobs (add_audit dt tid actor action outcome details ms d) = artifact_jobs d"
  by (simp_all add: add_audit_def)

lemma update_contest_materials [simp]:
  "artifact_revisions (update_contest p f d) = artifact_revisions d"
  "material_publications (update_contest p f d) = material_publications d"
  "artifact_jobs (update_contest p f d) = artifact_jobs d"
  by (simp_all add: update_contest_def)

lemma fold_audit_tables:
  "contests (foldl (\<lambda>e c. add_audit dt (c_tid c) a b o' j obs e) e rows) = contests e"
  "artifact_revisions (foldl (\<lambda>e c. add_audit dt (c_tid c) a b o' j obs e) e rows) = artifact_revisions e"
  "material_publications (foldl (\<lambda>e c. add_audit dt (c_tid c) a b o' j obs e) e rows) = material_publications e"
  "artifact_jobs (foldl (\<lambda>e c. add_audit dt (c_tid c) a b o' j obs e) e rows) = artifact_jobs e"
  by (induction rows arbitrary: e) simp_all

lemma update_known_eq: "update_known tid f d = Inr d' \<Longrightarrow> d' = update_contest (\<lambda>c. c_tid c = tid) f d"
  by (auto simp: update_known_def Let_def split: if_splits)

lemmas contest_op_defs = upsert_contest_def set_state_def transition_def enter_safe_wait_def
  mark_safe_ended_def mark_retention_purged_def recover_interrupted_contests_def append_audit_def
  mark_time_sync_def set_paper_def clear_material_selection_def set_testdata_def

lemma contest_step_same: "contest_step op d = Inr d' \<Longrightarrow> same_materials d d'"
  by (cases op)
    (auto simp: same_materials_def contest_op_defs Let_def fold_audit_tables dest!: update_known_eq
      split: option.splits if_splits)

lemmas selection_defs = selection_def unselected_def selected_bytes_def

lemma set_purged_selection: "selection (set_purged k ms c) = selection c"
  by (cases k) (simp_all add: selection_defs)

lemma upsert_selections:
  assumes "upsert_contest dt session u d = Inr d'"
  shows "selections_kept d d'"
proof (cases "get_contest (u_tid u) d")
  case None
  then have "contests d' = contests d @ [new_contest dt session u]"
    using assms by (auto simp: upsert_contest_def)
  then show ?thesis by (auto simp: selections_kept_def new_contest_def unselected_def)
next
  case (Some c)
  then have "contests d' = sql_update (\<lambda>c. c_tid c = u_tid u) (reregistered session u) (contests d)"
    using assms by (auto simp: upsert_contest_def split: if_splits)
  then show ?thesis by (rule selections_kept_update) (simp add: reregistered_def unselected_def)
qed

lemma mark_purged_contests:
  assumes "mark_retention_purged dt tid kind obs d = Inr (b, d')"
  shows "\<exists>k. contests d' = sql_update (\<lambda>c. c_tid c = tid \<and> c_state c \<in> {SafeEnded, Done}
      \<and> 0 < c_shutdown_verified_at_ms c \<and> purged_at k c = 0) (set_purged k obs) (contests d)"
proof (cases "purge_kind_of kind")
  case (Some k)
  then show ?thesis
    using assms
    by (intro exI [of _ k]) (auto simp: mark_retention_purged_def Let_def simp del: purge_kind_of.simps split: if_splits)
qed (use assms in \<open>simp add: mark_retention_purged_def\<close>)

lemma upload_unselected:
  "upload_allowed op d \<Longrightarrow> uploaded_tid op = Some tid \<Longrightarrow> c \<in> set (contests d) \<Longrightarrow> c_tid c = tid \<Longrightarrow> unselected c"
  by (auto simp: upload_allowed_def list_all_iff)

lemma contest_step_selections:
  assumes "contest_step op d = Inr d'" and "upload_allowed op d"
  shows "selections_kept d d'"
proof (cases op)
  case (SetPaper tid name sha sz)
  with assms have "contests d' = sql_update (\<lambda>c. c_tid c = tid) (\<lambda>c. c\<lparr>c_paper_name := name,
        c_paper_sha256 := sha, c_paper_size := sz,
        c_material_state := (if c_materials_mode c = ''manual'' then ''approved'' else c_material_state c),
        c_active_material_revision :=
          (if c_materials_mode c = ''manual'' \<and> c_active_material_revision c = []
           then ''legacy-manual'' else c_active_material_revision c)\<rparr>) (contests d)"
    by (auto simp: set_paper_def dest!: update_known_eq)
  then show ?thesis
    by (rule selections_kept_update)
      (use SetPaper upload_unselected [OF assms(2)] in \<open>auto simp: unselected_def\<close>)
next
  case (SetTestdata tid name sha sz n expanded)
  with assms have "contests d' = sql_update (\<lambda>c. c_tid c = tid) (\<lambda>c. c\<lparr>c_testdata_name := name,
      c_testdata_sha256 := sha, c_testdata_size := sz, c_testdata_files := n, c_testdata_expanded_size := expanded\<rparr>) (contests d)"
    by (auto simp: set_testdata_def dest!: update_known_eq)
  then show ?thesis
    by (rule selections_kept_update)
      (use SetTestdata upload_unselected [OF assms(2)] in \<open>auto simp: unselected_def\<close>)
next
  case (Register dt session u)
  with assms show ?thesis by (simp add: upsert_selections)
next
  case (MarkPurged dt tid kind obs)
  with assms obtain k where "contests d' = sql_update (\<lambda>c. c_tid c = tid \<and> c_state c \<in> {SafeEnded, Done}
      \<and> 0 < c_shutdown_verified_at_ms c \<and> purged_at k c = 0) (set_purged k obs) (contests d)"
    by (auto dest: mark_purged_contests)
  then show ?thesis by (rule selections_kept_update) (simp add: set_purged_selection)
next
  case (Transition dt ms tid src to m)
  with assms have "contests d' = contests d \<or> contests d' = sql_update (\<lambda>c. c_tid c = tid \<and> c_state c \<in> set src)
      (\<lambda>c. c\<lparr>c_state := to, c_message := m\<rparr>) (contests d)"
    by (auto simp: transition_def Let_def split: if_splits)
  then show ?thesis
    by (auto intro: selections_kept_refl elim!: selections_kept_update simp: selection_defs)
next
  case (Recover dt obs)
  with assms have "contests d' = sql_update (\<lambda>c. c_state c = Preparing) (\<lambda>c. c\<lparr>c_state := Errored,
      c_message := ''service restarted while preparing''\<rparr>) (contests d)"
    by (auto simp: recover_interrupted_contests_def Let_def fold_audit_tables split: if_splits)
  then show ?thesis by (rule selections_kept_update) (simp add: selection_defs)
next
  case (AppendAudit dt actor action outcome tid details ms)
  with assms have "contests d' = contests d" by (auto simp: append_audit_def Let_def split: if_splits)
  then show ?thesis by (rule selections_kept_refl)
next
  case (SetState dt ms tid s m)
  with assms have "contests d' = sql_update (\<lambda>c. c_tid c = tid) (\<lambda>c. c\<lparr>c_state := s, c_message := m\<rparr>) (contests d)"
    by (auto simp: set_state_def split: if_splits)
  then show ?thesis by (rule selections_kept_update) (simp add: selection_defs)
next
  case (EnterSafeWait tid run dir rec completed after m)
  with assms have "contests d' = sql_update (\<lambda>c. c_tid c = tid \<and> c_state c = Collecting)
      (\<lambda>c. c\<lparr>c_state := SafeWait, c_message := m, c_collection_run_id := run,
             c_collection_dir := py_strip dir, c_collection_receipt_sha256 := map lower_char rec,
             c_collection_completed_at_ms := completed, c_shutdown_after_ms := after,
             c_shutdown_verified_at_ms := 0\<rparr>) (contests d)"
    by (auto simp: enter_safe_wait_def Let_def split: if_splits)
  then show ?thesis by (rule selections_kept_update) (simp add: selection_defs)
next
  case (MarkSafeEnded tid obs m)
  with assms have "contests d' = sql_update (\<lambda>c. c_tid c = tid \<and> c_state c = SafeWait
      \<and> 0 < c_shutdown_after_ms c \<and> c_shutdown_after_ms c \<le> obs)
      (\<lambda>c. c\<lparr>c_state := SafeEnded, c_message := m, c_shutdown_verified_at_ms := obs\<rparr>) (contests d)"
    by (auto simp: mark_safe_ended_def Let_def)
  then show ?thesis by (rule selections_kept_update) (simp add: selection_defs)
next
  case (TimeSync tid obs err)
  with assms obtain f where eq: "contests d' = sql_update (\<lambda>c. c_tid c = tid) f (contests d)"
    and f: "\<And>c. selection (f c) = selection c"
    by (fastforce simp: mark_time_sync_def selection_defs dest!: update_known_eq split: if_splits)
  show ?thesis by (rule selections_kept_update [OF eq]) (simp add: f)
next
  case (ClearSelection tid)
  with assms obtain f where eq: "contests d' = sql_update (\<lambda>c. c_tid c = tid) f (contests d)"
    and f: "\<And>c. unselected (f c)"
    by (auto simp: clear_material_selection_def unselected_def dest!: update_known_eq)
  show ?thesis by (rule selections_kept_update [OF eq]) (simp add: f)
qed

lemma contest_op_wf:
  assumes "material_wf H d" and "contest_step op d = Inr d'" and "upload_allowed op d"
  shows "material_wf H d'"
  using assms contest_step_wf [of d op d'] contest_step_same [OF assms(2)]
    selections_kept_ok [OF contest_step_selections [OF assms(2,3)]]
  by (simp add: material_wf_def same_materials_def)

section \<open>Jobs\<close>

lemma jobs_okD:
  "jobs_ok js \<Longrightarrow> i \<in> set js \<Longrightarrow> j \<in> set js \<Longrightarrow> active_job i \<Longrightarrow> active_job j \<Longrightarrow> j_tid i = j_tid j
     \<Longrightarrow> j_job_id i = j_job_id j"
  unfolding jobs_ok_def by blast

lemma jobs_ok_update:
  assumes "jobs_ok js" and "\<And>j. j \<in> set js \<Longrightarrow> p j \<Longrightarrow> j_job_id (f j) = j_job_id j \<and> j_tid (f j) = j_tid j
      \<and> (active_job (f j) \<longrightarrow> active_job j) \<and> 0 \<le> j_progress (f j) \<and> j_progress (f j) \<le> 100"
  shows "jobs_ok (sql_update p f js)"
proof -
  define g where "g = (\<lambda>j. if p j then f j else j)"
  have upd: "sql_update p f js = map g js" by (simp add: sql_update_def g_def)
  have g: "j_job_id (g j) = j_job_id j \<and> j_tid (g j) = j_tid j \<and> (active_job (g j) \<longrightarrow> active_job j)
      \<and> 0 \<le> j_progress (g j) \<and> j_progress (g j) \<le> 100" if "j \<in> set js" for j
    using that assms by (auto simp: jobs_ok_def list_all_iff g_def)
  have "map j_job_id (map g js) = map j_job_id js" using g by simp
  then have "distinct (map j_job_id (map g js))" using assms(1) by (simp only: jobs_ok_def)
  moreover have "\<forall>x \<in> set (map g js). \<forall>y \<in> set (map g js). active_job x \<and> active_job y \<and> j_tid x = j_tid y
      \<longrightarrow> j_job_id x = j_job_id y"
  proof (intro ballI impI)
    fix x y assume "x \<in> set (map g js)" "y \<in> set (map g js)"
      and a: "active_job x \<and> active_job y \<and> j_tid x = j_tid y"
    then obtain i j where m: "i \<in> set js" "j \<in> set js" and xy: "x = g i" "y = g j" by auto
    then have "active_job i" "active_job j" "j_tid i = j_tid j" using a g [OF m(1)] g [OF m(2)] by auto
    then have "j_job_id i = j_job_id j" by (rule jobs_okD [OF assms(1) m])
    then show "j_job_id x = j_job_id y" using g [OF m(1)] g [OF m(2)] xy by simp
  qed
  moreover have "list_all (\<lambda>j. 0 \<le> j_progress j \<and> j_progress j \<le> 100) (map g js)"
    using g by (simp add: list_all_iff)
  ultimately show ?thesis unfolding jobs_ok_def upd by blast
qed

lemma jobs_ok_append:
  assumes "jobs_ok js" and "j_job_id j \<notin> j_job_id ` set js" and "\<And>i. i \<in> set js \<Longrightarrow> active_job i \<Longrightarrow> j_tid i \<noteq> j_tid j"
    and "0 \<le> j_progress j" and "j_progress j \<le> 100"
  shows "jobs_ok (js @ [j])"
proof -
  have "j_job_id x = j_job_id y" if m: "x \<in> set (js @ [j])" "y \<in> set (js @ [j])"
    and a: "active_job x" "active_job y" "j_tid x = j_tid y" for x y
  proof (cases "x = j \<or> y = j")
    case True
    then have "x = y" using m a assms(3) [of x] assms(3) [of y] by auto
    then show ?thesis by simp
  next
    case False
    then show ?thesis using m a jobs_okD [OF assms(1), of x y] by simp
  qed
  then have "\<forall>x \<in> set (js @ [j]). \<forall>y \<in> set (js @ [j]). active_job x \<and> active_job y \<and> j_tid x = j_tid y
      \<longrightarrow> j_job_id x = j_job_id y" by blast
  moreover have "distinct (map j_job_id (js @ [j]))" "list_all (\<lambda>j. 0 \<le> j_progress j \<and> j_progress j \<le> 100) (js @ [j])"
    using assms(1,2,4,5) by (simp_all add: jobs_ok_def)
  ultimately show ?thesis unfolding jobs_ok_def by blast
qed

lemma material_wf_jobs:
  assumes "material_wf H d" and "jobs_ok (artifact_jobs d')" and "contest_wf d'" and "selections_kept d d'"
    and "artifact_revisions d' = artifact_revisions d" and "material_publications d' = material_publications d"
  shows "material_wf H d'"
  using assms selections_kept_ok [OF assms(4)] by (simp add: material_wf_def)

text \<open>A write of \<open>material_state\<close> is no concern of the other tables.\<close>

definition state_write :: "db \<Rightarrow> db \<Rightarrow> bool" where
  "state_write d d' \<longleftrightarrow> (\<exists>p s. contests d' = sql_update p (\<lambda>c. c\<lparr>c_material_state := s\<rparr>) (contests d))
     \<and> audit_events d' = audit_events d \<and> audit_seq d' = audit_seq d"

lemma state_write_selections: "state_write d d' \<Longrightarrow> selections_kept d d'"
  unfolding state_write_def by (elim conjE exE) (erule selections_kept_update, simp add: selection_defs)

lemma state_write_wf: "contest_wf d \<Longrightarrow> state_write d d' \<Longrightarrow> contest_wf d'"
  by (auto simp: state_write_def contest_wf_def audit_ok_def map_sql_update list_all_iff set_sql_update
      contest_ok_def evidence_ok_def)

lemma state_write_same: "contests d' = contests d \<Longrightarrow> audit_events d' = audit_events d
    \<Longrightarrow> audit_seq d' = audit_seq d \<Longrightarrow> state_write d d'"
  unfolding state_write_def
  by (rule conjI, rule exI [of _ "\<lambda>c. False"], rule exI [of _ "[]"]) (simp_all add: sql_update_def)

lemma state_write_update:
  "contests d' = sql_update p (\<lambda>c. c\<lparr>c_material_state := s\<rparr>) (contests d) \<Longrightarrow> audit_events d' = audit_events d
    \<Longrightarrow> audit_seq d' = audit_seq d \<Longrightarrow> state_write d d'"
  unfolding state_write_def by blast

lemma update_job_simps [simp]:
  "artifact_jobs (update_job p f d) = sql_update p f (artifact_jobs d)"
  "artifact_revisions (update_job p f d) = artifact_revisions d"
  "material_publications (update_job p f d) = material_publications d"
  "contests (update_job p f d) = contests d"
  "audit_events (update_job p f d) = audit_events d" "audit_seq (update_job p f d) = audit_seq d"
  "bound_seats (update_job p f d) = bound_seats d" "web_submissions (update_job p f d) = web_submissions d"
  by (simp_all add: update_job_def)

lemma reset_pending_simps [simp]:
  "artifact_jobs (reset_pending tid d) = artifact_jobs d"
  "artifact_revisions (reset_pending tid d) = artifact_revisions d"
  "material_publications (reset_pending tid d) = material_publications d"
  "audit_events (reset_pending tid d) = audit_events d" "audit_seq (reset_pending tid d) = audit_seq d"
  by (simp_all add: reset_pending_def)

lemma reset_pending_write: "state_write d (reset_pending tid d)"
  by (rule state_write_update) (simp_all add: reset_pending_def)

lemma material_wf_jobs_write:
  assumes "material_wf H d" and "jobs_ok (artifact_jobs d')" and "state_write d d'"
    and "artifact_revisions d' = artifact_revisions d" and "material_publications d' = material_publications d"
  shows "material_wf H d'"
  using material_wf_jobs [OF assms(1,2) _ state_write_selections [OF assms(3)] assms(4,5)]
    state_write_wf [OF _ assms(3)] assms(1) by (simp add: material_wf_def)

lemma start_job_result:
  assumes "start_artifact_job dt job_id tid rev' details message d = Inr (r, d')"
  shows "\<exists>payload c. get_contest tid d = Some c \<and> c_materials_mode c = ''ai'' \<and> c_state c \<in> {Registered, Errored}
     \<and> \<not> list_ex (\<lambda>j. j_tid j = tid \<and> active_job j) (artifact_jobs d)
     \<and> \<not> list_ex (\<lambda>j. j_job_id j = job_id) (artifact_jobs d) \<and> \<not> has_run_evidence tid d
     \<and> d' = add_job (new_job dt job_id tid rev' payload message) c d"
  using assms by (auto simp: start_artifact_job_def Let_def split: if_split_asm option.splits)

lemma start_job_wf:
  assumes wf: "material_wf H d" and "start_artifact_job dt job_id tid rev' details message d = Inr (r, d')"
  shows "material_wf H d'"
proof -
  obtain payload c where p: "\<not> list_ex (\<lambda>j. j_tid j = tid \<and> active_job j) (artifact_jobs d)"
      "\<not> list_ex (\<lambda>j. j_job_id j = job_id) (artifact_jobs d)"
    and d': "d' = add_job (new_job dt job_id tid rev' payload message) c d"
    using start_job_result [OF assms(2)] by blast
  have jobs: "artifact_jobs d' = artifact_jobs d @ [new_job dt job_id tid rev' payload message]"
    by (simp add: d' add_job_def Let_def)
  have "jobs_ok (artifact_jobs d')"
    unfolding jobs
    by (rule jobs_ok_append) (use wf p in \<open>auto simp: material_wf_def new_job_def list_ex_iff\<close>)
  moreover have "state_write d d'"
    unfolding d' add_job_def Let_def
    by (cases "c_active_material_revision c = []") (auto intro: state_write_update state_write_same)
  ultimately show ?thesis
    by (rule material_wf_jobs_write [OF wf]) (simp_all add: d' add_job_def Let_def)
qed

lemma update_job_result:
  assumes "update_artifact_job dt job_id state progress message err details d = Inr (r, d')"
  shows "\<exists>s j payload. get_job job_id d = Some j \<and> (active_job j \<or> s = j_state j)
     \<and> j_progress j \<le> max 0 (min 100 progress)
     \<and> d' = store_job j (set_job dt s (max 0 (min 100 progress)) message err payload) s d"
  using assms
  by (auto simp: update_artifact_job_def Let_def split: option.splits if_split_asm)

lemma get_job_mem: "get_job i d = Some j \<Longrightarrow> j \<in> set (artifact_jobs d) \<and> j_job_id j = i"
  using find_Some_iff_mem unfolding get_job_def by fastforce

lemma get_job_unique:
  assumes "jobs_ok (artifact_jobs d)" and "get_job i d = Some j" and "x \<in> set (artifact_jobs d)" and "j_job_id x = i"
  shows "x = j"
proof -
  have "find (\<lambda>y. j_job_id y = i) (artifact_jobs d) = Some x"
    using assms by (intro find_distinct_key) (simp_all add: jobs_ok_def)
  then show ?thesis using assms(2) by (simp add: get_job_def)
qed

lemma store_job_simps [simp]:
  "artifact_jobs (store_job j f s d) = sql_update (\<lambda>x. j_job_id x = j_job_id j) f (artifact_jobs d)"
  "artifact_revisions (store_job j f s d) = artifact_revisions d"
  "material_publications (store_job j f s d) = material_publications d"
  by (simp_all add: store_job_def Let_def)

lemma store_job_write: "state_write d (store_job j f s d)"
proof (cases "s \<in> {JError, JInterrupted}")
  case True
  then show ?thesis
    using reset_pending_write [of d "j_tid j"] by (simp add: state_write_def store_job_def reset_pending_def)
next
  case False
  then show ?thesis by (intro state_write_same) (auto simp: store_job_def)
qed

lemma jobs_ok_bounds: "jobs_ok js \<Longrightarrow> j \<in> set js \<Longrightarrow> 0 \<le> j_progress j \<and> j_progress j \<le> 100"
  unfolding jobs_ok_def list_all_iff by blast

lemma update_job_wf:
  assumes wf: "material_wf H d"
    and "update_artifact_job dt job_id state progress message err details d = Inr (r, d')"
  shows "material_wf H d'"
proof -
  obtain s j payload where j: "get_job job_id d = Some j" "active_job j \<or> s = j_state j"
    and d': "d' = store_job j (set_job dt s (max 0 (min 100 progress)) message err payload) s d"
    using update_job_result [OF assms(2)] by blast
  let ?f = "set_job dt s (max 0 (min 100 progress)) message err payload"
  have ok: "jobs_ok (artifact_jobs d)" using wf by (simp add: material_wf_def)
  have "jobs_ok (artifact_jobs d')"
    unfolding d' store_job_simps
  proof (rule jobs_ok_update [OF ok])
    fix x assume x: "x \<in> set (artifact_jobs d)" "j_job_id x = j_job_id j"
    then have "x = j" using get_job_unique [OF ok j(1)] get_job_mem [OF j(1)] by auto
    then show "j_job_id (?f x) = j_job_id x \<and> j_tid (?f x) = j_tid x
        \<and> (active_job (?f x) \<longrightarrow> active_job x) \<and> 0 \<le> j_progress (?f x) \<and> j_progress (?f x) \<le> 100"
      using j(2) by (auto simp: active_job_def set_job_def)
  qed
  then show ?thesis
    by (rule material_wf_jobs_write [OF wf]) (simp_all add: d' store_job_write)
qed

lemma state_write_trans:
  assumes "material_wf H d" and "state_write d d'" and "artifact_jobs d' = artifact_jobs d"
    and "artifact_revisions d' = artifact_revisions d" and "material_publications d' = material_publications d"
  shows "material_wf H d'"
  using material_wf_jobs_write [OF assms(1) _ assms(2,4,5)] assms(1,3) by (simp add: material_wf_def)

lemma reset_pending_wf: "material_wf H d \<Longrightarrow> material_wf H (reset_pending tid d)"
  by (rule state_write_trans [OF _ reset_pending_write]) simp_all

lemma reset_all_wf: "material_wf H d \<Longrightarrow> material_wf H (foldl (\<lambda>e tid. reset_pending tid e) d tids)"
  by (induction tids arbitrary: d) (simp_all add: reset_pending_wf)

lemma recover_jobs_wf:
  assumes "material_wf H d"
  shows "material_wf H (snd (recover_interrupted_artifact_jobs dt d))"
proof -
  have "material_wf H (update_job active_job (interrupt_job dt) d)"
  proof (rule material_wf_jobs_write [OF assms])
    have ok: "jobs_ok (artifact_jobs d)" using assms by (simp add: material_wf_def)
    show "jobs_ok (artifact_jobs (update_job active_job (interrupt_job dt) d))"
      unfolding update_job_simps
      by (rule jobs_ok_update [OF ok]) (simp add: interrupt_job_def active_job_def jobs_ok_bounds [OF ok])
  qed (simp_all add: state_write_same)
  then show ?thesis by (simp add: recover_interrupted_artifact_jobs_def Let_def reset_all_wf)
qed

section \<open>Revisions and receipts\<close>

lemma artifacts_okD:
  "artifacts_ok vs \<Longrightarrow> x \<in> set vs \<Longrightarrow> y \<in> set vs \<Longrightarrow> approved x \<Longrightarrow> approved y \<Longrightarrow> v_tid x = v_tid y
     \<Longrightarrow> art_key x = art_key y"
  unfolding artifacts_ok_def by blast

lemma get_artifact_key: "get_artifact tid rev' d = find (\<lambda>v. art_key v = (tid, rev')) (artifact_revisions d)"
  by (simp add: get_artifact_def art_key_def)

lemma get_publication_key:
  "get_publication tid rev' d = find (\<lambda>m. pub_key m = (tid, rev')) (material_publications d)"
  by (simp add: get_publication_def pub_key_def)

lemma get_artifact_mem:
  "get_artifact tid rev' d = Some v \<Longrightarrow> v \<in> set (artifact_revisions d) \<and> v_tid v = tid \<and> v_revision v = rev'"
  using find_Some_iff_mem unfolding get_artifact_def by fastforce

lemma get_publication_mem:
  "get_publication tid rev' d = Some m
     \<Longrightarrow> m \<in> set (material_publications d) \<and> m_tid m = tid \<and> m_revision m = rev'"
  using find_Some_iff_mem unfolding get_publication_def by fastforce

lemma get_artifact_unique:
  "artifacts_ok (artifact_revisions d) \<Longrightarrow> v \<in> set (artifact_revisions d)
     \<Longrightarrow> get_artifact (v_tid v) (v_revision v) d = Some v"
  unfolding get_artifact_key
  by (rule find_distinct_key [of art_key]) (auto simp only: artifacts_ok_def, simp add: art_key_def)

lemma get_artifact_None:
  "get_artifact tid rev' d = None \<longleftrightarrow> (tid, rev') \<notin> art_key ` set (artifact_revisions d)"
  unfolding get_artifact_key by (force simp: find_None_iff)

lemma get_publication_None:
  "get_publication tid rev' d = None \<longleftrightarrow> (tid, rev') \<notin> pub_key ` set (material_publications d)"
  unfolding get_publication_key by (force simp: find_None_iff)

lemma receipt_ok_mono: "receipt_ok H vs m \<Longrightarrow> set vs \<subseteq> set vs' \<Longrightarrow> receipt_ok H vs' m"
  unfolding receipt_ok_def by blast

lemma selection_ok_mono: "selection_ok vs c \<Longrightarrow> set vs \<subseteq> set vs' \<Longrightarrow> selection_ok vs' c"
  unfolding selection_ok_def by blast

lemma new_artifact_simps [simp]:
  "v_tid (new_artifact dt v) = v_tid v" "v_revision (new_artifact dt v) = v_revision v"
  "v_state (new_artifact dt v) = v_state v"
  by (simp_all add: new_artifact_def)

lemma artifacts_ok_append:
  assumes "artifacts_ok vs" and "art_key v \<notin> art_key ` set vs" and "\<not> approved v"
  shows "artifacts_ok (vs @ [v])"
proof -
  have "\<forall>x \<in> set (vs @ [v]). \<forall>y \<in> set (vs @ [v]). approved x \<and> approved y \<and> v_tid x = v_tid y
      \<longrightarrow> art_key x = art_key y"
  proof (intro ballI impI)
    fix x y assume "x \<in> set (vs @ [v])" "y \<in> set (vs @ [v])"
      and a: "approved x \<and> approved y \<and> v_tid x = v_tid y"
    then have "x \<in> set vs" "y \<in> set vs" using assms(3) by auto
    then show "art_key x = art_key y" using artifacts_okD [OF assms(1)] a by blast
  qed
  moreover have "distinct (map art_key (vs @ [v]))" using assms(1,2) by (simp add: artifacts_ok_def)
  ultimately show ?thesis unfolding artifacts_ok_def by blast
qed

lemma add_artifact_wf:
  assumes wf: "material_wf H d" and "get_artifact (v_tid v) (v_revision v) d = None" and "\<not> approved v"
  shows "material_wf H (d\<lparr>artifact_revisions := artifact_revisions d @ [new_artifact dt v]\<rparr>)"
proof -
  let ?vs = "artifact_revisions d" and ?v = "new_artifact dt v"
  have v: "art_key ?v \<notin> art_key ` set ?vs" "\<not> approved ?v"
    using assms(2,3) by (simp_all add: get_artifact_None art_key_def approved_def)
  have arts: "artifacts_ok ?vs" using wf by (simp add: material_wf_def)
  have "artifacts_ok (?vs @ [?v])" by (rule artifacts_ok_append [OF arts v])
  moreover have "publications_ok H (?vs @ [?v]) (material_publications d)"
    using wf v(2) receipt_ok_mono [of H ?vs _ "?vs @ [?v]"]
    by (auto simp: material_wf_def publications_ok_def list_all_iff)
  moreover have "list_all (selection_ok (?vs @ [?v])) (contests d)"
    using wf selection_ok_mono [of ?vs _ "?vs @ [?v]"] by (auto simp: material_wf_def list_all_iff)
  ultimately show ?thesis using wf by (simp add: material_wf_def contest_wf_def audit_ok_def)
qed

text \<open>What a new revision writes.\<close>

definition put_row :: "string \<Rightarrow> artifact \<Rightarrow> db \<Rightarrow> db" where
  "put_row dt v d = update_contest (\<lambda>c. c_tid c = v_tid v) (\<lambda>c. c\<lparr>c_material_state := v_state v\<rparr>)
     (d\<lparr>artifact_revisions := artifact_revisions d @ [new_artifact dt v]\<rparr>)"

lemma put_result:
  assumes "put_artifact_revision dt v job_id details d = Inr d'"
  shows "d' = d \<or> get_artifact (v_tid v) (v_revision v) d = None
     \<and> (job_id = [] \<and> d' = put_row dt v d
      \<or> (\<exists>payload. completable job_id v d
           \<and> d' = update_job (\<lambda>j. j_job_id j = job_id) (complete_job dt payload) (put_row dt v d)))"
proof (cases "job_id = []")
  case True
  then show ?thesis
    using assms by (auto simp: put_artifact_revision_def Let_def put_row_def split: if_split_asm option.splits)
next
  case False
  then show ?thesis
    using assms by (auto simp: put_artifact_revision_def Let_def put_row_def split: if_split_asm option.splits)
qed

lemma put_row_wf:
  assumes "material_wf H d" and "get_artifact (v_tid v) (v_revision v) d = None" and "\<not> approved v"
  shows "material_wf H (put_row dt v d)"
  unfolding put_row_def
  by (rule state_write_trans [OF add_artifact_wf [OF assms]]) (auto intro: state_write_update)

lemma put_row_jobs [simp]: "artifact_jobs (put_row dt v d) = artifact_jobs d"
  by (simp add: put_row_def)

lemma completable_active:
  assumes "completable job_id v d" and "jobs_ok (artifact_jobs d)" and "j \<in> set (artifact_jobs d)" and "j_job_id j = job_id"
  shows "active_job j"
proof -
  obtain i where i: "find (\<lambda>j. j_job_id j = job_id \<and> j_tid j = v_tid v) (artifact_jobs d) = Some i" "active_job i"
    using assms(1) by (auto simp: completable_def split: option.splits)
  then have m: "i \<in> set (artifact_jobs d)" "j_job_id i = job_id" using find_Some_iff_mem [OF i(1)] by auto
  then have "get_job job_id d = Some i"
    unfolding get_job_def using assms(2) by (intro find_distinct_key) (simp_all add: jobs_ok_def)
  then show ?thesis using get_job_unique [OF assms(2) _ assms(3,4)] i(2) by blast
qed

lemma put_wf:
  assumes wf: "material_wf H d" and "put_artifact_revision dt v job_id details d = Inr d'"
    and "v_state v \<in> {''draft'', ''review''}"
  shows "material_wf H d'"
proof -
  have v: "\<not> approved v" using assms(3) by (auto simp: approved_def)
  have ok: "jobs_ok (artifact_jobs d)" using wf by (simp add: material_wf_def)
  consider "d' = d"
    | "get_artifact (v_tid v) (v_revision v) d = None" "d' = put_row dt v d"
    | payload where "get_artifact (v_tid v) (v_revision v) d = None" "completable job_id v d"
        "d' = update_job (\<lambda>j. j_job_id j = job_id) (complete_job dt payload) (put_row dt v d)"
    using put_result [OF assms(2)] by (elim disjE conjE exE) simp_all
  then show ?thesis
  proof cases
    case 1
    then show ?thesis using wf by simp
  next
    case 2
    then show ?thesis using put_row_wf [OF wf _ v] by simp
  next
    case 3
    have "jobs_ok (artifact_jobs d')"
      unfolding 3(3) update_job_simps put_row_jobs
      by (rule jobs_ok_update [OF ok])
        (simp add: complete_job_def completable_active [OF 3(2) ok])
    then show ?thesis
      by (rule material_wf_jobs_write [OF put_row_wf [OF wf 3(1) v]]) (simp_all add: 3(3) state_write_same)
  qed
qed

section \<open>Approval\<close>

lemma validate_result:
  assumes "validate_material_publication H publication v = Inr (pid, sha, receipt)"
  shows "sha = canonical_json_sha256 H (receipt_json pid v) \<and> receipt = jsort (receipt_json pid v)
     \<and> re_exact is_hex 64 pid"
  using assms by (auto simp: validate_material_publication_def Let_def split: json.splits if_split_asm)

lemma store_publication_result:
  assumes "store_publication H dt publication v d = Inr d'"
  shows "(d' = d \<and> (v_tid v, v_revision v) \<in> pub_key ` set (material_publications d))
     \<or> (\<exists>pid. get_publication (v_tid v) (v_revision v) d = None
         \<and> pid \<notin> m_publication_id ` set (material_publications d)
         \<and> d' = d\<lparr>material_publications := material_publications d @ [\<lparr>m_tid = v_tid v,
             m_revision = v_revision v, m_publication_id = pid,
             m_receipt_sha256 = canonical_json_sha256 H (receipt_json pid v),
             m_receipt_json = jsort (receipt_json pid v), m_published_at = dt\<rparr>]\<rparr>)"
proof -
  obtain pid sha receipt where val: "validate_material_publication H publication v = Inr (pid, sha, receipt)"
    using assms by (auto simp: store_publication_def)
  note r = validate_result [OF val]
  show ?thesis
  proof (cases "get_publication (v_tid v) (v_revision v) d")
    case None
    then show ?thesis
      using assms val r
      by (intro disjI2 exI [of _ pid]) (auto simp: store_publication_def list_ex_iff split: if_split_asm)
  next
    case (Some m)
    then have "(v_tid v, v_revision v) \<in> pub_key ` set (material_publications d)"
      using get_publication_None [of "v_tid v" "v_revision v" d] by simp
    then show ?thesis using assms val Some by (auto simp: store_publication_def split: if_split_asm)
  qed
qed

lemma store_publication_wf:
  assumes wf: "material_wf H d" and v: "v \<in> set (artifact_revisions d)"
    and "store_publication H dt publication v d = Inr d'"
  shows "material_wf H d' \<and> (v_tid v, v_revision v) \<in> pub_key ` set (material_publications d')
     \<and> artifact_revisions d' = artifact_revisions d \<and> contests d' = contests d
     \<and> artifact_jobs d' = artifact_jobs d \<and> set (material_publications d) \<subseteq> set (material_publications d')"
proof -
  let ?vs = "artifact_revisions d" and ?ms = "material_publications d"
  from store_publication_result [OF assms(3)]
  show ?thesis
  proof (elim disjE exE conjE)
    assume "d' = d" "(v_tid v, v_revision v) \<in> pub_key ` set ?ms"
    then show ?thesis using wf by simp
  next
    fix pid
    let ?m = "\<lparr>m_tid = v_tid v, m_revision = v_revision v, m_publication_id = pid,
      m_receipt_sha256 = canonical_json_sha256 H (receipt_json pid v),
      m_receipt_json = jsort (receipt_json pid v), m_published_at = dt\<rparr>"
    assume none: "get_publication (v_tid v) (v_revision v) d = None"
      and pid: "pid \<notin> m_publication_id ` set ?ms" and d': "d' = d\<lparr>material_publications := ?ms @ [?m]\<rparr>"
    have key: "pub_key ?m = (v_tid v, v_revision v)" "pub_key ?m = art_key v"
      by (simp_all add: pub_key_def art_key_def)
    have ok: "publications_ok H ?vs ?ms" using wf by (simp add: material_wf_def)
    have "receipt_ok H ?vs ?m"
      unfolding receipt_ok_def using v key(2) by (intro bexI [of _ v]) simp_all
    moreover have "pub_key ?m \<notin> pub_key ` set ?ms" using none unfolding key(1) get_publication_None .
    ultimately have "publications_ok H ?vs (?ms @ [?m])"
      using ok pid by (auto simp: publications_ok_def list_all_iff)
    moreover have "contest_wf d'" using wf by (simp add: d' material_wf_def contest_wf_def audit_ok_def)
    ultimately have "material_wf H d'" using wf by (simp add: d' material_wf_def)
    then show ?thesis using key(1) by (auto simp: d')
  qed
qed

text \<open>Promotion rewrites one revision and those of the same contest that were approved before.\<close>

definition promote_row :: "string \<Rightarrow> string \<Rightarrow> artifact \<Rightarrow> artifact \<Rightarrow> artifact" where
  "promote_row dt teacher v x =
     (if art_key x = art_key v then approve dt teacher x
      else if v_tid x = v_tid v \<and> approved x then supersede dt x else x)"

lemma update_artifact_simps [simp]:
  "artifact_revisions (update_artifact p f d) = sql_update p f (artifact_revisions d)"
  "artifact_jobs (update_artifact p f d) = artifact_jobs d"
  "material_publications (update_artifact p f d) = material_publications d"
  "contests (update_artifact p f d) = contests d"
  "audit_events (update_artifact p f d) = audit_events d" "audit_seq (update_artifact p f d) = audit_seq d"
  by (simp_all add: update_artifact_def)

lemma promote_simps [simp]:
  "artifact_revisions (promote dt teacher v d) = map (promote_row dt teacher v) (artifact_revisions d)"
  "artifact_jobs (promote dt teacher v d) = artifact_jobs d"
  "material_publications (promote dt teacher v d) = material_publications d"
  "contests (promote dt teacher v d) = sql_update (\<lambda>c. c_tid c = v_tid v) (select_material v) (contests d)"
  "audit_events (promote dt teacher v d) = audit_events d" "audit_seq (promote dt teacher v d) = audit_seq d"
  by (auto simp: promote_def sql_update_def promote_row_def art_key_def approved_def supersede_def)

lemma promote_row_simps [simp]:
  "v_tid (promote_row dt teacher v x) = v_tid x" "v_revision (promote_row dt teacher v x) = v_revision x"
  "art_key (promote_row dt teacher v x) = art_key x" "bytes (promote_row dt teacher v x) = bytes x"
  "immutable (promote_row dt teacher v x) = immutable x"
  "expected_attachments (promote_row dt teacher v x) = expected_attachments x"
  "receipt_json pid (promote_row dt teacher v x) = receipt_json pid x"
  by (simp_all add: promote_row_def approve_def supersede_def art_key_def bytes_def immutable_def
      receipt_json_def expected_attachments_def)

lemma promote_row_approved:
  "approved (promote_row dt teacher v x) \<longleftrightarrow> art_key x = art_key v \<or> approved x \<and> v_tid x \<noteq> v_tid v"
  by (auto simp: promote_row_def approved_def approve_def supersede_def)

lemma promote_artifacts_ok:
  assumes "artifacts_ok vs"
  shows "artifacts_ok (map (promote_row dt teacher v) vs)"
proof -
  let ?g = "promote_row dt teacher v"
  have "\<forall>x \<in> set (map ?g vs). \<forall>y \<in> set (map ?g vs). approved x \<and> approved y \<and> v_tid x = v_tid y
      \<longrightarrow> art_key x = art_key y"
  proof (intro ballI impI)
    fix x y assume "x \<in> set (map ?g vs)" "y \<in> set (map ?g vs)"
      and a: "approved x \<and> approved y \<and> v_tid x = v_tid y"
    then obtain i j where m: "i \<in> set vs" "j \<in> set vs" and xy: "x = ?g i" "y = ?g j" by auto
    have ij: "art_key i = art_key v \<or> approved i \<and> v_tid i \<noteq> v_tid v"
        "art_key j = art_key v \<or> approved j \<and> v_tid j \<noteq> v_tid v" "v_tid i = v_tid j"
      using a by (auto simp add: xy promote_row_approved)
    have "art_key i = art_key j"
    proof (cases "v_tid i = v_tid v")
      case True
      then show ?thesis using ij by simp
    next
      case False
      then have "approved i" "approved j" using ij by (auto simp: art_key_def)
      then show ?thesis using artifacts_okD [OF assms m _ _ ij(3)] by blast
    qed
    then show "art_key x = art_key y" by (simp add: xy)
  qed
  moreover have "distinct (map art_key (map ?g vs))" using assms by (simp add: artifacts_ok_def comp_def)
  ultimately show ?thesis unfolding artifacts_ok_def by blast
qed

lemma promote_publications_ok:
  assumes "publications_ok H vs ms" and "art_key v \<in> pub_key ` set ms"
  shows "publications_ok H (map (promote_row dt teacher v) vs) ms"
proof -
  let ?g = "promote_row dt teacher v"
  have r: "receipt_ok H (map ?g vs) m" if m: "receipt_ok H vs m" for m
  proof -
    obtain x where x: "x \<in> set vs" "art_key x = pub_key m"
      "m_receipt_json m = jsort (receipt_json (m_publication_id m) x)"
      "m_receipt_sha256 m = canonical_json_sha256 H (receipt_json (m_publication_id m) x)"
      using m unfolding receipt_ok_def by blast
    then show ?thesis unfolding receipt_ok_def by (intro bexI [of _ "?g x"]) simp_all
  qed
  have "art_key x \<in> pub_key ` set ms" if x: "x \<in> set (map ?g vs)" "approved x" for x
  proof -
    obtain y where y: "y \<in> set vs" "x = ?g y" using x(1) by auto
    then have "art_key y = art_key v \<or> approved y" using x(2) by (auto simp: promote_row_approved)
    then have "art_key y \<in> pub_key ` set ms"
      using assms y(1) unfolding publications_ok_def list_all_iff by metis
    then show ?thesis by (simp add: y(2))
  qed
  then show ?thesis using assms r unfolding publications_ok_def list_all_iff by blast
qed

lemma select_material_tid: "c_tid (select_material v c) = c_tid c"
  by (simp add: select_material_def)

lemma promote_selection_ok:
  assumes "list_all (selection_ok vs) cs" and v: "v \<in> set vs"
  shows "list_all (selection_ok (map (promote_row dt teacher v) vs))
     (sql_update (\<lambda>c. c_tid c = v_tid v) (select_material v) cs)"
  unfolding list_all_iff
proof
  let ?g = "promote_row dt teacher v"
  fix c' assume "c' \<in> set (sql_update (\<lambda>c. c_tid c = v_tid v) (select_material v) cs)"
  then obtain c where c: "c \<in> set cs" "c' = (if c_tid c = v_tid v then select_material v c else c)"
    unfolding in_sql_update by blast
  show "selection_ok (map ?g vs) c'"
  proof (cases "c_tid c = v_tid v")
    case True
    then have "art_key (?g v) = (c_tid c', c_active_material_revision c')" "bytes (?g v) = selected_bytes c'"
      using c(2) by (simp_all add: art_key_def select_material_def bytes_def selected_bytes_def promote_row_def
          approve_def)
    moreover have "?g v \<in> set (map ?g vs)" "approved (?g v)" using v by (auto simp: promote_row_approved)
    ultimately show ?thesis unfolding selection_ok_def by blast
  next
    case False
    then have c': "c' = c" using c by simp
    show ?thesis
    proof (cases "unselected c")
      case True
      then show ?thesis by (simp add: c' selection_ok_def)
    next
      case False
      then obtain x where x: "x \<in> set vs" "approved x"
        "art_key x = (c_tid c, c_active_material_revision c)" "bytes x = selected_bytes c"
        using assms(1) c(1) unfolding list_all_iff selection_ok_def by blast
      have "v_tid x = c_tid c" using x(3) by (simp add: art_key_def)
      then have "approved (?g x)" using x(2) \<open>c_tid c \<noteq> v_tid v\<close> by (simp add: promote_row_approved)
      then show ?thesis
        unfolding selection_ok_def c' using x by (intro disjI2 bexI [of _ "?g x"]) simp_all
    qed
  qed
qed

lemma promote_wf:
  assumes wf: "material_wf H d" and v: "v \<in> set (artifact_revisions d)"
    and "art_key v \<in> pub_key ` set (material_publications d)"
  shows "material_wf H (promote dt teacher v d)"
proof -
  have "contest_wf d" using wf by (simp add: material_wf_def)
  then have "contest_wf (update_contest (\<lambda>c. c_tid c = v_tid v) (select_material v) d)"
    by (rule contest_wf_update) (simp_all add: select_material_def contest_ok_def evidence_ok_def)
  then have "contest_wf (promote dt teacher v d)" by (simp add: contest_wf_def audit_ok_def)
  then show ?thesis
    using wf promote_artifacts_ok promote_publications_ok [OF _ assms(3)] promote_selection_ok [OF _ v]
    by (simp add: material_wf_def)
qed

lemma approvable_result:
  assumes "approvable tid rev' d = Inr v"
  shows "v \<in> set (artifact_revisions d) \<and> v_tid v = tid \<and> v_revision v = rev'
     \<and> get_artifact tid rev' d = Some v \<and> v_state v \<in> {''review'', ''approved''}
     \<and> (\<exists>c. get_contest tid d = Some c \<and> c_state c \<in> {Registered, Errored})"
  using assms get_artifact_mem [of tid rev' d v]
  by (auto simp: approvable_def split: option.splits if_split_asm)

lemma approve_result:
  assumes wf: "material_wf H d" and "approve_artifact_row H dt tid rev' teacher publication d = Inr (v', d')"
  shows "\<exists>v d1. approvable tid rev' d = Inr v \<and> material_wf H d1
     \<and> artifact_revisions d1 = artifact_revisions d \<and> contests d1 = contests d \<and> artifact_jobs d1 = artifact_jobs d
     \<and> set (material_publications d) \<subseteq> set (material_publications d1)
     \<and> art_key v \<in> pub_key ` set (material_publications d1)
     \<and> v_testdata_sha256 v \<noteq> [] \<and> v_paper_sha256 v \<noteq> []
     \<and> (if v_state v = ''approved'' then v' = v \<and> d' = d1
        else d' = promote dt teacher v d1 \<and> get_artifact tid rev' d' = Some v')"
proof -
  obtain v where v: "approvable tid rev' d = Inr v" using assms(2) by (auto simp: approve_artifact_row_def)
  note r = approvable_result [OF v]
  let ?post = "\<lambda>d1. if v_state v = ''approved'' then Inr (v, d1) else
         let d2 = promote dt teacher v d1
         in bindE (of_option (RuntimeError ''row'') (get_artifact tid rev' d2)) (\<lambda>v'. Inr (v', d2))"
  obtain d1 where d1: "(case publication of
         Some p \<Rightarrow> store_publication H dt p v d
       | None \<Rightarrow> if get_publication tid rev' d = None
           then Inl (SubmissionConflictError ''no publication receipt has been stored'') else Inr d) = Inr d1"
    and post: "?post d1 = Inr (v', d')"
    and good: "v_testdata_sha256 v \<noteq> []" "v_paper_sha256 v \<noteq> []"
    using assms(2) v by (auto simp: approve_artifact_row_def simp del: of_option_eq_Inr split: if_split_asm)
  have key: "art_key v = (tid, rev')" using r by (simp add: art_key_def)
  have s: "material_wf H d1 \<and> artifact_revisions d1 = artifact_revisions d \<and> contests d1 = contests d
     \<and> artifact_jobs d1 = artifact_jobs d
     \<and> set (material_publications d) \<subseteq> set (material_publications d1)
     \<and> art_key v \<in> pub_key ` set (material_publications d1)"
  proof (cases publication)
    case None
    then show ?thesis using d1 wf get_publication_None [of tid rev' d] by (simp add: key split: if_split_asm)
  next
    case (Some p)
    then have "store_publication H dt p v d = Inr d1" using d1 by simp
    from store_publication_wf [OF wf _ this] r show ?thesis by (simp add: key)
  qed
  have "if v_state v = ''approved'' then v' = v \<and> d' = d1
        else d' = promote dt teacher v d1 \<and> get_artifact tid rev' d' = Some v'"
    using post by (cases "v_state v = ''approved''") (auto simp: Let_def)
  then show ?thesis using v s good by blast
qed

lemma approve_wf:
  assumes "material_wf H d" and "approve_artifact_row H dt tid rev' teacher publication d = Inr (v', d')"
  shows "material_wf H d'"
proof -
  obtain v d1 where r: "approvable tid rev' d = Inr v" "material_wf H d1"
     "artifact_revisions d1 = artifact_revisions d" "art_key v \<in> pub_key ` set (material_publications d1)"
     "if v_state v = ''approved'' then v' = v \<and> d' = d1
        else d' = promote dt teacher v d1 \<and> get_artifact tid rev' d' = Some v'"
    using approve_result [OF assms] by blast
  have "v \<in> set (artifact_revisions d1)" using approvable_result [OF r(1)] r(3) by simp
  then have "material_wf H (promote dt teacher v d1)" by (rule promote_wf [OF r(2) _ r(4)])
  then show ?thesis using r(2,5) by (simp split: if_split_asm)
qed

lemma material_step_wf: "material_wf H d \<Longrightarrow> material_step H c d = Inr d' \<Longrightarrow> material_wf H d'"
  by (cases c)
    (auto simp: recover_jobs_wf intro: put_wf approve_wf start_job_wf update_job_wf contest_op_wf
      split: if_split_asm)

interpretation material: machine "material_step H" "material_wf H" for H
  by unfold_locales (rule material_step_wf)

end
