(* ===== verification/ContestThms.thy ===== *)
theory ContestThms
  imports ContestInv OutboxThms
begin

text \<open>
  What the contest rows promise: a safe end has its evidence and its time boundary, a state change has
  one winner, the audit trail only grows, retention never runs early, the problem mapping stays in step
  with the registered files. Two theorems show where the code does not do what it means to.
\<close>

section \<open>The audit trail grows\<close>

definition audit_le :: "db \<Rightarrow> db \<Rightarrow> bool" where
  "audit_le d d' \<longleftrightarrow> (\<exists>new. audit_events d' = audit_events d @ new)"

lemma audit_le_add: "audit_le d (add_audit dt tid actor action outcome details ms d)"
  by (simp add: audit_le_def add_audit_def)

lemma audit_le_same: "audit_events d' = audit_events d \<Longrightarrow> audit_le d d'"
  by (simp add: audit_le_def)

lemma audit_le_trans: "audit_le d e \<Longrightarrow> audit_le e f \<Longrightarrow> audit_le d f"
  by (auto simp: audit_le_def)

lemma audit_le_update_add:
  "audit_le d (add_audit dt tid actor action outcome details ms (update_contest p f d))"
  by (simp add: audit_le_def add_audit_def)

lemma audit_le_fold:
  "audit_le e (foldl (\<lambda>e c. add_audit dt (c_tid c) a b o' j obs e) e rows)"
proof (induction rows arbitrary: e)
  case Nil
  show ?case by (simp add: audit_le_same)
next
  case (Cons c rows)
  show ?case unfolding foldl_Cons by (rule audit_le_trans [OF audit_le_add Cons.IH])
qed

lemma update_known_audit: "update_known tid f d = Inr d' \<Longrightarrow> audit_le d d'"
  by (auto simp: update_known_def Let_def audit_le_def split: if_splits)

lemma contest_step_audit: "contest_step c d = Inr d' \<Longrightarrow> audit_le d d'"
proof (cases c)
  case (Recover dt obs)
  assume "contest_step c d = Inr d'"
  then have d': "d' = foldl (\<lambda>e c. add_audit dt (c_tid c) ''system''
      ''contest.recovery.prepare_interrupted'' ''failed'' (JObj [(''state'', JStr ''error'')]) obs e)
      (update_contest (\<lambda>c. c_state c = Preparing)
        (\<lambda>c. c\<lparr>c_state := Errored, c_message := ''service restarted while preparing''\<rparr>) d)
      (filter (\<lambda>c. c_state c = Preparing) (contests d))"
    using Recover by (simp add: recover_interrupted_contests_def Let_def split: if_splits)
  show ?thesis unfolding d' by (rule audit_le_trans [OF _ audit_le_fold]) (simp add: audit_le_same)
next
  case (Transition dt ms tid src to m)
  assume "contest_step c d = Inr d'"
  then show ?thesis
    using Transition
    by (auto simp: transition_def Let_def audit_le_same intro: audit_le_update_add split: if_splits)
qed (auto simp: upsert_contest_def set_state_def enter_safe_wait_def mark_safe_ended_def Let_def
    mark_retention_purged_def append_audit_def mark_time_sync_def set_paper_def
    clear_material_selection_def set_testdata_def audit_le_same
    intro: audit_le_update_add audit_le_add update_known_audit split: if_splits option.splits)

interpretation contest: progress_machine contest_step contest_wf audit_le
  by unfold_locales (auto intro: audit_le_same audit_le_trans contest_step_audit)

section \<open>Lookups\<close>

lemma get_contest_mem:
  "contest_wf d \<Longrightarrow> get_contest tid d = Some c \<longleftrightarrow> c \<in> set (contests d) \<and> c_tid c = tid"
  unfolding get_contest_def contest_wf_def
  by (auto dest: find_Some_iff_mem intro: find_distinct_key)

text \<open>The number of rows of one contest that satisfy a guard.\<close>

lemma rowcount_tid:
  assumes "contest_wf d"
  shows "rowcount (\<lambda>c. c_tid c = tid \<and> q c) (contests d)
    = (case get_contest tid d of None \<Rightarrow> 0 | Some c \<Rightarrow> if q c then 1 else 0)"
proof -
  have "distinct (map c_tid (contests d))" using assms by (simp add: contest_wf_def)
  from rowcount_by_key [OF this, of "\<lambda>c. c_tid c = tid \<and> q c" tid]
  have "rowcount (\<lambda>c. c_tid c = tid \<and> q c) (contests d)
    = (case get_contest tid d of None \<Rightarrow> 0 | Some c \<Rightarrow> if c_tid c = tid \<and> q c then 1 else 0)"
    by (simp add: get_contest_def)
  then show ?thesis using get_contest_mem [OF assms, of tid]
    by (cases "get_contest tid d") (simp_all, metis)
qed

lemma rowcount_tid_1:
  "contest_wf d \<Longrightarrow> rowcount (\<lambda>c. c_tid c = tid \<and> q c) (contests d) = 1
     \<longleftrightarrow> (\<exists>c. get_contest tid d = Some c \<and> q c)"
  by (simp add: rowcount_tid split: option.split)

text \<open>Reading one contest after an update that keeps the keys.\<close>

lemma get_contest_update:
  "(\<And>c. p c \<Longrightarrow> c_tid (f c) = c_tid c) \<Longrightarrow>
   get_contest tid (update_contest p f d) = map_option (\<lambda>c. if p c then f c else c) (get_contest tid d)"
  unfolding get_contest_def update_contest_simps by (rule find_sql_update) simp

lemma get_contest_audit [simp]:
  "get_contest tid (add_audit dt t actor action outcome details ms d) = get_contest tid d"
  by (simp add: get_contest_def)

section \<open>Properties\<close>

text \<open>C23: Whatever the order of registrations, state changes, shutdown attempts, restarts and retention
  runs, a contest that is safely ended has a collection run with a directory and a SHA-256 receipt, and
  its shutdown was verified no earlier than the boundary set at collection, itself no earlier than the
  completion of the collection.\<close>

theorem safe_end_needs_evidence:
  assumes "c \<in> set (contests (history contest_step ops empty_db))" and "c_state c \<in> {SafeEnded, Done}"
  shows "c_collection_run_id c \<noteq> [] \<and> c_collection_dir c \<noteq> []
     \<and> re_exact is_hex 64 (c_collection_receipt_sha256 c)
     \<and> 0 < c_collection_completed_at_ms c
     \<and> c_collection_completed_at_ms c \<le> c_shutdown_after_ms c
     \<and> c_shutdown_after_ms c \<le> c_shutdown_verified_at_ms c"
proof -
  have "contest_wf (history contest_step ops empty_db)"
    by (rule contest.history_inv [OF contest_wf_empty])
  then have "contest_ok c" using assms(1) by (simp add: contest_wf_def list_all_iff)
  then show ?thesis
    using assms(2)
    by (auto simp: contest_ok_def evidence_ok_def protected_def revision_ok_def re_head_def)
qed

lemma transition_won:
  assumes "contest_wf d" and "transition dt ms tid from to m d = (True, d1)" and "to \<notin> set from"
  shows "\<exists>c. get_contest tid d = Some c \<and> c_state c \<in> set from
     \<and> get_contest tid d1 = Some (c\<lparr>c_state := to, c_message := m\<rparr>)
     \<and> fst (transition dt' ms' tid from to m' d1) = False
     \<and> contests (snd (transition dt' ms' tid from to m' d1)) = contests d1"
proof -
  let ?p = "\<lambda>c. c_tid c = tid \<and> c_state c \<in> set from" and ?f = "\<lambda>c. c\<lparr>c_state := to, c_message := m\<rparr>"
  have rc: "from \<noteq> []" "rowcount ?p (contests d) = 1"
    and d1: "contests d1 = sql_update ?p ?f (contests d)"
    and g1: "get_contest tid d1 = get_contest tid (update_contest ?p ?f d)"
    using assms(2) by (auto simp: transition_def Let_def split: if_splits)
  obtain c where c: "get_contest tid d = Some c" "c_state c \<in> set from"
    using rc(2) unfolding rowcount_tid_1 [OF assms(1)] by blast
  have get1: "get_contest tid d1 = Some (?f c)"
    using c get_contest_mem [OF assms(1), of tid c] unfolding g1 by (simp add: get_contest_update)
  have none: "\<not> ?p x" if mem: "x \<in> set (contests d1)" for x
  proof -
    obtain y where "x = (if ?p y then ?f y else y)" using mem unfolding d1 in_sql_update by blast
    then show ?thesis using assms(3) by (cases "?p y") simp_all
  qed
  then have "rowcount ?p (contests d1) = 0" by (simp add: rowcount_0)
  moreover have "sql_update ?p g (contests d1) = contests d1" for g using none by (intro sql_update_id) auto
  ultimately show ?thesis using c get1 by (simp add: transition_def Let_def)
qed

text \<open>A guarded state change has one winner: after one caller moved a contest out of the states it
  asked for, the same request of another caller changes nothing and reports so.\<close>

theorem transition_one_winner:
  assumes "contest_wf d" and "transition dt ms tid from to m d = (True, d1)" and "to \<notin> set from"
  shows "\<exists>c. get_contest tid d = Some c \<and> c_state c \<in> set from
     \<and> get_contest tid d1 = Some (c\<lparr>c_state := to, c_message := m\<rparr>)
     \<and> fst (transition dt' ms' tid from to m' d1) = False
     \<and> contests (snd (transition dt' ms' tid from to m' d1)) = contests d1"
  by (rule transition_won [OF assms])

text \<open>The audit trail is append-only: no operation on contests removes or changes an event, event
  ids strictly increase, and a winning state change appends exactly one event naming its target.\<close>

theorem audit_append_only:
  assumes "contest_wf d"
  shows "(\<exists>new. audit_events (history contest_step ops d) = audit_events d @ new)
     \<and> sorted_wrt (<) (map a_id (audit_events (history contest_step ops d)))
     \<and> (fst (transition dt ms tid from to m d) \<longrightarrow>
          (\<exists>e. audit_events (snd (transition dt ms tid from to m d)) = audit_events d @ [e]
             \<and> a_tid e = tid \<and> a_action e = ''contest.state.transition'' \<and> a_created_at_ms e = ms
             \<and> jget ''to'' (a_details_json e) = Inr (Some (JStr (state_text to)))))"
  using contest.history_le [OF assms, of ops] contest.history_inv [OF assms, of ops]
  by (auto simp: audit_le_def contest_wf_def audit_ok_def transition_def Let_def add_audit_def)

text \<open>Retention never runs early: every candidate is safely ended, at least the workspace retention
  has passed since the shutdown boundary of its collection, and if only its evidence is still there, the
  evidence retention has passed; candidates come in the order of their shutdown.\<close>

theorem retention_never_early:
  assumes "contest_wf d" and "retention_candidates now workspace_days evidence_days d = Inr cs"
  shows "sorted (map c_shutdown_verified_at_ms cs)
     \<and> (\<forall>c \<in> set cs. c_state c \<in> {SafeEnded, Done}
          \<and> c_shutdown_after_ms c + workspace_days * 86400000 \<le> now
          \<and> (c_workspace_purged_at_ms c \<noteq> 0 \<longrightarrow>
               c_evidence_purged_at_ms c = 0 \<and> c_shutdown_after_ms c + evidence_days * 86400000 \<le> now))"
proof -
  have b: "workspace_days * day_ms > 0" "workspace_days * day_ms \<le> evidence_days * day_ms"
    and cs: "cs = sort_key c_shutdown_verified_at_ms (sort_key c_tid
        (filter (retention_due now (workspace_days * day_ms) (evidence_days * day_ms)) (contests d)))"
    using assms(2) by (auto simp: retention_candidates_def Let_def split: if_splits)
  have "sorted (map c_shutdown_verified_at_ms cs)" unfolding cs by (rule sorted_sort_key)
  moreover have "c_shutdown_after_ms c \<le> c_shutdown_verified_at_ms c"
    if "c \<in> set (contests d)" "c_state c \<in> {SafeEnded, Done}" for c
    using assms(1) that by (auto simp: contest_wf_def list_all_iff contest_ok_def)
  ultimately show ?thesis
    using b by (auto simp: cs retention_due_def day_ms_def) (smt (verit))+
qed

text \<open>Replacing the problem mapping of a contest keeps the mapping and the registered files in step:
  it succeeds only for an untouched contest of the expected session, and the stored mapping then has
  exactly the registered file names as keys and pairwise different problem ids.\<close>

theorem pid_map_matches_files:
  assumes "contest_wf d" and "replace_contest_pid_map tid session pid_map d = Inr (c', d')"
  shows "\<exists>c files m. get_contest tid d = Some c \<and> c_state c \<in> {Registered, Errored}
     \<and> c_submission_session c = session \<and> \<not> has_run_evidence tid d \<and> c_files c = Some files
     \<and> c' = c\<lparr>c_pids := Some m\<rparr> \<and> get_contest tid d' = Some c'
     \<and> set (map fst m) = set files \<and> distinct (map snd m)
     \<and> (\<forall>x. x \<noteq> tid \<longrightarrow> get_contest x d' = get_contest x d)"
proof -
  obtain n where n: "normalized_pids pid_map = Inr n" "distinct (map snd n)"
    and "replace_contest_pid_map tid session pid_map d = Inr (c', d')"
    using assms(2) by (auto simp: replace_contest_pid_map_def split: if_splits)
  then obtain c files where c: "get_contest tid d = Some c" "c_state c \<in> {Registered, Errored}"
      "c_submission_session c = session" "c_files c = Some files" "\<not> has_run_evidence tid d"
      "set files = set (map fst n)"
    and d': "d' = update_contest (\<lambda>c. c_tid c = tid) (\<lambda>c. c\<lparr>c_pids := Some (sort_key fst n)\<rparr>) d"
    and g: "get_contest tid d' = Some c'"
    by (auto simp: replace_contest_pid_map_def Let_def split: if_splits option.splits)
  have tid: "c_tid c = tid" using c(1) get_contest_mem [OF assms(1)] by blast
  have look: "get_contest x d' = map_option (\<lambda>c. if c_tid c = tid then c\<lparr>c_pids := Some (sort_key fst n)\<rparr> else c)
      (get_contest x d)" for x
    unfolding d' by (rule get_contest_update) simp
  have "c' = c\<lparr>c_pids := Some (sort_key fst n)\<rparr>" using look [of tid] c(1) g tid by simp
  moreover have "get_contest x d' = get_contest x d" if "x \<noteq> tid" for x
  proof (cases "get_contest x d")
    case (Some c)
    then have "c_tid c = x" using get_contest_mem [OF assms(1)] by blast
    then show ?thesis using look [of x] that Some by simp
  qed (use look [of x] in simp)
  moreover have "distinct (map snd (sort_key fst n))"
    using n(2) by (simp add: distinct_map)
  ultimately show ?thesis using c g by (intro exI [of _ c] exI [of _ files] exI [of _ "sort_key fst n"]) auto
qed

text \<open>Registering a contest again keeps the purge marks of its previous run: when that run had been
  purged, no later retention sweep ever lists the new run for its workspace, however it ends.\<close>

theorem reregistered_never_purged:
  assumes "contest_wf d" and "get_contest (u_tid u) d = Some c" and "c_workspace_purged_at_ms c \<noteq> 0"
    and "upsert_contest dt session u d = Inr d1"
    and "enter_safe_wait (u_tid u) run dir rec completed after m (set_state dt ms (u_tid u) Collecting m' d1) = Inr (b, d2)"
    and "mark_safe_ended (u_tid u) obs m'' d2 = (True, d3)"
  shows "\<exists>c3. get_contest (u_tid u) d3 = Some c3 \<and> c_state c3 = SafeEnded
     \<and> \<not> (c_workspace_purged_at_ms c3 = 0) \<and> (c_evidence_purged_at_ms c \<noteq> 0 \<longrightarrow>
          (\<forall>now days days' cs. retention_candidates now days days' d3 = Inr cs \<longrightarrow> c3 \<notin> set cs))"
proof -
  have d1: "d1 = update_contest (\<lambda>c. c_tid c = u_tid u) (reregistered session u) d"
    using assms(2,4) by (auto simp: upsert_contest_def split: if_splits)
  let ?f = "\<lambda>c. (reregistered session u c)\<lparr>c_state := Collecting, c_message := m'\<rparr>"
  have tid: "c_tid c = u_tid u" using assms(2) get_contest_mem [OF assms(1)] by blast
  have g2: "get_contest (u_tid u) (set_state dt ms (u_tid u) Collecting m' d1) = Some (?f c)"
    using assms(2) tid by (simp add: set_state_def d1 get_contest_update reregistered_def)
  obtain g where d2: "d2 = update_contest (\<lambda>c. c_tid c = u_tid u \<and> c_state c = Collecting) g
        (set_state dt ms (u_tid u) Collecting m' d1)"
    and g: "\<And>c. c_tid (g c) = c_tid c" "\<And>c. c_workspace_purged_at_ms (g c) = c_workspace_purged_at_ms c"
      "\<And>c. c_evidence_purged_at_ms (g c) = c_evidence_purged_at_ms c"
    using assms(5) by (auto simp: enter_safe_wait_def Let_def split: if_splits)
  then obtain c2 where c2: "get_contest (u_tid u) d2 = Some c2" "c_tid c2 = u_tid u"
    "c_workspace_purged_at_ms c2 = c_workspace_purged_at_ms c"
    "c_evidence_purged_at_ms c2 = c_evidence_purged_at_ms c"
    using g2 tid by (simp add: get_contest_update reregistered_def)
  let ?p = "\<lambda>c. c_tid c = u_tid u \<and> c_state c = SafeWait \<and> 0 < c_shutdown_after_ms c \<and> c_shutdown_after_ms c \<le> obs"
  have d3: "d3 = update_contest ?p (\<lambda>c. c\<lparr>c_state := SafeEnded, c_message := m'', c_shutdown_verified_at_ms := obs\<rparr>) d2"
    and one: "rowcount ?p (contests d2) = 1"
    using assms(6) by (auto simp: mark_safe_ended_def Let_def)
  have wf2: "contest_wf d2"
  proof -
    have "contest_wf d1" by (rule upsert_wf [OF assms(1,4)])
    then have "contest_wf (set_state dt ms (u_tid u) Collecting m' d1)"
      by (rule set_state_wf) (simp add: protected_def)
    then show ?thesis by (rule enter_safe_wait_wf [OF _ assms(5)])
  qed
  have "?p c2"
    using one c2 unfolding rowcount_tid_1 [OF wf2] by simp
  then have g3: "get_contest (u_tid u) d3
      = Some (c2\<lparr>c_state := SafeEnded, c_message := m'', c_shutdown_verified_at_ms := obs\<rparr>)"
    using c2(1) by (simp add: d3 get_contest_update)
  then show ?thesis
    using c2(3,4) assms(3)
    by (auto simp: retention_candidates_def retention_due_def Let_def split: if_splits)
qed

text \<open>A plain state write undoes a collection that started meanwhile: after a caller won the change
  from ready to collecting, the scheduler's unconditional write of ready makes the contest accept new
  submissions again and the collection's commit of its evidence is refused.\<close>

theorem stale_ready_reopens:
  assumes "contest_wf d" and "transition dt ms tid [Ready] Collecting m d = (True, d1)"
    and "d2 = set_state dt' ms' tid Ready m' d1"
    and "enter_safe_wait tid run dir rec completed after m'' d2 = Inr (won, d3)"
  shows "\<not> won \<and> (\<exists>c. get_contest tid d2 = Some c \<and> c_state c = Ready
     \<and> window_error c t = (case get_contest tid d of Some c0 \<Rightarrow> window_error c0 t | None \<Rightarrow> None))"
proof -
  note w = transition_won [OF assms(1,2), simplified]
  have "contest_wf d1"
    using transition_wf [OF assms(1), of Collecting dt ms tid "[Ready]" m] assms(2) by (simp add: protected_def)
  then have wf2: "contest_wf d2" unfolding assms(3) by (rule set_state_wf) (simp add: protected_def)
  obtain c where c: "get_contest tid d = Some c" "c_state c = Ready"
    "get_contest tid d1 = Some (c\<lparr>c_state := Collecting, c_message := m\<rparr>)" using w by blast
  have g2: "get_contest tid d2 = Some (c\<lparr>c_state := Ready, c_message := m'\<rparr>)"
    using c(3) get_contest_mem [OF assms(1), of tid c] c(1)
    by (simp add: assms(3) set_state_def get_contest_update)
  have "rowcount (\<lambda>c. c_tid c = tid \<and> c_state c = Collecting) (contests d2) = 0"
    using rowcount_tid [OF wf2, of tid "\<lambda>c. c_state c = Collecting"] g2 by simp
  then have "\<not> won" using assms(4) by (auto simp: enter_safe_wait_def Let_def split: if_splits)
  then show ?thesis using c(1,2) g2 by (simp add: window_error_def)
qed

section \<open>Witnesses\<close>

definition demo_registration :: registration where
  "demo_registration = \<lparr>u_tid = ''t'', u_title = ''demo'', u_files = [''a''], u_pids = [(''a'', ''P1'')],
     u_submission_mode = ''folder'', u_begin_at_ms = 100, u_end_at_ms = 200, u_hydro_rule = ''oi'',
     u_materials_mode = ''manual'', u_material_state = ''pending'', u_max_participants = 15,
     u_spare_seats = 2, u_release_lead_minutes = 5, u_practice_groups = 3\<rparr>"

definition demo_receipt :: string where
  "demo_receipt = replicate 64 (CHR ''a'')"

definition demo_lifecycle :: "contest_op list" where
  "demo_lifecycle = [Register ''now'' ''s'' demo_registration,
     Transition ''now'' 1 ''t'' [Registered] Preparing [], SetState ''now'' 2 ''t'' Ready [],
     Transition ''now'' 200 ''t'' [Ready] Collecting [],
     EnterSafeWait ''t'' ''run1'' ''/collected/t'' demo_receipt 210 300 [],
     MarkSafeEnded ''t'' 250 [], MarkSafeEnded ''t'' 310 [], MarkPurged ''now'' ''t'' ''workspace'' 400]"

definition demo_ended :: contest where
  "demo_ended = (new_contest ''now'' ''s'' demo_registration)\<lparr>c_state := SafeEnded,
     c_collection_run_id := ''run1'', c_collection_dir := ''/collected/t'',
     c_collection_receipt_sha256 := demo_receipt, c_collection_completed_at_ms := 210,
     c_shutdown_after_ms := 300, c_shutdown_verified_at_ms := 310, c_workspace_purged_at_ms := 400\<rparr>"

definition demo_ended_db :: db where
  "demo_ended_db = history contest_step demo_lifecycle empty_db"

lemma demo_ended_contests: "contests demo_ended_db = [demo_ended]"
  by code_simp

lemma demo_ended_wf: "contest_wf demo_ended_db"
  unfolding demo_ended_db_def by (rule contest.history_inv [OF contest_wf_empty])

lemma demo_contest_wf: "contest_wf demo_db"
  by (simp add: contest_wf_def demo_db_def empty_db_def audit_ok_def demo_contest_def contest_ok_def protected_def)

theorem safe_end_needs_evidence_witness:
  "c_shutdown_after_ms demo_ended \<le> c_shutdown_verified_at_ms demo_ended"
  using safe_end_needs_evidence [of demo_ended demo_lifecycle] demo_ended_contests
  by (simp add: demo_ended_db_def demo_ended_def)

theorem transition_one_winner_witness:
  "\<exists>d1. transition ''now'' 1 ''t'' [Ready] Collecting [] demo_db = (True, d1)
     \<and> \<not> fst (transition ''now'' 2 ''t'' [Ready] Collecting [] d1)"
proof -
  have "fst (transition ''now'' 1 ''t'' [Ready] Collecting [] demo_db)" by code_simp
  then obtain d1 where t: "transition ''now'' 1 ''t'' [Ready] Collecting [] demo_db = (True, d1)"
    by (metis prod.collapse)
  then show ?thesis
    using transition_one_winner [OF demo_contest_wf t, of "''now''" 2 "[]"] by auto
qed

theorem audit_append_only_witness:
  "\<exists>new. audit_events (history contest_step demo_lifecycle demo_db) = audit_events demo_db @ new"
  using audit_append_only [OF demo_contest_wf, of demo_lifecycle] by blast

theorem retention_never_early_witness:
  "\<exists>cs. retention_candidates (200 * 86400000 + 310) 30 180 demo_ended_db = Inr cs \<and> demo_ended \<in> set cs
     \<and> 300 + 180 * 86400000 \<le> (200 * 86400000 + 310 :: int)"
proof -
  have r: "retention_candidates (200 * 86400000 + 310) 30 180 demo_ended_db = Inr [demo_ended]"
    by (simp add: retention_candidates_def demo_ended_contests retention_due_def demo_ended_def day_ms_def
        new_contest_def)
  from retention_never_early [OF demo_ended_wf r] show ?thesis
    using r by (simp add: demo_ended_def)
qed

definition demo_session :: string where
  "demo_session = replicate 32 (CHR ''a'')"

definition demo_registered_db :: db where
  "demo_registered_db = history contest_step [Register ''now'' demo_session demo_registration] empty_db"

lemma demo_registered_wf: "contest_wf demo_registered_db"
  unfolding demo_registered_db_def by (rule contest.history_inv [OF contest_wf_empty])

theorem pid_map_matches_files_witness:
  "\<exists>c' d' m. replace_contest_pid_map ''t'' demo_session (JObj [(''a'', JStr ''P9'')]) demo_registered_db
       = Inr (c', d') \<and> c_pids c' = Some m \<and> set (map fst m) = {''a''}"
proof -
  have "case replace_contest_pid_map ''t'' demo_session (JObj [(''a'', JStr ''P9'')]) demo_registered_db of
      Inl e \<Rightarrow> False | Inr x \<Rightarrow> True" by code_simp
  then obtain c' d' where r: "replace_contest_pid_map ''t'' demo_session (JObj [(''a'', JStr ''P9'')])
      demo_registered_db = Inr (c', d')" by (auto split: sum.splits)
  have "contests demo_registered_db = [new_contest ''now'' demo_session demo_registration]" by code_simp
  then have "get_contest ''t'' demo_registered_db = Some c \<Longrightarrow> c_files c = Some [''a'']" for c
    by (auto simp: get_contest_def new_contest_def demo_registration_def split: if_splits)
  then show ?thesis using pid_map_matches_files [OF demo_registered_wf r] r by fastforce
qed

theorem reregistered_never_purged_witness:
  "\<exists>d1 b d2 d3. upsert_contest ''later'' ''s2'' demo_registration demo_ended_db = Inr d1
     \<and> enter_safe_wait ''t'' ''run2'' ''/collected/t'' demo_receipt 910 950 []
         (set_state ''later'' 900 ''t'' Collecting [] d1) = Inr (b, d2)
     \<and> mark_safe_ended ''t'' 960 [] d2 = (True, d3)
     \<and> (\<exists>c3. get_contest ''t'' d3 = Some c3 \<and> c_state c3 = SafeEnded \<and> c_workspace_purged_at_ms c3 \<noteq> 0)"
proof -
  have t: "u_tid demo_registration = ''t''" by (simp add: demo_registration_def)
  have g: "get_contest ''t'' demo_ended_db = Some demo_ended"
    by (simp add: get_contest_def demo_ended_contests demo_ended_def new_contest_def demo_registration_def)
  have "case upsert_contest ''later'' ''s2'' demo_registration demo_ended_db of Inl e \<Rightarrow> False | Inr d1 \<Rightarrow>
      (case enter_safe_wait ''t'' ''run2'' ''/collected/t'' demo_receipt 910 950 []
         (set_state ''later'' 900 ''t'' Collecting [] d1) of Inl e \<Rightarrow> False
       | Inr (b, d2) \<Rightarrow> fst (mark_safe_ended ''t'' 960 [] d2))" by code_simp
  then obtain d1 b d2 d3 where r: "upsert_contest ''later'' ''s2'' demo_registration demo_ended_db = Inr d1"
    "enter_safe_wait ''t'' ''run2'' ''/collected/t'' demo_receipt 910 950 []
         (set_state ''later'' 900 ''t'' Collecting [] d1) = Inr (b, d2)"
    "mark_safe_ended ''t'' 960 [] d2 = (True, d3)"
    by (auto split: sum.splits prod.splits) (metis prod.collapse)
  have "c_workspace_purged_at_ms demo_ended \<noteq> 0" by (simp add: demo_ended_def)
  from reregistered_never_purged [OF demo_ended_wf, of demo_registration, unfolded t, OF g this r]
  show ?thesis using r by blast
qed

theorem stale_ready_reopens_witness:
  "\<exists>d1 won d3. transition ''now'' 1 ''t'' [Ready] Collecting [] demo_db = (True, d1)
     \<and> enter_safe_wait ''t'' ''run'' ''/c'' demo_receipt 210 300 [] (set_state ''now'' 2 ''t'' Ready [] d1)
         = Inr (won, d3) \<and> \<not> won"
proof -
  have "fst (transition ''now'' 1 ''t'' [Ready] Collecting [] demo_db)" by code_simp
  then obtain d1 where t: "transition ''now'' 1 ''t'' [Ready] Collecting [] demo_db = (True, d1)"
    by (metis prod.collapse)
  have "revision_ok ''run''" "re_exact is_hex 64 (map lower_char demo_receipt)" "py_strip ''/c'' \<noteq> []"
    by code_simp+
  then obtain won d3 where e: "enter_safe_wait ''t'' ''run'' ''/c'' demo_receipt 210 300 []
      (set_state ''now'' 2 ''t'' Ready [] d1) = Inr (won, d3)"
    by (simp add: enter_safe_wait_def Let_def)
  from stale_ready_reopens [OF demo_contest_wf t refl e, of 0] have "\<not> won" by blast
  with t e show ?thesis by blast
qed

end
