(* ===== verification/MaterialThms.thy ===== *)
theory MaterialThms
  imports MaterialInv ContestThms
begin

text \<open>
  What the materials promise: the selected bytes are the published ones, revisions and receipts are
  never rewritten, a finished job stays finished, an approval has exactly its stated effect, and a
  restart releases every job.
\<close>

section \<open>What cannot be undone\<close>

definition stage_le :: "string \<Rightarrow> string \<Rightarrow> bool" where
  "stage_le s t \<longleftrightarrow> s = t \<or> s = ''review'' \<and> t \<in> {''approved'', ''superseded''}
     \<or> s = ''approved'' \<and> t = ''superseded''"

definition art_le :: "artifact \<Rightarrow> artifact \<Rightarrow> bool" where
  "art_le v v' \<longleftrightarrow> immutable v' = immutable v \<and> stage_le (v_state v) (v_state v')"

definition job_le :: "job \<Rightarrow> job \<Rightarrow> bool" where
  "job_le j j' \<longleftrightarrow> j_job_id j' = j_job_id j \<and> j_tid j' = j_tid j \<and> j_revision j' = j_revision j
     \<and> j_progress j \<le> j_progress j' \<and> (\<not> active_job j \<longrightarrow> j_state j' = j_state j)"

definition material_le :: "db \<Rightarrow> db \<Rightarrow> bool" where
  "material_le d d' \<longleftrightarrow> above art_le (artifact_revisions d) (artifact_revisions d')
     \<and> set (material_publications d) \<subseteq> set (material_publications d')
     \<and> above job_le (artifact_jobs d) (artifact_jobs d')"

lemma art_le_refl [simp]: "art_le v v"
  by (simp add: art_le_def stage_le_def)

lemma job_le_refl [simp]: "job_le j j"
  by (simp add: job_le_def)

lemma art_le_trans: "art_le u v \<Longrightarrow> art_le v w \<Longrightarrow> art_le u w"
  by (auto simp: art_le_def stage_le_def)

lemma job_le_trans: "job_le i j \<Longrightarrow> job_le j k \<Longrightarrow> job_le i k"
  by (auto simp: job_le_def active_job_def)

lemma material_le_refl: "material_le d d"
  by (simp add: material_le_def above_refl)

lemma material_le_trans: "material_le d e \<Longrightarrow> material_le e f \<Longrightarrow> material_le d f"
  unfolding material_le_def
  using above_trans [of art_le] above_trans [of job_le] art_le_trans job_le_trans by blast

lemma material_le_same: "same_materials d d' \<Longrightarrow> material_le d d'"
  by (simp add: material_le_def same_materials_def above_refl)

lemma promote_row_le:
  assumes "v_state v = ''review''" and "art_key x = art_key v \<Longrightarrow> x = v"
  shows "art_le x (promote_row dt teacher v x)"
  using assms by (auto simp: art_le_def stage_le_def promote_row_def approve_def supersede_def approved_def immutable_def)

lemma art_key_unique:
  "artifacts_ok vs \<Longrightarrow> x \<in> set vs \<Longrightarrow> y \<in> set vs \<Longrightarrow> art_key x = art_key y \<Longrightarrow> x = y"
  unfolding artifacts_ok_def by (metis distinct_map inj_onD)

lemma approve_le:
  assumes wf: "material_wf H d" and "approve_artifact_row H dt tid rev' teacher publication d = Inr (v', d')"
  shows "material_le d d'"
proof -
  obtain v d1 where r: "approvable tid rev' d = Inr v"
     "artifact_revisions d1 = artifact_revisions d" "artifact_jobs d1 = artifact_jobs d"
     "set (material_publications d) \<subseteq> set (material_publications d1)"
     "if v_state v = ''approved'' then v' = v \<and> d' = d1
        else d' = promote dt teacher v d1 \<and> get_artifact tid rev' d' = Some v'"
    using approve_result [OF assms] by blast
  note a = approvable_result [OF r(1)]
  show ?thesis
  proof (cases "v_state v = ''approved''")
    case True
    then show ?thesis using r by (simp add: material_le_def above_refl)
  next
    case False
    have arts: "artifacts_ok (artifact_revisions d)" using wf by (simp add: material_wf_def)
    have "above art_le (artifact_revisions d) (map (promote_row dt teacher v) (artifact_revisions d))"
    proof (rule above_map, rule promote_row_le)
      show "v_state v = ''review''" using a False by auto
      show "x = v" if "x \<in> set (artifact_revisions d)" "art_key x = art_key v" for x
        using art_key_unique [OF arts that(1) _ that(2)] a by blast
    qed
    then show ?thesis using r False by (simp add: material_le_def above_refl)
  qed
qed

lemma put_le:
  assumes wf: "material_wf H d" and "put_artifact_revision dt v job_id details d = Inr d'"
  shows "material_le d d'"
proof -
  have row: "material_le d (put_row dt v d)"
    by (simp add: material_le_def put_row_def above_append above_refl)
  have ok: "jobs_ok (artifact_jobs d)" using wf by (simp add: material_wf_def)
  have job: "above job_le (artifact_jobs d)
      (sql_update (\<lambda>j. j_job_id j = job_id) (complete_job dt payload) (artifact_jobs d))"
    if "completable job_id v d" for payload
    by (rule above_update)
      (use completable_active [OF that ok] jobs_ok_bounds [OF ok] in \<open>auto simp: job_le_def complete_job_def\<close>)
  from put_result [OF assms(2)] show ?thesis
    using row job by (elim disjE conjE exE) (simp_all add: material_le_refl material_le_def)
qed

lemma update_job_le:
  assumes wf: "material_wf H d"
    and "update_artifact_job dt job_id state progress message err details d = Inr (r, d')"
  shows "material_le d d'"
proof -
  obtain s j payload where j: "get_job job_id d = Some j" "active_job j \<or> s = j_state j"
      "j_progress j \<le> max 0 (min 100 progress)"
    and d': "d' = store_job j (set_job dt s (max 0 (min 100 progress)) message err payload) s d"
    using update_job_result [OF assms(2)] by blast
  have ok: "jobs_ok (artifact_jobs d)" using wf by (simp add: material_wf_def)
  have "above job_le (artifact_jobs d) (artifact_jobs d')"
    unfolding d' store_job_simps
  proof (rule above_update)
    fix x assume "x \<in> set (artifact_jobs d)" "j_job_id x = j_job_id j"
    then have "x = j" using get_job_unique [OF ok j(1)] get_job_mem [OF j(1)] by auto
    then show "job_le x (set_job dt s (max 0 (min 100 progress)) message err payload x)"
      using j by (auto simp: job_le_def set_job_def)
  qed simp
  then show ?thesis by (simp add: d' material_le_def above_refl)
qed

lemma reset_all_same: "same_materials d (foldl (\<lambda>e tid. reset_pending tid e) d tids)"
  by (induction tids arbitrary: d) (auto simp: same_materials_def)

lemma recover_jobs_le: "material_le d (snd (recover_interrupted_artifact_jobs dt d))"
proof -
  have "material_le d (update_job active_job (interrupt_job dt) d)"
    by (auto simp: material_le_def above_refl interrupt_job_def job_le_def intro!: above_update)
  then show ?thesis
    using material_le_trans [OF _ material_le_same [OF reset_all_same]]
    by (simp add: recover_interrupted_artifact_jobs_def Let_def)
qed

lemma start_job_le: "start_artifact_job dt job_id tid rev' details message d = Inr (r, d') \<Longrightarrow> material_le d d'"
  using start_job_result [of dt job_id tid rev' details message d r d']
  by (auto simp: add_job_def Let_def material_le_def above_refl above_append)

lemma material_step_le: "material_wf H d \<Longrightarrow> material_step H c d = Inr d' \<Longrightarrow> material_le d d'"
  by (cases c)
    (auto simp: recover_jobs_le intro: put_le approve_le start_job_le update_job_le
        material_le_same contest_step_same split: if_split_asm)

interpretation material: progress_machine "material_step H" "material_wf H" material_le for H
  by unfold_locales (simp_all add: material_step_wf material_le_refl material_step_le material_le_trans)

section \<open>The published bytes\<close>

lemma receipt_distinct: "receipt_json pid v = JObj r \<Longrightarrow> distinct (map fst r)"
  by (auto simp: receipt_json_def)

lemma decode_receipt:
  assumes "receipt_ok H vs m"
  shows "\<exists>v p. v \<in> set vs \<and> art_key v = pub_key m \<and> decode_material_publication H m = Inr p
     \<and> map_of p ''ok'' = Some (JBool True) \<and> map_of p ''tid'' = Some (JStr (py_lower (v_tid v)))
     \<and> map_of p ''revision'' = Some (JStr (v_revision v))
     \<and> map_of p ''attachments'' = Some (jsort (expected_attachments v))"
proof -
  obtain v where v: "v \<in> set vs" "art_key v = pub_key m"
    "m_receipt_json m = jsort (receipt_json (m_publication_id m) v)"
    "m_receipt_sha256 m = canonical_json_sha256 H (receipt_json (m_publication_id m) v)"
    using assms unfolding receipt_ok_def by blast
  obtain r where r: "receipt_json (m_publication_id m) v = JObj r" by (simp add: receipt_json_def)
  let ?s = "sort_key fst (map (\<lambda>(k, v). (k, jsort v)) r)"
  have js: "m_receipt_json m = JObj ?s" by (simp add: v(3) r)
  have get: "map_of ?s k = map_option jsort (map_of r k)" for k
    by (rule map_of_jsort [OF receipt_distinct [OF r]])
  have rk: "map_of r ''publication_id'' = Some (JStr (m_publication_id m))"
    "map_of r ''tid'' = Some (JStr (py_lower (v_tid v)))" "map_of r ''revision'' = Some (JStr (v_revision v))"
    "map_of r ''attachments'' = Some (expected_attachments v)"
    using r by (auto simp: receipt_json_def)
  have "canonical_json_sha256 H (JObj ?s) = m_receipt_sha256 m"
    using dumps_jsort [of "JObj r"] by (simp add: canonical_json_sha256_def v(4) r)
  then have "decode_material_publication H m = Inr (dict_set ''published_at'' (JStr (m_published_at m))
           (dict_set ''receipt_sha256'' (JStr (m_receipt_sha256 m)) (dict_set ''ok'' (JBool True) ?s)))"
    by (simp add: decode_material_publication_def js get rk)
  then show ?thesis using v(1,2) by (intro exI [of _ v] exI conjI) (auto simp: get rk)
qed

lemma selected_published:
  assumes wf: "material_wf H d" and c: "c \<in> set (contests d)" "\<not> unselected c"
  shows "\<exists>v p. get_artifact (c_tid c) (c_active_material_revision c) d = Some v \<and> approved v
     \<and> bytes v = selected_bytes c
     \<and> material_publication H (c_tid c) (c_active_material_revision c) d = Inr (Some p)
     \<and> map_of p ''ok'' = Some (JBool True) \<and> map_of p ''tid'' = Some (JStr (py_lower (c_tid c)))
     \<and> map_of p ''revision'' = Some (JStr (c_active_material_revision c))
     \<and> map_of p ''attachments'' = Some (jsort (attachments_json (c_paper_sha256 c) (c_paper_size c)
           (c_testdata_sha256 c) (c_testdata_size c)))"
proof -
  let ?vs = "artifact_revisions d" and ?ms = "material_publications d"
  have ok: "artifacts_ok ?vs" "publications_ok H ?vs ?ms" "selection_ok ?vs c"
    using wf c(1) unfolding material_wf_def list_all_iff by blast+
  obtain v where v: "v \<in> set ?vs" "approved v"
    "art_key v = (c_tid c, c_active_material_revision c)" "bytes v = selected_bytes c"
    using ok(3) c(2) unfolding selection_ok_def by blast
  have vk: "v_tid v = c_tid c" "v_revision v = c_active_material_revision c" using v(3) by (simp_all add: art_key_def)
  obtain m where m: "m \<in> set ?ms" "pub_key m = art_key v"
    using ok(2) v(1,2) unfolding publications_ok_def list_all_iff by (metis imageE)
  have "receipt_ok H ?vs m" using ok(2) m(1) unfolding publications_ok_def list_all_iff by blast
  then obtain w p where w: "w \<in> set ?vs" "art_key w = pub_key m" "decode_material_publication H m = Inr p"
     "map_of p ''ok'' = Some (JBool True)" "map_of p ''tid'' = Some (JStr (py_lower (v_tid w)))"
     "map_of p ''revision'' = Some (JStr (v_revision w))"
     "map_of p ''attachments'' = Some (jsort (expected_attachments w))"
    using decode_receipt by blast
  have wv: "w = v" using art_key_unique [OF ok(1) w(1) v(1)] w(2) m(2) by simp
  have "get_publication (c_tid c) (c_active_material_revision c) d = Some m"
    unfolding get_publication_key
    by (rule find_distinct_key) (use ok(2) m v(3) in \<open>simp_all add: publications_ok_def\<close>)
  then have "material_publication H (c_tid c) (c_active_material_revision c) d = Inr (Some p)"
    using w(3) by (simp add: material_publication_def)
  moreover have "get_artifact (c_tid c) (c_active_material_revision c) d = Some v"
    using get_artifact_unique [OF ok(1) v(1)] by (simp add: vk)
  moreover have "expected_attachments v = attachments_json (c_paper_sha256 c) (c_paper_size c)
      (c_testdata_sha256 c) (c_testdata_size c)"
    using v(4) by (simp add: expected_attachments_def bytes_def selected_bytes_def)
  ultimately show ?thesis using v w by (intro exI [of _ v] exI [of _ p]) (simp add: wv vk)
qed

lemma immutable_simps [simp]:
  "v_manifest_sha256 (immutable v) = v_manifest_sha256 v" "v_paper_sha256 (immutable v) = v_paper_sha256 v"
  "v_testdata_sha256 (immutable v) = v_testdata_sha256 v" "v_paper_size (immutable v) = v_paper_size v"
  "v_testdata_size (immutable v) = v_testdata_size v" "v_tid (immutable v) = v_tid v"
  "v_revision (immutable v) = v_revision v"
  by (simp_all add: immutable_def)

lemma immutable_fields:
  assumes "immutable v' = immutable v"
  shows "v_manifest_sha256 v' = v_manifest_sha256 v" "v_paper_sha256 v' = v_paper_sha256 v"
    "v_testdata_sha256 v' = v_testdata_sha256 v" "v_paper_size v' = v_paper_size v"
    "v_testdata_size v' = v_testdata_size v" "v_tid v' = v_tid v" "v_revision v' = v_revision v"
  by (simp_all only: immutable_simps [of v', symmetric] assms) (simp_all only: immutable_simps)

text \<open>C22: Whatever happens to the contests, their materials and their generation jobs, the material
  selected for a contest is an approved revision, the receipt of its publication on the OJ decodes with a
  valid digest, and the receipt lists exactly the bytes selected for the desktops.\<close>

theorem selected_material_published:
  assumes "d = history (material_step H) ops empty_db" and "get_contest tid d = Some c"
    and "c_active_material_revision c \<notin> {[], ''legacy-manual''}"
  shows "\<exists>v p. get_artifact tid (c_active_material_revision c) d = Some v \<and> v_state v = ''approved''
     \<and> material_publication H tid (c_active_material_revision c) d = Inr (Some p)
     \<and> map_of p ''ok'' = Some (JBool True)
     \<and> json_eq (the (map_of p ''attachments'')) (attachments_json (c_paper_sha256 c) (c_paper_size c)
           (c_testdata_sha256 c) (c_testdata_size c))"
proof -
  have wf: "material_wf H d" unfolding assms(1) by (rule material.history_inv [OF material_wf_empty])
  have c: "c \<in> set (contests d)" "c_tid c = tid"
    using assms(2) find_Some_iff_mem unfolding get_contest_def by fastforce+
  show ?thesis
    using selected_published [OF wf c(1)] assms(3) by (auto simp: c(2) unselected_def approved_def json_eq_jsort)
qed

text \<open>C39: A revision is never rewritten and only moves from review to approved to superseded, a stored
  receipt stays, and a generation job never loses progress or leaves its final state.\<close>

theorem materials_never_rewritten:
  assumes "material_wf H d" and "d' = history (material_step H) ops d"
  shows "(\<forall>v. get_artifact tid rev' d = Some v \<longrightarrow> (\<exists>v'. get_artifact tid rev' d' = Some v'
         \<and> immutable v' = immutable v \<and> stage_le (v_state v) (v_state v')))
     \<and> set (material_publications d) \<subseteq> set (material_publications d')
     \<and> (\<forall>j. get_job job_id d = Some j \<longrightarrow> (\<exists>j'. get_job job_id d' = Some j' \<and> j_progress j \<le> j_progress j'
         \<and> (j_state j \<in> {JDone, JError, JInterrupted} \<longrightarrow> j_state j' = j_state j)))"
proof (intro conjI allI impI)
  have le: "material_le d d'" unfolding assms(2) by (rule material.history_le [OF assms(1)])
  have wf: "material_wf H d'" unfolding assms(2) by (rule material.history_inv [OF assms(1)])
  show "set (material_publications d) \<subseteq> set (material_publications d')" using le by (simp add: material_le_def)
  show "\<exists>v'. get_artifact tid rev' d' = Some v' \<and> immutable v' = immutable v \<and> stage_le (v_state v) (v_state v')"
    if "get_artifact tid rev' d = Some v" for v
  proof -
    have m: "v \<in> set (artifact_revisions d)" "v_tid v = tid" "v_revision v = rev'"
      using get_artifact_mem [OF that] by simp_all
    then obtain v' where v': "v' \<in> set (artifact_revisions d')" "art_le v v'"
      using le unfolding material_le_def above_def by blast
    have "immutable v' = immutable v" using v'(2) by (simp add: art_le_def)
    then have "v_tid v' = tid" "v_revision v' = rev'"
      using m immutable_fields [of v' v] by simp_all
    then have "get_artifact tid rev' d' = Some v'"
      using get_artifact_unique [OF _ v'(1)] wf by (simp add: material_wf_def)
    then show ?thesis using v'(2) by (simp add: art_le_def)
  qed
  show "\<exists>j'. get_job job_id d' = Some j' \<and> j_progress j \<le> j_progress j'
         \<and> (j_state j \<in> {JDone, JError, JInterrupted} \<longrightarrow> j_state j' = j_state j)"
    if job: "get_job job_id d = Some j" for j
  proof -
    obtain j' where j': "j' \<in> set (artifact_jobs d')" "job_le j j'"
      using le get_job_mem [OF job] unfolding material_le_def above_def by blast
    have "get_job job_id d' = Some j'"
      unfolding get_job_def
      by (rule find_distinct_key)
        (use wf j' get_job_mem [OF job] in \<open>auto simp: material_wf_def jobs_ok_def job_le_def\<close>)
    then show ?thesis using j'(2) by (auto simp: job_le_def active_job_def)
  qed
qed

section \<open>The effect of an approval\<close>

lemma find_map_key: "(\<And>x. q (g x) = q x) \<Longrightarrow> find q (map g xs) = map_option g (find q xs)"
  by (induction xs) auto

lemma get_contest_promote:
  "c_tid c = v_tid v \<Longrightarrow> get_contest (v_tid v) d = Some c
     \<Longrightarrow> get_contest (v_tid v) (promote dt teacher v d) = Some (select_material v c)"
  unfolding get_contest_def promote_simps by (subst find_sql_update) (simp_all add: select_material_tid)

lemma approve_again:
  assumes "get_artifact tid rev' d = Some v" and "v_state v = ''approved''" and "get_contest tid d = Some c"
    and "c_state c \<in> {Registered, Errored}" and "c_material_state c = ''approved''"
    and "c_active_material_revision c = rev'" and "get_publication tid rev' d \<noteq> None"
    and "v_manifest_sha256 v \<noteq> []" and "v_paper_sha256 v \<noteq> []" and "v_testdata_sha256 v \<noteq> []"
    and "0 < v_paper_size v" and "0 < v_testdata_size v"
  shows "approve_artifact H dt tid rev' teacher d = Inr (v, d)"
  using assms by (auto simp: approve_artifact_def approve_artifact_row_def approvable_def)

lemma approve_checked:
  assumes "approve_artifact_row H dt tid rev' teacher publication d = Inr (v', d')" and "approvable tid rev' d = Inr v"
  shows "v_manifest_sha256 v \<noteq> [] \<and> v_paper_sha256 v \<noteq> [] \<and> v_testdata_sha256 v \<noteq> []
     \<and> 0 < v_paper_size v \<and> 0 < v_testdata_size v"
  using assms by (auto simp: approve_artifact_row_def split: if_split_asm)

text \<open>A successful approval leaves the revision as the only approved one of its contest, selects its
  bytes, signs it with the teacher and the time when it was in review, and is idempotent: approving it
  again returns the same row and changes nothing, whoever asks.\<close>

theorem approval_is_exact:
  assumes wf: "material_wf H d"
    and "approve_artifact_with_publication H dt tid rev' teacher publication d = Inr (v', d')"
  shows "(\<exists>v. get_artifact tid rev' d = Some v \<and> immutable v' = immutable v
       \<and> (v_state v = ''review'' \<longrightarrow> v_approved_by v' = teacher \<and> v_approved_at v' = dt
           \<and> (\<exists>c. get_contest tid d = Some c \<and> get_contest tid d' = Some (select_material v c)))
       \<and> (v_state v \<noteq> ''review'' \<longrightarrow> v' = v))
     \<and> (\<forall>w \<in> set (artifact_revisions d'). v_tid w = tid \<and> v_state w = ''approved'' \<longleftrightarrow> w = v')
     \<and> approve_artifact H dt' tid rev' teacher' d' = Inr (v', d')"
proof -
  note ap = assms(2) [unfolded approve_artifact_with_publication_def]
  obtain v d1 where r: "approvable tid rev' d = Inr v" "material_wf H d1"
     "artifact_revisions d1 = artifact_revisions d" "contests d1 = contests d"
     "art_key v \<in> pub_key ` set (material_publications d1)"
     "if v_state v = ''approved'' then v' = v \<and> d' = d1
        else d' = promote dt teacher v d1 \<and> get_artifact tid rev' d' = Some v'"
    using approve_result [OF wf ap] by blast
  note a = approvable_result [OF r(1)] and chk = approve_checked [OF ap r(1)]
  have wf': "material_wf H d'" by (rule approve_wf [OF wf ap])
  obtain c where c: "get_contest tid d = Some c" "c_state c \<in> {Registered, Errored}" using a by blast
  have ct: "c_tid c = tid" using c(1) find_Some_iff_mem unfolding get_contest_def by fastforce
  have key: "art_key v = (tid, rev')" using a by (simp add: art_key_def)
  have get1: "get_artifact tid rev' d1 = Some v" using a r(3) by (simp add: get_artifact_def)
  have getc1: "get_contest tid d1 = Some c" using c(1) r(4) by (simp add: get_contest_def)
  have pub: "get_publication tid rev' d' \<noteq> None"
    using r(5,6) unfolding get_publication_None key by (simp split: if_split_asm)
  have main: "get_artifact tid rev' d' = Some v' \<and> v_state v' = ''approved'' \<and> immutable v' = immutable v
    \<and> (v_state v = ''review'' \<longrightarrow> v_approved_by v' = teacher \<and> v_approved_at v' = dt
        \<and> get_contest tid d' = Some (select_material v c))
    \<and> (v_state v \<noteq> ''review'' \<longrightarrow> v' = v)
    \<and> (\<exists>c'. get_contest tid d' = Some c' \<and> c_state c' = c_state c \<and> c_material_state c' = ''approved''
         \<and> c_active_material_revision c' = rev')"
  proof (cases "v_state v = ''approved''")
    case True
    then have "v' = v" "d' = d1" using r(6) by simp_all
    moreover have "c_material_state c = ''approved''" "c_active_material_revision c = rev'"
      using r(1) True c(1) a by (auto simp: approvable_def split: if_split_asm)
    ultimately show ?thesis using True get1 getc1 by simp
  next
    case False
    then have d': "d' = promote dt teacher v d1" "get_artifact tid rev' d' = Some v'" and rev: "v_state v = ''review''"
      using r(6) a by auto
    have "find (\<lambda>x. art_key x = art_key v) (artifact_revisions d') = map_option (promote_row dt teacher v)
        (find (\<lambda>x. art_key x = art_key v) (artifact_revisions d1))"
      unfolding d'(1) promote_simps by (rule find_map_key) simp
    then have v': "v' = promote_row dt teacher v v"
      using d'(2) get1 by (simp add: get_artifact_key key)
    have "get_contest tid d' = Some (select_material v c)"
      using get_contest_promote [of c v d1 dt teacher] getc1 a ct d'(1) by simp
    then show ?thesis
      using rev d'(2) a v' by (simp add: promote_row_def approve_def select_material_def immutable_def)
  qed
  have only: "\<forall>w \<in> set (artifact_revisions d'). v_tid w = tid \<and> v_state w = ''approved'' \<longleftrightarrow> w = v'"
  proof
    fix w assume w: "w \<in> set (artifact_revisions d')"
    have m: "v' \<in> set (artifact_revisions d')" "v_tid v' = tid" using get_artifact_mem [of tid rev' d' v'] main by simp_all
    have arts: "artifacts_ok (artifact_revisions d')" using wf' by (simp add: material_wf_def)
    show "v_tid w = tid \<and> v_state w = ''approved'' \<longleftrightarrow> w = v'"
      using artifacts_okD [OF arts w m(1)] art_key_unique [OF arts w m(1)] m main by (auto simp: approved_def)
  qed
  have "approve_artifact H dt' tid rev' teacher' d' = Inr (v', d')"
  proof -
    obtain c' where "get_contest tid d' = Some c'" "c_state c' = c_state c" "c_material_state c' = ''approved''"
        "c_active_material_revision c' = rev'" using main by blast
    then show ?thesis
      using main chk c(2) pub immutable_fields [of v' v] by (intro approve_again [where c = c']) simp_all
  qed
  then show ?thesis using main a c(1) only by auto
qed

text \<open>A restart interrupts every queued or running job, and afterwards an AI contest without run
  evidence can start a new one.\<close>

theorem restart_releases_jobs:
  assumes "recover_interrupted_artifact_jobs dt d = (n, d')"
    and "get_contest tid d' = Some c" and "c_materials_mode c = ''ai''" and "c_state c \<in> {Registered, Errored}"
    and "\<not> has_run_evidence tid d'" and "get_job job_id d' = None" and "re_exact is_hex 32 job_id"
    and "revision_ok rev'" and "encode_artifact_job_details details = Inr payload"
  shows "n = int (length (filter active_job (artifact_jobs d)))
     \<and> (\<forall>j \<in> set (artifact_jobs d'). \<not> active_job j)
     \<and> (\<exists>r d''. start_artifact_job dt' job_id tid rev' details message d' = Inr (r, d'')
          \<and> map_option j_state (get_job job_id d'') = Some JQueued)"
proof -
  have jobs: "artifact_jobs d' = sql_update active_job (interrupt_job dt) (artifact_jobs d)"
    using assms(1) reset_all_same [of "update_job active_job (interrupt_job dt) d"]
    by (auto simp: recover_interrupted_artifact_jobs_def Let_def same_materials_def)
  have idle: "\<forall>j \<in> set (artifact_jobs d'). \<not> active_job j"
    unfolding jobs by (auto simp: set_sql_update interrupt_job_def active_job_def)
  have new: "\<forall>j \<in> set (artifact_jobs d'). j_job_id j \<noteq> job_id"
    using assms(6) by (auto simp: get_job_def find_None_iff)
  obtain e where e: "payload = JObj e"
    using assms(9) by (auto simp: encode_artifact_job_details_def split: json.splits if_split_asm)
  let ?j = "new_job dt' job_id tid rev' payload message"
  have "start_artifact_job dt' job_id tid rev' details message d' = Inr ((?j, e), add_job ?j c d')"
    using assms idle new e
    by (auto simp: start_artifact_job_def list_ex_iff decode_artifact_job_def new_job_def Let_def)
  moreover have "get_job job_id (add_job ?j c d') = Some ?j"
    using new by (auto simp: get_job_def add_job_def Let_def find_Nil_append find_None_iff new_job_def split: option.split
        dest: find_Some_iff_mem)
  ultimately show ?thesis
    using assms(1) idle by (auto simp: recover_interrupted_artifact_jobs_def Let_def new_job_def)
qed

section \<open>Witnesses\<close>

definition demo_sha :: "string \<Rightarrow> string" where
  "demo_sha s = replicate 64 (CHR ''b'')"

definition demo_material :: artifact where
  "demo_material = \<lparr>v_tid = ''t'', v_revision = ''r1'', v_state = ''review'', v_source_sha256 = ''s'',
     v_root_path = ''/m'', v_manifest_sha256 = ''m'', v_manifest_json = JObj [(''b'', JInt 1), (''a'', JNull)],
     v_file_io_plan_json = JNull, v_warnings_json = JNull, v_paper_name = ''p.pdf'', v_paper_sha256 = ''p'',
     v_paper_size = 10, v_testdata_name = ''d.tgz'', v_testdata_sha256 = ''d'', v_testdata_size = 20,
     v_testdata_files = 6, v_testdata_expanded_size = 60, v_approved_by = [], v_approved_at = [],
     v_created_at = [], v_updated_at = []\<rparr>"

definition demo_publication :: json where
  "demo_publication = JObj [(''ok'', JBool True), (''publication_id'', JStr (replicate 64 (CHR ''c''))),
     (''tid'', JStr ''T''), (''revision'', JStr ''r1''), (''attachments'', expected_attachments demo_material),
     (''receipt_sha256'', JStr (replicate 64 (CHR ''b'')))]"

definition demo_job_id :: string where
  "demo_job_id = replicate 32 (CHR ''a'')"

definition demo_ai :: registration where
  "demo_ai = demo_registration\<lparr>u_materials_mode := ''ai''\<rparr>"

definition demo_review_ops :: "material_op list" where
  "demo_review_ops = [Contest (Register ''now'' ''s'' demo_ai),
     StartJob ''now'' demo_job_id ''t'' ''r1'' (JObj []) ''queued'',
     UpdateJob ''now'' demo_job_id ''running'' 40 ''working'' [] JNull,
     PutRevision ''now'' demo_material demo_job_id (JObj [])]"

definition demo_review_db :: db where
  "demo_review_db = history (material_step demo_sha) demo_review_ops empty_db"

definition demo_approve :: material_op where
  "demo_approve = Approve ''later'' ''t'' ''r1'' ''teacher'' (Some demo_publication)"

lemma demo_review_wf: "material_wf demo_sha demo_review_db"
  unfolding demo_review_db_def by (rule material.history_inv [OF material_wf_empty])

lemma demo_review_job: "map_option j_state (get_job demo_job_id demo_review_db) = Some JDone"
  by code_simp

lemma demo_review_artifact: "map_option v_state (get_artifact ''t'' ''r1'' demo_review_db) = Some ''review''"
  by code_simp

theorem selected_material_published_witness:
  "\<exists>c v. get_contest ''t'' (history (material_step demo_sha) (demo_review_ops @ [demo_approve]) empty_db) = Some c
     \<and> get_artifact ''t'' ''r1'' (history (material_step demo_sha) (demo_review_ops @ [demo_approve]) empty_db) = Some v
     \<and> v_state v = ''approved''"
proof -
  let ?d = "history (material_step demo_sha) (demo_review_ops @ [demo_approve]) empty_db"
  have "map_option c_active_material_revision (get_contest ''t'' ?d) = Some ''r1''" by code_simp
  then obtain c where c: "get_contest ''t'' ?d = Some c" "c_active_material_revision c = ''r1''" by auto
  from selected_material_published [OF refl c(1)] c show ?thesis by auto
qed

theorem materials_never_rewritten_witness:
  "\<exists>v j. get_artifact ''t'' ''r1'' (history (material_step demo_sha)
        [demo_approve, UpdateJob ''now'' demo_job_id ''running'' 100 [] [] JNull] demo_review_db) = Some v
     \<and> v_paper_sha256 v = ''p''
     \<and> get_job demo_job_id (history (material_step demo_sha)
        [demo_approve, UpdateJob ''now'' demo_job_id ''running'' 100 [] [] JNull] demo_review_db) = Some j
     \<and> j_state j = JDone"
proof -
  obtain v where v: "get_artifact ''t'' ''r1'' demo_review_db = Some v" using demo_review_artifact by auto
  obtain j where j: "get_job demo_job_id demo_review_db = Some j" "j_state j = JDone" using demo_review_job by auto
  have "map_option v_paper_sha256 (get_artifact ''t'' ''r1'' demo_review_db) = Some ''p''" by code_simp
  then have p: "v_paper_sha256 v = ''p''" using v by simp
  note n = materials_never_rewritten [OF demo_review_wf refl, where tid = "''t''" and rev' = "''r1''"
      and job_id = demo_job_id
      and ops = "[demo_approve, UpdateJob ''now'' demo_job_id ''running'' 100 [] [] JNull]"]
  obtain v' where v': "get_artifact ''t'' ''r1'' (history (material_step demo_sha)
        [demo_approve, UpdateJob ''now'' demo_job_id ''running'' 100 [] [] JNull] demo_review_db) = Some v'"
      "immutable v' = immutable v" using n v by blast
  obtain j' where j': "get_job demo_job_id (history (material_step demo_sha)
        [demo_approve, UpdateJob ''now'' demo_job_id ''running'' 100 [] [] JNull] demo_review_db) = Some j'"
      "j_state j' = JDone" using n j by (metis insertI1)
  have "v_paper_sha256 v' = ''p''" using immutable_fields(2) [OF v'(2)] p by simp
  with v'(1) j' show ?thesis by blast
qed

theorem approval_is_exact_witness:
  "\<exists>v' d'. approve_artifact_with_publication demo_sha ''later'' ''t'' ''r1'' ''teacher'' demo_publication demo_review_db
       = Inr (v', d') \<and> v_approved_by v' = ''teacher''
     \<and> approve_artifact demo_sha ''last'' ''t'' ''r1'' ''other'' d' = Inr (v', d')"
proof -
  have "case approve_artifact_with_publication demo_sha ''later'' ''t'' ''r1'' ''teacher'' demo_publication demo_review_db of
      Inl e \<Rightarrow> False | Inr x \<Rightarrow> True" by code_simp
  then obtain v' d' where r: "approve_artifact_with_publication demo_sha ''later'' ''t'' ''r1'' ''teacher''
      demo_publication demo_review_db = Inr (v', d')" by (auto split: sum.splits)
  from approval_is_exact [OF demo_review_wf r, of "''last''" "''other''"] demo_review_artifact r
  show ?thesis by auto
qed

definition demo_running_db :: db where
  "demo_running_db = history (material_step demo_sha) (take 3 demo_review_ops) empty_db"

theorem restart_releases_jobs_witness:
  "\<exists>d' r d''. recover_interrupted_artifact_jobs ''later'' demo_running_db = (1, d')
     \<and> start_artifact_job ''later'' (replicate 32 (CHR ''c'')) ''t'' ''r2'' (JObj []) [] d' = Inr (r, d'')"
proof -
  obtain n d' where r: "recover_interrupted_artifact_jobs ''later'' demo_running_db = (n, d')" by fastforce
  have ev: "case recover_interrupted_artifact_jobs ''later'' demo_running_db of (n, d') \<Rightarrow> n = 1
      \<and> (case get_contest ''t'' d' of None \<Rightarrow> False
         | Some c \<Rightarrow> c_materials_mode c = ''ai'' \<and> c_state c \<in> {Registered, Errored})
      \<and> \<not> has_run_evidence ''t'' d' \<and> Option.is_none (get_job (replicate 32 (CHR ''c'')) d')
      \<and> re_exact is_hex 32 (replicate 32 (CHR ''c'')) \<and> revision_ok ''r2''" by code_simp
  then obtain c where c: "get_contest ''t'' d' = Some c" "c_materials_mode c = ''ai''"
      "c_state c \<in> {Registered, Errored}" "\<not> has_run_evidence ''t'' d'"
      "get_job (replicate 32 (CHR ''c'')) d' = None" "re_exact is_hex 32 (replicate 32 (CHR ''c''))"
      "revision_ok ''r2''" "n = 1"
    by (auto simp: r Option.is_none_def split: option.splits)
  have "encode_artifact_job_details (JObj []) = Inr (JObj [])"
    by code_simp
  note restart_releases_jobs [OF r c(1-7) this, of "''later''" "[]"]
  then have "\<exists>r d''. start_artifact_job ''later'' (replicate 32 (CHR ''c'')) ''t'' ''r2'' (JObj []) [] d'
      = Inr (r, d'')" by blast
  moreover have "recover_interrupted_artifact_jobs ''later'' demo_running_db = (1, d')" using r c(8) by simp
  ultimately show ?thesis by blast
qed

end
