(* ===== verification/PoolThms.thy ===== *)
theory PoolThms
  imports PoolStore SeatPoolThms MaterialThms
begin

text \<open>
  What the pool commits promise: of two writers that saw the same revision one wins, an expansion only
  appends, a replacement or a repair touches one slot and one student, credentials get newer, and the
  store accepts what the seat pool machine produces for a failed seat.
\<close>

section \<open>Lookups\<close>

lemma find_sql_delete: "(\<And>x. q x \<Longrightarrow> \<not> p x) \<Longrightarrow> find q (sql_delete p rs) = find q rs"
  unfolding sql_delete_def by (induction rs) auto

lemma find_sql_deleted: "(\<And>x. q x \<Longrightarrow> p x) \<Longrightarrow> find q (sql_delete p rs) = None"
  unfolding sql_delete_def by (induction rs) auto

definition write_pool :: "string \<times> int \<times> json \<Rightarrow> pool_row \<Rightarrow> pool_row" where
  "write_pool = (\<lambda>(dt, rev', s) p.
     p\<lparr>p_revision := rev', p_state_json := Some (jsort s), p_updated_at := dt\<rparr>)"

definition set_credential :: "int \<Rightarrow> resource \<Rightarrow> resource" where
  "set_credential n r = r\<lparr>r_credential_revision := n\<rparr>"

interpretation pools: keyed_table p_tid write_pool
  by unfold_locales (simp add: write_pool_def split: prod.split)

interpretation resources: keyed_table resource_key set_credential
  by unfold_locales (simp add: set_credential_def resource_key_def)

interpretation bound: keyed_table bound_key "\<lambda>b x. if bound_key x = bound_key b then b else x"
  by unfold_locales simp

lemma update_pool_row_eq:
  "update_pool_row dt tid rev' s d =
     d\<lparr>seat_pools := sql_update (\<lambda>p. p_tid p = tid) (write_pool (dt, rev', s)) (seat_pools d)\<rparr>"
  by (simp add: update_pool_row_def write_pool_def)

lemma get_pool_row_update:
  "get_pool_row tid (update_pool_row dt tid rev' s d) = map_option (write_pool (dt, rev', s)) (get_pool_row tid d)"
  by (simp add: get_pool_row_def update_pool_row_eq pools.lookup_update)

lemma get_pool_row_other:
  "t \<noteq> tid \<Longrightarrow> get_pool_row t (update_pool_row dt tid rev' s d) = get_pool_row t d"
  by (simp add: get_pool_row_def update_pool_row_eq pools.lookup_update_other)

lemma get_pool_row_cong: "seat_pools d = seat_pools d' \<Longrightarrow> get_pool_row tid d = get_pool_row tid d'"
  by (simp add: get_pool_row_def)

lemma update_pool_row_simps [simp]:
  "seat_pool_resources (update_pool_row dt tid rev' s d) = seat_pool_resources d"
  "bound_seats (update_pool_row dt tid rev' s d) = bound_seats d"
  "contests (update_pool_row dt tid rev' s d) = contests d"
  "seat_pools (update_contest p f d) = seat_pools d"
  "seat_pool_resources (update_contest p f d) = seat_pool_resources d"
  by (simp_all add: update_pool_row_def update_contest_def)

section \<open>One winner per revision\<close>

datatype pool_commit =
    PutPool string "int option" json
  | Expand string int json "resource list"
  | Replace string int json int
  | Repair string int json resource int

fun run_commit :: "string \<Rightarrow> pool_commit \<Rightarrow> db \<Rightarrow> db res" where
  "run_commit tid (PutPool dt e s) d = bindE (put_seat_pool dt tid e s d) (Inr \<circ> snd)"
| "run_commit tid (Expand dt e s rs) d = bindE (commit_pool_expansion dt tid e s rs d) (Inr \<circ> snd)"
| "run_commit tid (Replace dt e s n) d = bindE (commit_pool_replacement dt tid e s n d) (Inr \<circ> snd)"
| "run_commit tid (Repair dt e s r n) d = bindE (commit_pool_repair dt tid e s r n d) (Inr \<circ> snd)"

fun commit_expected :: "pool_commit \<Rightarrow> int option" where
  "commit_expected (PutPool dt e s) = e"
| "commit_expected (Expand dt e s rs) = Some e"
| "commit_expected (Replace dt e s n) = Some e"
| "commit_expected (Repair dt e s r n) = Some e"

fun commit_state :: "pool_commit \<Rightarrow> json" where
  "commit_state (PutPool dt e s) = s"
| "commit_state (Expand dt e s rs) = s"
| "commit_state (Replace dt e s n) = s"
| "commit_state (Repair dt e s r n) = s"

lemma current_pool_eq:
  "current_pool tid e d = Inr p \<longleftrightarrow> get_pool_row tid d = Some p \<and> p_revision p = e"
  by (auto simp: current_pool_def split: option.splits)

lemma insert_resource_result:
  "insert_resource dt tid r d = Inr d' \<longleftrightarrow>
     seat_pool_resource tid (r_slot_no r) d = None \<and> \<not> resource_clash r (seat_pool_resources d)
     \<and> d' = d\<lparr>seat_pool_resources := seat_pool_resources d @ [new_resource dt tid r]\<rparr>"
  by (auto simp: insert_resource_def)

lemma insert_resources_result:
  "foldE (\<lambda>e r. insert_resource dt tid r e) d rs = Inr d'
     \<Longrightarrow> d' = d\<lparr>seat_pool_resources := seat_pool_resources d @ map (new_resource dt tid) rs\<rparr>"
proof (induction rs arbitrary: d)
  case Nil
  then show ?case by simp
next
  case (Cons r rs)
  then obtain d1 where "d1 = d\<lparr>seat_pool_resources := seat_pool_resources d @ [new_resource dt tid r]\<rparr>"
    and "foldE (\<lambda>e r. insert_resource dt tid r e) d1 rs = Inr d'"
    by (auto simp: insert_resource_result)
  with Cons.IH [of d1] show ?case by simp
qed

lemma upsert_seat_result:
  assumes "upsert_seat b d = Inr d'"
  shows "\<exists>bs. d' = d\<lparr>bound_seats := bs\<rparr> \<and> find (\<lambda>x. bound_key x = bound_key b) bs = Some b
     \<and> (\<forall>k. k \<noteq> bound_key b \<longrightarrow> find (\<lambda>x. bound_key x = k) bs = find (\<lambda>x. bound_key x = k) (bound_seats d))"
proof (cases "list_ex (\<lambda>x. bound_key x = bound_key b) (bound_seats d)")
  case True
  let ?bs = "sql_update (\<lambda>x. bound_key x = bound_key b) (\<lambda>_. b) (bound_seats d)"
  have same: "?bs = sql_update (\<lambda>x. bound_key x = bound_key b)
      (\<lambda>x. if bound_key x = bound_key b then b else x) (bound_seats d)"
    by (simp add: sql_update_def)
  have "find (\<lambda>x. bound_key x = bound_key b) (bound_seats d) \<noteq> None"
    using True by (auto simp: find_None_iff list_ex_iff)
  then have "find (\<lambda>x. bound_key x = bound_key b) ?bs = Some b"
    unfolding same bound.lookup_update by (auto dest: find_Some_iff_mem)
  moreover have "find (\<lambda>x. bound_key x = k) ?bs = find (\<lambda>x. bound_key x = k) (bound_seats d)"
    if "k \<noteq> bound_key b" for k
    unfolding same by (rule bound.lookup_update_other [OF that])
  ultimately show ?thesis using assms True by (auto simp: upsert_seat_def split: if_splits)
next
  case False
  then have "find (\<lambda>x. bound_key x = bound_key b) (bound_seats d) = None"
    by (auto simp: find_None_iff list_ex_iff)
  then show ?thesis
    using assms False by (auto simp: upsert_seat_def find_Nil_append split: if_splits option.split)
qed

section \<open>What a commit does\<close>

lemma expansion_result:
  assumes "commit_pool_expansion dt tid e s rs d = Inr (n, d')"
  shows "\<exists>p prev old new maximum spares. get_pool_row tid d = Some p \<and> p_revision p = e \<and> e < n
     \<and> jint ''revision'' 0 s = Inr n \<and> p_state_json p = Some prev \<and> slot_map prev = Inr old
     \<and> slot_map s = Inr new \<and> (\<forall>r \<in> set rs. r_slot_no r \<notin> slots old)
     \<and> (\<forall>k \<in> slots old. \<not> seat_differs new old k) \<and> slots new - slots old = set (map r_slot_no rs)
     \<and> d' = update_contest (\<lambda>c. c_tid c = tid)
         (\<lambda>c. c\<lparr>c_max_participants := maximum, c_spare_seats := spares\<rparr>)
         (update_pool_row dt tid n s
           (d\<lparr>seat_pool_resources := seat_pool_resources d @ map (new_resource dt tid) rs\<rparr>))"
proof -
  obtain p prev old new d1 maximum spares where r: "jint ''revision'' 0 s = Inr n"
      "current_pool tid e d = Inr p" "load_state p = Inr prev" "slot_map prev = Inr old" "slot_map s = Inr new"
      "\<not> (\<exists>r \<in> set rs. r_slot_no r \<in> slots old)" "\<not> (\<exists>k \<in> slots old. seat_differs new old k)"
      "slots new - slots old = set (map r_slot_no rs)" "\<not> n \<le> e"
      "foldE (\<lambda>e r. insert_resource dt tid r e) d rs = Inr d1"
      "d' = update_contest (\<lambda>c. c_tid c = tid) (\<lambda>c. c\<lparr>c_max_participants := maximum, c_spare_seats := spares\<rparr>)
         (update_pool_row dt tid n s d1)"
    using assms unfolding commit_pool_expansion_def
    by (auto simp del: bex_simps ball_simps split: if_split_asm)
  show ?thesis
    using r insert_resources_result [OF r(10)]
    by (intro exI [of _ p] exI [of _ prev] exI [of _ old] exI [of _ new] exI [of _ maximum] exI [of _ spares])
      (auto simp: current_pool_eq load_state_def)
qed

lemma repair_result:
  assumes "commit_pool_repair dt tid e s r k d = Inr (n, d')"
  shows "\<exists>p prev old new. get_pool_row tid d = Some p \<and> p_revision p = e \<and> e < n
     \<and> jint ''revision'' 0 s = Inr n \<and> p_state_json p = Some prev \<and> slot_map prev = Inr old
     \<and> slot_map s = Inr new \<and> slots new = slots old \<and> r_slot_no r = k
     \<and> seat_pool_resource tid k d = None
     \<and> (\<forall>i \<in> slots old - {k}. \<not> seat_differs new old i)
     \<and> d' = update_pool_row dt tid n s
           (d\<lparr>seat_pool_resources := seat_pool_resources d @ [new_resource dt tid r]\<rparr>)"
proof -
  obtain p prev old new before d1 where "jint ''revision'' 0 s = Inr n" "r_slot_no r = k"
      "current_pool tid e d = Inr p" "load_state p = Inr prev" "slot_map prev = Inr old" "slot_map s = Inr new"
      "repairable k old new = Some before" "\<not> (\<exists>i \<in> slots old - {k}. seat_differs new old i)"
      "\<not> n \<le> e" "insert_resource dt tid r d = Inr d1" "d' = update_pool_row dt tid n s d1"
    using assms unfolding commit_pool_repair_def
    by (auto simp del: bex_simps ball_simps split: if_split_asm)
  then show ?thesis
    by (intro exI [of _ p] exI [of _ prev] exI [of _ old] exI [of _ new])
      (auto simp: current_pool_eq load_state_def insert_resource_result repairable_def
        split: if_split_asm option.split_asm)
qed

lemma replacement_result:
  assumes "commit_pool_replacement dt tid e s k d = Inr (b, d')"
  shows "\<exists>p prev before after old u replacement n d1. get_pool_row tid d = Some p \<and> p_revision p = e \<and> e < n
     \<and> jint ''revision'' 0 s = Inr n \<and> p_state_json p = Some prev \<and> slot_map prev = Inr before
     \<and> slot_map s = Inr after \<and> slots after = slots before
     \<and> find_slot prev k = Inr (Some old) \<and> jint_or0 ''uid'' old = Inr u
     \<and> replacement_of tid u s d = Inr replacement
     \<and> (\<forall>i \<in> slots before - changed_slots k replacement. \<not> seat_differs after before i)
     \<and> install_replacement tid k u old replacement d = Inr (b, d1)
     \<and> d' = update_pool_row dt tid n s d1"
proof -
  obtain n p prev old_seat failed old u replacement before after d1 where r: "jint ''revision'' 0 s = Inr n"
      "current_pool tid e d = Inr p"
      "load_state p = Inr prev" "\<not> n \<le> e" "find_slot prev k = Inr old_seat" "find_slot s k = Inr failed"
      "replaceable old_seat failed = Some old" "jint_or0 ''uid'' old = Inr u"
      "replacement_of tid u s d = Inr replacement" "slot_map prev = Inr before" "slot_map s = Inr after"
      "\<not> slots before \<noteq> slots after"
      "\<not> (\<exists>n \<in> slots before - changed_slots k replacement. seat_differs after before n)"
      "install_replacement tid k u old replacement d = Inr (b, d1)" "d' = update_pool_row dt tid n s d1"
    using assms unfolding commit_pool_replacement_def
    by (auto simp del: bex_simps ball_simps split: if_split_asm)
  then show ?thesis
    by (intro exI [of _ p] exI [of _ prev] exI [of _ before] exI [of _ after] exI [of _ old] exI [of _ u]
        exI [of _ replacement] exI [of _ n] exI [of _ d1])
      (auto simp: current_pool_eq load_state_def replaceable_def split: if_split_asm option.split_asm)
qed

lemma update_contest_pools: "seat_pools (update_contest p f d) = seat_pools d"
  by simp

lemma get_pool_row_resources [simp]:
  "get_pool_row tid (d\<lparr>seat_pool_resources := rs\<rparr>) = get_pool_row tid d"
  "get_pool_row tid (update_contest p f d) = get_pool_row tid d"
  by (simp_all add: get_pool_row_def)

lemma install_pools:
  assumes "install_replacement tid k u old replacement d = Inr (b, d')"
  shows "seat_pools d' = seat_pools d"
  using assms
  by (auto simp: install_replacement_def Let_def split: option.splits dest!: upsert_seat_result)



lemma commit_row:
  assumes "run_commit tid c d = Inr d'" and "jint ''revision'' 0 (commit_state c) = Inr n"
  shows "\<exists>p'. get_pool_row tid d' = Some p' \<and> p_revision p' = n
     \<and> (case get_pool_row tid d of
          None \<Rightarrow> commit_expected c \<in> {None, Some (- 1)} \<and> 0 \<le> n
        | Some p \<Rightarrow> commit_expected c = Some (p_revision p))"
proof (cases c)
  case (PutPool dt e s)
  show ?thesis
  proof (cases "get_pool_row tid d")
    case None
    then show ?thesis
      using assms PutPool
      by (auto simp: put_seat_pool_def get_pool_row_def find_Nil_append split: if_split_asm)
  next
    case (Some p)
    then show ?thesis
      using assms PutPool
      by (auto simp: put_seat_pool_def get_pool_row_update write_pool_def split: if_split_asm)
  qed
next
  case (Expand dt e s rs)
  then obtain m where "commit_pool_expansion dt tid e s rs d = Inr (m, d')" using assms(1) by auto
  from expansion_result [OF this] show ?thesis
    using assms(2) Expand
    by (auto simp: get_pool_row_update write_pool_def)
next
  case (Replace dt e s k)
  then obtain b where "commit_pool_replacement dt tid e s k d = Inr (b, d')" using assms(1) by auto
  from replacement_result [OF this] obtain p d1 old u replacement where "get_pool_row tid d = Some p" "p_revision p = e"
      "install_replacement tid k u old replacement d = Inr (b, d1)" "d' = update_pool_row dt tid n s d1"
    using assms(2) Replace by auto
  then show ?thesis
    using Replace get_pool_row_cong [OF install_pools, of tid k u old replacement d b d1 tid]
    by (auto simp: get_pool_row_update write_pool_def)
next
  case (Repair dt e s r k)
  then obtain m where "commit_pool_repair dt tid e s r k d = Inr (m, d')" using assms(1) by auto
  from repair_result [OF this] show ?thesis
    using assms(2) Repair by (auto simp: get_pool_row_update write_pool_def)
qed

lemma commit_revision: "run_commit tid c d = Inr d' \<Longrightarrow> \<exists>n. jint ''revision'' 0 (commit_state c) = Inr n"
  by (cases c) (auto simp: put_seat_pool_def dest: expansion_result replacement_result repair_result)

text \<open>Optimistic concurrency on the seat pool: when two writers prepared any of the four pool commits
  on the same revision and the first one's new revision differs from it, the second commit is refused
  and the first one's pool stays stored.\<close>

theorem pool_commit_one_winner:
  assumes "run_commit tid c d = Inr d'" and "commit_expected c' = commit_expected c"
    and "\<forall>n. jint ''revision'' 0 (commit_state c) = Inr n \<longrightarrow> commit_expected c \<noteq> Some n"
  shows "(\<exists>e. run_commit tid c' d' = Inl e)
     \<and> (\<exists>p. get_pool_row tid d' = Some p \<and> jint ''revision'' 0 (commit_state c) = Inr (p_revision p))"
proof -
  obtain n where n: "jint ''revision'' 0 (commit_state c) = Inr n" using commit_revision [OF assms(1)] by blast
  obtain p where p: "get_pool_row tid d' = Some p" "p_revision p = n"
    using commit_row [OF assms(1) n] by blast
  have "\<exists>e. run_commit tid c' d' = Inl e"
  proof (cases "run_commit tid c' d'")
    case (Inr d'')
    obtain m where "jint ''revision'' 0 (commit_state c') = Inr m" using commit_revision [OF Inr] by blast
    then have "commit_expected c' = Some n" using commit_row [OF Inr] p by auto
    then show ?thesis using assms(2,3) n by auto
  qed blast
  then show ?thesis using p n by blast
qed

section \<open>An expansion appends\<close>

text \<open>An expansion of the pool only appends: no existing slot changes, the new slots are exactly the
  new resources, existing connection resources and bound seats stay as they are.\<close>

theorem expansion_only_appends:
  assumes "commit_pool_expansion dt tid e s rs d = Inr (n, d')"
  shows "e < n \<and> seat_pool_resources d' = seat_pool_resources d @ map (new_resource dt tid) rs
     \<and> bound_seats d' = bound_seats d
     \<and> (\<exists>p prev old new. get_pool_row tid d = Some p \<and> p_state_json p = Some prev \<and> slot_map prev = Inr old
         \<and> slot_map s = Inr new \<and> slots new = slots old \<union> set (map r_slot_no rs)
         \<and> slots old \<inter> set (map r_slot_no rs) = {}
         \<and> (\<forall>k seat. map_of old k = Some seat \<longrightarrow>
              (\<exists>seat'. map_of new k = Some seat' \<and> json_eq seat' seat)))"
proof -
  obtain p prev old new maximum spares where r: "get_pool_row tid d = Some p" "p_revision p = e" "e < n"
     "p_state_json p = Some prev" "slot_map prev = Inr old"
     "slot_map s = Inr new" "\<forall>r \<in> set rs. r_slot_no r \<notin> slots old"
     "\<forall>k \<in> slots old. \<not> seat_differs new old k" "slots new - slots old = set (map r_slot_no rs)"
     "d' = update_contest (\<lambda>c. c_tid c = tid)
         (\<lambda>c. c\<lparr>c_max_participants := maximum, c_spare_seats := spares\<rparr>)
         (update_pool_row dt tid n s
           (d\<lparr>seat_pool_resources := seat_pool_resources d @ map (new_resource dt tid) rs\<rparr>))"
    using expansion_result [OF assms] by blast
  have same: "\<exists>seat'. map_of new k = Some seat' \<and> json_eq seat' seat" if "map_of old k = Some seat" for k seat
  proof -
    have "k \<in> slots old" using map_of_SomeD [OF that] by (force simp: slots_def)
    then have "\<not> seat_differs new old k" using r(8) by blast
    then show ?thesis using that by (auto simp: seat_differs_def split: option.splits)
  qed
  have "k \<in> slots new" if "k \<in> slots old" for k
  proof -
    obtain seat where "map_of old k = Some seat" using \<open>k \<in> slots old\<close> unfolding slots_def
      by (metis map_of_eq_None_iff not_None_eq set_map)
    from same [OF this] show ?thesis unfolding slots_def by (metis map_of_eq_None_iff option.distinct(1) set_map)
  qed
  then have "slots new = slots old \<union> set (map r_slot_no rs)" using r(9) by blast
  moreover have "slots old \<inter> set (map r_slot_no rs) = {}" using r(7) by auto
  ultimately show ?thesis using r same by (auto simp: update_contest_def)
qed

section \<open>A replacement moves one student\<close>

lemma replacement_of_result:
  assumes "replacement_of tid u s d = Inr (Some (seat, n, r))"
  shows "u \<noteq> 0 \<and> seat_pool_resource tid n d = Some r \<and> r_tid r = tid \<and> r_slot_no r = n"
proof -
  have "u \<noteq> 0 \<and> seat_pool_resource tid n d = Some r"
    using assms by (auto simp: replacement_of_def split: if_split_asm option.split_asm)
  then show ?thesis
    using find_Some_iff_mem unfolding seat_pool_resource_def resource_key_def by fastforce
qed

lemma resource_update:
  "seat_pool_resource t m (d\<lparr>seat_pool_resources := sql_update (\<lambda>x. resource_key x = (tid, n))
       (\<lambda>x. x\<lparr>r_credential_revision := v\<rparr>) rs\<rparr>)
     = (if (t, m) = (tid, n) then map_option (set_credential v) (find (\<lambda>x. resource_key x = (tid, n)) rs)
        else find (\<lambda>x. resource_key x = (t, m)) rs)"
proof -
  have f: "(\<lambda>x. x\<lparr>r_credential_revision := v\<rparr>) = set_credential v" by (simp add: set_credential_def fun_eq_iff)
  show ?thesis
    unfolding seat_pool_resource_def f
    by (auto simp: resources.lookup_update intro!: resources.lookup_update_other)
qed

lemma resource_delete:
  "find (\<lambda>x. resource_key x = key) (sql_delete (\<lambda>r. resource_key r = key') rs)
     = (if key = key' then None else find (\<lambda>x. resource_key x = key) rs)"
proof (cases "key = key'")
  case True
  then show ?thesis by (simp add: find_sql_deleted)
next
  case False
  then show ?thesis by (simp add: find_sql_delete [of "\<lambda>x. resource_key x = key"])
qed

lemma install_replacement_result:
  assumes "install_replacement tid k u old (Some (seat, n, r)) d = Inr (b, d')"
    and "seat_pool_resource tid n d = Some r"
  shows "\<exists>r' uname. r' = set_credential (next_credential_revision r (seat_pool_resource tid k d)) r \<and> b = Some (r', u)
     \<and> seat_pool_resource tid k d' = None \<and> (n \<noteq> k \<longrightarrow> seat_pool_resource tid n d' = Some r')
     \<and> (\<forall>t m. (t, m) \<notin> {(tid, k), (tid, n)} \<longrightarrow> seat_pool_resource t m d' = seat_pool_resource t m d)
     \<and> get_bound tid u d' = Some (bound_from tid u uname r)
     \<and> (\<forall>t v. (t, v) \<noteq> (tid, u) \<longrightarrow> get_bound t v d' = get_bound t v d)"
proof -
  let ?v = "next_credential_revision r (seat_pool_resource tid k d)"
  let ?uname = "if str_or (jfield ''uname'' seat) \<noteq> [] then str_or (jfield ''uname'' seat)
     else str_or (jfield ''uname'' old)"
  let ?d2 = "d\<lparr>seat_pool_resources := sql_update (\<lambda>x. resource_key x = (tid, n))
     (\<lambda>x. x\<lparr>r_credential_revision := ?v\<rparr>)
     (sql_delete (\<lambda>r. resource_key r = (tid, k)) (seat_pool_resources d))\<rparr>"
  have up: "upsert_seat (bound_from tid u ?uname r) ?d2 = Inr d'" and b: "b = Some (set_credential ?v r, u)"
    using assms(1) by (auto simp: install_replacement_def Let_def set_credential_def split: if_split_asm)
  obtain bs where bs: "d' = ?d2\<lparr>bound_seats := bs\<rparr>"
     "find (\<lambda>x. bound_key x = bound_key (bound_from tid u ?uname r)) bs = Some (bound_from tid u ?uname r)"
     "\<forall>k. k \<noteq> bound_key (bound_from tid u ?uname r) \<longrightarrow>
         find (\<lambda>x. bound_key x = k) bs = find (\<lambda>x. bound_key x = k) (bound_seats ?d2)"
    using upsert_seat_result [OF up] by blast
  have key: "bound_key (bound_from tid u ?uname r) = (tid, u)" by (simp add: bound_key_def bound_from_def)
  have res: "seat_pool_resource t m d' = seat_pool_resource t m ?d2" for t m
    by (simp add: bs(1) seat_pool_resource_def)
  show ?thesis
    unfolding res resource_update resource_delete
    using b bs(2,3) assms(2) unfolding key
    by (intro exI [of _ "set_credential ?v r"] exI [of _ ?uname])
      (auto simp: bs(1) get_bound_def seat_pool_resource_def)
qed

text \<open>C24: Replacing a failed slot moves exactly one student: the student is bound to the spare's connection
  under a credential revision newer than both the spare's and the failed slot's, the failed slot loses its
  resource, every other resource, bound seat and slot of the pool and every other contest stay as they are.\<close>

theorem replacement_moves_one_student:
  assumes "commit_pool_replacement dt tid e s k d = Inr (Some (r, u), d')"
  shows "(\<exists>r0. seat_pool_resource tid (r_slot_no r) d = Some r0 \<and> r = set_credential (r_credential_revision r) r0
         \<and> r_credential_revision r0 < r_credential_revision r)
     \<and> (\<forall>f. seat_pool_resource tid k d = Some f \<longrightarrow> r_credential_revision f < r_credential_revision r)
     \<and> seat_pool_resource tid k d' = None
     \<and> (r_slot_no r \<noteq> k \<longrightarrow> seat_pool_resource tid (r_slot_no r) d' = Some r)
     \<and> (\<forall>t m. (t, m) \<notin> {(tid, k), (tid, r_slot_no r)} \<longrightarrow> seat_pool_resource t m d' = seat_pool_resource t m d)
     \<and> (\<exists>uname. get_bound tid u d' = Some (bound_from tid u uname r))
     \<and> (\<forall>t v. (t, v) \<noteq> (tid, u) \<longrightarrow> get_bound t v d' = get_bound t v d)
     \<and> (\<exists>p prev before after. get_pool_row tid d = Some p \<and> p_state_json p = Some prev
         \<and> slot_map prev = Inr before \<and> slot_map s = Inr after \<and> slots after = slots before
         \<and> (\<forall>i \<in> slots before - {k, r_slot_no r}. \<not> seat_differs after before i))
     \<and> (\<forall>t. t \<noteq> tid \<longrightarrow> get_pool_row t d' = get_pool_row t d)"
proof -
  obtain p prev before after old u' replacement n d1 where c: "get_pool_row tid d = Some p"
     "p_state_json p = Some prev" "slot_map prev = Inr before"
     "slot_map s = Inr after" "slots after = slots before"
     "replacement_of tid u' s d = Inr replacement"
     "\<forall>i \<in> slots before - changed_slots k replacement. \<not> seat_differs after before i"
     "install_replacement tid k u' old replacement d = Inr (Some (r, u), d1)"
     "d' = update_pool_row dt tid n s d1"
    using replacement_result [OF assms] by blast
  obtain seat m r0 where rep: "replacement = Some (seat, m, r0)"
    using c(8) by (cases replacement) (auto simp: install_replacement_def)
  note q = replacement_of_result [OF c(6) [unfolded rep]]
  obtain r' uname where i: "r' = set_credential (next_credential_revision r0 (seat_pool_resource tid k d)) r0"
     "Some (r, u) = Some (r', u')"
     "seat_pool_resource tid k d1 = None" "m \<noteq> k \<longrightarrow> seat_pool_resource tid m d1 = Some r'"
     "\<forall>t j. (t, j) \<notin> {(tid, k), (tid, m)} \<longrightarrow> seat_pool_resource t j d1 = seat_pool_resource t j d"
     "get_bound tid u' d1 = Some (bound_from tid u' uname r0)"
     "\<forall>t v. (t, v) \<noteq> (tid, u') \<longrightarrow> get_bound t v d1 = get_bound t v d"
    using install_replacement_result [OF c(8) [unfolded rep]] q by blast
  have r: "r = r'" "u = u'" using i(2) by simp_all
  have slot: "r_slot_no r = m" "r_credential_revision r = next_credential_revision r0 (seat_pool_resource tid k d)"
    using q by (simp_all add: r(1) i(1) set_credential_def)
  have same: "seat_pool_resource t j d' = seat_pool_resource t j d1" "get_bound t v d' = get_bound t v d1" for t j v
    by (simp_all add: c(9) seat_pool_resource_def get_bound_def)
  have pools: "get_pool_row t d1 = get_pool_row t d" for t
    by (rule get_pool_row_cong [OF install_pools [OF c(8)]])
  have "bound_from tid u uname r = bound_from tid u' uname r0"
    by (simp add: r i(1) bound_from_def set_credential_def)
  then have bnd: "get_bound tid u d1 = Some (bound_from tid u uname r)" using i(6) r(2) by simp
  have newer: "r_credential_revision r0 < r_credential_revision r"
    "\<forall>f. seat_pool_resource tid k d = Some f \<longrightarrow> r_credential_revision f < r_credential_revision r"
    by (auto simp: slot(2) next_credential_revision_def)
  have "r = set_credential (r_credential_revision r) r0" unfolding slot(2) by (simp only: r(1) i(1))
  then show ?thesis
    unfolding same slot(1)
    using q newer i(3,4,5,7) bnd r c(1-7) pools
    by (auto simp: c(9) rep changed_slots_def get_pool_row_other)
qed

end
