(* ===== verification/PoolLink.thy ===== *)
theory PoolLink
  imports PoolThms
begin

text \<open>
  The seat pool machine and the store together: the pipeline commits the dictionary of the machine's new
  state. \<open>linked\<close> relates a machine state to the database; when the machine moves a student off a failed
  seat, the store accepts the commit and the two stay linked.
\<close>

section \<open>Reading a machine state back\<close>

lemma jget_jsort: "distinct (map fst e) \<Longrightarrow> jget k (jsort (JObj e)) = Inr (map_option jsort (map_of e k))"
  by (simp add: map_of_jsort)

lemma seat_dict_keys: "distinct (map fst (seat_dict s))"
  by (simp add: seat_dict_def)

lemma jsort_seat_value: "map_option jsort (map_of (seat_dict s) k) = map_of (seat_dict s) k"
proof -
  have o: "jsort (opt_int x) = opt_int x" for x by (cases x) simp_all
  show ?thesis by (simp add: seat_dict_def o)
qed

definition reads_as :: "(seat \<Rightarrow> json) \<Rightarrow> bool" where
  "reads_as g \<longleftrightarrow> (\<forall>s k. jget k (g s) = Inr (map_of (seat_dict s) k) \<and> jfield k (g s) = map_of (seat_dict s) k
     \<and> py_truthy (g s))"

lemma reads_seat_json: "reads_as seat_json"
  by (simp add: reads_as_def seat_json_def seat_dict_def)

lemma jfield_jget: "jget k x = Inr v \<Longrightarrow> jfield k x = v"
  by (cases x) simp_all

lemma reads_sorted: "reads_as (\<lambda>s. jsort (seat_json s))"
proof -
  have g: "jget k (jsort (seat_json s)) = Inr (map_of (seat_dict s) k)" for s k
    unfolding seat_json_def jget_jsort [OF seat_dict_keys] jsort_seat_value ..
  have "py_truthy (jsort (seat_json s))" for s
    using g [of "''slot_no''" s] by (auto simp: seat_json_def seat_dict_def dest: arg_cong [of _ _ length])
  then show ?thesis using g jfield_jget [OF g] unfolding reads_as_def by blast
qed

definition uid_val :: "seat \<Rightarrow> int" where
  "uid_val s = (case seat_uid s of None \<Rightarrow> 0 | Some u \<Rightarrow> u)"

lemma seat_reads:
  assumes "reads_as g"
  shows "jint ''slot_no'' (- 1) (g s) = Inr (slot_no s)" and "jint_or0 ''uid'' (g s) = Inr (uid_val s)"
    and "jfield ''slot_no'' (g s) = Some (JInt (slot_no s))" and "jfield ''state'' (g s) = Some (JStr (state_str (st s)))"
    and "evidence_matches (g s) r \<longleftrightarrow> container_ref s = r_container r \<and> image_digest s = r_image_digest r
       \<and> material_digest s = r_material_digest r" and "py_truthy (g s)"
proof -
  have g: "jget k (g s) = Inr (map_of (seat_dict s) k)" "jfield k (g s) = map_of (seat_dict s) k" "py_truthy (g s)" for k
    using assms by (simp_all add: reads_as_def)
  show "jint ''slot_no'' (- 1) (g s) = Inr (slot_no s)" by (simp add: jint_def g seat_dict_def)
  show "jint_or0 ''uid'' (g s) = Inr (uid_val s)"
    by (cases "seat_uid s") (simp_all add: jint_or0_def g seat_dict_def uid_val_def)
  show "jfield ''slot_no'' (g s) = Some (JInt (slot_no s))" "jfield ''state'' (g s) = Some (JStr (state_str (st s)))"
    by (simp_all add: g seat_dict_def)
  show "evidence_matches (g s) r \<longleftrightarrow> container_ref s = r_container r \<and> image_digest s = r_image_digest r
       \<and> material_digest s = r_material_digest r"
    by (auto simp: evidence_matches_def g seat_dict_def str_or_def)
  show "py_truthy (g s)" by (rule g(3))
qed

lemma findE_map:
  assumes "\<And>s. q (g s) = Inr (r s)"
  shows "findE q (map g ss) = Inr (map_option g (find r ss))"
  by (induction ss) (simp_all add: assms)

lemma find_slot_seats:
  assumes "reads_as g" and "pool_items x = Inr (map g ss)"
  shows "find_slot x n = Inr (map_option g (find (\<lambda>s. slot_no s = n) ss))"
  using assms by (simp add: find_slot_def findE_map [where r = "\<lambda>s. slot_no s = n"] seat_reads)

lemma find_uid_seats:
  assumes "reads_as g" and "pool_items x = Inr (map g ss)"
  shows "find_uid x u = Inr (map_option g (find (\<lambda>s. uid_val s = u) ss))"
  using assms by (simp add: find_uid_def findE_map [where r = "\<lambda>s. uid_val s = u"] seat_reads)

lemma slot_map_seats:
  assumes "reads_as g" and "pool_items x = Inr (map g ss)"
  shows "slot_map x = Inr (rev (map (\<lambda>s. (slot_no s, g s)) ss))"
proof -
  have "mapE (\<lambda>item. bindE (jint ''slot_no'' (- 1) item) (\<lambda>i. Inr (i, item))) (map g ss)
      = Inr (map (\<lambda>s. (slot_no s, g s)) ss)"
    by (induction ss) (simp_all add: seat_reads [OF assms(1)])
  then show ?thesis by (simp add: slot_map_def assms(2))
qed

lemma slots_seats: "slots (rev (map (\<lambda>s. (slot_no s, g s)) ss)) = slot_no ` set ss"
  by (simp add: slots_def image_image)

lemma map_of_rev_distinct:
  assumes "distinct (map fst xs)"
  shows "map_of (rev xs) = map_of xs"
proof -
  have "distinct (map fst (rev xs))" using assms by (simp add: rev_map [symmetric])
  then have "map_of (rev xs) k = Some v \<longleftrightarrow> map_of xs k = Some v" for k v using assms by simp
  then show ?thesis by (intro ext) (metis not_Some_eq)
qed

lemma map_of_slots:
  assumes "distinct (map slot_no ss)"
  shows "map_of (rev (map (\<lambda>s. (slot_no s, g s)) ss)) n = map_option g (find (\<lambda>s. slot_no s = n) ss)"
proof -
  have "map_of (rev (map (\<lambda>s. (slot_no s, g s)) ss)) = map_of (map (\<lambda>s. (slot_no s, g s)) ss)"
    by (rule map_of_rev_distinct) (simp add: comp_def assms)
  moreover have "map_of (map (\<lambda>s. (slot_no s, g s)) ss) n = map_option g (find (\<lambda>s. slot_no s = n) ss)"
    by (induction ss) auto
  ultimately show ?thesis by simp
qed

lemma pool_items_dict: "pool_items (to_dict p) = Inr (map seat_json (seats p))"
  by (simp add: pool_items_def to_dict_def)

lemma to_dict_get:
  "jget k (jsort (to_dict p)) = Inr (map_option jsort (the (case to_dict p of JObj e \<Rightarrow> Some (map_of e k))))"
  unfolding to_dict_def by (subst jget_jsort) simp_all

lemma pool_items_sorted: "pool_items (jsort (to_dict p)) = Inr (map (\<lambda>s. jsort (seat_json s)) (seats p))"
  unfolding pool_items_def to_dict_get by (simp add: to_dict_def comp_def)

lemma to_dict_reads:
  "jint ''revision'' x (to_dict p) = Inr (revision p)" "check_tid (pool_tid p) (to_dict p) = Inr ()"
  by (simp_all add: jint_def to_dict_def check_tid_def str_or_def)

section \<open>The machine's replacement\<close>

lemma replaced_seats:
  assumes p: "pool_wf p" and t: "run_op H (ReplaceFailed k why now ok) cid e p = Inr t" "\<not> replayed t"
    and s: "pool_seat p k = Inr s" and u: "seat_uid s = Some u"
  shows "\<exists>r w. r \<in> set (seats p) \<and> st r = Verified \<and> seat_uid r = None \<and> slot_no r \<noteq> k
     \<and> slot_no w = slot_no r \<and> seat_uid w = Some u \<and> st w \<in> {Reserved, Released}
     \<and> container_ref w = container_ref r \<and> image_digest w = image_digest r \<and> material_digest w = material_digest r
     \<and> seats (tr_state t) = replace_seat (replace_seat (seats p) (reset_seat s True (py_strip why))) w
     \<and> revision (tr_state t) = revision p + 1 \<and> pool_tid (tr_state t) = pool_tid p \<and> e = revision p"
proof -
  note S = pool_seat_Inr [OF s] and D = pool_wf_distinct [OF p]
  have key: "x = y" if "x \<in> set (seats p)" "y \<in> set (seats p)" "slot_no x = slot_no y" for x y
    using that D by (simp add: distinct_map inj_on_def)
  obtain oper args m where "apply_cmd H oper args cid e m p = Inr t" "m = replace_failed_mut p k (py_strip why) now"
    using t(1) by (auto simp: replace_failed_def Let_def split: if_splits)
  then obtain ss' v f rc where c: "e = revision p" "replace_failed_mut p k (py_strip why) now (seats p) = Inr (ss', v, f)"
      "tr_state t = f (p\<lparr>revision := revision p + 1, seats := ss', receipts := receipts p @ [rc]\<rparr>)"
    using t(2) by (elim apply_cmd_cases) auto
  from c(2) show ?thesis
  proof (cases rule: replace_failed_cases)
    case (noop x)
    with key S u show ?thesis by fastforce
  next
    case (reset x)
    with key S u show ?thesis by fastforce
  next
    case (moved x r tgt)
    then have x: "x = s" using key S by blast
    have ne: "slot_no r \<noteq> k" using key [OF moved(5) S[THEN conjunct1]] moved(8) u S by auto
    let ?w = "r\<lparr>role := role s, st := tgt, seat_uid := seat_uid s, seat_uname := seat_uname s,
            reserved_at_ms := Some now, released_at_ms := (if tgt = Released then Some now else None)\<rparr>"
    have "tgt \<in> {Reserved, Released}" unfolding moved(9) by (auto simp: reservation_state_def)
    then show ?thesis
      using moved c ne u unfolding x by (intro exI [of _ r] exI [of _ ?w]) auto
  qed
qed

lemma find_replace_seat:
  "find (\<lambda>y. slot_no y = j) (replace_seat zs y)
     = (if j = slot_no y then (if j \<in> slot_no ` set zs then Some y else None)
        else find (\<lambda>y. slot_no y = j) zs)"
  by (induction zs) (auto simp: replace_seat_def)

lemma slots_replace_seat [simp]: "slot_no ` set (replace_seat zs y) = slot_no ` set zs"
  using arg_cong [OF map_slot_replace, of set zs y] by (simp only: set_map)

section \<open>The link\<close>

definition free_tokens :: "resource \<Rightarrow> bound_seat list \<Rightarrow> bool" where
  "free_tokens r bs \<longleftrightarrow> (\<forall>b \<in> set bs. b_token b \<noteq> r_token r \<and> b_submit_token b \<noteq> r_submit_token r)"

definition has_evidence :: "seat \<Rightarrow> resource \<Rightarrow> bool" where
  "has_evidence s r \<longleftrightarrow> container_ref s = r_container r \<and> image_digest s = r_image_digest r
     \<and> material_digest s = r_material_digest r"

text \<open>A bound row that uses a resource's tokens is the row of the student of its slot.\<close>

definition tokens_of_student :: "string \<Rightarrow> seat \<Rightarrow> resource \<Rightarrow> bound_seat list \<Rightarrow> bool" where
  "tokens_of_student tid s r bs \<longleftrightarrow> (\<forall>b \<in> set bs. b_token b = r_token r \<or> b_submit_token b = r_submit_token r \<longrightarrow>
     (\<exists>u. seat_uid s = Some u \<and> bound_key b = (tid, u)))"

lemma free_tokens_unassigned: "tokens_of_student tid s r bs \<Longrightarrow> seat_uid s = None \<Longrightarrow> free_tokens r bs"
  by (auto simp: tokens_of_student_def free_tokens_def)

definition linked :: "pool \<Rightarrow> db \<Rightarrow> bool" where
  "linked p d \<longleftrightarrow> map_option (\<lambda>w. (p_revision w, p_state_json w)) (get_pool_row (pool_tid p) d)
       = Some (revision p, Some (jsort (to_dict p)))
     \<and> distinct (map r_token (seat_pool_resources d)) \<and> distinct (map r_submit_token (seat_pool_resources d))
     \<and> (\<forall>s \<in> set (seats p). st s \<notin> {Planned, Warming} \<longrightarrow>
          (\<exists>r. seat_pool_resource (pool_tid p) (slot_no s) d = Some r \<and> has_evidence s r))
     \<and> (\<forall>s \<in> set (seats p). \<forall>r. seat_pool_resource (pool_tid p) (slot_no s) d = Some r \<longrightarrow>
          tokens_of_student (pool_tid p) s r (bound_seats d))"

lemma upsert_free:
  assumes "free_tokens r (bound_seats d)"
  shows "\<exists>d'. upsert_seat (bound_from tid u name r) d = Inr d' \<and> seat_pools d' = seat_pools d
     \<and> seat_pool_resources d' = seat_pool_resources d
     \<and> set (bound_seats d') \<subseteq> insert (bound_from tid u name r) (set (bound_seats d))"
  using assms
  by (auto simp: upsert_seat_def free_tokens_def seat_clash_def bound_from_def list_ex_iff set_sql_update)

lemma seat_state_texts: "state_str Planned = ''planned''" "state_str Reserved = ''reserved''" "state_str Released = ''released''"
  by simp_all

lemma linked_resource:
  assumes "linked p d" and "s \<in> set (seats p)" and "st s \<notin> {Planned, Warming}"
  obtains r where "seat_pool_resource (pool_tid p) (slot_no s) d = Some r" "has_evidence s r"
  using assms unfolding linked_def by blast

lemma distinct_map_eq: "distinct (map f xs) \<Longrightarrow> x \<in> set xs \<Longrightarrow> y \<in> set xs \<Longrightarrow> f x = f y \<Longrightarrow> x = y"
  by (simp add: distinct_map inj_on_def)

lemma distinct_map_update:
  "(\<And>x. f (g x) = f x) \<Longrightarrow> distinct (map f rs) \<Longrightarrow> distinct (map f (sql_update p g (sql_delete q rs)))"
  by (simp add: map_sql_update distinct_map_sql_delete)

text \<open>The checks of the store on a replacement of the machine.\<close>

lemma machine_replacement:
  assumes p: "pool_wf p" and q: "pool_wf p'" and l: "linked p d"
    and s: "pool_seat p k = Inr s" and u: "seat_uid s = Some u" "u \<noteq> 0"
    and r: "r \<in> set (seats p)" "st r = Verified" "slot_no r \<noteq> k"
    and w: "slot_no w = slot_no r" "seat_uid w = Some u" "st w \<in> {Reserved, Released}"
      "container_ref w = container_ref r" "image_digest w = image_digest r" "material_digest w = material_digest r"
    and ss: "seats p' = replace_seat (replace_seat (seats p) x) w" "slot_no x = k" "st x = Planned" "seat_uid x = None"
    and rev: "revision p' = revision p + 1" "pool_tid p' = pool_tid p"
    and res: "seat_pool_resource (pool_tid p) (slot_no r) d = Some res" "has_evidence r res"
  shows "commit_pool_replacement dt (pool_tid p) (revision p) (to_dict p') k d
     = bindE (install_replacement (pool_tid p) k u (jsort (seat_json s)) (Some (seat_json w, slot_no r, res)) d)
         (\<lambda>(b, d'). Inr (b, update_pool_row dt (pool_tid p) (revision p') (to_dict p') d'))"
proof -
  note S = pool_seat_Inr [OF s] and D = pool_wf_distinct [OF p] and D' = pool_wf_distinct [OF q]
  note old = pool_items_sorted [of p] and new = pool_items_dict [of p']
  obtain row where row: "get_pool_row (pool_tid p) d = Some row" "p_revision row = revision p"
      "p_state_json row = Some (jsort (to_dict p))"
    using l by (auto simp: linked_def)
  have fk: "find (\<lambda>y. slot_no y = k) (seats p) = Some s"
    using find_distinct_key [OF D] S by blast
  have fx: "find (\<lambda>y. slot_no y = k) (seats p') = Some x"
    using S r(3) w(1) unfolding ss(1) by (auto simp: find_replace_seat ss(2))
  have wm: "w \<in> set (seats p')"
  proof -
    have "find (\<lambda>y. slot_no y = slot_no w) (seats p') = Some w"
      using r(1) w(1) unfolding ss(1) by (auto simp: find_replace_seat)
    then show ?thesis using find_Some_iff_mem by fastforce
  qed
  have uw: "find (\<lambda>y. uid_val y = u) (seats p') = Some w"
  proof -
    have "uid_val y = u \<longleftrightarrow> seat_uid y = Some u" for y
      using u(2) by (auto simp: uid_val_def split: option.splits)
    then show ?thesis using assignment_unique [OF q wm w(2)] by (simp add: assignment_def)
  qed
  have f1: "find_slot (jsort (to_dict p)) k = Inr (Some (jsort (seat_json s)))"
    using find_slot_seats [OF reads_sorted old] fk by simp
  have f2: "find_slot (to_dict p') k = Inr (Some (seat_json x))"
    using find_slot_seats [OF reads_seat_json new] fx by simp
  have f3: "find_uid (to_dict p') u = Inr (Some (seat_json w))"
    using find_uid_seats [OF reads_seat_json new] uw by simp
  have rp: "replaceable (Some (jsort (seat_json s))) (Some (seat_json x)) = Some (jsort (seat_json s))"
    using seat_reads(4,6) [OF reads_seat_json, of x] seat_reads(6) [OF reads_sorted, of s]
    by (simp add: replaceable_def ss(3))
  have rof: "replacement_of (pool_tid p) u (to_dict p') d = Inr (Some (seat_json w, slot_no r, res))"
    using w res u(2) seat_reads [OF reads_seat_json, of w]
    by (auto simp: replacement_of_def f3 state_in_def has_evidence_def)
  note m1 = slot_map_seats [OF reads_sorted old] and m2 = slot_map_seats [OF reads_seat_json new]
  have eqs: "slot_no ` set (seats p') = slot_no ` set (seats p)" by (simp add: ss(1))
  have same: "\<not> seat_differs (rev (map (\<lambda>s. (slot_no s, seat_json s)) (seats p')))
      (rev (map (\<lambda>s. (slot_no s, jsort (seat_json s))) (seats p))) i"
    if "i \<notin> {k, slot_no r}" for i
  proof -
    have "find (\<lambda>y. slot_no y = i) (seats p') = find (\<lambda>y. slot_no y = i) (seats p)"
      using that w(1) unfolding ss(1) by (simp add: find_replace_seat ss(2))
    then show ?thesis
      unfolding seat_differs_def map_of_slots [OF D'] map_of_slots [OF D]
      by (auto simp: json_eq_sym [OF json_eq_jsort] split: option.splits)
  qed
  have uv: "jint_or0 ''uid'' (jsort (seat_json s)) = Inr u"
    using seat_reads(2) [OF reads_sorted, of s] u(1) by (simp add: uid_val_def)
  have cp: "current_pool (pool_tid p) (revision p) d = Inr row" "load_state row = Inr (jsort (to_dict p))"
    using row by (simp_all add: current_pool_eq load_state_def)
  have nod: "\<not> (\<exists>n \<in> slot_no ` set (seats p) - changed_slots k (Some (seat_json w, slot_no r, res)).
      seat_differs (rev (map (\<lambda>s. (slot_no s, seat_json s)) (seats p')))
      (rev (map (\<lambda>s. (slot_no s, jsort (seat_json s))) (seats p))) n)"
    using same by (auto simp: changed_slots_def)
  show ?thesis
    unfolding commit_pool_replacement_def
    using to_dict_reads(1) [where p = p'] to_dict_reads(2) [of p'] nod
    by (simp add: rev cp f1 f2 rp uv rof m1 m2 slots_seats eqs)
qed

text \<open>The link after the student has moved from slot \<open>k\<close> (seat \<open>x\<close>) to the spare \<open>r\<close> (seat \<open>w\<close>).\<close>

lemma linked_step:
  assumes l: "linked p d" and r: "r \<in> set (seats p)" "seat_uid r = None" "slot_no r \<noteq> k"
    and w: "slot_no w = slot_no r" "seat_uid w = Some u" "container_ref w = container_ref r"
      "image_digest w = image_digest r" "material_digest w = material_digest r"
    and x: "slot_no x = k" "st x = Planned"
    and mem: "\<And>y. y \<in> set (seats p') \<Longrightarrow>
      y = w \<or> y = x \<or> y \<in> set (seats p) \<and> slot_no y \<noteq> k \<and> slot_no y \<noteq> slot_no r"
    and tid: "pool_tid p' = pool_tid p"
    and res: "seat_pool_resource (pool_tid p) (slot_no r) d = Some res" "has_evidence r res"
    and up: "seat_pools d3 = seat_pools d"
      "seat_pool_resources d3 = sql_update (\<lambda>y. resource_key y = (pool_tid p, slot_no r))
         (\<lambda>y. y\<lparr>r_credential_revision := v\<rparr>)
         (sql_delete (\<lambda>y. resource_key y = (pool_tid p, k)) (seat_pool_resources d))"
      "set (bound_seats d3) \<subseteq> insert (bound_from (pool_tid p) u uname res) (set (bound_seats d))"
  shows "linked p' (update_pool_row dt (pool_tid p) (revision p') (to_dict p') d3)"
proof -
  let ?tid = "pool_tid p" and ?d' = "update_pool_row dt (pool_tid p) (revision p') (to_dict p') d3"
  have res_tid: "r_tid res = ?tid" "r_slot_no res = slot_no r"
    using find_Some_iff_mem [OF res(1) [unfolded seat_pool_resource_def]] by (simp_all add: resource_key_def)
  have lookup: "seat_pool_resource ?tid m ?d' = (if m = slot_no r then Some (set_credential v res)
      else if m = k then None else seat_pool_resource ?tid m d)" for m
    using resource_update [where t = ?tid and m = m and d = d and tid = ?tid and n = "slot_no r" and v = v] res(1) r
    by (auto simp: up(2) resource_delete seat_pool_resource_def)
  have uniq: "res' = res" if "res' \<in> set (seat_pool_resources d)"
      "r_token res' = r_token res \<or> r_submit_token res' = r_submit_token res" for res'
  proof -
    have "res \<in> set (seat_pool_resources d)" using find_Some_iff_mem [OF res(1) [unfolded seat_pool_resource_def]] by simp
    then show ?thesis
      using that l distinct_map_eq [of r_token "seat_pool_resources d" res' res]
        distinct_map_eq [of r_submit_token "seat_pool_resources d" res' res] by (auto simp: linked_def)
  qed
  have ev: "\<exists>z. seat_pool_resource ?tid (slot_no y) ?d' = Some z \<and> has_evidence y z"
    if y: "y \<in> set (seats p')" "st y \<notin> {Planned, Warming}" for y
    using mem [OF y(1)]
  proof (elim disjE conjE)
    assume "y = w"
    then show ?thesis using w res(2) by (simp add: lookup has_evidence_def set_credential_def)
  next
    assume "y = x"
    then show ?thesis using y(2) x(2) by simp
  next
    assume o: "y \<in> set (seats p)" "slot_no y \<noteq> k" "slot_no y \<noteq> slot_no r"
    then show ?thesis using linked_resource [OF l o(1) y(2)] by (auto simp: lookup)
  qed
  have fr: "tokens_of_student ?tid y z (bound_seats ?d')"
    if y: "y \<in> set (seats p')" "seat_pool_resource ?tid (slot_no y) ?d' = Some z" for y z
    using mem [OF y(1)]
  proof (elim disjE conjE)
    assume "y = w"
    moreover have "free_tokens res (bound_seats d)"
      using l r(1,2) res(1) free_tokens_unassigned unfolding linked_def by blast
    ultimately show ?thesis
      using y(2) w up(3) by (auto simp: lookup tokens_of_student_def free_tokens_def bound_from_def bound_key_def
          set_credential_def)
  next
    assume "y = x"
    then show ?thesis using y(2) x(1) r(3) by (simp add: lookup)
  next
    assume o: "y \<in> set (seats p)" "slot_no y \<noteq> k" "slot_no y \<noteq> slot_no r"
    then have z: "seat_pool_resource ?tid (slot_no y) d = Some z" using y(2) by (simp add: lookup)
    have zm: "z \<in> set (seat_pool_resources d)" "r_slot_no z = slot_no y"
      using find_Some_iff_mem [OF z [unfolded seat_pool_resource_def]] by (simp_all add: resource_key_def)
    have "z \<noteq> res" using zm(2) res_tid(2) o(3) by auto
    then have "r_token z \<noteq> r_token res" "r_submit_token z \<noteq> r_submit_token res" using uniq [OF zm(1)] by blast+
    moreover have "tokens_of_student ?tid y z (bound_seats d)" using l o(1) z unfolding linked_def by blast
    ultimately show ?thesis using up(3) by (auto simp: tokens_of_student_def bound_from_def)
  qed
  have dist: "distinct (map r_token (seat_pool_resources ?d'))" "distinct (map r_submit_token (seat_pool_resources ?d'))"
    using l unfolding linked_def by (auto simp: up(2) intro!: distinct_map_update)
  have "get_pool_row ?tid d3 = get_pool_row ?tid d" by (rule get_pool_row_cong [OF up(1)])
  then have "map_option (\<lambda>w. (p_revision w, p_state_json w)) (get_pool_row ?tid ?d')
      = Some (revision p', Some (jsort (to_dict p')))"
    using l by (auto simp: linked_def get_pool_row_update write_pool_def)
  then show ?thesis using ev fr dist unfolding linked_def tid by blast
qed

text \<open>C1: The store follows the seat pool machine: when the machine moves a student off a failed seat, the
  commit that the pipeline prepares from the machine's new state is accepted, it binds that student, and
  the database is linked to the new state (same revision and seats, every verified seat with a matching
  resource whose tokens only its student's row uses).\<close>

theorem store_follows_machine:
  assumes p: "pool_wf p" and l: "linked p d" and t: "run_op H (ReplaceFailed k why now ok) cid e p = Inr t" "\<not> replayed t"
    and s: "pool_seat p k = Inr s" and u: "seat_uid s = Some u" "u \<noteq> 0"
  shows "\<exists>r d'. commit_pool_replacement dt (pool_tid p) e (to_dict (tr_state t)) k d = Inr (Some (r, u), d')
     \<and> linked (tr_state t) d'"
proof -
  let ?p' = "tr_state t" and ?tid = "pool_tid p" and ?x = "reset_seat s True (py_strip why)"
  have q: "pool_wf ?p'" by (rule run_op_wf [OF p t(1)])
  note S = pool_seat_Inr [OF s] and D = pool_wf_distinct [OF p] and D' = pool_wf_distinct [OF q]
  obtain r w where r: "r \<in> set (seats p)" "st r = Verified" "seat_uid r = None" "slot_no r \<noteq> k"
    and w: "slot_no w = slot_no r" "seat_uid w = Some u" "st w \<in> {Reserved, Released}"
      "container_ref w = container_ref r" "image_digest w = image_digest r" "material_digest w = material_digest r"
    and ss: "seats ?p' = replace_seat (replace_seat (seats p) ?x) w"
    and rev: "revision ?p' = revision p + 1" "pool_tid ?p' = ?tid" "e = revision p"
    using replaced_seats [OF p t s u(1)] by blast
  have x: "slot_no ?x = k" "st ?x = Planned" "seat_uid ?x = None" using S by (simp_all add: reset_seat_def)
  obtain res where res: "seat_pool_resource ?tid (slot_no r) d = Some res" "has_evidence r res"
    using linked_resource [OF l r(1)] r(2) by auto
  have free: "free_tokens res (bound_seats d)"
    using l r(1,3) res(1) free_tokens_unassigned unfolding linked_def by blast
  let ?v = "next_credential_revision res (seat_pool_resource ?tid k d)"
  let ?rs = "sql_update (\<lambda>y. resource_key y = (?tid, slot_no r)) (\<lambda>y. y\<lparr>r_credential_revision := ?v\<rparr>)
     (sql_delete (\<lambda>y. resource_key y = (?tid, k)) (seat_pool_resources d))"
  let ?d2 = "d\<lparr>seat_pool_resources := ?rs\<rparr>"
  obtain uname d3 where up: "upsert_seat (bound_from ?tid u uname res) ?d2 = Inr d3"
      "seat_pools d3 = seat_pools d" "seat_pool_resources d3 = ?rs"
      "set (bound_seats d3) \<subseteq> insert (bound_from ?tid u uname res) (set (bound_seats d))"
    and inst: "install_replacement ?tid k u (jsort (seat_json s)) (Some (seat_json w, slot_no r, res)) d
      = Inr (Some (set_credential ?v res, u), d3)"
  proof -
    let ?uname = "if str_or (jfield ''uname'' (seat_json w)) \<noteq> [] then str_or (jfield ''uname'' (seat_json w))
        else str_or (jfield ''uname'' (jsort (seat_json s)))"
    obtain d3 where "upsert_seat (bound_from ?tid u ?uname res) ?d2 = Inr d3"
      "seat_pools d3 = seat_pools d" "seat_pool_resources d3 = ?rs"
      "set (bound_seats d3) \<subseteq> insert (bound_from ?tid u ?uname res) (set (bound_seats d))"
      using upsert_free [of res ?d2 ?tid u ?uname] free by auto
    then show ?thesis
      by (intro that [of ?uname d3]) (simp_all add: install_replacement_def Let_def set_credential_def)
  qed
  let ?d' = "update_pool_row dt ?tid (revision ?p') (to_dict ?p') d3"
  have commit: "commit_pool_replacement dt ?tid e (to_dict ?p') k d = Inr (Some (set_credential ?v res, u), ?d')"
    unfolding rev(3) machine_replacement [OF p q l s u r(1,2,4) w ss x rev(1,2) res] inst by simp
  have mem: "y = w \<or> y = ?x \<or> y \<in> set (seats p) \<and> slot_no y \<noteq> k \<and> slot_no y \<noteq> slot_no r"
    if "y \<in> set (seats ?p')" for y
    using that w(1) x(1) unfolding ss replace_seat_def by (auto split: if_split_asm)
  have "linked ?p' ?d'"
    by (rule linked_step [OF l r(1,3,4) w(1,2,4-6) x(1,2) mem rev(2) res up(2-4)])
  then show ?thesis using commit by blast
qed

section \<open>Witnesses\<close>

definition demo_resource :: "int \<Rightarrow> string \<Rightarrow> resource" where
  "demo_resource n c = \<lparr>r_tid = pool_tid demo_spare, r_slot_no = n, r_token = ''g'' @ c, r_vnc_pass = ''p'',
     r_submit_token = ''s'' @ c, r_candidate = ''cand'' @ c, r_container = c, r_cip = ''10.0.0.2'',
     r_image_digest = ''i'', r_material_digest = ''m'', r_credential_revision = 1, r_created_at = ''now''\<rparr>"

definition demo_linked :: db where
  "demo_linked = empty_db\<lparr>seat_pools := [\<lparr>p_tid = pool_tid demo_spare, p_revision = revision demo_spare,
       p_state_json = Some (jsort (to_dict demo_spare)), p_updated_at = ''now''\<rparr>],
     seat_pool_resources := [demo_resource 1 ''c1'', demo_resource 2 ''c2''],
     bound_seats := [bound_from (pool_tid demo_spare) 7 ''amy'' (demo_resource 1 ''c1'')]\<rparr>"

definition demo_moved :: pool where
  "demo_moved = history (pool_step (\<lambda>s. [])) [PoolCmd (ReplaceFailed 1 ''disk'' 6 True) ''z'' 5] demo_spare"

lemma demo_spare_seats: "map (\<lambda>s. (slot_no s, st s, seat_uid s, container_ref s, image_digest s, material_digest s)) (seats demo_spare)
    = [(1, Reserved, Some 7, ''c1'', ''i'', ''m''), (2, Verified, None, ''c2'', ''i'', ''m'')]"
  by code_simp

lemma demo_spare_list:
  obtains x y where "seats demo_spare = [x, y]" "slot_no x = 1" "slot_no y = 2" "seat_uid x = Some 7"
    "has_evidence x (demo_resource 1 ''c1'')" "has_evidence y (demo_resource 2 ''c2'')"
  using demo_spare_seats that by (auto simp: has_evidence_def demo_resource_def map_eq_Cons_conv)

lemma demo_linked_ok: "linked demo_spare demo_linked"
proof -
  obtain x y where xy: "seats demo_spare = [x, y]" "slot_no x = 1" "slot_no y = 2" "seat_uid x = Some 7"
    "has_evidence x (demo_resource 1 ''c1'')" "has_evidence y (demo_resource 2 ''c2'')"
    by (rule demo_spare_list)
  have R: "seat_pool_resource (pool_tid demo_spare) 1 demo_linked = Some (demo_resource 1 ''c1'')"
    "seat_pool_resource (pool_tid demo_spare) 2 demo_linked = Some (demo_resource 2 ''c2'')"
    by (simp_all add: seat_pool_resource_def demo_linked_def demo_resource_def resource_key_def)
  have F: "tokens_of_student (pool_tid demo_spare) x (demo_resource 1 ''c1'') (bound_seats demo_linked)"
    "tokens_of_student (pool_tid demo_spare) y (demo_resource 2 ''c2'') (bound_seats demo_linked)"
    using xy(4) by (simp_all add: tokens_of_student_def demo_linked_def bound_from_def demo_resource_def bound_key_def)
  have P: "map_option (\<lambda>w. (p_revision w, p_state_json w)) (get_pool_row (pool_tid demo_spare) demo_linked)
       = Some (revision demo_spare, Some (jsort (to_dict demo_spare)))"
    by (simp add: get_pool_row_def demo_linked_def)
  have D: "distinct (map r_token (seat_pool_resources demo_linked))"
    "distinct (map r_submit_token (seat_pool_resources demo_linked))"
    by (simp_all add: demo_linked_def demo_resource_def)
  show ?thesis
    unfolding linked_def using P D R F xy by simp
qed

theorem store_follows_machine_witness:
  "\<exists>t r d'. run_op (\<lambda>s. []) (ReplaceFailed 1 ''disk'' 6 True) ''z'' 5 demo_spare = Inr t
     \<and> commit_pool_replacement ''now'' (pool_tid demo_spare) 5 (to_dict (tr_state t)) 1 demo_linked = Inr (Some (r, 7), d')"
proof -
  have "case run_op (\<lambda>s. []) (ReplaceFailed 1 ''disk'' 6 True) ''z'' 5 demo_spare of Inl e \<Rightarrow> False
      | Inr t \<Rightarrow> \<not> replayed t" by code_simp
  then obtain t where t: "run_op (\<lambda>s. []) (ReplaceFailed 1 ''disk'' 6 True) ''z'' 5 demo_spare = Inr t" "\<not> replayed t"
    by (auto split: sum.splits)
  have "case pool_seat demo_spare 1 of Inl e \<Rightarrow> False | Inr s \<Rightarrow> seat_uid s = Some 7" by code_simp
  then obtain s where s: "pool_seat demo_spare 1 = Inr s" "seat_uid s = Some 7" by (auto split: sum.splits)
  from store_follows_machine [OF demo_spare_wf demo_linked_ok t s, of "''now''"] t show ?thesis by auto
qed

text \<open>The commits on a small pool of two slots, the first one reserved.\<close>

definition small_seat :: "int \<Rightarrow> string \<Rightarrow> json \<Rightarrow> string \<Rightarrow> string \<Rightarrow> json" where
  "small_seat n s u name c = JObj [(''slot_no'', JInt n), (''state'', JStr s), (''uid'', u), (''uname'', JStr name),
     (''container_ref'', JStr c), (''image_digest'', JStr ''i''), (''material_digest'', JStr ''m'')]"

definition small_pool :: "int \<Rightarrow> json list \<Rightarrow> json" where
  "small_pool n ss = JObj [(''tid'', JStr ''t''), (''revision'', JInt n), (''max_participants'', JInt 2),
     (''spare_count'', JInt 0), (''seats'', JArr ss)]"

definition small_resource :: "int \<Rightarrow> string \<Rightarrow> resource" where
  "small_resource n c = \<lparr>r_tid = ''t'', r_slot_no = n, r_token = ''g'' @ c, r_vnc_pass = ''p'',
     r_submit_token = ''s'' @ c, r_candidate = ''a'' @ c, r_container = c, r_cip = ''ip'',
     r_image_digest = ''i'', r_material_digest = ''m'', r_credential_revision = 1, r_created_at = ''now''\<rparr>"

definition one_seat :: json where
  "one_seat = small_pool 1 [small_seat 1 ''reserved'' (JInt 7) ''amy'' ''c1'']"

definition two_seats :: json where
  "two_seats = small_pool 2 [small_seat 1 ''reserved'' (JInt 7) ''amy'' ''c1'',
     small_seat 2 ''verified'' JNull '''' ''c2'']"

definition moved_seats :: json where
  "moved_seats = small_pool 3 [small_seat 1 ''planned'' JNull '''' '''',
     small_seat 2 ''reserved'' (JInt 7) ''amy'' ''c2'']"

definition small_db :: "int \<Rightarrow> json \<Rightarrow> resource list \<Rightarrow> db" where
  "small_db n state rs = empty_db\<lparr>seat_pools := [\<lparr>p_tid = ''t'', p_revision = n,
       p_state_json = Some state, p_updated_at = ''now''\<rparr>],
     seat_pool_resources := rs,
     bound_seats := [bound_from ''t'' 7 ''amy'' (small_resource 1 ''c1'')]\<rparr>"

theorem expansion_only_appends_witness:
  "\<exists>d'. commit_pool_expansion ''now'' ''t'' 1 two_seats [small_resource 2 ''c2'']
       (small_db 1 one_seat [small_resource 1 ''c1'']) = Inr (2, d')
     \<and> map r_slot_no (seat_pool_resources d') = [1, 2]"
proof -
  have "case commit_pool_expansion ''now'' ''t'' 1 two_seats [small_resource 2 ''c2'']
       (small_db 1 one_seat [small_resource 1 ''c1'']) of Inl e \<Rightarrow> False | Inr (n, d') \<Rightarrow> n = 2" by code_simp
  then obtain d' where d: "commit_pool_expansion ''now'' ''t'' 1 two_seats [small_resource 2 ''c2'']
       (small_db 1 one_seat [small_resource 1 ''c1'']) = Inr (2, d')" by (auto split: sum.splits)
  from expansion_only_appends [OF d] d show ?thesis
    by (auto simp: small_db_def small_resource_def new_resource_def)
qed

lemma small_replacement:
  "\<exists>r d'. commit_pool_replacement ''now'' ''t'' 2 moved_seats 1
       (small_db 2 two_seats [small_resource 1 ''c1'', small_resource 2 ''c2'']) = Inr (Some (r, 7), d')
     \<and> r_slot_no r = 2"
proof -
  have "case commit_pool_replacement ''now'' ''t'' 2 moved_seats 1
       (small_db 2 two_seats [small_resource 1 ''c1'', small_resource 2 ''c2'']) of
      Inr (Some (r, u), d') \<Rightarrow> u = 7 \<and> r_slot_no r = 2 | _ \<Rightarrow> False" by code_simp
  then show ?thesis by (auto split: sum.splits option.splits)
qed

theorem replacement_moves_one_student_witness:
  "\<exists>r d'. commit_pool_replacement ''now'' ''t'' 2 moved_seats 1
       (small_db 2 two_seats [small_resource 1 ''c1'', small_resource 2 ''c2'']) = Inr (Some (r, 7), d')
     \<and> seat_pool_resource ''t'' 1 d' = None \<and> seat_pool_resource ''t'' 2 d' = Some r"
proof -
  obtain r d' where d: "commit_pool_replacement ''now'' ''t'' 2 moved_seats 1
       (small_db 2 two_seats [small_resource 1 ''c1'', small_resource 2 ''c2'']) = Inr (Some (r, 7), d')"
    "r_slot_no r = 2" using small_replacement by blast
  from replacement_moves_one_student [OF d(1)] d show ?thesis by auto
qed

theorem pool_commit_one_winner_witness:
  "\<exists>d'. run_commit ''t'' (Expand ''now'' 1 two_seats [small_resource 2 ''c2''])
       (small_db 1 one_seat [small_resource 1 ''c1'']) = Inr d'
     \<and> (\<exists>e. run_commit ''t'' (PutPool ''now'' (Some 1) one_seat) d' = Inl e)"
proof -
  have "case run_commit ''t'' (Expand ''now'' 1 two_seats [small_resource 2 ''c2''])
       (small_db 1 one_seat [small_resource 1 ''c1'']) of Inl e \<Rightarrow> False | Inr d' \<Rightarrow> True" by code_simp
  then obtain d' where d: "run_commit ''t'' (Expand ''now'' 1 two_seats [small_resource 2 ''c2''])
       (small_db 1 one_seat [small_resource 1 ''c1'']) = Inr d'" by (auto split: sum.splits)
  have "jint ''revision'' 0 two_seats = Inr 2" by code_simp
  then show ?thesis
    using d pool_commit_one_winner [OF d, of "PutPool ''now'' (Some 1) one_seat"] by auto
qed

end
