(* ===== verification/StoredPool.thy ===== *)
theory StoredPool
  imports PoolOps PoolLink
begin

text \<open>
  A machine state that is read back from the database, saved by a transaction of the store and bound to
  its students: the facts that the operations of the pipeline share.
\<close>

section \<open>Reading the stored pool\<close>

definition sorted_dict :: "jdict \<Rightarrow> jdict" where
  "sorted_dict e = sort_key fst (map (\<lambda>(k, v). (k, jsort v)) e)"

lemma jsort_obj: "jsort (JObj e) = JObj (sorted_dict e)"
  by (simp add: sorted_dict_def)

lemma map_of_sorted_dict: "distinct (map fst e) \<Longrightarrow> map_of (sorted_dict e) k = map_option jsort (map_of e k)"
  unfolding sorted_dict_def by (rule map_of_jsort)

lemma keys_sorted_dict: "set (map fst (sorted_dict e)) = set (map fst e)"
  by (force simp: sorted_dict_def)

lemma sort_key_sorted: "sorted (map f xs) \<Longrightarrow> sort_key f xs = xs"
  by (induction xs) (simp_all add: insort_is_Cons)

lemma jsort_jsort: "jsort (jsort x) = jsort x"
proof (induction x rule: jsort.induct)
  case (2 d)
  have m: "map (\<lambda>(k, v). (k, jsort v)) (map (\<lambda>(k, v). (k, jsort v)) d) = map (\<lambda>(k, v). (k, jsort v)) d"
    using 2 by (auto simp: case_prod_beta)
  show ?case by (simp only: jsort.simps sort_key_map_value m) (simp add: sort_key_sorted)
qed (auto simp: comp_def)

definition stored_receipt :: "receipt \<Rightarrow> receipt" where
  "stored_receipt r = r\<lparr>rc_value := sorted_dict (rc_value r)\<rparr>"

text \<open>The pool as it is read back: the values of the receipts have sorted keys.\<close>

definition stored :: "pool \<Rightarrow> pool" where
  "stored p = p\<lparr>receipts := map stored_receipt (receipts p)\<rparr>"

lemma stored_simps [simp]:
  "seats (stored p) = seats p" "revision (stored p) = revision p" "pool_tid (stored p) = pool_tid p"
  "begin_at_ms (stored p) = begin_at_ms p" "release_at_ms (stored p) = release_at_ms p"
  "max_participants (stored p) = max_participants p" "spare_count (stored p) = spare_count p"
  by (simp_all add: stored_def)

lemma seat_of_sorted: "seat_of_dict (sorted_dict (seat_dict s)) = Inr s"
proof -
  have m: "map_of (sorted_dict (seat_dict s)) k = map_of (seat_dict s) k" for k
    unfolding map_of_sorted_dict [OF seat_dict_keys] by (rule jsort_seat_value)
  have "seat_of_dict (sorted_dict (seat_dict s)) = seat_of_dict (seat_dict s)"
    unfolding seat_of_dict_def req_def opt_field_def m list_all_iff keys_sorted_dict ..
  then show ?thesis by simp
qed

lemma receipt_of_sorted: "receipt_of_dict (sorted_dict (receipt_dict r)) = Inr (stored_receipt r)"
proof -
  have d: "distinct (map fst (receipt_dict r))" by (simp add: receipt_dict_def)
  have m: "map_of (sorted_dict (receipt_dict r)) k = map_of (receipt_dict (stored_receipt r)) k" for k
    unfolding map_of_sorted_dict [OF d] by (simp add: receipt_dict_def stored_receipt_def sorted_dict_def)
  have k: "set (map fst (receipt_dict r)) = set (map fst (receipt_dict (stored_receipt r)))"
    by (simp add: receipt_dict_def)
  have "receipt_of_dict (sorted_dict (receipt_dict r)) = receipt_of_dict (receipt_dict (stored_receipt r))"
    unfolding receipt_of_dict_def req_def opt_field_def m list_all_iff keys_sorted_dict k ..
  then show ?thesis by simp
qed

lemma mapE_sorted_seats: "mapE (\<lambda>v. bindE (as_obj v) seat_of_dict) (map (\<lambda>s. jsort (seat_json s)) ss) = Inr ss"
  by (induction ss) (simp_all only: seat_json_def jsort_obj as_obj.simps seat_of_sorted mapE.simps list.map bindE_Inr)

lemma mapE_sorted_receipts:
  "mapE (\<lambda>v. bindE (as_obj v) receipt_of_dict) (map (\<lambda>r. jsort (JObj (receipt_dict r))) rs)
     = Inr (map stored_receipt rs)"
  by (induction rs) (simp_all only: jsort_obj as_obj.simps receipt_of_sorted mapE.simps list.map bindE_Inr)

lemma read_pool_stored: "read_pool (jsort (to_dict p)) = Inr (stored p)"
proof -
  obtain e where e: "to_dict p = JObj e" "distinct (map fst e)" by (simp add: to_dict_def)
  have m: "map_of (sorted_dict e) k = map_option jsort (map_of e k)" for k by (rule map_of_sorted_dict [OF e(2)])
  have "from_dict (sorted_dict e) = Inr (stored p)"
    unfolding from_dict_def need_def opt_field_def m using e(1) [unfolded to_dict_def]
    by (auto simp: comp_def mapE_sorted_seats mapE_sorted_receipts stored_def simp del: jsort.simps(2))
  then show ?thesis unfolding read_pool_def e(1) jsort_obj by simp
qed

lemma jsort_to_dict_stored: "jsort (to_dict (stored p)) = jsort (to_dict p)"
proof -
  have i: "sorted_dict (sorted_dict v) = sorted_dict v" for v
    using jsort_jsort [of "JObj v"] unfolding jsort_obj by simp
  have r: "jsort (JObj (receipt_dict (stored_receipt r))) = jsort (JObj (receipt_dict r))" for r
    by (simp add: receipt_dict_def stored_receipt_def i [unfolded sorted_dict_def] sorted_dict_def)
  have "map (\<lambda>r. jsort (JObj (receipt_dict r))) (receipts (stored p)) = map (\<lambda>r. jsort (JObj (receipt_dict r))) (receipts p)"
    by (simp add: stored_def r del: jsort.simps)
  then show ?thesis unfolding to_dict_def by (simp add: comp_def)
qed

lemma linked_stored: "linked (stored p) d \<longleftrightarrow> linked p d"
  by (simp add: linked_def jsort_to_dict_stored)

lemma stored_wf: "pool_wf (stored p) \<longleftrightarrow> pool_wf p"
  by (simp add: pool_wf_def log_wf_def stored_def stored_receipt_def comp_def)

section \<open>Saving and binding\<close>

lemma linked_row:
  assumes "linked p d"
  obtains k where "seat_pool (pool_tid p) d = Inr (Some (revision p, jsort (to_dict p), k))"
  using assms by (auto simp: linked_def seat_pool_def load_state_def)

text \<open>The steps of the machine that leave the connection resources alone.\<close>

definition derived :: "pool \<Rightarrow> pool \<Rightarrow> bool" where
  "derived p q \<longleftrightarrow> pool_tid q = pool_tid p \<and> 0 \<le> revision q \<and> (\<forall>y \<in> set (seats q). \<exists>x \<in> set (seats p). slot_no y = slot_no x
     \<and> (st y \<notin> {Planned, Warming} \<longrightarrow> st x \<notin> {Planned, Warming} \<and> container_ref y = container_ref x
          \<and> image_digest y = image_digest x \<and> material_digest y = material_digest x)
     \<and> (seat_uid x = None \<or> seat_uid y = seat_uid x))"

lemma linked_cong:
  assumes "linked p d" and "get_pool_row (pool_tid p) d' = get_pool_row (pool_tid p) d"
    and "seat_pool_resources d' = seat_pool_resources d" and "set (bound_seats d') \<subseteq> set (bound_seats d)"
  shows "linked p d'"
  using assms unfolding linked_def tokens_of_student_def seat_pool_resource_def by (simp only:) blast

lemma linked_derived:
  assumes l: "linked p d" and q: "derived p q"
  shows "linked q (update_pool_row dt (pool_tid p) (revision q) (to_dict q) d)"
proof -
  let ?d' = "update_pool_row dt (pool_tid p) (revision q) (to_dict q) d"
  have tid: "pool_tid q = pool_tid p" using q by (simp add: derived_def)
  have res: "seat_pool_resource t n ?d' = seat_pool_resource t n d" for t n by (simp add: seat_pool_resource_def)
  have row: "map_option (\<lambda>w. (p_revision w, p_state_json w)) (get_pool_row (pool_tid q) ?d')
      = Some (revision q, Some (jsort (to_dict q)))"
    using l by (auto simp: tid linked_def get_pool_row_update write_pool_def)
  have "(st y \<notin> {Planned, Warming} \<longrightarrow> (\<exists>r. seat_pool_resource (pool_tid p) (slot_no y) d = Some r \<and> has_evidence y r))
      \<and> (\<forall>r. seat_pool_resource (pool_tid p) (slot_no y) d = Some r \<longrightarrow> tokens_of_student (pool_tid p) y r (bound_seats d))"
    if y: "y \<in> set (seats q)" for y
  proof -
    obtain x where x: "x \<in> set (seats p)" "slot_no y = slot_no x"
      "st y \<notin> {Planned, Warming} \<Longrightarrow> st x \<notin> {Planned, Warming} \<and> container_ref y = container_ref x
          \<and> image_digest y = image_digest x \<and> material_digest y = material_digest x"
      "seat_uid x = None \<or> seat_uid y = seat_uid x"
      using q y unfolding derived_def by blast
    have "\<exists>r. seat_pool_resource (pool_tid p) (slot_no y) d = Some r \<and> has_evidence y r" if "st y \<notin> {Planned, Warming}"
      using linked_resource [OF l x(1)] x(2) x(3) [OF that] by (metis has_evidence_def)
    moreover have "tokens_of_student (pool_tid p) y r (bound_seats d)"
      if "seat_pool_resource (pool_tid p) (slot_no y) d = Some r" for r
    proof -
      have "tokens_of_student (pool_tid p) x r (bound_seats d)" using l x(1,2) that unfolding linked_def by auto
      then show ?thesis using x(4) unfolding tokens_of_student_def by auto
    qed
    ultimately show ?thesis by blast
  qed
  then show ?thesis using l row unfolding linked_def res tid by simp
qed

lemma save_linked:
  assumes l: "linked p d" and q: "derived p q"
  shows "put_seat_pool dt (pool_tid p) (Some (revision p)) (to_dict q) d
     = Inr (revision q, update_pool_row dt (pool_tid p) (revision q) (to_dict q) d)"
  using assms by (auto simp: put_seat_pool_def to_dict_reads linked_def derived_def)

lemma upsert_frame:
  assumes "upsert_seat b d = Inr d'"
  shows "seat_pools d' = seat_pools d" "seat_pool_resources d' = seat_pool_resources d" "contests d' = contests d"
    "set (bound_seats d') \<subseteq> insert b (set (bound_seats d))"
  using assms by (auto simp: upsert_seat_def set_sql_update split: if_splits)

lemma upsert_linked:
  assumes p: "pool_wf p" and l: "linked p d" and s: "s \<in> set (seats p)" "seat_uid s = Some u"
    and r: "seat_pool_resource (pool_tid p) (slot_no s) d = Some r"
    and up: "upsert_seat (bound_from (pool_tid p) u name r) d = Inr d'"
  shows "linked p d'"
proof -
  note f = upsert_frame [OF up]
  have row: "get_pool_row (pool_tid p) d' = get_pool_row (pool_tid p) d" by (rule get_pool_row_cong) (simp add: f)
  have rm: "r \<in> set (seat_pool_resources d)" "r_slot_no r = slot_no s"
    using find_Some_iff_mem [OF r [unfolded seat_pool_resource_def]] by (simp_all add: resource_key_def)
  have "tokens_of_student (pool_tid p) y z (bound_seats d')"
    if y: "y \<in> set (seats p)" "seat_pool_resource (pool_tid p) (slot_no y) d = Some z" for y z
  proof (cases "z = r")
    case True
    have "r_slot_no z = slot_no y"
      using find_Some_iff_mem [OF y(2) [unfolded seat_pool_resource_def]] by (simp add: resource_key_def)
    then have "y = s" using True rm(2) distinct_map_eq [OF pool_wf_distinct [OF p] y(1) s(1)] by simp
    moreover have "tokens_of_student (pool_tid p) y z (bound_seats d)" using l y unfolding linked_def by blast
    ultimately show ?thesis using f(4) s(2) unfolding tokens_of_student_def by (auto simp: bound_from_def bound_key_def)
  next
    case False
    have zm: "z \<in> set (seat_pool_resources d)"
      using find_Some_iff_mem [OF y(2) [unfolded seat_pool_resource_def]] by simp
    have "r_token z \<noteq> r_token r" "r_submit_token z \<noteq> r_submit_token r"
      using l False zm rm(1) distinct_map_eq [of r_token "seat_pool_resources d" z r]
        distinct_map_eq [of r_submit_token "seat_pool_resources d" z r] unfolding linked_def by blast+
    moreover have "tokens_of_student (pool_tid p) y z (bound_seats d)" using l y unfolding linked_def by blast
    ultimately show ?thesis using f(4) unfolding tokens_of_student_def by (auto simp: bound_from_def)
  qed
  then show ?thesis using l unfolding linked_def row seat_pool_resource_def f(2) by blast
qed

text \<open>What a successful binding has checked, and when it succeeds.\<close>

lemma stored_slot:
  assumes "pool_wf p" and "s \<in> set (seats p)"
  shows "find_slot (jsort (to_dict p)) (slot_no s) = Inr (Some (jsort (seat_json s)))"
  using find_slot_seats [OF reads_sorted pool_items_sorted] find_distinct_key [OF pool_wf_distinct [OF assms(1)] assms(2)]
  by simp

lemma bound_state:
  assumes "pool_wf p" and "s \<in> set (seats p)" and "st s \<in> {Reserved, Released}"
  shows "seat_uid s \<noteq> None"
  using seats_wf_mem [OF pool_wf_seats [OF assms(1)] assms(2)] assms(3) by (auto simp: seat_wf_def)

lemma bind_result:
  assumes p: "pool_wf p" and l: "linked p d" and b: "bind_pool_seat (pool_tid p) u name n d = Inr (b, d')"
  shows "\<exists>s r. s \<in> set (seats p) \<and> slot_no s = n \<and> seat_uid s = Some u \<and> seat_uname s = name
     \<and> seat_pool_resource (pool_tid p) n d = Some r \<and> b = bound_from (pool_tid p) u name r \<and> upsert_seat b d = Inr d'"
proof -
  let ?x = "jsort (to_dict p)"
  obtain row where row: "get_pool_row (pool_tid p) d = Some row" "p_state_json row = Some ?x"
    using l by (auto simp: linked_def)
  obtain r v where r: "seat_pool_resource (pool_tid p) n d = Some r" "find_slot ?x n = Inr (Some v)"
      "jint_or0 ''uid'' v = Inr u" "str_or (jfield ''uname'' v) = name" "state_in {''reserved'', ''released''} v = Inr True"
      "b = bound_from (pool_tid p) u name r" "upsert_seat (bound_from (pool_tid p) u name r) d = Inr d'"
    using b row by (auto simp: bind_pool_seat_def load_state_def split: option.split_asm if_split_asm)
  obtain s where s: "s \<in> set (seats p)" "slot_no s = n" "v = jsort (seat_json s)"
    using r(2) find_slot_seats [OF reads_sorted pool_items_sorted, of p n]
    by (auto dest: find_Some_iff_mem)
  note g = seat_reads [OF reads_sorted, of s]
  have "st s \<in> {Reserved, Released}" using r(5) g(4) unfolding s(3) state_in_def by (cases "st s") auto
  then obtain x where "seat_uid s = Some x" using bound_state [OF p s(1)] by auto
  then have "seat_uid s = Some u" using r(3) g(2) unfolding s(3) by (simp add: uid_val_def)
  moreover have "seat_uname s = name"
    using r(4) reads_sorted unfolding s(3) reads_as_def by (auto simp: seat_dict_def str_or_def)
  ultimately show ?thesis using s r by blast
qed

lemma bind_total:
  assumes p: "pool_wf p" and l: "linked p d" and s: "s \<in> set (seats p)" "seat_uid s = Some u" "st s \<in> {Reserved, Released}"
  shows "\<exists>b d'. bind_pool_seat (pool_tid p) u (seat_uname s) (slot_no s) d = Inr (b, d')"
proof -
  let ?x = "jsort (to_dict p)" and ?v = "jsort (seat_json s)"
  obtain row where row: "get_pool_row (pool_tid p) d = Some row" "p_state_json row = Some ?x"
    using l by (auto simp: linked_def)
  obtain r where r: "seat_pool_resource (pool_tid p) (slot_no s) d = Some r" "has_evidence s r"
    using linked_resource [OF l s(1)] s(3) by (elim insertE emptyE) (simp_all, blast+)
  note g = seat_reads [OF reads_sorted, of s]
  have u: "jint_or0 ''uid'' ?v = Inr u" using g(2) s(2) by (simp add: uid_val_def)
  have n: "str_or (jfield ''uname'' ?v) = seat_uname s"
    using reads_sorted unfolding reads_as_def by (auto simp: seat_dict_def str_or_def)
  have i: "state_in {''reserved'', ''released''} ?v = Inr True" using g(4) s(3) unfolding state_in_def by auto
  have t: "tokens_of_student (pool_tid p) s r (bound_seats d)" using l s(1) r(1) unfolding linked_def by blast
  then have "\<not> list_ex (\<lambda>x. bound_key x \<noteq> (pool_tid p, u) \<and> seat_clash (bound_from (pool_tid p) u (seat_uname s) r) x) (bound_seats d)"
    using s(2) by (auto simp: list_ex_iff tokens_of_student_def seat_clash_def bound_from_def)
  then have "\<exists>d'. upsert_seat (bound_from (pool_tid p) u (seat_uname s) r) d = Inr d'"
    by (auto simp: upsert_seat_def bound_from_def bound_key_def)
  then show ?thesis
    using r g(5,6) u n i stored_slot [OF p s(1)] row
    by (auto simp: bind_pool_seat_def load_state_def has_evidence_def)
qed

section \<open>Steps that keep the places\<close>

definition same_place :: "seat \<Rightarrow> seat \<Rightarrow> bool" where
  "same_place s s' \<longleftrightarrow> slot_no s' = slot_no s \<and> container_ref s' = container_ref s \<and> image_digest s' = image_digest s
     \<and> material_digest s' = material_digest s \<and> (st s' \<in> {Planned, Warming} \<longleftrightarrow> st s \<in> {Planned, Warming})
     \<and> (seat_uid s \<noteq> None \<longrightarrow> seat_uid s' = seat_uid s \<and> seat_uname s' = seat_uname s \<and> st s \<le> st s')"

text \<open>Every student of \<open>p\<close> has the same slot, container and name in \<open>q\<close>.\<close>

definition places_kept :: "pool \<Rightarrow> pool \<Rightarrow> bool" where
  "places_kept p q \<longleftrightarrow> pool_tid q = pool_tid p
     \<and> (\<forall>s \<in> set (seats p). seat_uid s \<noteq> None \<longrightarrow> (\<exists>s' \<in> set (seats q). same_place s s'))"

lemma same_place_refl [simp]: "same_place s s"
  by (simp add: same_place_def)

lemma same_place_trans: "same_place s t \<Longrightarrow> same_place t u \<Longrightarrow> same_place s u"
  unfolding same_place_def by (elim conjE, intro conjI) (simp_all, fastforce)

lemma places_kept_refl [simp]: "places_kept p p"
  unfolding places_kept_def by (blast intro: same_place_refl)

lemma places_kept_trans:
  assumes "places_kept p q" and "places_kept q r"
  shows "places_kept p r"
  unfolding places_kept_def
proof (intro conjI ballI impI)
  fix s assume s: "s \<in> set (seats p)" "seat_uid s \<noteq> None"
  then obtain s' where s': "s' \<in> set (seats q)" "same_place s s'" using assms(1) unfolding places_kept_def by blast
  then have "seat_uid s' \<noteq> None" using s(2) by (simp add: same_place_def)
  then obtain s'' where "s'' \<in> set (seats r)" "same_place s' s''" using assms(2) s'(1) unfolding places_kept_def by blast
  then show "\<exists>s' \<in> set (seats r). same_place s s'" using s'(2) same_place_trans by blast
qed (use assms in \<open>simp add: places_kept_def\<close>)

fun quiet_op :: "pool_op \<Rightarrow> bool" where
  "quiet_op (Reserve u name now) = True"
| "quiet_op (ReleaseDue now) = True"
| "quiet_op (Reschedule b l) = True"
| "quiet_op c = False"

lemma quiet_seats:
  assumes p: "pool_wf p" and m: "op_mut p c (seats p) = Inr (ss', v, f)" and c: "quiet_op c"
  shows "list_all2 same_place (seats p) ss'"
proof (cases c)
  case (Reserve u name now)
  let ?target = "reservation_state now (release_at_ms p)"
  have "ss' = seats p \<or> (\<exists>s. first_available (filter (\<lambda>s. st s = Verified \<and> seat_uid s = None) (seats p)) = Some s
      \<and> ss' = replace_seat (seats p) (s\<lparr>st := ?target, seat_uid := Some u, seat_uname := py_strip name,
           reserved_at_ms := Some now, released_at_ms := (if ?target = Released then Some now else None)\<rparr>))"
    using m [unfolded Reserve op_mut.simps reserve_mut_def Let_def] by (auto split: option.split_asm if_split_asm)
  then consider "ss' = seats p"
    | s where "s \<in> set (seats p)" "st s = Verified" "seat_uid s = None"
        "ss' = replace_seat (seats p) (s\<lparr>st := ?target, seat_uid := Some u, seat_uname := py_strip name,
           reserved_at_ms := Some now, released_at_ms := (if ?target = Released then Some now else None)\<rparr>)"
    using first_available_mem by fastforce
  then show ?thesis
  proof cases
    case 2
    let ?w = "s\<lparr>st := ?target, seat_uid := Some u, seat_uname := py_strip name, reserved_at_ms := Some now,
       released_at_ms := (if ?target = Released then Some now else None)\<rparr>"
    have w: "same_place s ?w" using 2(2,3) by (simp add: same_place_def reservation_state_def)
    have "same_place x (if slot_no x = slot_no ?w then ?w else x)" if x: "x \<in> set (seats p)" for x
    proof (cases "slot_no x = slot_no s")
      case True
      have "x = s" by (rule distinct_map_eq [OF pool_wf_distinct [OF p] x 2(1) True])
      then show ?thesis using w by simp
    qed simp
    then show ?thesis unfolding 2(4) replace_seat_def by (simp add: list_all2_map2 list_all2_same)
  qed (simp add: list.rel_refl)
next
  case (ReleaseDue now)
  then show ?thesis
    using m [unfolded ReleaseDue op_mut.simps release_due_mut_def Let_def split_beta]
    by (auto simp: sweep_seats_fst list_all2_map2 list_all2_same same_place_def less_eq_seat_state_def
        intro: list.rel_refl split: if_split_asm)
next
  case (Reschedule b l)
  then show ?thesis using m by (auto intro: list.rel_refl)
qed (use c in auto)

lemma quiet_step:
  assumes p: "pool_wf p" and t: "run_op H c cid e p = Inr t" and c: "quiet_op c"
  shows "derived p (tr_state t)" and "places_kept p (tr_state t)"
proof -
  have tid: "pool_tid (tr_state t) = pool_tid p" using run_op_le [OF p t] by (simp add: pool_le_def)
  have rev: "0 \<le> revision (tr_state t)" using run_op_wf [OF p t] by (simp add: pool_wf_def log_wf_def)
  have all: "list_all2 same_place (seats p) (seats (tr_state t))"
    using t
  proof (cases rule: run_op_cases)
    case (fresh ss' v f rc)
    have "seats (tr_state t) = ss'"
      using op_mut_ok [OF p fresh(3)] fresh(5,10) by (simp add: mut_ok_def header_def)
    then show ?thesis using quiet_seats [OF p fresh(5) c] by simp
  qed (simp add: list.rel_refl)
  have bwd: "\<exists>x \<in> set (seats p). same_place x y" if "y \<in> set (seats (tr_state t))" for y
    using all that by (metis in_set_conv_nth list_all2_conv_all_nth)
  have fwd: "\<exists>y \<in> set (seats (tr_state t)). same_place x y" if "x \<in> set (seats p)" for x
    using all that by (metis in_set_conv_nth list_all2_conv_all_nth)
  show "derived p (tr_state t)"
    unfolding derived_def using tid rev bwd by (fastforce simp: same_place_def)
  show "places_kept p (tr_state t)"
    unfolding places_kept_def using tid fwd by blast
qed

section \<open>The pool of a contest\<close>

text \<open>The database holds the pool \<open>p\<close>; or a later pool in which every student of \<open>p\<close> kept the place.\<close>

definition follows :: "string \<Rightarrow> pool \<Rightarrow> world \<Rightarrow> bool" where
  "follows tid p w \<longleftrightarrow> pool_wf p \<and> pool_tid p = tid \<and> linked p (base w)"

definition stopped :: "string \<Rightarrow> pool \<Rightarrow> world \<Rightarrow> bool" where
  "stopped tid p w \<longleftrightarrow> (\<exists>q. follows tid q w \<and> places_kept p q)"

lemma follows_stopped: "follows tid p w \<Longrightarrow> stopped tid p w"
  unfolding stopped_def by (blast intro: places_kept_refl)

lemma assignment_mem: "assignment p u = Some s \<Longrightarrow> s \<in> set (seats p) \<and> seat_uid s = Some u"
  by (auto simp: assignment_def dest!: find_Some_iff_mem)

text \<open>Reading the pool at the start of an operation.\<close>

lemma contest_and_pool_run:
  assumes "follows tid p w" and "contest_and_pool tid w = (Inr (c, n, state), w')"
  shows "w' = w \<and> get_contest tid (base w) = Some c \<and> n = revision p \<and> read_pool state = Inr (stored p)"
proof -
  obtain k where k: "seat_pool tid (base w) = Inr (Some (revision p, jsort (to_dict p), k))"
    using assms(1) linked_row [of p "base w"] by (auto simp: follows_def)
  have "\<exists>c'. get_contest tid (base w) = Some c' \<and> (c, n, state) = (c', revision p, jsort (to_dict p)) \<and> w' = w"
    using assms(2) by (auto simp: contest_and_pool_def eff_defs k split: option.split_asm)
  then show ?thesis by (auto simp: read_pool_stored)
qed

lemma contest_and_pool_same: "contest_and_pool tid w = (r, w') \<Longrightarrow> w' = w"
  by (auto simp: contest_and_pool_def eff_defs split: option.split_asm sum.split_asm prod.split_asm)

lemma follows_stored: "follows tid (stored p) w \<longleftrightarrow> follows tid p w"
  by (simp add: follows_def stored_wf linked_stored)

lemma places_kept_stored: "places_kept (stored p) q \<longleftrightarrow> places_kept p q"
  by (simp add: places_kept_def)

lemma open_pool_same: "open_pool E A tid w = (r, w') \<Longrightarrow> w' = w"
  by (auto simp: open_pool_def andThen_def require_def lift_def ret_def dest!: contest_and_pool_same
      split: prod.split_asm sum.split_asm)

lemma open_pool_run:
  assumes f: "follows tid p w" and r: "open_pool E A tid w = (Inr (c, n, q), w')"
  shows "w' = w \<and> get_contest tid (base w) = Some c \<and> c_state c \<in> A \<and> n = revision p \<and> q = stored p"
proof -
  obtain x w1 where x: "contest_and_pool tid w = (Inr x, w1)" and y: "(case x of (c, n, state) \<Rightarrow>
     andThen (require (c_state c \<in> A) (RuntimeError ''contest state does not allow it'')) (\<lambda>_.
     andThen (lift (validate_contest_snapshot (e_document E) c)) (\<lambda>_.
     andThen (lift (read_pool state)) (\<lambda>p. ret (c, n, p))))) w1 = (Inr (c, n, q), w')"
    using r unfolding open_pool_def by (rule andThen_InrE)
  obtain c' n' state where e: "x = (c', n', state)" by (cases x)
  note s = contest_and_pool_run [OF f x [unfolded e]]
  show ?thesis
    using y s unfolding e by (auto elim!: andThen_InrE dest!: eff_InrD(1-5))
qed

lemma open_pool_triple:
  "triple (follows tid p) (open_pool E A tid) (\<lambda>(c, n, q) w. follows tid p w \<and> q = stored p \<and> n = revision p
     \<and> get_contest tid (base w) = Some c \<and> c_state c \<in> A) (follows tid p)"
  unfolding triple_def
proof (intro allI impI)
  fix w assume f: "follows tid p w"
  obtain r w' where r: "open_pool E A tid w = (r, w')" by fastforce
  then show "case open_pool E A tid w of (Inl e, w') \<Rightarrow> follows tid p w' | (Inr a, w') \<Rightarrow>
      (case a of (c, n, q) \<Rightarrow> \<lambda>w. follows tid p w \<and> q = stored p \<and> n = revision p
     \<and> get_contest tid (base w) = Some c \<and> c_state c \<in> A) w'"
    using f open_pool_same [OF r] open_pool_run [OF f] by (cases r) auto
qed

end
