(* ===== verification/OpsFrame.thy ===== *)
theory OpsFrame
  imports StoredPool
begin

text \<open>
  What the steps of the pool operations on the contest server leave alone: only a commit of the store
  changes the pool tables, and only staging and restoring the gateway change its routes.
\<close>

section \<open>Steps that keep the pool tables\<close>

definition pool_tables :: "db \<Rightarrow> pool_row list \<times> resource list \<times> bound_seat list" where
  "pool_tables d = (seat_pools d, seat_pool_resources d, bound_seats d)"

text \<open>\<open>keeps f m\<close>: no run of \<open>m\<close> changes the view \<open>f\<close> of the world, whether it ends or raises.\<close>

definition keeps :: "(world \<Rightarrow> 'v) \<Rightarrow> (world, 'a) eff \<Rightarrow> bool" where
  "keeps f m \<longleftrightarrow> (\<forall>w. f (snd (m w)) = f w)"

named_theorems keeps_intros \<open>compositional rules of \<open>keeps\<close>\<close>

lemma keepsD: "keeps f m \<Longrightarrow> m w = (r, w') \<Longrightarrow> f w' = f w"
  unfolding keeps_def by (metis snd_conv)

lemma keeps_pure [keeps_intros]:
  "keeps f (ret a)" "keeps f (raise e)" "keeps f (lift x)" "keeps f (asks g)" "keeps f (require b e)" "keeps f (reading h)"
  by (simp_all add: keeps_def eff_defs)

lemma keeps_then [keeps_intros]: "keeps f m \<Longrightarrow> (\<And>a. keeps f (g a)) \<Longrightarrow> keeps f (andThen m g)"
  by (auto simp: keeps_def andThen_def split: prod.split sum.split) (metis snd_conv)+

lemma keeps_handle [keeps_intros]: "keeps f m \<Longrightarrow> (\<And>e. keeps f (h e)) \<Longrightarrow> keeps f (handle m h)"
  by (auto simp: keeps_def handle_def split: prod.split sum.split) (metis snd_conv)+

lemma keeps_quietly [keeps_intros]: "keeps f m \<Longrightarrow> keeps f (quietly m)"
  unfolding quietly_def by (intro keeps_intros)

lemma keeps_modify: "(\<And>w. f (g w) = f w) \<Longrightarrow> keeps f (modify g)"
  by (simp add: keeps_def modify_def)

lemma keeps_forEach [keeps_intros]: "(\<And>x a. keeps f (g x a)) \<Longrightarrow> keeps f (forEach xs g a)"
  by (induction xs arbitrary: a) (auto intro: keeps_intros)

lemma keeps_cases [keeps_intros]:
  "(b \<Longrightarrow> keeps f m) \<Longrightarrow> (\<not> b \<Longrightarrow> keeps f n) \<Longrightarrow> keeps f (if b then m else n)"
  "keeps f m \<Longrightarrow> (\<And>y. keeps f (g y)) \<Longrightarrow> keeps f (case z of None \<Rightarrow> m | Some y \<Rightarrow> g y)"
  "(\<And>a b. keeps f (k a b)) \<Longrightarrow> keeps f (case p of (a, b) \<Rightarrow> k a b)"
  by (simp_all split: option.split prod.split)

lemma triple_keeps: "keeps f m \<Longrightarrow> triple (\<lambda>w. P (f w)) m (\<lambda>_ w. P (f w)) (\<lambda>w. P (f w))"
  by (auto simp: triple_def split: prod.split sum.split dest: keepsD)

abbreviation tables :: "world \<Rightarrow> pool_row list \<times> resource list \<times> bound_seat list" where
  "tables w \<equiv> pool_tables (base w)"

lemma set_state_tables: "pool_tables (set_state dt ms tid s m d) = pool_tables d"
  by (simp add: pool_tables_def set_state_def add_audit_def update_contest_def)

lemma keeps_tables [keeps_intros]:
  "keeps tables (set_frame g)" "keeps tables (connect E)" "keeps tables (stage_pool_gateway E rs)"
  "keeps tables (restore_pool_gateway E)" "keeps tables forget_backup" "keeps tables (cleanup_incremental_slots E ns)"
  "keeps tables (pool_runtime_context H E c p)" "keeps tables (provision_pool_slot E c img mat spec cips)"
  "keeps tables (contest_and_pool tid)" "keeps tables (open_pool E A tid)" "keeps tables (note_ready E tid m)"
  "keeps tables (note_failure E tid m)" "keeps tables (pause_failed E n)" "keeps tables (copy_answers E k rs z)"
  "keeps tables (remove_container E n)"
proof -
  have m: "keeps tables (modify g)" if "\<And>w. base (g w) = base w" for g :: "world \<Rightarrow> world"
    by (rule keeps_modify) (simp add: that)
  have r: "keeps tables (writing (set_state dt ms tid Ready m))" for dt ms tid m
    by (simp add: writing_def keeps_modify set_state_tables)
  show f: "keeps tables (set_frame g)" for g by (simp add: set_frame_def m)
  show "keeps tables (connect E)" unfolding connect_def by (intro keeps_intros f)
  show "keeps tables (stage_pool_gateway E rs)" unfolding stage_pool_gateway_def by (intro keeps_intros f m) simp
  show "keeps tables (restore_pool_gateway E)" unfolding restore_pool_gateway_def by (intro keeps_intros f m) simp
  show "keeps tables forget_backup" unfolding forget_backup_def by (rule f)
  show "keeps tables (cleanup_incremental_slots E ns)"
    unfolding cleanup_incremental_slots_def by (intro keeps_intros m) simp
  show "keeps tables (pool_runtime_context H E c p)" unfolding pool_runtime_context_def by (intro keeps_intros)
  show "keeps tables (provision_pool_slot E c img mat spec cips)"
    unfolding provision_pool_slot_def Let_def by (intro keeps_intros m) simp
  show c: "keeps tables (contest_and_pool tid)" unfolding contest_and_pool_def by (intro keeps_intros)
  show "keeps tables (open_pool E A tid)" unfolding open_pool_def by (intro keeps_intros c)
  show n: "keeps tables (note_ready E tid m)" for tid m unfolding note_ready_def by (rule r)
  show "keeps tables (note_failure E tid m)" unfolding note_failure_def by (intro keeps_intros n)
  show "keeps tables (pause_failed E n)" for n unfolding pause_failed_def by (intro keeps_intros f m) simp
  show "keeps tables (copy_answers E k rs z)" unfolding copy_answers_def by (intro keeps_intros)
  show "keeps tables (remove_container E n)" for n unfolding remove_container_def by (intro keeps_intros m) simp
qed

lemma keeps_undo [keeps_intros]:
  "keeps tables (undo_growth E tid x)" "keeps tables (undo_repair E x)" "keeps tables (undo_replacement E tid x)"
proof -
  have m: "keeps tables (modify (\<lambda>w. w\<lparr>paused_now := g w\<rparr>))" for g by (rule keeps_modify) simp
  show "keeps tables (undo_growth E tid x)" unfolding undo_growth_def by (intro keeps_intros)
  show "keeps tables (undo_repair E x)" unfolding undo_repair_def by (intro keeps_intros)
  show "keeps tables (undo_replacement E tid x)" unfolding undo_replacement_def by (intro keeps_intros m)
qed

text \<open>The pool that the database follows depends on the pool tables only.\<close>

lemma linked_tables:
  assumes "pool_tables d' = pool_tables d"
  shows "linked p d' \<longleftrightarrow> linked p d"
  using assms by (auto simp: pool_tables_def linked_def get_pool_row_def seat_pool_resource_def)

lemma follows_tables: "tables w' = tables w \<Longrightarrow> follows tid p w' \<longleftrightarrow> follows tid p w"
  unfolding follows_def using linked_tables [of "base w'" "base w" p] by simp

lemma stopped_tables: "tables w' = tables w \<Longrightarrow> stopped tid p w' \<longleftrightarrow> stopped tid p w"
  unfolding stopped_def using follows_tables [of w' w] by simp

lemma follows_kept:
  assumes "keeps tables m"
  shows "triple (follows tid p) m (\<lambda>_. follows tid p) (follows tid p)" and "triple (stopped tid p) m (\<lambda>_. stopped tid p) (stopped tid p)"
proof -
  have *: "triple P m (\<lambda>_. P) P" if "\<And>w w'. tables w' = tables w \<Longrightarrow> P w' \<longleftrightarrow> P w" for P
    unfolding triple_def
  proof (intro allI impI)
    fix w assume w: "P w"
    obtain r w' where m: "m w = (r, w')" by fastforce
    show "case m w of (Inl e, w') \<Rightarrow> P w' | (Inr a, w') \<Rightarrow> P w'"
      using that [OF keepsD [OF assms m]] w by (simp add: m split: sum.split)
  qed
  show "triple (follows tid p) m (\<lambda>_. follows tid p) (follows tid p)" by (rule * [OF follows_tables])
  show "triple (stopped tid p) m (\<lambda>_. stopped tid p) (stopped tid p)" by (rule * [OF stopped_tables])
qed

lemma framed_triple:
  assumes "triple P m Q E" and "\<And>w f. P (w\<lparr>local_vars := f\<rparr>) = P w" and "\<And>a w f. Q a (w\<lparr>local_vars := f\<rparr>) = Q a w"
    and "\<And>w f. E (w\<lparr>local_vars := f\<rparr>) = E w"
  shows "triple P (framed m) Q E"
  unfolding triple_def
proof (intro allI impI)
  fix w assume "P w"
  obtain r w' where m: "m (w\<lparr>local_vars := new_frame\<rparr>) = (r, w')" by fastforce
  from tripleD [OF assms(1) _ m] \<open>P w\<close> show "case framed m w of (Inl e, w') \<Rightarrow> E w' | (Inr a, w') \<Rightarrow> Q a w'"
    by (auto simp: framed_def m assms split: sum.splits)
qed

lemma exclusively_triple:
  assumes "triple P m Q E" and "\<And>w. P w \<Longrightarrow> E w" and "\<And>w a. P (w\<lparr>active := a\<rparr>) = P w" and "\<And>r w a. Q r (w\<lparr>active := a\<rparr>) = Q r w"
    and "\<And>w a. E (w\<lparr>active := a\<rparr>) = E w"
  shows "triple P (exclusively tid m) Q E"
  unfolding triple_def
proof (intro allI impI)
  fix w assume w: "P w"
  obtain r w' where m: "m (w\<lparr>active := insert tid (active w)\<rparr>) = (r, w')" by fastforce
  from tripleD [OF assms(1) _ m] w show "case exclusively tid m w of (Inl e, w') \<Rightarrow> E w' | (Inr a, w') \<Rightarrow> Q a w'"
    by (auto simp: exclusively_eq m leave_def assms split: sum.splits)
qed

lemma follows_simps [simp]:
  "follows tid p (w\<lparr>local_vars := f\<rparr>) = follows tid p w" "follows tid p (w\<lparr>active := a\<rparr>) = follows tid p w"
  "stopped tid p (w\<lparr>local_vars := f\<rparr>) = stopped tid p w" "stopped tid p (w\<lparr>active := a\<rparr>) = stopped tid p w"
  by (simp_all add: follows_def stopped_def)

end
