(* ===== verification/NotifyTrack.thy ===== *)
theory NotifyTrack
  imports NotifyHealth OpsFrame
begin

text \<open>
  A round on a stored pool of the seat pool machine: it does not raise, and afterwards every released seat
  has its row in the outbox.
\<close>

section \<open>Notification ids\<close>

text \<open>The id of a seat's login is the id of no other row.\<close>

definition ids_free :: "(string \<Rightarrow> string) \<Rightarrow> string \<Rightarrow> db \<Rightarrow> bool" where
  "ids_free H tid d \<longleftrightarrow> (\<forall>n \<in> set (seat_notifications d). \<forall>u cr. seat_notification_id H tid u cr = Inr (n_notification_id n)
     \<longrightarrow> notify_key n = (tid, u, ''seat_ready'', cr))"

lemma seat_id_inject:
  assumes "inj H" and "seat_notification_id H tid u cr = Inr x" and "seat_notification_id H tid u' cr' = Inr x"
  shows "u = u' \<and> cr = cr'"
proof -
  have "H (''['' @ join '','' [quote_ascii ''noi-seat-ready-v1'', quote_ascii (py_lower tid), int_str u, quote_ascii (int_str cr)] @ '']'')
      = H (''['' @ join '','' [quote_ascii ''noi-seat-ready-v1'', quote_ascii (py_lower tid), int_str u', quote_ascii (int_str cr')] @ '']'')"
    using assms(2,3) unfolding seat_notification_id_def by (simp split: if_split_asm)
  then have t: "int_str u @ '','' @ quote_ascii (int_str cr) @ '']'' = int_str u' @ '','' @ quote_ascii (int_str cr') @ '']''"
    using injD [OF assms(1)] by fastforce
  then have "u = u'" and "quote_ascii (int_str cr) = quote_ascii (int_str cr')"
    using int_str_comma_inject by fastforce+
  then show ?thesis using quote_ascii_inject int_str_inject by blast
qed

lemma find_added:
  "find_notification k d \<noteq> None \<Longrightarrow> seat_notifications d' = seat_notifications d @ new \<Longrightarrow> find_notification k d' \<noteq> None"
  by (auto simp: find_notification_def find_Nil_append)

lemma find_kept:
  assumes "find_notification k d \<noteq> None" and "notes_le d d'"
  shows "find_notification k d' \<noteq> None"
proof -
  obtain n where "n \<in> set (seat_notifications d)" "notify_key n = k"
    using assms(1) by (auto simp: find_notification_def dest!: find_Some_iff_mem)
  then obtain n' where "n' \<in> set (seat_notifications d')" "notify_key n' = k"
    using assms(2) by (auto simp: notes_le_def above_def note_le_def)
  then show ?thesis by (auto simp: find_notification_def find_None_iff)
qed

section \<open>Preparing the seats of a linked pool\<close>

definition tracked :: "string \<Rightarrow> db \<Rightarrow> seat \<Rightarrow> db \<Rightarrow> bool" where
  "tracked tid d0 s d \<longleftrightarrow> (st s = Released \<longrightarrow> (\<exists>u r. seat_uid s = Some u \<and> seat_pool_resource tid (slot_no s) d0 = Some r
     \<and> find_notification (tid, u, ''seat_ready'', r_credential_revision r) d \<noteq> None))"

text \<open>A student and credentials that the client accepts.\<close>

definition addressed :: "string \<Rightarrow> db \<Rightarrow> seat \<Rightarrow> bool" where
  "addressed tid d0 s \<longleftrightarrow> (st s = Released \<longrightarrow> (\<exists>u r. seat_uid s = Some u \<and> 1 < u \<and> seat_pool_resource tid (slot_no s) d0 = Some r
     \<and> 1 \<le> r_credential_revision r \<and> length (int_str (r_credential_revision r)) \<le> 128))"

definition tracking :: "(string \<Rightarrow> string) \<Rightarrow> string \<Rightarrow> db \<Rightarrow> seat list \<Rightarrow> db \<Rightarrow> bool" where
  "tracking H tid d0 ys d \<longleftrightarrow> ids_free H tid d \<and> seat_pool_resources d = seat_pool_resources d0 \<and> list_all (\<lambda>s. tracked tid d0 s d) ys"

lemma tracking_row:
  assumes t: "tracking H tid d0 ys d" and inj: "inj H" and id: "seat_notification_id H tid u cr = Inr nid"
  shows "\<exists>n d'. queue_seat_notification dt tid u ''seat_ready'' cr nid d = Inr (n, d') \<and> tracking H tid d0 ys d'
     \<and> find_notification (tid, u, ''seat_ready'', cr) d' \<noteq> None"
proof (cases "find_notification (tid, u, ''seat_ready'', cr) d")
  case (Some n)
  then show ?thesis using t by (auto simp: queue_seat_notification_def)
next
  case None
  let ?n = "new_notification dt tid u ''seat_ready'' cr nid"
  let ?d = "d\<lparr>seat_notifications := seat_notifications d @ [?n]\<rparr>"
  have free: "n_notification_id n \<noteq> nid" if n: "n \<in> set (seat_notifications d)" for n
  proof
    assume "n_notification_id n = nid"
    then have "notify_key n = (tid, u, ''seat_ready'', cr)" using t n id by (auto simp: tracking_def ids_free_def)
    with None n show False by (auto simp: find_notification_def find_None_iff)
  qed
  then have q: "queue_seat_notification dt tid u ''seat_ready'' cr nid d = Inr (?n, ?d)"
    using None by (auto simp: queue_seat_notification_def list_ex_iff Let_def)
  have "ids_free H tid ?d" using t seat_id_inject [OF inj id] by (auto simp: tracking_def ids_free_def)
  moreover have "tracked tid d0 s ?d" if "tracked tid d0 s d" for s
    using that find_added [of _ d ?d "[?n]"] by (auto simp: tracked_def)
  ultimately have "tracking H tid d0 ys ?d" using t by (auto simp: tracking_def list_all_iff)
  moreover have "find_notification (tid, u, ''seat_ready'', cr) ?d \<noteq> None"
    by (simp add: find_notification_def find_Nil_append split: option.split)
  ultimately show ?thesis using q by blast
qed

lemma prepare_tracks:
  assumes g: "reads_as g" and H: "inj (ne_hash E)" and tid: "re_exact hex_digit 24 tid" and s: "addressed tid d0 s"
    and t: "tracking (ne_hash E) tid d0 ys d"
  shows "\<exists>js d'. prepare_seat E tid reminders (g s) jobs d = (Inr js, d') \<and> tracking (ne_hash E) tid d0 (ys @ [s]) d'"
proof -
  have read: "jget ''state'' (g s) = Inr (Some (JStr (state_str (st s))))" "jfield ''slot_no'' (g s) = Some (JInt (slot_no s))"
    "jfield ''uid'' (g s) = Some (opt_int (seat_uid s))"
    using g by (simp_all add: reads_as_def seat_dict_def)
  have rel: "state_str (st s) = ''released'' \<longleftrightarrow> st s = Released" by (cases "st s") simp_all
  show ?thesis
  proof (cases "st s = Released")
    case False
    then show ?thesis
      using t rel by (auto simp: prepare_seat_def eff_defs read tracking_def tracked_def)
  next
    case True
    then obtain u r where u: "seat_uid s = Some u" "1 < u" "seat_pool_resource tid (slot_no s) d0 = Some r"
        "1 \<le> r_credential_revision r" "length (int_str (r_credential_revision r)) \<le> 128"
      using s by (auto simp: addressed_def)
    have r: "seat_pool_resource tid (slot_no s) d = Some r" using t u(3) by (simp add: tracking_def seat_pool_resource_def)
    obtain nid where id: "seat_notification_id (ne_hash E) tid u (r_credential_revision r) = Inr nid"
      using tid u(2,5) by (simp add: seat_notification_id_def)
    obtain n d' where q: "queue_seat_notification (ne_dt E) tid u ''seat_ready'' (r_credential_revision r) nid d = Inr (n, d')"
        "tracking (ne_hash E) tid d0 ys d'" "find_notification (tid, u, ''seat_ready'', r_credential_revision r) d' \<noteq> None"
      using tracking_row [OF t H id] by blast
    have "\<exists>js. queue_seat E tid reminders u (g s) jobs d = (Inr js, d')"
      using r id q(1) u(4) by (auto simp: queue_seat_def queue_ready_def eff_defs read storing_def Let_def)
    then obtain js where "prepare_seat E tid reminders (g s) jobs d = (Inr js, d')"
      using u(1,2) by (auto simp: prepare_seat_def eff_defs read True)
    moreover have "tracking (ne_hash E) tid d0 (ys @ [s]) d'" using q(2,3) u(1,3) by (auto simp: tracking_def tracked_def)
    ultimately show ?thesis by blast
  qed
qed

lemma prepares_track:
  assumes g: "reads_as g" and H: "inj (ne_hash E)" and tid: "re_exact hex_digit 24 tid"
    and "list_all (addressed tid d0) ys" and "tracking (ne_hash E) tid d0 xs d"
  shows "\<exists>js d'. forEach (map g ys) (prepare_seat E tid reminders) jobs d = (Inr js, d') \<and> tracking (ne_hash E) tid d0 (xs @ ys) d'"
  using assms(4,5)
proof (induction ys arbitrary: xs jobs d)
  case (Cons y ys)
  obtain js e where p: "prepare_seat E tid reminders (g y) jobs d = (Inr js, e)" "tracking (ne_hash E) tid d0 (xs @ [y]) e"
    using prepare_tracks [OF g H tid _ Cons.prems(2), of y reminders jobs] Cons.prems(1) by fastforce
  from Cons.IH [OF _ p(2)] Cons.prems(1) p(1) show ?case by (simp add: andThen_Inr)
qed (simp add: ret_def)

section \<open>The whole round\<close>

lemma marks_keep_keys:
  "\<exists>d'. forEach jobs (\<lambda>j _. mark E (jb_notification_id j) (s j) (t j) (e j)) () d = (Inr (), d')
     \<and> map notify_key (seat_notifications d') = map notify_key (seat_notifications d)"
proof (induction jobs arbitrary: d)
  case (Cons j jobs)
  obtain d' where m: "mark E (jb_notification_id j) (s j) (t j) (e j) d = (Inr (), d')"
      "map notify_key (seat_notifications d') = map notify_key (seat_notifications d)"
  proof (cases "mark_seat_notification (ne_dt E) (jb_notification_id j) (s j) (t j) (e j) d")
    case (Inl x)
    show ?thesis by (rule that [of d]) (simp_all add: mark_def quietly_def handle_def storing_def ret_def Inl)
  next
    case (Inr d')
    show ?thesis
      by (rule that [of d']) (simp_all add: mark_def quietly_def handle_def storing_def Inr mark_result [OF Inr] map_sql_update)
  qed
  from Cons.IH [of d'] m show ?case by (simp add: andThen_Inr)
qed (simp add: ret_def)

lemma find_by_key: "find_notification k d \<noteq> None \<longleftrightarrow> k \<in> set (map notify_key (seat_notifications d))"
  by (auto simp: find_notification_def find_None_iff)


section \<open>Health of a linked pool\<close>

text \<open>The student of the seat has been sent the login of its current credentials.\<close>

definition student_notified :: "string \<Rightarrow> db \<Rightarrow> seat \<Rightarrow> bool" where
  "student_notified tid d s \<longleftrightarrow> (\<exists>u r row. seat_uid s = Some u \<and> 1 < u \<and> 1 \<le> slot_no s \<and> seat_pool_resource tid (slot_no s) d = Some r
     \<and> 1 \<le> r_credential_revision r \<and> find_notification (tid, u, ''seat_ready'', r_credential_revision r) d = Some row \<and> n_state row = NSent)"

lemma seat_list_sorted: "seat_list (Some (jsort (to_dict p))) = Some (map (\<lambda>s. jsort (seat_json s)) (seats p))"
proof -
  obtain e where e: "jsort (to_dict p) = JObj e" by (simp add: to_dict_def)
  then have "jget ''seats'' (JObj e) = Inr (map_option jsort (the (case to_dict p of JObj e \<Rightarrow> Some (map_of e ''seats''))))"
    using to_dict_get [of "''seats''" p] by simp
  then show ?thesis by (simp add: seat_list_def e to_dict_def comp_def)
qed

lemma seat_json_reads:
  assumes "reads_as g" and d: "\<And>s. is_dict (g s)"
  shows "is_released (g s) \<longleftrightarrow> st s = Released" and "login_sent tid d (g s) \<longleftrightarrow> student_notified tid d s"
    and "jfield ''uid'' (g s) = Some (opt_int (seat_uid s))" and "jfield ''slot_no'' (g s) = Some (JInt (slot_no s))"
proof -
  have r: "jfield k (g s) = map_of (seat_dict s) k" for k using assms(1) by (simp add: reads_as_def)
  show u: "jfield ''uid'' (g s) = Some (opt_int (seat_uid s))" "jfield ''slot_no'' (g s) = Some (JInt (slot_no s))"
    by (simp_all add: r seat_dict_def)
  show "is_released (g s) \<longleftrightarrow> st s = Released" by (cases "st s") (simp_all add: is_released_def r seat_dict_def)
  show "login_sent tid d (g s) \<longleftrightarrow> student_notified tid d s"
    by (cases "seat_uid s") (auto simp: login_sent_def student_notified_def u plain_int_Some)
qed

text \<open>For the pool of the seat pool machine, the health report asks exactly that every student of a released
  seat has been sent the login of the current credentials of the seat.\<close>

lemma linked_notified:
  assumes "linked p d" and "pool_wf p" and "get_pool_row (pool_tid p) d = Some row"
  shows "all_notified d row \<longleftrightarrow> list_all (\<lambda>s. st s = Released \<longrightarrow> student_notified (pool_tid p) d s) (seats p)"
proof -
  let ?g = "\<lambda>s. jsort (seat_json s)"
  have row: "p_state_json row = Some (jsort (to_dict p))" using assms(1,3) by (auto simp: linked_def)
  have tid: "p_tid row = pool_tid p" using assms(3) by (auto simp: get_pool_row_def dest!: find_Some_iff_mem)
  have dict: "is_dict (?g s)" for s by (simp add: seat_json_def)
  note r = seat_json_reads [OF reads_sorted dict]
  have rel: "filter is_released (map ?g xs) = map ?g (filter (\<lambda>s. st s = Released) xs)" for xs
    by (induction xs) (simp_all add: r(1) del: jsort.simps)
  let ?rel = "filter (\<lambda>s. st s = Released) (seats p)"
  have "distinct (map slot_no ?rel)" using assms(2) by (simp add: pool_wf_distinct distinct_map_filter)
  then have slots: "distinct (map (jfield ''slot_no'') (map ?g ?rel))"
    by (simp add: comp_def r(4) distinct_map inj_on_def del: jsort.simps)
  have uids: "distinct (map (jfield ''uid'') (map ?g ?rel))" if n: "list_all (student_notified (pool_tid p) d) ?rel"
  proof -
    have "s = t" if x: "s \<in> set ?rel" "t \<in> set ?rel" "jfield ''uid'' (?g s) = jfield ''uid'' (?g t)" for s t
    proof -
      have "student_notified (pool_tid p) d s" "student_notified (pool_tid p) d t" using x(1,2) n by (simp_all add: list_all_iff)
      then obtain u v where uv: "seat_uid s = Some u" "seat_uid t = Some v" unfolding student_notified_def by blast
      then show ?thesis
        using bound_distinct [OF pool_wf_seats [OF assms(2)], of s t] x by (simp add: r(3) del: jsort.simps)
    qed
    moreover have "distinct ?rel" using \<open>distinct (map slot_no ?rel)\<close> by (simp add: distinct_map)
    ultimately show ?thesis by (auto simp: distinct_map inj_on_def)
  qed
  show ?thesis
    unfolding all_notified_def row seat_list_sorted option.case rel tid
    using slots uids dict by (auto simp: list_all_iff r(2) comp_def simp del: jsort.simps)
qed

end
