(* ===== verification/GrowLink.thy ===== *)
theory GrowLink
  imports OpsFrame
begin

text \<open>
  An expansion and a repair commit the state of a seat pool machine together with new resources: what the
  store has checked is enough to keep the database linked to the machine.
\<close>

section \<open>New resources\<close>

lemma json_eq_seat:
  assumes "json_eq (seat_json s') (jsort (seat_json s))"
  shows "s' = s"
proof -
  have "map (\<lambda>(k, v). (k, jnorm v)) (seat_dict x) = seat_dict x" for x
  proof -
    have "jnorm (opt_int u) = opt_int u" for u by (cases u) simp_all
    then show ?thesis by (simp add: seat_dict_def)
  qed
  then have "sort_key fst (seat_dict s') = sort_key fst (seat_dict s)"
    using assms unfolding json_eq_def jnorm_jsort seat_json_def jnorm.simps by simp
  then have m: "map_of (seat_dict s') = map_of (seat_dict s)"
    using map_of_sort_key [OF seat_dict_keys] by metis
  have k: "set (map fst (seat_dict s')) = set (map fst (seat_dict s))" by (simp add: seat_dict_def)
  have "seat_of_dict (seat_dict s') = seat_of_dict (seat_dict s)"
    unfolding seat_of_dict_def req_def opt_field_def m list_all_iff k ..
  then show ?thesis by simp
qed

lemma insert_resource_distinct:
  assumes "foldE (\<lambda>e r. insert_resource dt tid r e) d rs = Inr d'"
    and "distinct (map r_token (seat_pool_resources d))" and "distinct (map r_submit_token (seat_pool_resources d))"
  shows "distinct (map r_token (seat_pool_resources d')) \<and> distinct (map r_submit_token (seat_pool_resources d'))"
  using assms
proof (induction rs arbitrary: d)
  case (Cons r rs)
  obtain d1 where d1: "insert_resource dt tid r d = Inr d1" "foldE (\<lambda>e r. insert_resource dt tid r e) d1 rs = Inr d'"
    using Cons.prems(1) by auto
  have "distinct (map r_token (seat_pool_resources d1))" "distinct (map r_submit_token (seat_pool_resources d1))"
    using d1(1) Cons.prems(2,3) by (auto simp: insert_resource_result resource_clash_def list_ex_iff new_resource_def)
  then show ?case using Cons.IH [OF d1(2)] by blast
qed simp

text \<open>
  A later machine state whose new seats are verified and free. A seat of the earlier one is unchanged unless
  it was a planned free seat.
\<close>

definition extended :: "pool \<Rightarrow> pool \<Rightarrow> bool" where
  "extended p q \<longleftrightarrow> pool_tid q = pool_tid p
     \<and> (\<forall>x \<in> set (seats p). x \<in> set (seats q) \<or> st x = Planned \<and> seat_uid x = None)
     \<and> (\<forall>y \<in> set (seats q). y \<in> set (seats p) \<or> st y = Verified \<and> seat_uid y = None)"

lemma extended_refl: "extended p p"
  by (simp add: extended_def)

lemma extended_stored [simp]: "extended (stored p) q = extended p q"
  by (simp add: extended_def)

lemma extended_places:
  assumes "extended p q"
  shows "places_kept p q"
  unfolding places_kept_def
proof (intro conjI ballI impI)
  fix s assume "s \<in> set (seats p)" "seat_uid s \<noteq> None"
  then have "s \<in> set (seats q)" using assms by (auto simp: extended_def)
  then show "\<exists>s' \<in> set (seats q). same_place s s'" by (intro bexI [of _ s]) simp_all
qed (use assms in \<open>simp add: extended_def\<close>)

definition new_row :: "string \<Rightarrow> db \<Rightarrow> resource \<Rightarrow> seat \<Rightarrow> bool" where
  "new_row tid d r y \<longleftrightarrow> slot_no y = r_slot_no r \<and> seat_pool_resource tid (r_slot_no r) d = None \<and> has_evidence y r
     \<and> st y = Verified \<and> seat_uid y = None"

lemma linked_extend:
  assumes l: "linked p d" and tid: "pool_tid p = tid" "pool_tid q = tid"
    and row: "map_option (\<lambda>w. (p_revision w, p_state_json w)) (get_pool_row tid d')
       = Some (revision q, Some (jsort (to_dict q)))"
    and res: "seat_pool_resources d' = seat_pool_resources d @ map (new_resource dt tid) rs"
    and bound: "bound_seats d' = bound_seats d"
    and toks: "distinct (map r_token (seat_pool_resources d'))" "distinct (map r_submit_token (seat_pool_resources d'))"
    and slots: "distinct (map r_slot_no rs)"
    and free: "\<And>r. r \<in> set rs \<Longrightarrow> free_tokens r (bound_seats d)"
    and mem: "\<And>y. y \<in> set (seats q) \<Longrightarrow> y \<in> set (seats p) \<and> slot_no y \<notin> r_slot_no ` set rs \<or> (\<exists>r \<in> set rs. new_row tid d r y)"
  shows "linked q d'"
proof -
  have key: "resource_key (new_resource dt tid r) = (tid, r_slot_no r)" for r by (simp add: resource_key_def new_resource_def)
  have look: "seat_pool_resource tid n d' = (case seat_pool_resource tid n d of
      None \<Rightarrow> find (\<lambda>x. resource_key x = (tid, n)) (map (new_resource dt tid) rs) | Some r \<Rightarrow> Some r)" for n
    unfolding seat_pool_resource_def res find_Nil_append ..
  have old: "seat_pool_resource tid n d' = seat_pool_resource tid n d" if "n \<notin> r_slot_no ` set rs" for n
  proof -
    have "find (\<lambda>x. resource_key x = (tid, n)) (map (new_resource dt tid) rs) = None"
      using that by (auto simp: find_None_iff key)
    then show ?thesis unfolding look by (simp split: option.split)
  qed
  have new: "seat_pool_resource tid (r_slot_no r) d' = Some (new_resource dt tid r)"
    if r: "r \<in> set rs" "seat_pool_resource tid (r_slot_no r) d = None" for r
  proof -
    have "find (\<lambda>x. r_slot_no x = r_slot_no r) rs = Some r" by (rule find_distinct_key [OF slots r(1) refl])
    moreover have "find (\<lambda>x. resource_key x = (tid, n)) (map (new_resource dt tid) xs)
        = map_option (new_resource dt tid) (find (\<lambda>x. r_slot_no x = n) xs)" for n xs
      by (induction xs) (simp_all add: key)
    ultimately show ?thesis unfolding look r(2) by simp
  qed
  have each: "(st y \<notin> {Planned, Warming} \<longrightarrow> (\<exists>r. seat_pool_resource tid (slot_no y) d' = Some r \<and> has_evidence y r))
      \<and> (\<forall>r. seat_pool_resource tid (slot_no y) d' = Some r \<longrightarrow> tokens_of_student tid y r (bound_seats d'))"
    if y: "y \<in> set (seats q)" for y
    using mem [OF y]
  proof (elim disjE bexE conjE)
    assume o: "y \<in> set (seats p)" "slot_no y \<notin> r_slot_no ` set rs"
    show ?thesis unfolding old [OF o(2)] bound using l o(1) unfolding linked_def tid by blast
  next
    fix r assume r: "r \<in> set rs" "new_row tid d r y"
    have n: "seat_pool_resource tid (slot_no y) d' = Some (new_resource dt tid r)"
      using new [OF r(1)] r(2) unfolding new_row_def by metis
    have "tokens_of_student tid y (new_resource dt tid r) (bound_seats d')"
      using free [OF r(1)] unfolding bound by (auto simp: tokens_of_student_def free_tokens_def new_resource_def)
    then show ?thesis unfolding n using r(2) by (auto simp: new_row_def has_evidence_def new_resource_def)
  qed
  show ?thesis unfolding linked_def tid using row toks each by blast
qed

section \<open>The two commits\<close>

lemma validated_resource:
  assumes "pool_wf q" and "validate_pool_resource (to_dict q) r = Inr v"
  shows "\<exists>y \<in> set (seats q). v = seat_json y \<and> slot_no y = r_slot_no r \<and> has_evidence y r \<and> st y = Verified \<and> seat_uid y = None"
proof -
  obtain y where y: "find (\<lambda>s. slot_no s = r_slot_no r) (seats q) = Some y" "v = seat_json y"
    using assms(2) find_slot_seats [OF reads_seat_json pool_items_dict, of q "r_slot_no r"]
    by (cases "find (\<lambda>s. slot_no s = r_slot_no r) (seats q)")
      (auto simp: validate_pool_resource_def split: if_split_asm)
  note f = find_Some_iff_mem [OF y(1)]
  have c: "jfield ''state'' (seat_json y) = Some (JStr ''verified'')" "evidence_matches (seat_json y) r"
    using assms(2) y find_slot_seats [OF reads_seat_json pool_items_dict, of q "r_slot_no r"]
    by (auto simp: validate_pool_resource_def split: if_split_asm)
  have "st y = Verified" using c(1) seat_reads(4) [OF reads_seat_json, of y] by (cases "st y") simp_all
  moreover have "seat_uid y = None"
    using calculation seats_wf_mem [OF pool_wf_seats [OF assms(1)], of y] f by (simp add: seat_wf_def)
  ultimately show ?thesis
    using f y(2) c(2) seat_reads(5) [OF reads_seat_json, of y r] by (auto simp: has_evidence_def)
qed

lemma validated_resources:
  assumes q: "pool_wf q"
  shows "validate_resources (to_dict q) seen rs = Inr () \<Longrightarrow> distinct (map r_slot_no rs)
     \<and> (\<forall>r \<in> set rs. r_slot_no r \<notin> set seen \<and> (\<exists>y \<in> set (seats q). slot_no y = r_slot_no r \<and> has_evidence y r
          \<and> st y = Verified \<and> seat_uid y = None))"
proof (induction rs arbitrary: seen)
  case (Cons r rs)
  obtain v where v: "validate_pool_resource (to_dict q) r = Inr v" "r_slot_no r \<notin> set seen"
      "validate_resources (to_dict q) (r_slot_no r # seen) rs = Inr ()"
    using Cons.prems by (auto split: if_split_asm)
  show ?case using Cons.IH [OF v(3)] v(2) validated_resource [OF q v(1)] by auto
qed simp

lemma old_slot:
  assumes "pool_wf p" and "x \<in> set (seats p)" and "slot_map (jsort (to_dict p)) = Inr old"
  shows "map_of old (slot_no x) = Some (jsort (seat_json x))"
proof -
  have o: "old = rev (map (\<lambda>s. (slot_no s, jsort (seat_json s))) (seats p))"
    using assms(3) slot_map_seats [OF reads_sorted pool_items_sorted, of p] by simp
  show ?thesis
    unfolding o map_of_slots [OF pool_wf_distinct [OF assms(1)]]
    using find_distinct_key [OF pool_wf_distinct [OF assms(1)] assms(2) refl] by simp
qed

lemma new_slot:
  assumes "pool_wf q" and "slot_map (to_dict q) = Inr new"
  shows "map_of new k = map_option seat_json (find (\<lambda>s. slot_no s = k) (seats q))"
proof -
  have n: "new = rev (map (\<lambda>s. (slot_no s, seat_json s)) (seats q))"
    using assms(2) slot_map_seats [OF reads_seat_json pool_items_dict, of q] by simp
  show ?thesis unfolding n by (rule map_of_slots [OF pool_wf_distinct [OF assms(1)]])
qed

text \<open>A seat of the stored pool that the commit has to leave alone is a seat of the new one.\<close>

lemma unchanged_seat:
  assumes p: "pool_wf p" and q: "pool_wf q" and x: "x \<in> set (seats p)"
    and old: "slot_map (jsort (to_dict p)) = Inr old" and new: "slot_map (to_dict q) = Inr new"
    and same: "\<not> seat_differs new old (slot_no x)"
  shows "x \<in> set (seats q)"
proof -
  note o = old_slot [OF p x old] and n = new_slot [OF q new]
  obtain y where y: "find (\<lambda>s. slot_no s = slot_no x) (seats q) = Some y" "json_eq (seat_json y) (jsort (seat_json x))"
    using same unfolding seat_differs_def o n by (auto split: option.split_asm)
  then show ?thesis using json_eq_seat [OF y(2)] find_Some_iff_mem [OF y(1)] by simp
qed

lemma slots_old: "slot_map (jsort (to_dict p)) = Inr old \<Longrightarrow> slots old = slot_no ` set (seats p)"
  using slot_map_seats [OF reads_sorted pool_items_sorted, of p] slots_seats [of "\<lambda>s. jsort (seat_json s)" "seats p"] by simp

lemma slots_new: "slot_map (to_dict q) = Inr new \<Longrightarrow> slots new = slot_no ` set (seats q)"
  using slot_map_seats [OF reads_seat_json pool_items_dict, of q] slots_seats [of seat_json "seats q"] by simp

lemma same_slot: "pool_wf p \<Longrightarrow> x \<in> set (seats p) \<Longrightarrow> y \<in> set (seats p) \<Longrightarrow> slot_no x = slot_no y \<Longrightarrow> x = y"
  using distinct_map_eq [OF pool_wf_distinct] by blast

lemma stored_row:
  assumes "linked p d"
  obtains w where "get_pool_row (pool_tid p) d = Some w" "p_revision w = revision p" "p_state_json w = Some (jsort (to_dict p))"
  using assms by (auto simp: linked_def)

lemma written_row:
  assumes "get_pool_row tid d = Some w" and "seat_pools d0 = seat_pools d"
  shows "map_option (\<lambda>w. (p_revision w, p_state_json w)) (get_pool_row tid (update_pool_row dt tid n s d0)) = Some (n, Some (jsort s))"
  using assms get_pool_row_cong [OF assms(2), of tid] by (simp add: get_pool_row_update write_pool_def)

lemma inserted_new:
  assumes "foldE (\<lambda>e r. insert_resource dt tid r e) d rs = Inr d'" and "r \<in> set rs"
  shows "seat_pool_resource tid (r_slot_no r) d = None"
  using assms
proof (induction rs arbitrary: d)
  case (Cons z rs)
  obtain d1 where d1: "insert_resource dt tid z d = Inr d1" "foldE (\<lambda>e r. insert_resource dt tid r e) d1 rs = Inr d'"
    using Cons.prems(1) by auto
  show ?case
  proof (cases "r = z")
    case False
    then have "seat_pool_resource tid (r_slot_no r) d1 = None" using Cons.IH [OF d1(2)] Cons.prems(2) by simp
    then show ?thesis using d1(1) by (auto simp: insert_resource_result seat_pool_resource_def find_None_iff)
  qed (use d1(1) in \<open>simp add: insert_resource_result\<close>)
qed simp

lemma expansion_linked:
  assumes p: "pool_wf p" "linked p d" and q: "pool_wf q" "pool_tid q = pool_tid p"
    and c: "commit_pool_expansion dt (pool_tid p) e (to_dict q) rs d = Inr (n, d')"
    and free: "\<And>r. r \<in> set rs \<Longrightarrow> free_tokens r (bound_seats d)"
  shows "linked q d' \<and> extended p q \<and> n = revision q \<and> revision p < revision q \<and> e = revision p
     \<and> set (map slot_no (seats q)) = set (map slot_no (seats p)) \<union> set (map r_slot_no rs)"
proof -
  let ?tid = "pool_tid p"
  obtain w where w: "get_pool_row ?tid d = Some w" "p_revision w = revision p" "p_state_json w = Some (jsort (to_dict p))"
    by (rule stored_row [OF p(2)])
  obtain old new maximum spares where r: "revision p = e" "e < n" "jint ''revision'' 0 (to_dict q) = Inr n"
      "slot_map (jsort (to_dict p)) = Inr old" "slot_map (to_dict q) = Inr new" "\<forall>r \<in> set rs. r_slot_no r \<notin> slots old"
      "\<forall>k \<in> slots old. \<not> seat_differs new old k" "slots new - slots old = set (map r_slot_no rs)"
      "d' = update_contest (\<lambda>c. c_tid c = ?tid) (\<lambda>c. c\<lparr>c_max_participants := maximum, c_spare_seats := spares\<rparr>)
         (update_pool_row dt ?tid n (to_dict q)
           (d\<lparr>seat_pool_resources := seat_pool_resources d @ map (new_resource dt ?tid) rs\<rparr>))"
    using expansion_result [OF c] w by auto
  have n: "n = revision q" using r(3) to_dict_reads(1) [of 0 q] by simp
  have v: "validate_resources (to_dict q) [] rs = Inr ()" and ins: "\<exists>d1. foldE (\<lambda>e r. insert_resource dt ?tid r e) d rs = Inr d1"
    using c unfolding commit_pool_expansion_def by (auto simp del: bex_simps ball_simps split: if_split_asm)
  obtain d1 where d1: "foldE (\<lambda>e r. insert_resource dt ?tid r e) d rs = Inr d1" using ins by blast
  note val = validated_resources [OF q(1) v]
  have kept: "x \<in> set (seats q)" if "x \<in> set (seats p)" for x
    by (rule unchanged_seat [OF p(1) q(1) that r(4,5)]) (use r(7) slots_old [OF r(4)] that in blast)
  have mem: "y \<in> set (seats p) \<and> slot_no y \<notin> r_slot_no ` set rs \<or> (\<exists>r \<in> set rs. new_row ?tid d r y)"
    if y: "y \<in> set (seats q)" for y
  proof (cases "slot_no y \<in> slots old")
    case True
    then obtain x where x: "x \<in> set (seats p)" "slot_no x = slot_no y" using slots_old [OF r(4)] by auto
    then have "x = y" using same_slot [OF q(1) kept y] by blast
    then show ?thesis using x r(6) True by auto
  next
    case False
    then have "slot_no y \<in> set (map r_slot_no rs)" using slots_new [OF r(5)] r(8) y by blast
    then obtain z where z: "z \<in> set rs" "r_slot_no z = slot_no y" by auto
    then obtain y' where y': "y' \<in> set (seats q)" "slot_no y' = r_slot_no z" "has_evidence y' z" "st y' = Verified" "seat_uid y' = None"
      using val by blast
    have e: "y' = y" using same_slot [OF q(1) y'(1) y] y'(2) z(2) by simp
    have "seat_pool_resource ?tid (r_slot_no z) d = None" using inserted_new [OF d1 z(1)] val by blast
    then have "new_row ?tid d z y" using z(2) y' e unfolding new_row_def by metis
    then show ?thesis using z(1) by blast
  qed
  have res: "seat_pool_resources d' = seat_pool_resources d1" "seat_pool_resources d' = seat_pool_resources d @ map (new_resource dt ?tid) rs"
    "bound_seats d' = bound_seats d"
    using insert_resources_result [OF d1] by (simp_all add: r(9) update_contest_def)
  have toks: "distinct (map r_token (seat_pool_resources d'))" "distinct (map r_submit_token (seat_pool_resources d'))"
    using insert_resource_distinct [OF d1] p(2) unfolding res(1) linked_def by blast+
  have row: "map_option (\<lambda>w. (p_revision w, p_state_json w)) (get_pool_row ?tid d') = Some (revision q, Some (jsort (to_dict q)))"
    unfolding r(9) get_pool_row_resources n by (rule written_row [OF w(1)]) simp
  have "linked q d'"
    by (rule linked_extend [OF p(2) refl q(2) row res(2,3) toks _ free mem]) (use val in blast)+
  moreover have "extended p q"
    using kept mem q(2) by (auto simp: extended_def new_row_def)
  moreover have "set (map slot_no (seats q)) = set (map slot_no (seats p)) \<union> set (map r_slot_no rs)"
    using slots_old [OF r(4)] slots_new [OF r(5)] r(8) kept by auto
  ultimately show ?thesis using n r(1,2) by blast
qed

lemma repair_linked:
  assumes p: "pool_wf p" "linked p d" and q: "pool_wf q" "pool_tid q = pool_tid p"
    and c: "commit_pool_repair dt (pool_tid p) e (to_dict q) r k d = Inr (n, d')"
    and free: "free_tokens r (bound_seats d)"
  shows "linked q d' \<and> extended p q \<and> n = revision q \<and> revision p < revision q \<and> e = revision p
     \<and> set (map slot_no (seats q)) = set (map slot_no (seats p)) \<and> r_slot_no r = k"
proof -
  let ?tid = "pool_tid p"
  obtain w where w: "get_pool_row ?tid d = Some w" "p_revision w = revision p" "p_state_json w = Some (jsort (to_dict p))"
    by (rule stored_row [OF p(2)])
  obtain old new where r: "revision p = e" "e < n" "jint ''revision'' 0 (to_dict q) = Inr n"
      "slot_map (jsort (to_dict p)) = Inr old" "slot_map (to_dict q) = Inr new" "slots new = slots old" "r_slot_no r = k"
      "seat_pool_resource ?tid k d = None" "\<forall>i \<in> slots old - {k}. \<not> seat_differs new old i"
      "d' = update_pool_row dt ?tid n (to_dict q)
           (d\<lparr>seat_pool_resources := seat_pool_resources d @ [new_resource dt ?tid r]\<rparr>)"
    using repair_result [OF c] w by auto
  have n: "n = revision q" using r(3) to_dict_reads(1) [of 0 q] by simp
  obtain v before d1 where v: "validate_pool_resource (to_dict q) r = Inr v" "repairable k old new = Some before"
      "insert_resource dt ?tid r d = Inr d1"
    using c w r(4,5) unfolding commit_pool_repair_def
    by (auto simp: current_pool_eq load_state_def simp del: bex_simps ball_simps split: if_split_asm)
  obtain y where y: "y \<in> set (seats q)" "slot_no y = r_slot_no r" "has_evidence y r" "st y = Verified" "seat_uid y = None"
    using validated_resource [OF q(1) v(1)] by blast
  have kept: "x \<in> set (seats q)" if x: "x \<in> set (seats p)" "slot_no x \<noteq> k" for x
    by (rule unchanged_seat [OF p(1) q(1) x(1) r(4,5)]) (use r(9) slots_old [OF r(4)] x in blast)
  have isolated: "st x = Planned \<and> seat_uid x = None" if x: "x \<in> set (seats p)" "slot_no x = k" for x
  proof -
    have "map_of old (slot_no x) = Some (jsort (seat_json x))" by (rule old_slot [OF p(1) x(1) r(4)])
    then have "jfield ''state'' (jsort (seat_json x)) = Some (JStr ''planned'')" "none_or_null (jfield ''uid'' (jsort (seat_json x)))"
      using v(2) x(2) by (auto simp: repairable_def split: if_split_asm)
    moreover have "jfield ''uid'' (jsort (seat_json x)) = Some (opt_int (seat_uid x))"
      using reads_sorted unfolding reads_as_def by (simp add: seat_dict_def)
    ultimately show ?thesis
      using seat_reads(4) [OF reads_sorted, of x] by (cases "st x"; cases "seat_uid x") (auto simp: none_or_null_def)
  qed
  have mem: "z \<in> set (seats p) \<and> slot_no z \<notin> r_slot_no ` set [r] \<or> (\<exists>r \<in> set [r]. new_row ?tid d r z)"
    if z: "z \<in> set (seats q)" for z
  proof (cases "slot_no z = k")
    case True
    then have "y = z" using same_slot [OF q(1) y(1) z] y(2) r(7) by simp
    then show ?thesis using y r(7,8) by (auto simp: new_row_def)
  next
    case False
    then obtain x where x: "x \<in> set (seats p)" "slot_no x = slot_no z"
      using slots_old [OF r(4)] slots_new [OF r(5)] r(6) z by (metis (no_types, lifting) imageE imageI)
    then have "x = z" using same_slot [OF q(1) kept z] False by simp
    then show ?thesis using x False r(7) by simp
  qed
  have ins: "foldE (\<lambda>e r. insert_resource dt ?tid r e) d [r] = Inr d1" using v(3) by simp
  have res: "seat_pool_resources d' = seat_pool_resources d1" "seat_pool_resources d' = seat_pool_resources d @ map (new_resource dt ?tid) [r]"
    "bound_seats d' = bound_seats d"
    using insert_resources_result [OF ins] by (simp_all add: r(10))
  have toks: "distinct (map r_token (seat_pool_resources d'))" "distinct (map r_submit_token (seat_pool_resources d'))"
    using insert_resource_distinct [OF ins] p(2) unfolding res(1) linked_def by blast+
  have row: "map_option (\<lambda>w. (p_revision w, p_state_json w)) (get_pool_row ?tid d') = Some (revision q, Some (jsort (to_dict q)))"
    unfolding r(10) n by (rule written_row [OF w(1)]) simp
  have "linked q d'"
    by (rule linked_extend [OF p(2) refl q(2) row res(2,3) toks _ _ mem]) (use free in auto)
  moreover have "extended p q"
    using kept isolated mem q(2) by (auto simp: extended_def new_row_def)
  moreover have "set (map slot_no (seats q)) = set (map slot_no (seats p))"
    using slots_old [OF r(4)] slots_new [OF r(5)] r(6) by simp
  ultimately show ?thesis using n r(1,2,7) by blast
qed

end
