(* ===== verification/GrowThms.thy ===== *)
theory GrowThms
  imports GrowLink
begin

text \<open>
  Growth and repair of the pool of a running contest, on a database linked to a seat pool machine: whatever
  the server answers, the stored pool is either the one before or the complete new one, and no student is
  moved.
\<close>

section \<open>Steps that leave a condition alone\<close>

text \<open>A condition on a view of the world; \<open>steady\<close>: on the pool tables.\<close>

definition viewed :: "(world \<Rightarrow> 'v) \<Rightarrow> (world \<Rightarrow> bool) \<Rightarrow> bool" where
  "viewed f P \<longleftrightarrow> (\<forall>w w'. P w \<longrightarrow> f w' = f w \<longrightarrow> P w')"

abbreviation steady :: "(world \<Rightarrow> bool) \<Rightarrow> bool" where
  "steady P \<equiv> viewed tables P"

lemma viewedD: "viewed f P \<Longrightarrow> P w \<Longrightarrow> f w' = f w \<Longrightarrow> P w'"
  unfolding viewed_def by blast

lemma steady_follows: "steady (follows tid p)"
  unfolding viewed_def using follows_tables by blast

lemma steady_ex: "(\<And>q. steady (P q)) \<Longrightarrow> steady (\<lambda>w. \<exists>q. P q w)"
  unfolding viewed_def by blast

lemma steady_conj: "steady P \<Longrightarrow> steady Q \<Longrightarrow> steady (\<lambda>w. P w \<and> Q w)"
  unfolding viewed_def by blast

lemma steady_disj: "steady P \<Longrightarrow> steady Q \<Longrightarrow> steady (\<lambda>w. P w \<or> Q w)"
  unfolding viewed_def by blast

lemma steady_const: "steady (\<lambda>w. B)"
  unfolding viewed_def by blast

lemma steady_frame:
  assumes "steady P"
  shows "P (w\<lparr>local_vars := f\<rparr>) = P w" and "P (w\<lparr>active := a\<rparr>) = P w" and "P (leave tid w) = P w"
proof -
  have s: "P w' = P w''" if "tables w' = tables w''" for w' w''
    using viewedD [OF assms, of w' w''] viewedD [OF assms, of w'' w'] that by fastforce
  show "P (w\<lparr>local_vars := f\<rparr>) = P w" "P (w\<lparr>active := a\<rparr>) = P w" "P (leave tid w) = P w"
    by (rule s, simp add: leave_def)+
qed

lemma triple_steady:
  assumes "keeps f m" and "viewed f P" and "\<And>w. P w \<Longrightarrow> E w"
    and "\<And>a. triple P (g a) Q E"
  shows "triple P (andThen m g) Q E"
proof (rule triple_then [where R = "\<lambda>_. P"])
  show "triple P m (\<lambda>_. P) E"
    unfolding triple_def
  proof (intro allI impI)
    fix w assume w: "P w"
    obtain r w' where m: "m w = (r, w')" by fastforce
    have "P w'" by (rule viewedD [OF assms(2) w keepsD [OF assms(1) m]])
    then show "case m w of (Inl e, w') \<Rightarrow> E w' | (Inr a, w') \<Rightarrow> P w'" using assms(3) by (simp add: m split: sum.split)
  qed
qed (rule assms(4))

lemma triple_steady_fact:
  assumes "keeps f m" and "viewed f P" and "\<And>w. P w \<Longrightarrow> E w"
    and "\<And>w a w'. P w \<Longrightarrow> m w = (Inr a, w') \<Longrightarrow> R a"
    and "\<And>a. R a \<Longrightarrow> triple P (g a) Q E"
  shows "triple P (andThen m g) Q E"
proof (rule triple_then [where R = "\<lambda>a w. P w \<and> R a"])
  show "triple P m (\<lambda>a w. P w \<and> R a) E"
    unfolding triple_def
  proof (intro allI impI)
    fix w assume w: "P w"
    obtain r w' where m: "m w = (r, w')" by fastforce
    have "P w'" by (rule viewedD [OF assms(2) w keepsD [OF assms(1) m]])
    then show "case m w of (Inl e, w') \<Rightarrow> E w' | (Inr a, w') \<Rightarrow> P w' \<and> R a"
      using assms(3) assms(4) [OF w] by (auto simp: m split: sum.split)
  qed
  show "triple (\<lambda>w. P w \<and> R a) (g a) Q E" for a
    by (rule triple_fact [where B = "R a"]) (auto intro: triple_conseq [OF assms(5)])
qed

section \<open>Fresh secrets\<close>

text \<open>The tokens that \<open>secrets.token_urlsafe\<close> returns are not in use; \<open>issued\<close>: the tokens of a new resource.\<close>

definition fresh_secrets :: "env \<Rightarrow> db \<Rightarrow> bool" where
  "fresh_secrets E d \<longleftrightarrow> (\<forall>n t v s. e_secret E n = (t, v, s) \<longrightarrow>
     (\<forall>b \<in> set (bound_seats d). b_token b \<noteq> t \<and> b_submit_token b \<noteq> s)
     \<and> (\<forall>r \<in> set (seat_pool_resources d). r_token r \<noteq> t \<and> r_submit_token r \<noteq> s))"

definition issued :: "env \<Rightarrow> resource \<Rightarrow> bool" where
  "issued E r \<longleftrightarrow> (\<exists>n v. e_secret E n = (r_token r, v, r_submit_token r))"

lemma issued_free: "fresh_secrets E d \<Longrightarrow> issued E r \<Longrightarrow> free_tokens r (bound_seats d)"
  unfolding fresh_secrets_def issued_def free_tokens_def by blast

definition starts :: "env \<Rightarrow> string \<Rightarrow> pool \<Rightarrow> world \<Rightarrow> bool" where
  "starts E tid p w \<longleftrightarrow> follows tid p w \<and> fresh_secrets E (base w)"

lemma steady_starts: "steady (starts E tid p)"
  unfolding starts_def
proof (rule steady_conj [OF steady_follows])
  show "steady (\<lambda>w. fresh_secrets E (base w))"
    by (simp add: viewed_def fresh_secrets_def pool_tables_def)
qed

lemma starts_follows: "starts E tid p w \<Longrightarrow> follows tid p w"
  by (simp add: starts_def)

lemma provision_result:
  assumes "provision_pool_slot E c img mat spec cips w = (Inr r, w')"
  shows "\<exists>cip. r = spec\<lparr>r_cip := cip, r_image_digest := img, r_material_digest := mat\<rparr>"
  using assms unfolding provision_pool_slot_def Let_def by (elim andThen_InrE) (auto dest: eff_InrD)

lemma provision_issued:
  "provision_pool_slot E c img mat (new_pool_resource_spec E tid n) cips w = (Inr r, w')
     \<Longrightarrow> issued E r \<and> r_slot_no r = n"
  by (drule provision_result) (cases "e_secret E n", auto simp: issued_def new_pool_resource_spec_def intro: exI [of _ n])

section \<open>Growth\<close>

definition grown :: "pool \<Rightarrow> int \<Rightarrow> int \<Rightarrow> pool \<Rightarrow> bool" where
  "grown p mains spares q \<longleftrightarrow> extended p q \<and> max_participants q = max_participants p + mains
     \<and> spare_count q = spare_count p + spares"

text \<open>The pool is the one before, or the complete new one.\<close>

definition grows :: "string \<Rightarrow> pool \<Rightarrow> int \<Rightarrow> int \<Rightarrow> world \<Rightarrow> bool" where
  "grows tid p mains spares w \<longleftrightarrow> follows tid p w \<or> (\<exists>q. follows tid q w \<and> grown p mains spares q)"

lemma steady_grows: "steady (grows tid p mains spares)"
  unfolding grows_def by (intro steady_disj steady_ex steady_conj steady_follows steady_const)

definition sized :: "pool \<Rightarrow> int \<Rightarrow> int \<Rightarrow> pool \<Rightarrow> bool" where
  "sized p mains spares q \<longleftrightarrow> pool_wf q \<and> pool_tid q = pool_tid p
     \<and> max_participants q = max_participants p + mains \<and> spare_count q = spare_count p + spares"

lemma building_step:
  assumes "run_op H c cid e q = Inr t" and "pool_wf q" and "\<exists>n now cref img mat. c = MarkWarming n now \<or> c = MarkVerified n cref img mat now"
  shows "pool_wf (tr_state t) \<and> pool_tid (tr_state t) = pool_tid q
     \<and> max_participants (tr_state t) = max_participants q \<and> spare_count (tr_state t) = spare_count q"
proof -
  have "max_participants (tr_state t) = max_participants q \<and> spare_count (tr_state t) = spare_count q"
    using assms(1)
  proof (cases rule: run_op_cases)
    case (fresh ss' v f rc)
    have "f = id" using fresh(5) assms(3) by (auto simp: mark_warming_mut_def mark_verified_mut_def Let_def split: if_split_asm)
    then show ?thesis using fresh(10) by simp
  qed simp
  then show ?thesis using run_op_wf [OF assms(2,1)] run_op_le [OF assms(2,1)] by (simp add: pool_le_def)
qed

lemma sized_step:
  "sized p a b q \<Longrightarrow> mark_warming H n now cid e q = Inr t \<Longrightarrow> sized p a b (tr_state t)"
  "sized p a b q \<Longrightarrow> mark_verified H n cref img mat now cid e q = Inr t \<Longrightarrow> sized p a b (tr_state t)"
  using building_step [of H "MarkWarming n now" cid e q t] building_step [of H "MarkVerified n cref img mat now" cid e q t]
  by (auto simp: sized_def)

lemma grow_sized:
  assumes p: "pool_wf p" and t: "grow H a b cid e p = Inr t" and r: "\<not> replayed t"
  shows "sized p a b (tr_state t)"
proof -
  have t': "run_op H (Grow a b) cid e p = Inr t" using t by simp
  have "max_participants (tr_state t) = max_participants p + a \<and> spare_count (tr_state t) = spare_count p + b"
    using t r unfolding grow_def
    by (auto simp: grow_mut_def Let_def split: if_split_asm elim!: apply_cmd_cases)
  then show ?thesis using run_op_wf [OF p t'] run_op_le [OF p t'] by (simp add: sized_def pool_le_def)
qed

lemma grow_slot_triple:
  assumes q: "sized p a b q" and new: "\<forall>r \<in> set new. issued E r"
  shows "triple (starts E tid p) (grow_slot H E tid c img mat e n (q, cips, new))
    (\<lambda>(q', cips', new') w. starts E tid p w \<and> sized p a b q' \<and> (\<forall>r \<in> set new'. issued E r)
       \<and> map r_slot_no new' = map r_slot_no new @ [n]) (starts E tid p)"
  unfolding grow_slot_def prod.case Let_def
proof (rule triple_lift_then)
  fix t assume t: "mark_warming H n (e_warm_at E n) (''warm:grow:'' @ tid @ '':r'' @ int_str e @ '':'' @ int_str n) (revision q) q = Inr t"
  note s = sized_step(1) [OF q t]
  show "triple (starts E tid p)
     (andThen (set_frame (\<lambda>f. f\<lparr>attempted := attempted f @ [r_container (new_pool_resource_spec E tid n)]\<rparr>)) (\<lambda>_.
      andThen (provision_pool_slot E c img mat (new_pool_resource_spec E tid n) cips) (\<lambda>r.
      andThen (lift (mark_verified H n (r_container r) img mat (e_verify_at E n)
        (''verify:grow:'' @ tid @ '':r'' @ int_str e @ '':'' @ int_str n) (revision (tr_state t)) (tr_state t))) (\<lambda>verified.
      ret (tr_state verified, r_cip r # cips, new @ [r])))))
    (\<lambda>(q', cips', new') w. starts E tid p w \<and> sized p a b q' \<and> (\<forall>r \<in> set new'. issued E r)
       \<and> map r_slot_no new' = map r_slot_no new @ [n]) (starts E tid p)"
  proof (rule triple_steady [OF _ steady_starts])
    show "triple (starts E tid p) (andThen (provision_pool_slot E c img mat (new_pool_resource_spec E tid n) cips) (\<lambda>r.
      andThen (lift (mark_verified H n (r_container r) img mat (e_verify_at E n)
        (''verify:grow:'' @ tid @ '':r'' @ int_str e @ '':'' @ int_str n) (revision (tr_state t)) (tr_state t))) (\<lambda>verified.
      ret (tr_state verified, r_cip r # cips, new @ [r]))))
    (\<lambda>(q', cips', new') w. starts E tid p w \<and> sized p a b q' \<and> (\<forall>r \<in> set new'. issued E r)
       \<and> map r_slot_no new' = map r_slot_no new @ [n]) (starts E tid p)"
      by (rule triple_steady_fact [where R = "\<lambda>r. issued E r \<and> r_slot_no r = n", OF _ steady_starts])
        (use sized_step(2) [OF s] new in \<open>auto intro!: keeps_intros triple_lift_then triple_ret dest: provision_issued\<close>)
  qed (auto intro: keeps_intros)
qed simp

lemma grow_slots_triple:
  assumes q: "sized p a b q"
  shows "triple (starts E tid p) (forEach added (grow_slot H E tid c img mat e) (q, cips, []))
    (\<lambda>(q', cips', new) w. starts E tid p w \<and> sized p a b q' \<and> (\<forall>r \<in> set new. issued E r)
       \<and> map r_slot_no new = added) (starts E tid p)"
proof -
  let ?I = "\<lambda>done' (q', cips' :: string list, new) w. starts E tid p w \<and> sized p a b q' \<and> (\<forall>r \<in> set new. issued E r)
     \<and> map r_slot_no new = done'"
  have "triple (?I [] (q, cips, [])) (forEach added (grow_slot H E tid c img mat e) (q, cips, [])) (?I added) (starts E tid p)"
  proof (rule triple_forEach)
    fix ys x zs and acc :: "pool \<times> string list \<times> resource list"
    obtain q' cips' new where acc: "acc = (q', cips', new)" by (cases acc)
    show "triple (?I ys acc) (grow_slot H E tid c img mat e x acc) (?I (ys @ [x])) (starts E tid p)"
      unfolding acc prod.case
    proof (rule triple_fact [where B = "sized p a b q' \<and> (\<forall>r \<in> set new. issued E r) \<and> map r_slot_no new = ys"])
      assume B: "sized p a b q' \<and> (\<forall>r \<in> set new. issued E r) \<and> map r_slot_no new = ys"
      show "triple (\<lambda>w. starts E tid p w \<and> sized p a b q' \<and> (\<forall>r \<in> set new. issued E r) \<and> map r_slot_no new = ys)
         (grow_slot H E tid c img mat e x (q', cips', new)) (?I (ys @ [x])) (starts E tid p)"
        by (rule triple_weaken [OF grow_slot_triple [of p a b q' new E tid]]) (use B in auto)
    qed simp
  qed
  then show ?thesis by (rule triple_conseq) (simp add: q)
qed

text \<open>A failing transaction changes nothing, and restoring the gateway keeps the tables.\<close>

lemma store_or_restore:
  assumes "steady P" and "\<And>w. P w \<Longrightarrow> F w"
    and "\<And>w a d. P w \<Longrightarrow> f (base w) = Inr (a, d) \<Longrightarrow> Q a (w\<lparr>base := d\<rparr>)"
  shows "triple P (or_restore E (store f)) Q F"
  unfolding or_restore_def
proof (rule triple_handle [where F = P])
  show "triple P (store f) Q P" by (rule triple_store) (use assms(3) in auto)
  show "triple P (andThen (restore_pool_gateway E) (\<lambda>_. andThen forget_backup (\<lambda>_. raise x))) Q F" for x
    by (intro triple_steady [OF _ assms(1,2)] keeps_intros triple_raise assms(2))
qed

lemma publish_growth_triple:
  assumes q: "sized p a b q" and new: "\<forall>r \<in> set new. issued E r" and slots: "map r_slot_no new = added" and tid: "pool_tid p = tid"
  shows "triple (starts E tid p) (publish_growth E tid e added q rs new)
    (\<lambda>rep w. \<exists>q. follows tid q w \<and> grown p a b q \<and> gr_revision rep = revision q
       \<and> set (map slot_no (seats q)) = set (map slot_no (seats p)) \<union> set added \<and> \<not> gr_replayed rep)
    (grows tid p a b)"
proof -
  let ?G = "\<lambda>w. follows tid q w \<and> grown p a b q \<and> set (map slot_no (seats q)) = set (map slot_no (seats p)) \<union> set added"
  have G: "steady ?G" by (intro steady_conj steady_follows steady_const)
  have out: "starts E tid p w \<Longrightarrow> grows tid p a b w" "?G w \<Longrightarrow> grows tid p a b w" for w
    by (auto simp: grows_def starts_def)
  have commit: "?G (w\<lparr>base := d\<rparr>)"
    if w: "starts E tid p w" and c: "commit_pool_expansion (e_dt E) tid e (to_dict q) new (base w) = Inr (k, d)" for w k d
  proof -
    have f: "pool_wf p" "linked p (base w)" "fresh_secrets E (base w)" "pool_wf q" "pool_tid q = pool_tid p"
      using w q by (auto simp: starts_def follows_def sized_def)
    note x = expansion_linked [OF f(1,2,4,5) c [folded tid] issued_free [OF f(3)]]
    show ?thesis using x new slots f q tid by (auto simp: follows_def grown_def sized_def)
  qed
  have rest: "triple ?G (andThen (set_frame (\<lambda>f. f\<lparr>committed := True\<rparr>)) (\<lambda>_.
      andThen (lift (e_drop E)) (\<lambda>_. andThen forget_backup (\<lambda>_.
      andThen (note_ready E tid m) (\<lambda>_. ret \<lparr>gr_replayed = False, gr_revision = revision q,
        gr_added = JArr (map JInt added), gr_counts = state_counts q\<rparr>)))))
      (\<lambda>rep w. \<exists>q. follows tid q w \<and> grown p a b q \<and> gr_revision rep = revision q
       \<and> set (map slot_no (seats q)) = set (map slot_no (seats p)) \<union> set added \<and> \<not> gr_replayed rep)
      (grows tid p a b)" for m
    by (intro triple_steady [OF _ G] keeps_intros triple_ret out) (auto intro: exI [of _ q])
  have fin: "triple (starts E tid p) (andThen (or_restore E (store (commit_pool_expansion (e_dt E) tid e (to_dict q) new))) (\<lambda>_. M))
      Q (grows tid p a b)" if "triple ?G M Q (grows tid p a b)" for M Q
    by (rule triple_then [OF store_or_restore [OF steady_starts] that]) (use out commit in auto)
  show ?thesis
    unfolding publish_growth_def
    by (rule triple_lift_then [OF out(1)], assumption, rule triple_steady [OF _ steady_starts out(1)],
      rule keeps_intros, assumption, rule fin [OF rest])
qed

lemma undo_growth_triple:
  assumes "steady P" and "\<And>w. P w \<Longrightarrow> F w"
  shows "triple P (undo_growth E tid x) Q F"
  unfolding undo_growth_def
  by (intro triple_steady [OF _ assms] keeps_intros triple_raise assms(2))

lemma open_stored:
  "starts E tid p w \<Longrightarrow> open_pool E A tid w = (Inr x, w') \<Longrightarrow> \<exists>c. x = (c, revision p, stored p) \<and> c_state c \<in> A"
  using open_pool_run [of tid p w E A] by (cases x) (auto simp: starts_def)

definition growth_outcome :: "string \<Rightarrow> pool \<Rightarrow> int \<Rightarrow> int \<Rightarrow> grow_report \<Rightarrow> world \<Rightarrow> bool" where
  "growth_outcome tid p a b rep w \<longleftrightarrow> (if gr_replayed rep then follows tid p w \<and> gr_revision rep = revision p
     else \<exists>q. follows tid q w \<and> grown p a b q \<and> gr_revision rep = revision q)"

lemma starts_grows: "starts E tid p w \<Longrightarrow> grows tid p a b w"
  by (auto simp: grows_def starts_def)

lemmas starts_rules =
  triple_steady [OF _ steady_starts starts_grows] triple_steady_fact [OF _ steady_starts starts_grows]
  triple_lift_then [OF starts_grows] triple_require_then [OF starts_grows]

lemma sized_stored: "sized (stored p) a b q \<longleftrightarrow> sized p a b q"
  by (simp add: sized_def)

lemma provision_growth_triple:
  assumes t: "sized p a b (tr_state t)" and tid: "pool_tid p = tid"
  shows "triple (starts E tid p) (provision_growth H E tid e c q0 t) (growth_outcome tid p a b) (grows tid p a b)"
  unfolding provision_growth_def
proof (rule starts_rules(4), assumption, rule starts_rules(4), assumption, rule starts_rules(3), assumption,
    rule starts_rules(1), rule keeps_intros, assumption, rule starts_rules(1), rule keeps_intros, assumption,
    intro triple_prod)
  fix added x and rs :: "resource list" and img mat y
  have pub: "triple (\<lambda>w. starts E tid p w \<and> sized p a b q \<and> (\<forall>r \<in> set new. issued E r) \<and> map r_slot_no new = added)
      (publish_growth E tid e added q rs new) (growth_outcome tid p a b) (grows tid p a b)" for q new
    by (rule triple_fact [where B = "sized p a b q \<and> (\<forall>r \<in> set new. issued E r) \<and> map r_slot_no new = added"])
      (auto intro!: triple_weaken [OF publish_growth_triple [OF _ _ _ tid]] simp: growth_outcome_def)
  show "triple (starts E tid p) (andThen (forEach added (grow_slot H E tid c img mat e) (tr_state t, map r_cip rs, []))
      (\<lambda>(q, cips, new). publish_growth E tid e added q rs new)) (growth_outcome tid p a b) (grows tid p a b)"
  proof (rule triple_then)
    show "triple (starts E tid p) (forEach added (grow_slot H E tid c img mat e) (tr_state t, map r_cip rs, []))
      (\<lambda>(q', cips', new) w. starts E tid p w \<and> sized p a b q' \<and> (\<forall>r \<in> set new. issued E r) \<and> map r_slot_no new = added)
      (grows tid p a b)"
      by (rule triple_weaken [OF grow_slots_triple [OF t]]) (auto intro: starts_grows)
    show "triple ((case x of (q', cips', new) \<Rightarrow> \<lambda>w. starts E tid p w \<and> sized p a b q' \<and> (\<forall>r \<in> set new. issued E r)
       \<and> map r_slot_no new = added)) (case x of (q, cips, new) \<Rightarrow> publish_growth E tid e added q rs new)
       (growth_outcome tid p a b) (grows tid p a b)" for x
      by (cases x) (simp add: pub)
  qed
qed

lemma grow_body_triple:
  assumes p: "pool_wf p" "pool_tid p = tid"
  shows "triple (starts E tid p) (grow_body H E tid a b e) (growth_outcome tid p a b) (grows tid p a b)"
  unfolding grow_body_def
proof (rule starts_rules(3), assumption,
    rule starts_rules(2) [where R = "\<lambda>x. \<exists>c. x = (c, revision p, stored p) \<and> c_state c \<in> {Ready}"],
    rule keeps_intros, assumption, rule open_stored, assumption, assumption, elim exE conjE, simp only: prod.case,
    rule starts_rules(3), assumption)
  fix l c t
  assume t: "grow H a b (grow_command tid e a b) e (stored p) = Inr t"
  show "triple (starts E tid p) (if replayed t then ret \<lparr>gr_replayed = True, gr_revision = revision (tr_state t),
       gr_added = (case map_of (tr_value t) ''added'' of None \<Rightarrow> JArr [] | Some v \<Rightarrow> v),
       gr_counts = state_counts (tr_state t)\<rparr>
     else provision_growth H E tid e c (stored p) t) (growth_outcome tid p a b) (grows tid p a b)"
  proof (rule triple_if)
    assume r: "replayed t"
    have "tr_state t = stored p" using t r unfolding grow_def by (auto split: if_split_asm elim!: apply_cmd_cases)
    then show "triple (starts E tid p) (ret \<lparr>gr_replayed = True, gr_revision = revision (tr_state t),
       gr_added = (case map_of (tr_value t) ''added'' of None \<Rightarrow> JArr [] | Some v \<Rightarrow> v),
       gr_counts = state_counts (tr_state t)\<rparr>) (growth_outcome tid p a b) (grows tid p a b)"
      by (auto intro!: triple_ret simp: growth_outcome_def starts_def)
  next
    assume "\<not> replayed t"
    then have "sized p a b (tr_state t)" using grow_sized [OF _ t] p by (simp add: stored_wf sized_stored)
    then show "triple (starts E tid p) (provision_growth H E tid e c (stored p) t) (growth_outcome tid p a b) (grows tid p a b)"
      by (rule provision_growth_triple) (rule p(2))
  qed
qed

lemma steady_outcome: "steady (growth_outcome tid p a b rep)"
  unfolding growth_outcome_def by (cases "gr_replayed rep") (simp_all add: steady_conj steady_ex steady_follows steady_const)

lemma grow_pool_triple:
  "triple (starts E tid p) (grow_pool H E tid a b e) (growth_outcome tid p a b) (grows tid p a b)"
proof (rule triple_fact [where B = "pool_wf p \<and> pool_tid p = tid"])
  assume B: "pool_wf p \<and> pool_tid p = tid"
  show ?thesis
    unfolding grow_pool_def
    by (intro exclusively_triple framed_triple triple_handle [OF grow_body_triple undo_growth_triple [OF steady_grows]])
      (use B in \<open>simp_all add: steady_frame [OF steady_starts] steady_frame [OF steady_grows] steady_frame [OF steady_outcome] starts_grows\<close>)
qed (simp add: starts_def follows_def)

end
