(* ===== verification/RosterSync.thy ===== *)
theory RosterSync
  imports PoolOps
begin

text \<open>
  \<^verbatim>\<open>orchestrator/services/pipeline.py\<close>: \<open>sync_roster\<close> seats the participants of the judge's roster and
  releases the seats when their time has come; \<open>sync_contest_schedule\<close> follows a change of the contest's
  time on the judge.
\<close>

section \<open>The roster\<close>

text \<open>\<open>str.casefold()\<close> of the code points below 256: lower case, and the sharp s as two letters.
  The micro sign, which folds to a letter above 255 that no other of these folds to, stays itself.\<close>

definition casefold :: "string \<Rightarrow> string" where
  "casefold s = concat (map (\<lambda>c. if of_char c = (223::nat) then ''ss'' else [lower_char c]) s)"

fun validate_roster_from :: "int list \<Rightarrow> string list \<Rightarrow> (int \<times> string) list \<Rightarrow> (int \<times> string) list res" where
  "validate_roster_from uids names [] = Inr []"
| "validate_roster_from uids names ((u, name) # ps) =
     (let uname = py_strip name; folded = casefold uname in
      if u < 1 \<or> uname = [] then Inl (RuntimeError ''roster has an invalid account'')
      else if u \<in> set uids \<or> folded \<in> set names then Inl (RuntimeError ''roster has an account twice'')
      else bindE (validate_roster_from (u # uids) (folded # names) ps) (\<lambda>rest. Inr ((u, uname) # rest)))"

definition validate_roster :: "(int \<times> string) list \<Rightarrow> (int \<times> string) list res" where
  "validate_roster = validate_roster_from [] []"

definition save_pool_state :: "env \<Rightarrow> string \<Rightarrow> int \<Rightarrow> pool \<Rightarrow> (world, unit) eff" where
  "save_pool_state E tid previous p =
     store (\<lambda>d. bindE (put_seat_pool (e_dt E) tid (Some previous) (to_dict p) d) (\<lambda>(n, d'). Inr ((), d')))"

definition bind_seat :: "string \<Rightarrow> int \<Rightarrow> string \<Rightarrow> int \<Rightarrow> (world, unit) eff" where
  "bind_seat tid u uname n = store (\<lambda>d. bindE (bind_pool_seat tid u uname n d) (\<lambda>(b, d'). Inr ((), d')))"

definition reserve_command :: "string \<Rightarrow> int \<Rightarrow> string" where
  "reserve_command tid u = ''reserve:'' @ tid @ '':'' @ int_str u"

definition reserve_participant ::
  "(string \<Rightarrow> string) \<Rightarrow> env \<Rightarrow> string \<Rightarrow> int \<Rightarrow> int \<times> string \<Rightarrow> pool \<Rightarrow> (world, pool) eff" where
  "reserve_participant H E tid now participant p = (case participant of (u, uname) \<Rightarrow>
     (case assignment p u of
        Some existing \<Rightarrow> andThen (bind_seat tid u uname (slot_no existing)) (\<lambda>_. ret p)
      | None \<Rightarrow>
        andThen (lift (reserve H u uname now (reserve_command tid u) (revision p) p)) (\<lambda>t.
        andThen (save_pool_state E tid (revision p) (tr_state t)) (\<lambda>_.
        andThen (lift (bindE (of_option (KeyError ''slot_no'') (map_of (tr_value t) ''slot_no'')) py_int)) (\<lambda>n.
        andThen (bind_seat tid u uname n) (\<lambda>_. ret (tr_state t)))))))"

definition reserve_roster ::
  "(string \<Rightarrow> string) \<Rightarrow> env \<Rightarrow> string \<Rightarrow> int \<Rightarrow> (int \<times> string) list \<Rightarrow> pool \<Rightarrow> (world, pool) eff" where
  "reserve_roster H E tid now roster p = forEach roster (reserve_participant H E tid now) p"

definition ensure_automatic_roster_capacity ::
  "(string \<Rightarrow> string) \<Rightarrow> env \<Rightarrow> string \<Rightarrow> nat \<Rightarrow> (world, grow_report option) eff" where
  "ensure_automatic_roster_capacity H E tid participants =
     andThen (contest_and_pool tid) (\<lambda>(c, n, state).
     if c_state c \<noteq> Ready then ret None else
     andThen (lift (read_pool state)) (\<lambda>p.
     andThen (lift (desired_capacity (int participants) 2 10)) (\<lambda>(target_main, target_spares).
     let additional_main = max 0 (target_main - max_participants p);
         additional_spares = max 0 (target_spares - spare_count p)
     in if additional_main + additional_spares = 0 then ret None
        else andThen (grow_pool H E tid additional_main additional_spares (revision p)) (\<lambda>g. ret (Some g)))))"

definition release_command :: "string \<Rightarrow> int \<Rightarrow> int \<Rightarrow> string" where
  "release_command tid at_ms previous = ''release:'' @ tid @ '':'' @ int_str at_ms @ '':r'' @ int_str previous"

text \<open>The release of a new set of reserved seats once the release time has come.\<close>

definition release_reserved ::
  "(string \<Rightarrow> string) \<Rightarrow> env \<Rightarrow> string \<Rightarrow> int \<Rightarrow> pool \<Rightarrow> (world, pool \<times> int list) eff" where
  "release_reserved H E tid now p =
     (if now < release_at_ms p \<or> \<not> list_ex (\<lambda>s. st s = Reserved) (seats p) then ret (p, []) else
      andThen (lift (release_due H now (release_command tid (release_at_ms p) (revision p)) (revision p) p)) (\<lambda>t.
      andThen (if \<not> replayed t \<and> revision (tr_state t) \<noteq> revision p
        then save_pool_state E tid (revision p) (tr_state t) else ret ()) (\<lambda>_.
      andThen (lift (int_items ''released'' ''uid'' (tr_value t))) (\<lambda>uids. ret (tr_state t, uids)))))"

record roster_report =
  rr_roster :: nat
  rr_assigned :: nat
  rr_released :: "int list"
  rr_growth :: "grow_report option"
  rr_counts :: "(seat_state \<times> int) list"
  rr_release_at_ms :: int

definition seat_roster ::
  "(string \<Rightarrow> string) \<Rightarrow> env \<Rightarrow> string \<Rightarrow> int \<Rightarrow> (int \<times> string) list \<Rightarrow> pool \<Rightarrow> (world, pool \<times> int list) eff" where
  "seat_roster H E tid now roster p =
     andThen (reserve_roster H E tid now roster p) (release_reserved H E tid now)"

definition sync_seats ::
  "(string \<Rightarrow> string) \<Rightarrow> env \<Rightarrow> string \<Rightarrow> int \<Rightarrow> (int \<times> string) list \<Rightarrow> grow_report option \<Rightarrow> (world, roster_report) eff" where
  "sync_seats H E tid now roster growth =
     andThen (open_pool E {Ready, Preparing} tid) (\<lambda>(c, n, p).
     andThen (seat_roster H E tid now roster p) (\<lambda>(q, uids).
     ret \<lparr>rr_roster = length roster, rr_assigned = length (filter (\<lambda>s. seat_uid s \<noteq> None) (seats q)),
       rr_released = uids, rr_growth = growth, rr_counts = state_counts q, rr_release_at_ms = release_at_ms q\<rparr>))"

definition sync_roster ::
  "(string \<Rightarrow> string) \<Rightarrow> env \<Rightarrow> string \<Rightarrow> int \<Rightarrow> (int \<times> string) list res \<Rightarrow> (world, roster_report) eff" where
  "sync_roster H E tid now hydro_roster =
     andThen (lift (bindE hydro_roster validate_roster)) (\<lambda>roster.
     andThen (ensure_automatic_roster_capacity H E tid (length roster)) (\<lambda>growth.
     exclusively tid (sync_seats H E tid now roster growth)))"

section \<open>The schedule\<close>

definition schedule_command :: "string \<Rightarrow> int \<Rightarrow> int \<Rightarrow> string" where
  "schedule_command tid b e = ''schedule:'' @ tid @ '':'' @ int_str b @ '':'' @ int_str e"

text \<open>The release lead of the contest in milliseconds; 0 minutes count as the default of five.\<close>

definition lead_ms :: "contest \<Rightarrow> int" where
  "lead_ms c = (if c_release_lead_minutes c = 0 then 5 else c_release_lead_minutes c) * 60 * 1000"

record schedule_report =
  sr_deadline_reached :: bool
  sr_contest :: contest
  sr_pool_revision :: int

text \<open>\<open>watchdog c\<close>: the result of installing the freeze watchdog for the contest's new deadline.\<close>

definition publish_schedule ::
  "(string \<Rightarrow> string) \<Rightarrow> env \<Rightarrow> (contest \<Rightarrow> unit res) \<Rightarrow> string \<Rightarrow> int \<Rightarrow> int \<Rightarrow> string \<Rightarrow> int
     \<Rightarrow> contest \<Rightarrow> int \<Rightarrow> pool \<Rightarrow> (world, schedule_report) eff" where
  "publish_schedule H E watchdog tid b e rule observed c n p =
     andThen (lift (reschedule H b (lead_ms c) (schedule_command tid b e) (revision p) p)) (\<lambda>t.
     andThen (if e \<le> observed then ret () else andThen (connect E) (\<lambda>_.
       lift (watchdog (c\<lparr>c_begin_at_ms := b, c_end_at_ms := e, c_hydro_rule := rule\<rparr>)))) (\<lambda>_.
     andThen (store (commit_schedule_sync (e_dt E) tid (c_begin_at_ms c) (c_end_at_ms c) b e rule observed n
       (to_dict (tr_state t)))) (\<lambda>c'.
     ret \<lparr>sr_deadline_reached = (e \<le> observed), sr_contest = c', sr_pool_revision = revision (tr_state t)\<rparr>)))"

definition sync_contest_schedule ::
  "(string \<Rightarrow> string) \<Rightarrow> env \<Rightarrow> (contest \<Rightarrow> unit res) \<Rightarrow> string \<Rightarrow> int \<Rightarrow> int \<Rightarrow> string \<Rightarrow> int \<Rightarrow> (world, schedule_report) eff" where
  "sync_contest_schedule H E watchdog tid b e rule observed =
     andThen (require (rule = ''oi'' \<and> 0 < b \<and> b < e) (RuntimeError ''contest time or rule is invalid'')) (\<lambda>_.
     exclusively tid (
     andThen (reading (get_contest tid)) (\<lambda>found.
     andThen (asks (\<lambda>w. seat_pool tid (base w))) (\<lambda>stored.
     andThen (lift stored) (\<lambda>s. case found of
       None \<Rightarrow> raise (RuntimeError ''contest is not in a state that can be synchronised'')
     | Some c \<Rightarrow>
     andThen (require (c_state c = Ready) (RuntimeError ''contest is not in a state that can be synchronised'')) (\<lambda>_.
     case s of
       None \<Rightarrow> raise (RuntimeError ''contest has no seat pool'')
     | Some (n, state, updated) \<Rightarrow>
     andThen (lift (read_pool state)) (publish_schedule H E watchdog tid b e rule observed c n)))))))"

end
