(* ===== verification/RosterThms.thy ===== *)
theory RosterThms
  imports RosterSync StoredPool
begin

text \<open>
  The roster synchronisation and the schedule synchronisation on a database that is linked to a seat pool
  machine: whatever happens on the way, the stored pool stays the state of a machine, and no student loses
  the seat.
\<close>

section \<open>The roster synchronisation\<close>

text \<open>\<open>seated\<close>: the participant has a seat and its connection.\<close>

definition seated :: "string \<Rightarrow> pool \<Rightarrow> db \<Rightarrow> int \<times> string \<Rightarrow> bool" where
  "seated tid p d x = (case x of (u, name) \<Rightarrow> \<exists>s r. assignment p u = Some s \<and> seat_uname s = name
     \<and> seat_pool_resource tid (slot_no s) d = Some r \<and> get_bound tid u d = Some (bound_from tid u name r))"

lemma seated_kept:
  assumes "seated tid p d x" and k: "places_kept p q" and q: "pool_wf q"
    and same: "seat_pool_resources d' = seat_pool_resources d" "get_bound tid (fst x) d' = get_bound tid (fst x) d"
  shows "seated tid q d' x"
proof -
  obtain u name s r where x: "x = (u, name)" and s: "assignment p u = Some s" "seat_uname s = name"
    "seat_pool_resource tid (slot_no s) d = Some r" "get_bound tid u d = Some (bound_from tid u name r)"
    using assms(1) by (auto simp: seated_def)
  obtain s' where s': "s' \<in> set (seats q)" "same_place s s'"
    using k assignment_mem [OF s(1)] unfolding places_kept_def by blast
  have "seat_uid s' = Some u" "seat_uname s' = name" "slot_no s' = slot_no s"
    using s'(2) s(2) assignment_mem [OF s(1)] by (simp_all add: same_place_def)
  then show ?thesis
    using assignment_unique [OF q s'(1)] s same unfolding x seated_def seat_pool_resource_def by auto
qed

lemma bind_seat_triple:
  assumes p: "pool_wf p" "pool_tid p = tid"
  shows "triple (\<lambda>w. follows tid p w \<and> (\<forall>x \<in> set ds. seated tid p (base w) x)) (bind_seat tid u name n)
     (\<lambda>_ w. follows tid p w \<and> (\<forall>x \<in> set (ds @ [(u, name)]). seated tid p (base w) x)) (follows tid p)"
  unfolding bind_seat_def
proof (rule triple_store)
  fix w a d assume w: "follows tid p w \<and> (\<forall>x \<in> set ds. seated tid p (base w) x)"
    and "bindE (bind_pool_seat tid u name n (base w)) (\<lambda>(b, d'). Inr ((), d')) = Inr (a, d)"
  then obtain b where b: "bind_pool_seat (pool_tid p) u name n (base w) = Inr (b, d)"
    using p(2) by (auto split: prod.split_asm)
  have l: "linked p (base w)" using w by (simp add: follows_def)
  obtain s r where s: "s \<in> set (seats p)" "slot_no s = n" "seat_uid s = Some u" "seat_uname s = name"
    "seat_pool_resource tid (slot_no s) (base w) = Some r" "upsert_seat (bound_from tid u name r) (base w) = Inr d"
    using bind_result [OF p(1) l b] p(2) by blast
  note f = upsert_frame [OF s(6)]
  have l': "linked p d" using upsert_linked [OF p(1) l s(1,3)] s(5,6) p(2) by blast
  obtain bs where "d = (base w)\<lparr>bound_seats := bs\<rparr>" "find (\<lambda>x. bound_key x = (tid, u)) bs = Some (bound_from tid u name r)"
    "\<And>k. k \<noteq> (tid, u) \<Longrightarrow> find (\<lambda>x. bound_key x = k) bs = find (\<lambda>x. bound_key x = k) (bound_seats (base w))"
    using upsert_seat_result [OF s(6)] by (auto simp: bound_from_def bound_key_def)
  then have g: "get_bound tid u d = Some (bound_from tid u name r)"
    "\<And>v. v \<noteq> u \<Longrightarrow> get_bound tid v d = get_bound tid v (base w)" by (auto simp: get_bound_def)
  have a: "assignment p u = Some s" by (rule assignment_unique [OF p(1) s(1,3)])
  have new: "seated tid p d (u, name)"
    using a s(4,5) g(1) f(2) by (auto simp: seated_def seat_pool_resource_def)
  have "seated tid p d x" if "x \<in> set ds" for x
  proof (cases "fst x = u")
    case True
    then have "x = (u, name)" using w that a s(4) by (auto simp: seated_def)
    then show ?thesis using new by simp
  next
    case False
    then show ?thesis using seated_kept [OF _ places_kept_refl p(1) f(2)] w that g(2) by blast
  qed
  then show "follows tid p (w\<lparr>base := d\<rparr>) \<and> (\<forall>x \<in> set (ds @ [(u, name)]). seated tid p (base (w\<lparr>base := d\<rparr>)) x)"
    using l' new p by (auto simp: follows_def)
qed simp

lemma save_triple:
  assumes q: "pool_wf q" "derived p q" "places_kept p q" "pool_tid p = tid"
  shows "triple (\<lambda>w. follows tid p w \<and> (\<forall>x \<in> set ds. seated tid p (base w) x)) (save_pool_state E tid (revision p) q)
     (\<lambda>_ w. follows tid q w \<and> (\<forall>x \<in> set ds. seated tid q (base w) x)) (follows tid p)"
  unfolding save_pool_state_def
proof (rule triple_store)
  fix w a d assume w: "follows tid p w \<and> (\<forall>x \<in> set ds. seated tid p (base w) x)"
    and eq: "bindE (put_seat_pool (e_dt E) tid (Some (revision p)) (to_dict q) (base w)) (\<lambda>(n, d'). Inr ((), d')) = Inr (a, d)"
  have l: "linked p (base w)" using w by (simp add: follows_def)
  have d: "d = update_pool_row (e_dt E) (pool_tid p) (revision q) (to_dict q) (base w)"
    using eq save_linked [OF l q(2), of "e_dt E"] q(4) by simp
  have "linked q d" unfolding d by (rule linked_derived [OF l q(2)])
  moreover have "get_bound t v d = get_bound t v (base w)" for t v by (simp add: d get_bound_def)
  moreover have "seat_pool_resources d = seat_pool_resources (base w)" by (simp add: d)
  ultimately show "follows tid q (w\<lparr>base := d\<rparr>) \<and> (\<forall>x \<in> set ds. seated tid q (base (w\<lparr>base := d\<rparr>)) x)"
    using w q seated_kept [OF _ q(3,1)] by (auto simp: follows_def derived_def)
qed simp

definition on_way :: "string \<Rightarrow> pool \<Rightarrow> (int \<times> string) list \<Rightarrow> pool \<Rightarrow> world \<Rightarrow> bool" where
  "on_way tid p ds q w \<longleftrightarrow> follows tid q w \<and> places_kept p q \<and> (\<forall>x \<in> set ds. seated tid q (base w) x)"

lemma reserve_participant_triple:
  "triple (on_way tid p0 ds p) (reserve_participant H E tid now x p) (on_way tid p0 (ds @ [x])) (stopped tid p0)"
proof (rule triple_fact [where B = "pool_wf p \<and> pool_tid p = tid \<and> places_kept p0 p"])
  assume B: "pool_wf p \<and> pool_tid p = tid \<and> places_kept p0 p"
  obtain u name where x: "x = (u, name)" by (cases x)
  show ?thesis
  proof (cases "assignment p u")
    case (Some s)
    have "triple (on_way tid p0 ds p) (bind_seat tid u name (slot_no s)) (\<lambda>_. on_way tid p0 (ds @ [x]) p) (stopped tid p0)"
      by (rule triple_weaken [OF bind_seat_triple [where ds = ds]]) (use B in \<open>auto simp: on_way_def stopped_def x\<close>)
    then show ?thesis
      unfolding reserve_participant_def x using Some
      by (auto intro!: triple_then [where R = "\<lambda>_. on_way tid p0 (ds @ [x]) p"] triple_ret simp: x)
  next
    case None
    have step: "triple (on_way tid p0 ds p)
       (andThen (save_pool_state E tid (revision p) q) (\<lambda>_.
        andThen (lift (bindE (of_option (KeyError ''slot_no'') (map_of v ''slot_no'')) py_int)) (\<lambda>n.
        andThen (bind_seat tid u name n) (\<lambda>_. ret q)))) (on_way tid p0 (ds @ [x])) (stopped tid p0)"
      if t: "pool_wf q" "derived p q" "places_kept p q" for q v
    proof (rule triple_then)
      have k: "places_kept p0 q" using B t(3) places_kept_trans by blast
      show "triple (on_way tid p0 ds p) (save_pool_state E tid (revision p) q) (\<lambda>_. on_way tid p0 ds q) (stopped tid p0)"
        by (rule triple_weaken [OF save_triple [OF t, where ds = ds]])
          (use B k in \<open>auto simp: on_way_def stopped_def\<close>)
      have b: "triple (on_way tid p0 ds q) (bind_seat tid u name n) (\<lambda>_. on_way tid p0 (ds @ [x]) q) (stopped tid p0)" for n
        by (rule triple_weaken [OF bind_seat_triple [where ds = ds and p = q]])
          (use B t k in \<open>auto simp: on_way_def stopped_def x follows_def derived_def\<close>)
      show "triple (on_way tid p0 ds q) (andThen (lift (bindE (of_option (KeyError ''slot_no'') (map_of v ''slot_no'')) py_int)) (\<lambda>n.
        andThen (bind_seat tid u name n) (\<lambda>_. ret q))) (on_way tid p0 (ds @ [x])) (stopped tid p0)"
        by (rule triple_then [where R = "\<lambda>_. on_way tid p0 ds q"])
          (auto intro!: triple_lift triple_then [OF b] triple_ret simp: on_way_def stopped_def)
    qed
    show ?thesis
      unfolding reserve_participant_def x prod.case None option.case
    proof (rule triple_then)
      show "triple (on_way tid p0 ds p) (lift (reserve H u name now (reserve_command tid u) (revision p) p))
          (\<lambda>t w. on_way tid p0 ds p w \<and> pool_wf (tr_state t) \<and> derived p (tr_state t) \<and> places_kept p (tr_state t)) (stopped tid p0)"
        using quiet_step [of p H "Reserve u name now"] run_op_wf [of p H "Reserve u name now"] B
        by (intro triple_lift) (auto simp: on_way_def stopped_def)
      show "triple (\<lambda>w. on_way tid p0 ds p w \<and> pool_wf (tr_state t) \<and> derived p (tr_state t) \<and> places_kept p (tr_state t))
          (andThen (save_pool_state E tid (revision p) (tr_state t)) (\<lambda>_.
           andThen (lift (bindE (of_option (KeyError ''slot_no'') (map_of (tr_value t) ''slot_no'')) py_int)) (\<lambda>n.
           andThen (bind_seat tid u name n) (\<lambda>_. ret (tr_state t))))) (on_way tid p0 (ds @ [(u, name)])) (stopped tid p0)" for t
        by (rule triple_fact [where B = "pool_wf (tr_state t) \<and> derived p (tr_state t) \<and> places_kept p (tr_state t)"])
          (auto intro: triple_conseq [OF step [unfolded x]])
    qed
  qed
qed (simp add: on_way_def follows_def)

lemma reserve_roster_triple:
  "triple (on_way tid p0 [] p) (reserve_roster H E tid now roster p) (on_way tid p0 roster) (stopped tid p0)"
  unfolding reserve_roster_def by (rule triple_forEach [where I = "on_way tid p0"]) (rule reserve_participant_triple)

lemma release_state:
  assumes p: "pool_wf p" and t: "release_due H now cid (revision p) p = Inr t" "\<not> replayed t" and now: "release_at_ms p \<le> now"
  shows "(\<forall>s \<in> set (seats (tr_state t)). st s \<noteq> Reserved) \<and> revision (tr_state t) = revision p + 1"
  using t(1) [unfolded release_due_def]
proof (cases rule: apply_cmd_cases)
  case (fresh ss' v f rc)
  have "ss' = fst (sweep_seats (\<lambda>s. st s = Reserved) (\<lambda>s. s\<lparr>st := Released, released_at_ms := Some now\<rparr>) (seats p))" "f = id"
    using fresh(3) now by (auto simp: release_due_mut_def Let_def split_beta)
  then have "seats (tr_state t) = map (\<lambda>s. if st s = Reserved then s\<lparr>st := Released, released_at_ms := Some now\<rparr> else s) (seats p)"
    "revision (tr_state t) = revision p + 1"
    using fresh(5) by (simp_all add: sweep_seats_fst)
  then show ?thesis by auto
qed (use t in auto)

lemma release_reserved_triple:
  "triple (on_way tid p0 ds p) (release_reserved H E tid now p) (\<lambda>(q, uids). on_way tid p0 ds q) (stopped tid p0)"
proof (cases "now < release_at_ms p \<or> \<not> list_ex (\<lambda>s. st s = Reserved) (seats p)")
  case True
  then show ?thesis by (auto simp: release_reserved_def intro: triple_ret)
next
  case False
  let ?q = "\<lambda>t. if \<not> replayed t \<and> revision (tr_state t) \<noteq> revision p then save_pool_state E tid (revision p) (tr_state t) else ret ()"
  let ?B = "\<lambda>t. pool_wf p \<and> pool_tid p = tid \<and> places_kept p0 p \<and> pool_wf (tr_state t) \<and> derived p (tr_state t) \<and> places_kept p (tr_state t)
     \<and> (\<not> replayed t \<and> revision (tr_state t) \<noteq> revision p \<or> tr_state t = p)"
  have release: "?B t" if "release_due H now (release_command tid (release_at_ms p) (revision p)) (revision p) p = Inr t"
      and on: "on_way tid p0 ds p w" for t w
  proof -
    have B: "pool_wf p \<and> pool_tid p = tid \<and> places_kept p0 p" using on by (simp add: on_way_def follows_def)
    have "tr_state t = p" if "replayed t"
      using \<open>release_due H now _ _ p = Inr t\<close> [unfolded release_due_def] that by (elim apply_cmd_cases) auto
    moreover have "revision (tr_state t) \<noteq> revision p" if "\<not> replayed t"
      using release_state [of p H now _ t] B \<open>release_due H now _ _ p = Inr t\<close> that False by simp
    ultimately show ?thesis
      using B quiet_step [of p H "ReleaseDue now"] run_op_wf [of p H "ReleaseDue now"] that by auto
  qed
  have save: "triple (on_way tid p0 ds p) (?q t) (\<lambda>_. on_way tid p0 ds (tr_state t)) (stopped tid p0)" if B: "?B t" for t
  proof (cases "\<not> replayed t \<and> revision (tr_state t) \<noteq> revision p")
    case True
    have k: "places_kept p0 (tr_state t)" using B places_kept_trans by blast
    have "triple (on_way tid p0 ds p) (save_pool_state E tid (revision p) (tr_state t))
        (\<lambda>_. on_way tid p0 ds (tr_state t)) (stopped tid p0)"
      by (rule triple_weaken [OF save_triple [where ds = ds and p = p and q = "tr_state t"]])
        (use B k in \<open>auto simp: on_way_def stopped_def\<close>)
    then show ?thesis using True by simp
  next
    case False
    then show ?thesis using B by (auto intro: triple_ret)
  qed
  show ?thesis
    unfolding release_reserved_def if_not_P [OF False]
  proof (rule triple_then)
    show "triple (on_way tid p0 ds p) (lift (release_due H now (release_command tid (release_at_ms p) (revision p)) (revision p) p))
        (\<lambda>t w. on_way tid p0 ds p w \<and> ?B t) (stopped tid p0)"
      using release by (intro triple_lift) (auto simp: on_way_def stopped_def)
    show "triple (\<lambda>w. on_way tid p0 ds p w \<and> ?B t) (andThen (?q t) (\<lambda>_.
        andThen (lift (int_items ''released'' ''uid'' (tr_value t))) (\<lambda>uids. ret (tr_state t, uids))))
        (\<lambda>(q, uids). on_way tid p0 ds q) (stopped tid p0)" for t
    proof (rule triple_fact [where B = "?B t"])
      assume "?B t"
      from triple_conseq [OF save [OF this]]
      show "triple (\<lambda>w. on_way tid p0 ds p w \<and> ?B t) (andThen (?q t) (\<lambda>_.
          andThen (lift (int_items ''released'' ''uid'' (tr_value t))) (\<lambda>uids. ret (tr_state t, uids))))
          (\<lambda>(q, uids). on_way tid p0 ds q) (stopped tid p0)"
        by (rule triple_then [where R = "\<lambda>_. on_way tid p0 ds (tr_state t)"])
          (auto intro!: triple_then [where R = "\<lambda>_. on_way tid p0 ds (tr_state t)"] triple_lift triple_ret
             simp: on_way_def stopped_def)
    qed auto
  qed
qed

lemma seat_roster_triple:
  "triple (on_way tid p0 [] p) (seat_roster H E tid now roster p) (\<lambda>(q, uids). on_way tid p0 roster q) (stopped tid p0)"
  unfolding seat_roster_def by (rule triple_then [OF reserve_roster_triple release_reserved_triple])

lemma sync_seats_triple:
  "triple (follows tid p) (sync_seats H E tid now roster growth) (\<lambda>rep w. \<exists>q. on_way tid p roster q w) (stopped tid p)"
  unfolding sync_seats_def
proof (rule triple_then)
  show "triple (follows tid p) (open_pool E {Ready, Preparing} tid) (\<lambda>(c, n, q) w. follows tid p w \<and> q = stored p) (stopped tid p)"
    by (rule triple_weaken [OF open_pool_triple]) (auto intro: follows_stopped)
  fix x :: "contest \<times> int \<times> pool"
  obtain c n q where x: "x = (c, n, q)" by (cases x)
  have start: "on_way tid p [] (stored p) w" if "follows tid p w" for w
    using that by (auto simp: on_way_def follows_stored places_kept_def intro: same_place_refl)
  show "triple ((case x of (c, n, q) \<Rightarrow> \<lambda>w. follows tid p w \<and> q = stored p)) (case x of (c, n, q) \<Rightarrow>
     andThen (seat_roster H E tid now roster q) (\<lambda>(r, uids).
     ret \<lparr>rr_roster = length roster, rr_assigned = length (filter (\<lambda>s. seat_uid s \<noteq> None) (seats r)),
       rr_released = uids, rr_growth = growth, rr_counts = state_counts r, rr_release_at_ms = release_at_ms r\<rparr>))
     (\<lambda>rep w. \<exists>q. on_way tid p roster q w) (stopped tid p)"
    unfolding x prod.case
    by (rule triple_then [OF triple_conseq [OF seat_roster_triple]])
      (use start in \<open>auto intro!: triple_ret split: prod.split\<close>)
qed

end
