(* ===== verification/RepairThms.thy ===== *)
theory RepairThms
  imports GrowThms RosterThms
begin

text \<open>
  Repair of an isolated slot and replacement of a failed seat on a database linked to a seat pool machine,
  and the roster synchronisation with the growth it may start.
\<close>

section \<open>Repair\<close>

definition repair_outcome :: "string \<Rightarrow> pool \<Rightarrow> int \<Rightarrow> world \<Rightarrow> bool" where
  "repair_outcome tid p k w \<longleftrightarrow> (\<exists>q. follows tid q w \<and> grown p 0 0 q \<and> revision q = k)"

lemma steady_repair: "steady (repair_outcome tid p k)"
  unfolding repair_outcome_def by (intro steady_ex steady_conj steady_follows steady_const)

lemma repair_grows: "repair_outcome tid p k w \<Longrightarrow> grows tid p 0 0 w"
  by (auto simp: repair_outcome_def grows_def)

lemma repair_steps_triple:
  assumes q: "sized p 0 0 q" and tid: "pool_tid p = tid"
  shows "triple (starts E tid p) (repair_steps H E tid n c e rs img mat failures q) (repair_outcome tid p) (grows tid p 0 0)"
  unfolding repair_steps_def Let_def
proof (rule starts_rules(1), rule keeps_intros, assumption,
    rule starts_rules(2) [where R = "\<lambda>r. issued E r \<and> r_slot_no r = n"], rule keeps_intros, assumption,
    erule provision_issued, rule starts_rules(3), assumption, rule starts_rules(3), assumption,
    rule starts_rules(1), rule keeps_intros, assumption)
  fix r t and u v w :: unit
  assume r: "issued E r \<and> r_slot_no r = n"
    and t: "mark_verified H n (r_container r) (r_image_digest r) (r_material_digest r) (e_verify_at E n)
       (repair_command ''verify'' tid n failures) (revision q) q = Inr t"
  have s: "sized p 0 0 (tr_state t)" by (rule sized_step(2) [OF q t])
  have commit: "repair_outcome tid p (revision (tr_state t)) (w\<lparr>base := d\<rparr>)"
    if w: "starts E tid p w" and c: "commit_pool_repair (e_dt E) tid e (to_dict (tr_state t)) r n (base w) = Inr (k, d)" for w k d
  proof -
    have f: "pool_wf p" "linked p (base w)" "fresh_secrets E (base w)" "pool_wf (tr_state t)" "pool_tid (tr_state t) = pool_tid p"
      using w s by (auto simp: starts_def follows_def sized_def)
    note x = repair_linked [OF f(1,2,4,5) c [folded tid] issued_free [OF f(3)]]
    show ?thesis using x r s f tid by (auto simp: repair_outcome_def follows_def grown_def sized_def)
  qed
  have rest: "triple (repair_outcome tid p (revision (tr_state t))) (andThen (set_frame (\<lambda>f. f\<lparr>committed := True\<rparr>)) (\<lambda>_.
      andThen (quietly (lift (e_drop E))) (\<lambda>_. ret (revision (tr_state t))))) (repair_outcome tid p) (grows tid p 0 0)"
    by (intro triple_steady [OF _ steady_repair repair_grows] keeps_intros triple_ret)
  show "triple (starts E tid p) (andThen (store (commit_pool_repair (e_dt E) tid e (to_dict (tr_state t)) r n)) (\<lambda>_.
      andThen (set_frame (\<lambda>f. f\<lparr>committed := True\<rparr>)) (\<lambda>_.
      andThen (quietly (lift (e_drop E))) (\<lambda>_. ret (revision (tr_state t)))))) (repair_outcome tid p) (grows tid p 0 0)"
    by (rule triple_then [OF triple_store rest]) (use commit in \<open>auto intro: starts_grows\<close>)
qed

lemma undo_repair_triple:
  assumes "steady P" and "\<And>w. P w \<Longrightarrow> F w"
  shows "triple P (undo_repair E x) Q F"
  unfolding undo_repair_def
  by (intro triple_steady [OF _ assms] keeps_intros triple_raise assms(2))

lemma stored_pool_run:
  assumes "starts E tid p w" and "asks (\<lambda>w. seat_pool tid (base w)) w = (Inr s, w')"
  shows "\<exists>k. s = Inr (Some (revision p, jsort (to_dict p), k))"
  using assms linked_row [of p "base w"] by (auto simp: starts_def follows_def asks_def)

lemma repair_isolated_triple:
  "triple (starts E tid p) (repair_isolated_pool_slot H E tid n e c) (repair_outcome tid p) (grows tid p 0 0)"
proof (rule triple_fact [where B = "pool_wf p \<and> pool_tid p = tid"])
  assume B: "pool_wf p \<and> pool_tid p = tid"
  show ?thesis
    unfolding repair_isolated_pool_slot_def
  proof (rule framed_triple, rule starts_rules(2) [where R = "\<lambda>s. \<exists>k. s = Inr (Some (revision p, jsort (to_dict p), k))"],
      rule keeps_intros, assumption, rule stored_pool_run, assumption, assumption, elim exE,
      simp only: andThen_simps option.case prod.case read_pool_stored)
    fix s k
    show "triple (starts E tid p) (andThen (require (revision p = e) (RuntimeError ''seat pool changed before the repair'')) (\<lambda>_.
       andThen (lift (pool_seat (stored p) n)) (\<lambda>failed.
       andThen (require (st failed = Planned \<and> seat_uid failed = None \<and> 1 \<le> failure_count failed)
         (RuntimeError ''seat is not isolated'')) (\<lambda>_.
       andThen (pool_runtime_context H E c (stored p)) (\<lambda>(rs, img, mat).
       andThen (lift (e_wipe E n)) (\<lambda>_.
       andThen (lift (mark_warming H n (e_warm_at E n) (repair_command ''warm'' tid n (failure_count failed))
         (revision (stored p)) (stored p))) (\<lambda>warming.
       handle (repair_steps H E tid n c e rs img mat (failure_count failed) (tr_state warming)) (undo_repair E))))))))
      (repair_outcome tid p) (grows tid p 0 0)"
    proof (rule starts_rules(4), assumption, rule starts_rules(3), assumption, rule starts_rules(4), assumption,
        rule starts_rules(1), rule keeps_intros, assumption, intro triple_prod, rule starts_rules(3), assumption,
        rule starts_rules(3), assumption)
      fix failed x rs y img mat u t
      assume t: "mark_warming H n (e_warm_at E n) (repair_command ''warm'' tid n (failure_count failed))
         (revision (stored p)) (stored p) = Inr t"
      have "sized (stored p) 0 0 (stored p)" using B by (simp add: sized_def stored_wf)
      from sized_step(1) [OF this t] have s: "sized p 0 0 (tr_state t)" by (simp add: sized_stored)
      show "triple (starts E tid p) (handle (repair_steps H E tid n c e rs img mat (failure_count failed) (tr_state t)) (undo_repair E))
        (repair_outcome tid p) (grows tid p 0 0)"
        by (rule triple_handle [OF repair_steps_triple [OF s] undo_repair_triple [OF steady_grows]]) (use B in simp_all)
    qed
  qed (simp_all add: steady_frame [OF steady_starts] steady_frame [OF steady_grows] steady_frame [OF steady_repair])
qed (simp add: starts_def follows_def)

lemma repair_capacity_triple:
  "triple (starts E tid p) (repair_pool_capacity H E tid n e) (repair_outcome tid p) (grows tid p 0 0)"
  unfolding repair_pool_capacity_def
proof (intro exclusively_triple framed_triple)
  show "triple (starts E tid p) (andThen (lift (e_lock E)) (\<lambda>_.
     andThen (reading (get_contest tid)) (\<lambda>c. case c of
       None \<Rightarrow> raise (RuntimeError ''only a running contest can be repaired'')
     | Some c \<Rightarrow>
     andThen (require (c_state c = Ready) (RuntimeError ''only a running contest can be repaired'')) (\<lambda>_.
     andThen (lift (validate_contest_snapshot (e_document E) c)) (\<lambda>_.
     andThen (connect E) (\<lambda>_.
     andThen (repair_isolated_pool_slot H E tid n e c) (\<lambda>k.
     andThen (note_ready E tid (''seat '' @ fmt03 n @ '' rebuilt'')) (\<lambda>_. ret k))))))))
     (repair_outcome tid p) (grows tid p 0 0)"
  proof (rule starts_rules(3), assumption, rule starts_rules(1), rule keeps_intros, assumption, split option.split,
      intro conjI allI impI)
    fix l c
    have fin: "triple (repair_outcome tid p k) (andThen (note_ready E tid m) (\<lambda>_. ret k)) (repair_outcome tid p) (grows tid p 0 0)" for k m
      by (intro triple_steady [OF _ steady_repair repair_grows] keeps_intros triple_ret)
    show "triple (starts E tid p) (andThen (require (c_state c = Ready) (RuntimeError ''only a running contest can be repaired'')) (\<lambda>_.
     andThen (lift (validate_contest_snapshot (e_document E) c)) (\<lambda>_.
     andThen (connect E) (\<lambda>_.
     andThen (repair_isolated_pool_slot H E tid n e c) (\<lambda>k.
     andThen (note_ready E tid (''seat '' @ fmt03 n @ '' rebuilt'')) (\<lambda>_. ret k))))))
     (repair_outcome tid p) (grows tid p 0 0)"
      by (rule starts_rules(4), assumption, rule starts_rules(3), assumption, rule starts_rules(1), rule keeps_intros,
        assumption, rule triple_then [OF repair_isolated_triple fin])
  qed (auto intro!: triple_raise starts_grows)
qed (auto simp: steady_frame [OF steady_starts] steady_frame [OF steady_grows] steady_frame [OF steady_repair] intro: starts_grows)

section \<open>Replacement of a failed seat\<close>

text \<open>Every other student has the same seat; the student of slot \<open>n\<close> has a free verified one, in its container.\<close>

definition cut_over :: "int \<Rightarrow> pool \<Rightarrow> pool \<Rightarrow> bool" where
  "cut_over n p q \<longleftrightarrow> pool_tid q = pool_tid p \<and> (\<forall>x \<in> set (seats p). seat_uid x \<noteq> None \<longrightarrow>
     (if slot_no x \<noteq> n then x \<in> set (seats q)
      else \<exists>w \<in> set (seats q). \<exists>r \<in> set (seats p). seat_uid w = seat_uid x \<and> seat_uname w = seat_uname x
        \<and> st w \<in> {Reserved, Released} \<and> st r = Verified \<and> seat_uid r = None \<and> slot_no r \<noteq> n
        \<and> slot_no w = slot_no r \<and> container_ref w = container_ref r))"

lemma cut_over_extended:
  assumes "cut_over n p q" and "extended q q'"
  shows "cut_over n p q'"
proof -
  have "x \<in> set (seats q')" if "x \<in> set (seats q)" "seat_uid x \<noteq> None" for x
    using that assms(2) unfolding extended_def by auto
  then show ?thesis using assms unfolding cut_over_def extended_def by (metis (no_types, lifting))
qed

lemma replace_mem: "y \<in> set (replace_seat ss x) \<longleftrightarrow> y \<in> set ss \<and> slot_no y \<noteq> slot_no x \<or> y = x \<and> slot_no x \<in> slot_no ` set ss"
  by (force simp: replace_seat_def image_iff)

lemma machine_cut_over:
  assumes p: "pool_wf p" and t: "run_op H (ReplaceFailed k why now ok) cid e p = Inr t" "\<not> replayed t"
  shows "cut_over k p (tr_state t)"
proof -
  obtain oper args m where "apply_cmd H oper args cid e m p = Inr t" "m = replace_failed_mut p k (py_strip why) now"
    using t(1) by (auto simp: replace_failed_def Let_def split: if_splits)
  then obtain ss' v f rc where c: "replace_failed_mut p k (py_strip why) now (seats p) = Inr (ss', v, f)"
      "tr_state t = f (p\<lparr>revision := revision p + 1, seats := ss', receipts := receipts p @ [rc]\<rparr>)"
    using t(2) by (elim apply_cmd_cases) auto
  note same = same_slot [OF p]
  from c(1) show ?thesis
  proof (cases rule: replace_failed_cases)
    case (noop s)
    have "seat_uid y = None" if "y \<in> set (seats p)" "slot_no y = k" for y using same [OF that(1) noop(1)] that(2) noop(2,3) by simp
    then show ?thesis using c(2) noop(5,6) by (auto simp: cut_over_def)
  next
    case (reset s)
    have "seat_uid y = None" if "y \<in> set (seats p)" "slot_no y = k" for y using same [OF that(1) reset(1)] that(2) reset(2,3) by simp
    then show ?thesis using c(2) reset by (auto simp: cut_over_def replace_mem reset_seat_def)
  next
    case (moved s r tgt)
    let ?x = "reset_seat s True (py_strip why)"
    let ?w = "r\<lparr>role := role s, st := tgt, seat_uid := seat_uid s, seat_uname := seat_uname s,
            reserved_at_ms := Some now, released_at_ms := (if tgt = Released then Some now else None)\<rparr>"
    have x: "slot_no ?x = k" using moved(2) by (simp add: reset_seat_def)
    have ne: "slot_no r \<noteq> k" using same [OF moved(5,1)] moved by auto
    have q: "seats (tr_state t) = replace_seat (replace_seat (seats p) ?x) ?w" "pool_tid (tr_state t) = pool_tid p"
      using c(2) moved(10,11) by simp_all
    have w: "?w \<in> set (seats (tr_state t))" using moved(5) unfolding q replace_mem by simp
    have tgt: "tgt \<in> {Reserved, Released}" unfolding moved(9) by (auto simp: reservation_state_def)
    have "y \<in> set (seats (tr_state t))" if "y \<in> set (seats p)" "seat_uid y \<noteq> None" "slot_no y \<noteq> k" for y
      using that same [OF that(1) moved(5)] moved(8) x unfolding q replace_mem by auto
    moreover have "\<exists>w \<in> set (seats (tr_state t)). \<exists>r \<in> set (seats p). seat_uid w = seat_uid y \<and> seat_uname w = seat_uname y
        \<and> st w \<in> {Reserved, Released} \<and> st r = Verified \<and> seat_uid r = None \<and> slot_no r \<noteq> k
        \<and> slot_no w = slot_no r \<and> container_ref w = container_ref r" if y: "y \<in> set (seats p)" "slot_no y = k" for y
      by (rule bexI [OF bexI [OF _ moved(5)] w])
        (use same [OF y(1) moved(1)] y(2) moved(2,7,8) tgt ne in simp)
    ultimately show ?thesis unfolding cut_over_def using q(2) by auto
  qed
qed

lemma linked_drop:
  assumes l: "linked p d" and tid: "pool_tid q = pool_tid p"
    and mem: "\<And>y. y \<in> set (seats q) \<Longrightarrow> st y = Planned \<and> slot_no y = k \<or> y \<in> set (seats p) \<and> slot_no y \<noteq> k"
    and d: "seat_pools d1 = seat_pools d" "bound_seats d1 = bound_seats d"
      "seat_pool_resources d1 = sql_delete (\<lambda>r. resource_key r = (pool_tid p, k)) (seat_pool_resources d)"
  shows "linked q (update_pool_row dt (pool_tid p) (revision q) (to_dict q) d1)"
proof -
  let ?tid = "pool_tid p" and ?d' = "update_pool_row dt (pool_tid p) (revision q) (to_dict q) d1"
  have look: "seat_pool_resource ?tid n ?d' = (if n = k then None else seat_pool_resource ?tid n d)" for n
    by (simp add: seat_pool_resource_def d(3) resource_delete)
  obtain w where w: "get_pool_row ?tid d = Some w" using l by (auto simp: linked_def)
  have row: "map_option (\<lambda>w. (p_revision w, p_state_json w)) (get_pool_row ?tid ?d') = Some (revision q, Some (jsort (to_dict q)))"
    by (rule written_row [OF w d(1)])
  have toks: "distinct (map r_token (seat_pool_resources ?d'))" "distinct (map r_submit_token (seat_pool_resources ?d'))"
    using l by (simp_all add: linked_def d(3) distinct_map_sql_delete)
  have "(st y \<notin> {Planned, Warming} \<longrightarrow> (\<exists>r. seat_pool_resource ?tid (slot_no y) ?d' = Some r \<and> has_evidence y r))
      \<and> (\<forall>r. seat_pool_resource ?tid (slot_no y) ?d' = Some r \<longrightarrow> tokens_of_student ?tid y r (bound_seats ?d'))"
    if y: "y \<in> set (seats q)" for y
    using mem [OF y] l unfolding linked_def look by (auto simp: d(2))
  then show ?thesis using row toks unfolding linked_def tid by blast
qed

lemma replacement_linked:
  assumes p: "pool_wf p" "linked p d" and t: "run_op H (ReplaceFailed k why now ok) cid e p = Inr t" "\<not> replayed t"
    and uid: "\<And>s. pool_seat p k = Inr s \<Longrightarrow> seat_uid s \<noteq> Some 0"
    and c: "commit_pool_replacement dt (pool_tid p) e (to_dict (tr_state t)) k d = Inr (b, d')"
  shows "linked (tr_state t) d'"
proof -
  let ?q = "tr_state t" and ?tid = "pool_tid p"
  obtain oper args m where "apply_cmd H oper args cid e m p = Inr t" "m = replace_failed_mut p k (py_strip why) now"
    using t(1) by (auto simp: replace_failed_def Let_def split: if_splits)
  then obtain ss' v f rc where m: "replace_failed_mut p k (py_strip why) now (seats p) = Inr (ss', v, f)"
      "?q = f (p\<lparr>revision := revision p + 1, seats := ss', receipts := receipts p @ [rc]\<rparr>)"
    using t(2) by (elim apply_cmd_cases) auto
  obtain s where s: "pool_seat p k = Inr s" using m(1) by (auto simp: replace_failed_mut_def)
  show ?thesis
  proof (cases "seat_uid s")
    case (Some u)
    then have "u \<noteq> 0" using uid [OF s] by auto
    from store_follows_machine [OF p t s Some this, of dt] c show ?thesis by auto
  next
    case None
    note S = pool_seat_Inr [OF s]
    obtain row where row: "get_pool_row ?tid d = Some row" "p_revision row = revision p" "p_state_json row = Some (jsort (to_dict p))"
      by (rule stored_row [OF p(2)])
    obtain old u replacement n d1 where r: "jint ''revision'' 0 (to_dict ?q) = Inr n"
        "find_slot (jsort (to_dict p)) k = Inr (Some old)" "jint_or0 ''uid'' old = Inr u"
        "replacement_of ?tid u (to_dict ?q) d = Inr replacement"
        "install_replacement ?tid k u old replacement d = Inr (b, d1)" "d' = update_pool_row dt ?tid n (to_dict ?q) d1"
      using replacement_result [OF c] row by auto
    have "old = jsort (seat_json s)"
      using r(2) stored_slot [OF p(1), of s] S by simp
    then have "u = 0" using r(3) seat_reads(2) [OF reads_sorted, of s] None by (simp add: uid_val_def)
    then have d1: "seat_pools d1 = seat_pools d" "bound_seats d1 = bound_seats d"
      "seat_pool_resources d1 = sql_delete (\<lambda>r. resource_key r = (?tid, k)) (seat_pool_resources d)"
      using r(4,5) by (auto simp: replacement_of_def install_replacement_def)
    have n: "n = revision ?q" using r(1) to_dict_reads(1) [of 0 ?q] by simp
    have own: "z = s" if "z \<in> set (seats p)" "slot_no z = k" for z using same_slot [OF p(1) that(1)] S that(2) by blast
    have mem: "(st y = Planned \<and> slot_no y = k \<or> y \<in> set (seats p) \<and> slot_no y \<noteq> k) \<and> pool_tid ?q = ?tid"
      if y: "y \<in> set (seats ?q)" for y
      using m(1)
    proof (cases rule: replace_failed_cases)
      case (noop x)
      then show ?thesis using y m(2) own by auto
    next
      case (reset x)
      then show ?thesis using y m(2) by (auto simp: replace_mem reset_seat_def)
    next
      case (moved x r tgt)
      then show ?thesis using own None by auto
    qed
    have tid: "pool_tid ?q = ?tid" using run_op_le [OF p(1) t(1)] by (simp add: pool_le_def)
    show ?thesis unfolding r(6) n by (rule linked_drop [OF p(2) tid _ d1]) (use mem in blast)
  qed
qed

lemma upsert_tokens:
  assumes "upsert_seat (bound_from tid u name r) d = Inr d'" and "x \<in> set (bound_seats d')"
  shows "x \<in> set (bound_seats d) \<or> b_token x = r_token r \<and> b_submit_token x = r_submit_token r"
  using upsert_frame(4) [OF assms(1)] assms(2) by (auto simp: bound_from_def)

lemma replacement_fresh:
  assumes c: "commit_pool_replacement dt tid e s k d = Inr (b, d')" and f: "fresh_secrets E d"
  shows "fresh_secrets E d'"
proof -
  obtain old u replacement n d1 where r: "replacement_of tid u s d = Inr replacement"
      "install_replacement tid k u old replacement d = Inr (b, d1)" "d' = update_pool_row dt tid n s d1"
    using replacement_result [OF c] by blast
  have res: "\<exists>z \<in> set (seat_pool_resources d). r_token y = r_token z \<and> r_submit_token y = r_submit_token z"
    if "y \<in> set (seat_pool_resources d1)" for y
    using r(2) that
    by (auto simp: install_replacement_def Let_def set_sql_update upsert_frame sql_delete_def split: option.splits) blast+
  have bnd: "x \<in> set (bound_seats d) \<or> (\<exists>z \<in> set (seat_pool_resources d). b_token x = r_token z \<and> b_submit_token x = r_submit_token z)"
    if x: "x \<in> set (bound_seats d1)" for x
  proof (cases replacement)
    case None
    then show ?thesis using r(2) x by (auto simp: install_replacement_def)
  next
    case (Some y)
    obtain v i z where y: "y = (v, i, z)" by (cases y)
    have z: "z \<in> set (seat_pool_resources d)"
      using r(1) unfolding Some y
      by (auto simp: replacement_of_def seat_pool_resource_def dest: find_Some_iff_mem split: if_split_asm option.split_asm)
    show ?thesis using r(2) x z unfolding Some y by (auto simp: install_replacement_def Let_def dest: upsert_tokens)
  qed
  have "bound_seats d' = bound_seats d1" "seat_pool_resources d' = seat_pool_resources d1" by (simp_all add: r(3))
  then show ?thesis using f bnd res unfolding fresh_secrets_def by metis
qed

text \<open>The pool before the replacement, or one after it.\<close>

definition replaces :: "string \<Rightarrow> int \<Rightarrow> pool \<Rightarrow> world \<Rightarrow> bool" where
  "replaces tid n p w \<longleftrightarrow> follows tid p w \<or> (\<exists>q. follows tid q w \<and> cut_over n p q)"

definition replaced :: "string \<Rightarrow> int \<Rightarrow> pool \<Rightarrow> replace_report \<Rightarrow> world \<Rightarrow> bool" where
  "replaced tid n p rep w \<longleftrightarrow> (if rp_replayed rep then follows tid p w else \<exists>q. follows tid q w \<and> cut_over n p q)"

lemma steady_replaces: "steady (replaces tid n p)" "steady (replaced tid n p rep)"
  unfolding replaces_def replaced_def
  by (intro steady_disj steady_ex steady_conj steady_follows steady_const,
    cases "rp_replayed rep", simp_all add: steady_ex steady_conj steady_follows steady_const)

lemma starts_replaces: "starts E tid p w \<Longrightarrow> replaces tid n p w"
  by (auto simp: replaces_def starts_def)

lemmas replaces_rules =
  triple_steady [OF _ steady_starts starts_replaces] triple_steady_fact [OF _ steady_starts starts_replaces]
  triple_lift_then [OF starts_replaces] triple_require_then [OF starts_replaces]

text \<open>After the commit the freed slot may be repaired; a failing repair is only logged.\<close>

lemma try_repair_triple:
  "triple (starts E tid q) (handle (andThen (repair_isolated_pool_slot H E tid n e c) (\<lambda>k. ret (Some k))) (\<lambda>_. ret None))
     (\<lambda>_. grows tid q 0 0) F"
  by (rule triple_handle [OF triple_then [OF repair_isolated_triple]])
    (auto intro!: triple_ret simp: repair_grows)

lemma after_cut_over:
  assumes q: "cut_over n p q"
  shows "triple (starts E tid q) (andThen (set_frame (\<lambda>f. f\<lparr>committed := True\<rparr>)) (\<lambda>_.
     andThen (lift (e_drop E)) (\<lambda>_. andThen forget_backup (\<lambda>_.
     andThen (quietly (remove_container E name)) (\<lambda>_.
     andThen (handle (andThen (repair_isolated_pool_slot H E tid n e c) (\<lambda>k. ret (Some k))) (\<lambda>_. ret None)) (\<lambda>recovered.
     andThen (note_ready E tid (message recovered)) (\<lambda>_. ret (report recovered))))))))
     (\<lambda>_ w. \<exists>q. follows tid q w \<and> cut_over n p q) (replaces tid n p)"
proof -
  have s: "starts E tid q w \<Longrightarrow> replaces tid n p w" for w using q by (auto simp: replaces_def starts_def)
  have g: "grows tid q 0 0 w \<Longrightarrow> \<exists>q. follows tid q w \<and> cut_over n p q" for w
    using q cut_over_extended by (auto simp: grows_def grown_def)
  have rest: "triple (grows tid q 0 0) (andThen (note_ready E tid m) (\<lambda>_. ret rep))
      (\<lambda>_ w. \<exists>q. follows tid q w \<and> cut_over n p q) (replaces tid n p)" for m and rep :: 'z
    by (intro triple_steady [OF _ steady_grows] keeps_intros triple_ret g) (use g in \<open>auto simp: replaces_def\<close>)
  show ?thesis
    by (intro triple_steady [OF _ steady_starts s] keeps_intros triple_then [OF try_repair_triple rest])
qed

lemma cut_over_stored [simp]: "cut_over n (stored p) q = cut_over n p q"
  by (simp add: cut_over_def)

lemma pool_seat_stored [simp]: "pool_seat (stored p) n = pool_seat p n"
  by (simp add: pool_seat_def)

lemma replace_steps_triple:
  assumes p: "pool_wf p" "pool_tid p = tid" and t: "replace_failed H n reason now True cid e (stored p) = Inr t" "\<not> replayed t"
    and uid: "\<And>s. pool_seat p n = Inr s \<Longrightarrow> seat_uid s \<noteq> Some 0"
  shows "triple (starts E tid p) (replace_steps H E tid n e c rs t)
     (\<lambda>_ w. \<exists>q. follows tid q w \<and> cut_over n p q) (replaces tid n p)"
proof (cases "find (\<lambda>r. r_slot_no r = n) rs")
  case None
  then show ?thesis unfolding replace_steps_def by (auto intro!: triple_raise starts_replaces)
next
  case (Some failed)
  have t': "run_op H (ReplaceFailed n reason now True) cid e (stored p) = Inr t" using t(1) by simp
  have w: "pool_wf (stored p)" using p(1) by (simp add: stored_wf)
  have q: "pool_wf (tr_state t)" "pool_tid (tr_state t) = tid"
    using run_op_wf [OF w t'] run_op_le [OF w t'] p(2) by (simp_all add: pool_le_def)
  have cut: "cut_over n p (tr_state t)" using machine_cut_over [OF w t' t(2)] by simp
  have commit: "starts E tid (tr_state t) (w'\<lparr>base := d\<rparr>)"
    if w': "starts E tid p w'" and c: "commit_pool_replacement (e_dt E) tid e (to_dict (tr_state t)) n (base w') = Inr (b, d)" for w' b d
  proof -
    have f: "linked (stored p) (base w')" "fresh_secrets E (base w')"
      using w' by (auto simp: starts_def follows_def linked_stored)
    have c': "commit_pool_replacement (e_dt E) (pool_tid (stored p)) e (to_dict (tr_state t)) n (base w') = Inr (b, d)"
      using c p(2) by simp
    have "linked (tr_state t) d" by (rule replacement_linked [OF w f(1) t' t(2) _ c']) (simp add: uid)
    then show ?thesis using q replacement_fresh [OF c f(2)] by (simp add: starts_def follows_def)
  qed
  have store: "triple (starts E tid p) (or_restore E (store (commit_pool_replacement (e_dt E) tid e (to_dict (tr_state t)) n)))
      (\<lambda>_. starts E tid (tr_state t)) (replaces tid n p)"
    by (rule store_or_restore [OF steady_starts]) (use commit starts_replaces in auto)
  show ?thesis
    unfolding replace_steps_def Some option.case Let_def
    by (rule replaces_rules(1), rule keeps_intros, assumption, rule replaces_rules(1), rule keeps_intros, assumption,
        rule replaces_rules(3), assumption, rule replaces_rules(1), rule keeps_intros, assumption,
        rule triple_then [OF store after_cut_over [OF cut]])
qed

lemma replace_body_triple:
  assumes p: "pool_wf p" "pool_tid p = tid" and uid: "\<And>s. pool_seat p n = Inr s \<Longrightarrow> seat_uid s \<noteq> Some 0"
  shows "triple (starts E tid p) (replace_body H E tid n reason e) (replaced tid n p) (replaces tid n p)"
  unfolding replace_body_def
proof (rule replaces_rules(3), assumption,
    rule replaces_rules(2) [where R = "\<lambda>x. \<exists>c. x = (c, revision p, stored p) \<and> c_state c \<in> {Ready}"],
    rule keeps_intros, assumption, rule open_stored, assumption, assumption, elim exE conjE, simp only: prod.case,
    rule replaces_rules(3), assumption, rule triple_if)
  fix l c t
  assume t: "replace_failed H n reason (e_now E) True (replace_command tid e n) e (stored p) = Inr t"
  { assume r: "replayed t"
    show "triple (starts E tid p) (ret \<lparr>rp_replayed = True, rp_revision = revision (tr_state t), rp_value = tr_value t,
       rp_credential_revision = None, rp_capacity_recovered = False,
       rp_capacity_revision = revision (tr_state t)\<rparr>) (replaced tid n p) (replaces tid n p)"
      by (auto intro!: triple_ret simp: replaced_def starts_def) }
  assume r: "\<not> replayed t"
  show "triple (starts E tid p) (andThen (connect E) (\<lambda>_.
     andThen (pool_runtime_context H E c (stored p)) (\<lambda>(rs, img, mat).
     replace_steps H E tid n e c rs t))) (replaced tid n p) (replaces tid n p)"
  proof (rule replaces_rules(1), rule keeps_intros, assumption, rule replaces_rules(1), rule keeps_intros, assumption,
      intro triple_prod)
    fix rs
    have "rp_replayed rep = False" if "replace_steps H E tid n e c rs t w = (Inr rep, w')" for rep w w'
      using that unfolding replace_steps_def Let_def
      by (auto split: option.splits elim!: andThen_InrE dest!: eff_InrD(5))
    then have "triple (starts E tid p) (replace_steps H E tid n e c rs t)
        (\<lambda>rep w. (\<exists>q. follows tid q w \<and> cut_over n p q) \<and> rp_replayed rep = False) (replaces tid n p)"
      using replace_steps_triple [OF p t r uid, of E c rs] unfolding triple_def by (auto split: prod.split sum.split)
    then show "triple (starts E tid p) (replace_steps H E tid n e c rs t) (replaced tid n p) (replaces tid n p)"
      by (rule triple_weaken) (auto simp: replaced_def)
  qed
qed

lemma undo_replacement_triple:
  assumes "steady P" and "\<And>w. P w \<Longrightarrow> F w"
  shows "triple P (undo_replacement E tid x) Q F"
proof -
  have m: "keeps tables (modify (\<lambda>w. w\<lparr>paused_now := g w\<rparr>))" for g by (rule keeps_modify) simp
  show ?thesis
    unfolding undo_replacement_def
    by (intro triple_steady [OF _ assms] keeps_intros m triple_raise assms(2))
qed

lemma replace_failed_triple:
  assumes uid: "\<And>s. pool_seat p n = Inr s \<Longrightarrow> seat_uid s \<noteq> Some 0"
  shows "triple (starts E tid p) (replace_failed_seat H E tid n reason e ok) (replaced tid n p) (replaces tid n p)"
proof (rule triple_fact [where B = "pool_wf p \<and> pool_tid p = tid"])
  assume B: "pool_wf p \<and> pool_tid p = tid"
  have b: "pool_wf p" "pool_tid p = tid" using B by simp_all
  note f = steady_frame [OF steady_starts] steady_frame [OF steady_replaces(1)] steady_frame [OF steady_replaces(2)]
  show ?thesis
    unfolding replace_failed_seat_def
    by (rule triple_if, rule triple_raise, erule starts_replaces,
        intro exclusively_triple framed_triple
          triple_handle [OF replace_body_triple [OF b uid] undo_replacement_triple [OF steady_replaces(1)]])
      (simp_all add: f starts_replaces)
qed (simp add: starts_def follows_def)

section \<open>The roster synchronisation with its growth\<close>

lemma triple_ex:
  assumes "\<And>x. triple (P x) m Q E"
  shows "triple (\<lambda>w. \<exists>x. P x w) m Q E"
  by (rule triple_pre, elim exE) (use assms in \<open>auto simp: triple_def\<close>)

lemma stopped_ex: "stopped tid p = (\<lambda>w. \<exists>q. follows tid q w \<and> places_kept p q)"
  by (simp add: stopped_def fun_eq_iff)

lemma steady_stopped: "steady (stopped tid p)"
  unfolding stopped_ex by (intro steady_ex steady_conj steady_follows steady_const)

lemma grows_stopped: "grows tid p a b w \<Longrightarrow> stopped tid p w"
  unfolding grows_def grown_def stopped_def by (blast intro: places_kept_refl extended_places)

lemma starts_stopped: "starts E tid p w \<Longrightarrow> stopped tid p w"
  by (simp add: starts_def follows_stopped)

lemma outcome_stopped: "growth_outcome tid p a b rep w \<Longrightarrow> stopped tid p w"
  unfolding growth_outcome_def grown_def stopped_def
  by (auto split: if_split_asm intro: places_kept_refl extended_places)

lemma capacity_triple:
  "triple (starts E tid p) (ensure_automatic_roster_capacity H E tid k) (\<lambda>_. stopped tid p) (stopped tid p)"
  unfolding ensure_automatic_roster_capacity_def
proof (rule triple_steady [OF _ steady_starts starts_stopped], rule keeps_intros, assumption, intro triple_prod triple_if)
  show "triple (starts E tid p) (ret None) (\<lambda>_. stopped tid p) (stopped tid p)" by (intro triple_ret) (rule starts_stopped)
  show "triple (starts E tid p) (andThen (lift (read_pool state)) (\<lambda>p. andThen (lift (desired_capacity (int k) 2 10))
      (\<lambda>(target_main, target_spares). let a = max 0 (target_main - max_participants p); b = max 0 (target_spares - spare_count p)
       in if a + b = 0 then ret None else andThen (grow_pool H E tid a b (revision p)) (\<lambda>g. ret (Some g)))))
      (\<lambda>_. stopped tid p) (stopped tid p)" for state
  proof (rule triple_lift_then [OF starts_stopped], assumption, rule triple_lift_then [OF starts_stopped], assumption,
      intro triple_prod, unfold Let_def, rule triple_if)
    show "triple (starts E tid p) (ret None) (\<lambda>_. stopped tid p) (stopped tid p)" by (intro triple_ret) (rule starts_stopped)
    show "triple (starts E tid p) (andThen (grow_pool H E tid a b e) (\<lambda>g. ret (Some g))) (\<lambda>_. stopped tid p) (stopped tid p)" for a b e
      by (rule triple_then [where R = "\<lambda>_. stopped tid p", OF triple_weaken [OF grow_pool_triple]])
        (auto intro: triple_ret grows_stopped outcome_stopped)
  qed
qed

lemma on_way_stopped: "on_way tid p ds q w \<Longrightarrow> stopped tid p w"
  by (auto simp: on_way_def stopped_def)

lemma sync_seats_stopped:
  "triple (stopped tid p) (sync_seats H E tid now roster growth) (\<lambda>_ w. \<exists>q. on_way tid p roster q w) (stopped tid p)"
  unfolding stopped_ex
proof (rule triple_ex)
  fix q
  show "triple (\<lambda>w. follows tid q w \<and> places_kept p q) (sync_seats H E tid now roster growth)
      (\<lambda>_ w. \<exists>q. on_way tid p roster q w) (\<lambda>w. \<exists>q. follows tid q w \<and> places_kept p q)"
  proof (rule triple_fact [where B = "places_kept p q"])
    assume k: "places_kept p q"
    show "triple (\<lambda>w. follows tid q w \<and> places_kept p q) (sync_seats H E tid now roster growth)
      (\<lambda>_ w. \<exists>q. on_way tid p roster q w) (\<lambda>w. \<exists>q. follows tid q w \<and> places_kept p q)"
      by (rule triple_weaken [OF sync_seats_triple [of tid q]])
        (use places_kept_trans [OF k] in \<open>auto simp: on_way_def stopped_def\<close>)
  qed simp
qed

lemma on_way_frame: "on_way tid p ds q (w\<lparr>active := a\<rparr>) = on_way tid p ds q w"
  by (simp add: on_way_def)

lemma sync_roster_triple:
  "triple (starts E tid p) (sync_roster H E tid now hydro_roster)
     (\<lambda>rep w. \<exists>roster q. bindE hydro_roster validate_roster = Inr roster \<and> on_way tid p roster q w) (stopped tid p)"
  unfolding sync_roster_def
proof (rule triple_lift_then [OF starts_stopped], assumption, rule triple_then [OF capacity_triple])
  fix roster and growth :: "grow_report option"
  assume r: "bindE hydro_roster validate_roster = Inr roster"
  have "triple (stopped tid p) (exclusively tid (sync_seats H E tid now roster growth)) (\<lambda>_ w. \<exists>q. on_way tid p roster q w) (stopped tid p)"
    by (rule exclusively_triple [OF sync_seats_stopped]) (simp_all add: on_way_frame)
  then show "triple (stopped tid p) (exclusively tid (sync_seats H E tid now roster growth))
      (\<lambda>rep w. \<exists>roster q. bindE hydro_roster validate_roster = Inr roster \<and> on_way tid p roster q w) (stopped tid p)"
    by (rule triple_weaken) (use r in auto)
qed

end
