(* ===== verification/GatewayThms.thy ===== *)
theory GatewayThms
  imports RepairThms
begin

text \<open>
  The live gateway and the pool's resources during a repair: after every outcome the gateway routes exactly
  to the resources of the pool, provided that putting the saved configuration back succeeds.
\<close>

section \<open>What a route is\<close>

definition route :: "resource \<Rightarrow> int \<times> string \<times> string" where
  "route r = (r_slot_no r, r_token r, r_cip r)"

definition routed :: "string \<Rightarrow> world \<Rightarrow> bool" where
  "routed tid w \<longleftrightarrow> route ` set (routes w) = route ` set (seat_pool_resources_of tid (base w))"

abbreviation gate :: "string \<Rightarrow> world \<Rightarrow> resource list \<times> resource list \<times> resource list option \<times> bool" where
  "gate tid w \<equiv> (seat_pool_resources_of tid (base w), routes w, backup (local_vars w), committed (local_vars w))"

lemma viewed_routed: "viewed (gate tid) (routed tid)"
  by (simp add: viewed_def routed_def)

lemma keeps_gate:
  "keeps (gate tid) (pool_runtime_context H E c p)" "keeps (gate tid) (provision_pool_slot E c img mat spec cips)"
  "keeps (gate tid) (set_frame (\<lambda>f. f\<lparr>attempted := a\<rparr>))" "keeps (gate tid) (connect E)" "keeps (gate tid) (note_ready E t m)"
proof -
  have m: "keeps (gate tid) (modify g)" if "\<And>w. base (g w) = base w \<and> routes (g w) = routes w \<and> local_vars (g w) = local_vars w" for g
    by (rule keeps_modify) (simp add: that)
  have f: "keeps (gate tid) (set_frame g)" if "\<And>f. backup (g f) = backup f \<and> committed (g f) = committed f" for g
    unfolding set_frame_def by (rule keeps_modify) (simp add: that)
  show "keeps (gate tid) (pool_runtime_context H E c p)" unfolding pool_runtime_context_def by (intro keeps_intros)
  show "keeps (gate tid) (provision_pool_slot E c img mat spec cips)"
    unfolding provision_pool_slot_def Let_def by (intro keeps_intros m) simp
  show "keeps (gate tid) (set_frame (\<lambda>f. f\<lparr>attempted := a\<rparr>))" by (rule f) simp
  show "keeps (gate tid) (connect E)" unfolding connect_def by (intro keeps_intros f) simp
  show "keeps (gate tid) (note_ready E t m)"
    unfolding note_ready_def writing_def by (rule keeps_modify) (simp add: seat_pool_resources_of_def set_state_def add_audit_def update_contest_def)
qed

section \<open>Repair\<close>

text \<open>Before the gateway is switched, after the switch, and what the exception handler may find.\<close>

definition unswitched :: "string \<Rightarrow> world \<Rightarrow> bool" where
  "unswitched tid w \<longleftrightarrow> routed tid w \<and> backup (local_vars w) = None \<and> \<not> committed (local_vars w)"

definition switched :: "string \<Rightarrow> resource list \<Rightarrow> world \<Rightarrow> bool" where
  "switched tid rs w \<longleftrightarrow> routes w = rs \<and> \<not> committed (local_vars w) \<and> (\<exists>old. backup (local_vars w) = Some old
     \<and> route ` set old = route ` set (seat_pool_resources_of tid (base w)))"

definition undoable :: "string \<Rightarrow> world \<Rightarrow> bool" where
  "undoable tid w \<longleftrightarrow> unswitched tid w \<or> (\<exists>rs. switched tid rs w)"

lemma viewed_unswitched: "viewed (gate tid) (unswitched tid)"
  by (simp add: viewed_def unswitched_def routed_def)

lemma viewed_inventory: "viewed (gate tid) (\<lambda>w. unswitched tid w \<and> rs = seat_pool_resources_of tid (base w))"
  by (simp add: viewed_def unswitched_def routed_def)

lemma stage_triple:
  "triple (\<lambda>w. unswitched tid w \<and> rs = seat_pool_resources_of tid (base w)) (stage_pool_gateway E qs)
     (\<lambda>_ w. switched tid qs w \<and> rs = seat_pool_resources_of tid (base w)) (undoable tid)"
  by (auto simp: triple_def stage_pool_gateway_def eff_defs unswitched_def switched_def undoable_def routed_def split: sum.splits)

lemma repaired_resources:
  assumes "commit_pool_repair dt tid e s r n d = Inr (k, d')"
  shows "route ` set (seat_pool_resources_of tid d') = insert (route r) (route ` set (seat_pool_resources_of tid d))"
proof -
  obtain m where "d' = update_pool_row dt tid m s (d\<lparr>seat_pool_resources := seat_pool_resources d @ [new_resource dt tid r]\<rparr>)"
    using repair_result [OF assms] by blast
  then show ?thesis by (auto simp: seat_pool_resources_of_def new_resource_def route_def)
qed

lemma undo_repair_gate:
  assumes "e_restore E = Inr ()"
  shows "triple (undoable tid) (undo_repair E x) Q (routed tid)"
  unfolding undo_repair_def
proof (rule triple_then)
  show "triple (undoable tid) (asks local_vars) (\<lambda>f w. undoable tid w \<and> f = local_vars w) (routed tid)"
    by (rule triple_asks) simp
  fix f
  have restore: "triple (\<lambda>w. undoable tid w \<and> f = local_vars w)
      (if backup f \<noteq> None \<and> \<not> committed f then quietly (restore_pool_gateway E) else ret ()) (\<lambda>_. routed tid) (routed tid)"
    using assms by (auto simp: triple_def restore_pool_gateway_def eff_defs undoable_def unswitched_def switched_def routed_def)
      (metis image_eqI)
  have "keeps (gate tid) (cleanup_incremental_slots E ns)" for ns
    unfolding cleanup_incremental_slots_def by (intro keeps_intros keeps_modify) simp
  then have clean: "keeps (gate tid) (if attempted f \<noteq> [] \<and> \<not> committed f
      then quietly (cleanup_incremental_slots E (attempted f)) else ret ())" by (intro keeps_intros)
  show "triple (\<lambda>w. undoable tid w \<and> f = local_vars w)
      (andThen (if backup f \<noteq> None \<and> \<not> committed f then quietly (restore_pool_gateway E) else ret ()) (\<lambda>_.
       andThen (if attempted f \<noteq> [] \<and> \<not> committed f then quietly (cleanup_incremental_slots E (attempted f)) else ret ())
         (\<lambda>_. raise x))) Q (routed tid)"
    by (rule triple_then [OF restore], rule triple_steady [OF clean viewed_routed]) (auto intro: triple_raise)
qed

lemma framed_start:
  assumes "triple (\<lambda>w. P w \<and> local_vars w = new_frame) m Q E" and "\<And>w f. P (w\<lparr>local_vars := f\<rparr>) = P w"
    and "\<And>a w f. Q a (w\<lparr>local_vars := f\<rparr>) = Q a w" and "\<And>w f. E (w\<lparr>local_vars := f\<rparr>) = E w"
  shows "triple P (framed m) Q E"
  unfolding triple_def
proof (intro allI impI)
  fix w assume "P w"
  obtain r w' where m: "m (w\<lparr>local_vars := new_frame\<rparr>) = (r, w')" by fastforce
  from tripleD [OF assms(1) _ m] \<open>P w\<close> show "case framed m w of (Inl e, w') \<Rightarrow> E w' | (Inr a, w') \<Rightarrow> Q a w'"
    by (auto simp: framed_def m assms split: sum.splits)
qed

lemma routed_frame: "routed tid (w\<lparr>local_vars := f\<rparr>) = routed tid w" "routed tid (w\<lparr>active := a\<rparr>) = routed tid w"
  "routed tid (leave t w) = routed tid w"
  by (simp_all add: routed_def leave_def)

lemma unswitched_undoable: "unswitched tid w \<Longrightarrow> undoable tid w" "unswitched tid w \<Longrightarrow> routed tid w"
  by (auto simp: undoable_def unswitched_def)

lemma switched_undoable: "switched tid rs w \<Longrightarrow> undoable tid w"
  by (auto simp: undoable_def)

lemma commit_gate:
  assumes "switched tid (rs @ [r]) w" and "rs = seat_pool_resources_of tid (base w)"
    and "commit_pool_repair dt tid e s r n (base w) = Inr (k, d)"
  shows "routed tid (w\<lparr>base := d\<rparr>)"
  using assms(1,2) repaired_resources [OF assms(3)] by (simp add: switched_def routed_def)

lemmas inventory_rules =
  triple_steady [OF _ viewed_inventory] triple_lift_then [where P = "\<lambda>w. unswitched tid w \<and> rs = seat_pool_resources_of tid (base w)" for tid rs]

lemma repair_steps_gate:
  "triple (\<lambda>w. unswitched tid w \<and> rs = seat_pool_resources_of tid (base w))
     (repair_steps H E tid n c e rs img mat failures q) (\<lambda>_. routed tid) (undoable tid)"
  unfolding repair_steps_def Let_def
proof (rule inventory_rules(1), rule keeps_gate, blast intro: unswitched_undoable, rule inventory_rules(1), rule keeps_gate,
    blast intro: unswitched_undoable, rule inventory_rules(2), blast intro: unswitched_undoable, rule inventory_rules(2),
    blast intro: unswitched_undoable)
  fix r t and u v :: unit
  have rest: "triple (routed tid) (andThen (set_frame (\<lambda>f. f\<lparr>committed := True\<rparr>)) (\<lambda>_.
      andThen (quietly (lift (e_drop E))) (\<lambda>_. ret k))) (\<lambda>_. routed tid) (undoable tid)" for k :: int
    by (cases "e_drop E") (simp_all add: triple_def eff_defs routed_def)
  have commit: "triple (\<lambda>w. switched tid (rs @ [r]) w \<and> rs = seat_pool_resources_of tid (base w))
      (store (commit_pool_repair (e_dt E) tid e (to_dict (tr_state t)) r n)) (\<lambda>_. routed tid) (undoable tid)"
    by (rule triple_store) (auto intro: switched_undoable commit_gate)
  show "triple (\<lambda>w. unswitched tid w \<and> rs = seat_pool_resources_of tid (base w))
     (andThen (stage_pool_gateway E (rs @ [r])) (\<lambda>_.
      andThen (store (commit_pool_repair (e_dt E) tid e (to_dict (tr_state t)) r n)) (\<lambda>_.
      andThen (set_frame (\<lambda>f. f\<lparr>committed := True\<rparr>)) (\<lambda>_.
      andThen (quietly (lift (e_drop E))) (\<lambda>_. ret (revision (tr_state t))))))) (\<lambda>_. routed tid) (undoable tid)"
    by (rule triple_then [OF stage_triple triple_then [OF commit rest]])
qed

lemma inventory_result:
  assumes "pool_runtime_context H E c p w = (Inr (rs, img, mat), w')"
  shows "rs = seat_pool_resources_of (c_tid c) (base w)"
proof -
  obtain x where "verified_pool_inventory (c_tid c) p (base w) = Inr (rs, x)"
    using assms unfolding pool_runtime_context_def
    by (elim andThen_InrE) (auto simp: eff_defs split: if_splits sum.splits)
  then show ?thesis
    by (auto simp: verified_pool_inventory_def Let_def bindE_eq_Inr split: if_splits prod.splits list.splits)
qed

lemmas unswitched_rules =
  triple_steady [OF _ viewed_unswitched unswitched_undoable(2)]
  triple_lift_then [where P = "unswitched tid" and E = "routed tid" for tid, OF unswitched_undoable(2)]
  triple_require_then [where P = "unswitched tid" and E = "routed tid" for tid, OF unswitched_undoable(2)]

lemma repair_isolated_gate:
  assumes restore: "e_restore E = Inr ()" and tid: "c_tid c = tid"
  shows "triple (routed tid) (repair_isolated_pool_slot H E tid n e c) (\<lambda>_. routed tid) (routed tid)"
  unfolding repair_isolated_pool_slot_def
proof (rule framed_start, rule triple_conseq [where P' = "unswitched tid"], rule unswitched_rules(1), rule keeps_intros, assumption,
    rule unswitched_rules(2), assumption, split option.split, intro conjI allI impI triple_prod)
  fix stored s x k y state updated
  note undo = triple_handle [OF repair_steps_gate undo_repair_gate [OF restore]]
  show "triple (unswitched tid) (andThen (require (k = e) (RuntimeError ''seat pool changed before the repair'')) (\<lambda>_.
       andThen (lift (read_pool state)) (\<lambda>p.
       andThen (lift (pool_seat p n)) (\<lambda>failed.
       andThen (require (st failed = Planned \<and> seat_uid failed = None \<and> 1 \<le> failure_count failed)
         (RuntimeError ''seat is not isolated'')) (\<lambda>_.
       andThen (pool_runtime_context H E c p) (\<lambda>(rs, img, mat).
       andThen (lift (e_wipe E n)) (\<lambda>_.
       andThen (lift (mark_warming H n (e_warm_at E n) (repair_command ''warm'' tid n (failure_count failed))
         (revision p) p)) (\<lambda>warming.
       handle (repair_steps H E tid n c e rs img mat (failure_count failed) (tr_state warming)) (undo_repair E)))))))))
     (\<lambda>_. routed tid) (routed tid)"
  proof (rule unswitched_rules(3), assumption, rule unswitched_rules(2), assumption, rule unswitched_rules(2), assumption,
      rule unswitched_rules(3), assumption)
    fix p failed u v
    show "triple (unswitched tid) (andThen (pool_runtime_context H E c p) (\<lambda>(rs, img, mat).
       andThen (lift (e_wipe E n)) (\<lambda>_.
       andThen (lift (mark_warming H n (e_warm_at E n) (repair_command ''warm'' tid n (failure_count failed))
         (revision p) p)) (\<lambda>warming.
       handle (repair_steps H E tid n c e rs img mat (failure_count failed) (tr_state warming)) (undo_repair E)))))
     (\<lambda>_. routed tid) (routed tid)"
    proof (rule triple_then)
      show "triple (unswitched tid) (pool_runtime_context H E c p)
        (\<lambda>x w. unswitched tid w \<and> fst x = seat_pool_resources_of tid (base w)) (routed tid)"
        unfolding triple_def
      proof (intro allI impI)
        fix w assume w: "unswitched tid w"
        obtain r w' where m: "pool_runtime_context H E c p w = (r, w')" by fastforce
        have g: "gate tid w' = gate tid w" by (rule keepsD [OF keeps_gate(1) m])
        have "unswitched tid w'" by (rule viewedD [OF viewed_unswitched w g])
        then show "case pool_runtime_context H E c p w of (Inl e, w') \<Rightarrow> routed tid w'
          | (Inr x, w') \<Rightarrow> unswitched tid w' \<and> fst x = seat_pool_resources_of tid (base w')"
          using m g tid by (auto intro: unswitched_undoable split: sum.split dest: inventory_result)
      qed
      show "triple (\<lambda>w. unswitched tid w \<and> fst x = seat_pool_resources_of tid (base w)) (case x of (rs, img, mat) \<Rightarrow>
         andThen (lift (e_wipe E n)) (\<lambda>_.
         andThen (lift (mark_warming H n (e_warm_at E n) (repair_command ''warm'' tid n (failure_count failed))
           (revision p) p)) (\<lambda>warming.
         handle (repair_steps H E tid n c e rs img mat (failure_count failed) (tr_state warming)) (undo_repair E))))
         (\<lambda>_. routed tid) (routed tid)" for x
        by (intro triple_prod) (auto intro!: triple_lift_then undo unswitched_undoable)
    qed
  qed
qed (auto intro: triple_raise simp: unswitched_undoable routed_frame unswitched_def new_frame_def)

lemma repair_capacity_gate:
  assumes restore: "e_restore E = Inr ()"
  shows "triple (routed tid) (repair_pool_capacity H E tid n e) (\<lambda>_. routed tid) (routed tid)"
  unfolding repair_pool_capacity_def
proof (intro exclusively_triple framed_triple)
  have steady: "triple (routed tid) (andThen m g) (\<lambda>_. routed tid) (routed tid)"
    if "keeps (gate tid) m" "\<And>a. triple (routed tid) (g a) (\<lambda>_. routed tid) (routed tid)" for m :: "(world, 'a) eff" and g
    by (rule triple_steady [OF that(1) viewed_routed _ that(2)])
  show "triple (routed tid) (andThen (lift (e_lock E)) (\<lambda>_.
     andThen (reading (get_contest tid)) (\<lambda>c. case c of
       None \<Rightarrow> raise (RuntimeError ''only a running contest can be repaired'')
     | Some c \<Rightarrow>
     andThen (require (c_state c = Ready) (RuntimeError ''only a running contest can be repaired'')) (\<lambda>_.
     andThen (lift (validate_contest_snapshot (e_document E) c)) (\<lambda>_.
     andThen (connect E) (\<lambda>_.
     andThen (repair_isolated_pool_slot H E tid n e c) (\<lambda>k.
     andThen (note_ready E tid (''seat '' @ fmt03 n @ '' rebuilt'')) (\<lambda>_. ret k))))))))
     (\<lambda>_. routed tid) (routed tid)"
  proof (rule steady, rule keeps_intros, rule triple_then [where R = "\<lambda>c w. routed tid w \<and> (\<forall>x. c = Some x \<longrightarrow> c_tid x = tid)"])
    fix l c
    note lifted = triple_lift_then [where P = "routed tid" and E = "routed tid"] triple_require_then [where P = "routed tid" and E = "routed tid"]
    show "triple (\<lambda>w. routed tid w \<and> (\<forall>x. c = Some x \<longrightarrow> c_tid x = tid)) (case c of
       None \<Rightarrow> raise (RuntimeError ''only a running contest can be repaired'')
     | Some c \<Rightarrow>
     andThen (require (c_state c = Ready) (RuntimeError ''only a running contest can be repaired'')) (\<lambda>_.
     andThen (lift (validate_contest_snapshot (e_document E) c)) (\<lambda>_.
     andThen (connect E) (\<lambda>_.
     andThen (repair_isolated_pool_slot H E tid n e c) (\<lambda>k.
     andThen (note_ready E tid (''seat '' @ fmt03 n @ '' rebuilt'')) (\<lambda>_. ret k))))))
     (\<lambda>_. routed tid) (routed tid)"
    proof (cases c)
      case (Some x)
      have ending: "triple (routed tid) (andThen (note_ready E tid m) (\<lambda>_. ret k)) (\<lambda>_. routed tid) (routed tid)" for k :: int and m
        by (rule steady [OF keeps_gate(5)]) (simp add: triple_ret)
      have body: "triple (routed tid) (andThen (connect E) (\<lambda>_. andThen (repair_isolated_pool_slot H E tid n e x) (\<lambda>k.
         andThen (note_ready E tid (''seat '' @ fmt03 n @ '' rebuilt'')) (\<lambda>_. ret k)))) (\<lambda>_. routed tid) (routed tid)"
        if "c_tid x = tid"
        by (rule steady [OF keeps_gate(4)]) (rule triple_then [OF repair_isolated_gate [OF restore that] ending])
      show ?thesis unfolding Some option.case
      proof (rule triple_fact [where B = "c_tid x = tid"])
        assume B: "c_tid x = tid"
        show "triple (\<lambda>w. routed tid w \<and> (\<forall>y. Some x = Some y \<longrightarrow> c_tid y = tid))
          (andThen (require (c_state x = Ready) (RuntimeError ''only a running contest can be repaired'')) (\<lambda>_.
           andThen (lift (validate_contest_snapshot (e_document E) x)) (\<lambda>_.
           andThen (connect E) (\<lambda>_. andThen (repair_isolated_pool_slot H E tid n e x) (\<lambda>k.
           andThen (note_ready E tid (''seat '' @ fmt03 n @ '' rebuilt'')) (\<lambda>_. ret k)))))) (\<lambda>_. routed tid) (routed tid)"
          by (rule triple_conseq, rule lifted(2), assumption, rule lifted(1), assumption, rule body [OF B]) simp
      qed simp
    qed (auto intro: triple_raise)
  qed (auto simp: triple_def eff_defs get_contest_def dest: find_Some_iff_mem)
qed (simp_all add: routed_frame)

end
