(* ===== verification/PipelineThms.thy ===== *)
theory PipelineThms
  imports GatewayThms
begin

text \<open>
  The properties of the pipeline's operations on the seat pool, with the small contest that the witnesses
  run: one student on slot 1, one spare on slot 2.
\<close>

section \<open>A small running contest\<close>

definition live_tid :: string where
  "live_tid = ''abcdabcdabcdabcdabcdabcd''"

definition live_contest :: contest where
  "live_contest = \<lparr>c_tid = live_tid, c_title = ''CSP'', c_files = Some [''a''], c_pids = Some [],
     c_submission_mode = ''folder'', c_submission_session = ''s'', c_paper_name = ''p'', c_paper_sha256 = ''pp'',
     c_paper_size = 1, c_testdata_name = [], c_testdata_sha256 = [], c_testdata_size = 0, c_testdata_files = 0,
     c_testdata_expanded_size = 0, c_begin_at_ms = 100, c_end_at_ms = 200, c_hydro_rule = ''oi'',
     c_materials_mode = ''manual'', c_material_state = ''ready'', c_active_material_revision = [],
     c_material_manifest_sha256 = ''m'', c_max_participants = 1, c_spare_seats = 1, c_release_lead_minutes = 5,
     c_practice_groups = 0, c_time_sync_at_ms = 0, c_time_sync_checked_at_ms = 0, c_time_sync_error = [],
     c_collection_run_id = [], c_collection_dir = [], c_collection_receipt_sha256 = [],
     c_collection_completed_at_ms = 0, c_shutdown_after_ms = 0, c_shutdown_verified_at_ms = 0,
     c_workspace_purged_at_ms = 0, c_evidence_purged_at_ms = 0, c_state = Ready, c_message = [], c_created_at = ''now''\<rparr>"

definition live_seat :: "int \<Rightarrow> seat_role \<Rightarrow> seat_state \<Rightarrow> int option \<Rightarrow> string \<Rightarrow> string \<Rightarrow> seat" where
  "live_seat n r s u name c = \<lparr>slot_no = n, seat_key = seat_key_of n, role = r, st = s, seat_uid = u, seat_uname = name,
     container_ref = c, image_digest = ''i'', material_digest = ''sha256:m'', failure_count = 0, last_error = [],
     reserved_at_ms = None, released_at_ms = None, frozen_at_ms = None, collected_at_ms = None\<rparr>"

definition live_pool :: pool where
  "live_pool = \<lparr>pool_tid = live_tid, max_participants = 1, spare_count = 1, begin_at_ms = 100, release_at_ms = 50,
     revision = 0, seats = [live_seat 1 Primary Reserved (Some 7) ''amy'' ''c1'', live_seat 2 Spare Verified None [] ''c2''],
     receipts = []\<rparr>"

definition live_resource :: "int \<Rightarrow> string \<Rightarrow> string \<Rightarrow> string \<Rightarrow> resource" where
  "live_resource n tok sub c = \<lparr>r_tid = live_tid, r_slot_no = n, r_token = tok, r_vnc_pass = ''p'',
     r_submit_token = sub, r_candidate = c, r_container = c, r_cip = c,
     r_image_digest = ''i'', r_material_digest = ''sha256:m'', r_credential_revision = 1, r_created_at = ''now''\<rparr>"

definition live_resources :: "resource list" where
  "live_resources = [live_resource 1 ''gateway-token-one'' ''s1'' ''c1'', live_resource 2 ''gateway-token-two'' ''s2'' ''c2'']"

definition live_db :: db where
  "live_db = empty_db\<lparr>contests := [live_contest],
     seat_pools := [\<lparr>p_tid = live_tid, p_revision = 0, p_state_json = Some (jsort (to_dict live_pool)), p_updated_at = ''now''\<rparr>],
     seat_pool_resources := live_resources,
     bound_seats := [bound_from live_tid 7 ''amy'' (live_resource 1 ''gateway-token-one'' ''s1'' ''c1'')]\<rparr>"

definition live_world :: world where
  "live_world = \<lparr>base = live_db, active = {}, routes = live_resources, containers = {''c1'', ''c2''}, paused_now = {},
     local_vars = new_frame\<rparr>"

text \<open>A server on which every step succeeds.\<close>

definition live_env :: env where
  "live_env = \<lparr>e_lock = Inr (), e_document = Inr (Some \<lparr>oj_begin = Some 100, oj_end = Some 200, oj_rule = ''oi''\<rparr>),
     e_limit = 30, e_total = 40, e_status = Inr (''RUNNING'', ''ip''), e_ssh = Inr True, e_image = Inr ''i'',
     e_gateway_private = Inr True, e_paper = Inr ''pp'', e_public_https = True,
     e_secret = (\<lambda>n. (''fresh-token-of-slot-'' @ int_str n, ''v'', ''fresh'' @ int_str n)),
     e_mkdir = (\<lambda>_. Inr ()), e_wipe = (\<lambda>_. Inr ()), e_run = (\<lambda>_. (True, Inr ())), e_container_image = (\<lambda>_. Inr ''i''),
     e_cip = (\<lambda>n. Inr (''ip'' @ int_str n)), e_private = (\<lambda>_. True), e_seat_ready = (\<lambda>_. Inr ()), e_stage = Inr (),
     e_restore = Inr (), e_drop = Inr (), e_cleanup = (\<lambda>_. Inr ()), e_container_state = (\<lambda>_. Inr ''running''),
     e_pause = (\<lambda>_. Inr ()), e_unpause = (\<lambda>_. Inr ()), e_copy = (\<lambda>_ _. Inr ()), e_remove = (\<lambda>_. Inr ()),
     e_warm_at = (\<lambda>_. 3), e_verify_at = (\<lambda>_. 4), e_now = 5, e_dt = ''now'', e_audit_ms = 5, e_text = (\<lambda>_. [])\<rparr>"

lemma growth_runs: "case grow_pool (\<lambda>s. []) live_env live_tid 0 1 0 live_world of
    (Inl x, w') \<Rightarrow> False | (Inr rep, w') \<Rightarrow> \<not> gr_replayed rep"
  by code_simp

lemma live_list:
  "seats live_pool = [live_seat 1 Primary Reserved (Some 7) ''amy'' ''c1'', live_seat 2 Spare Verified None [] ''c2'']"
  by (simp add: live_pool_def)

lemma live_wf: "pool_wf live_pool"
  by (simp add: pool_wf_def seats_wf_def log_wf_def live_pool_def live_seat_def seat_wf_def role_count_def upto.simps)

lemma live_linked: "linked live_pool live_db"
proof -
  have t: "pool_tid live_pool = live_tid" "revision live_pool = 0" by (simp_all add: live_pool_def)
  have r: "seat_pool_resource live_tid 1 live_db = Some (live_resource 1 ''gateway-token-one'' ''s1'' ''c1'')"
    "seat_pool_resource live_tid 2 live_db = Some (live_resource 2 ''gateway-token-two'' ''s2'' ''c2'')"
    by (simp_all add: seat_pool_resource_def live_db_def live_resources_def live_resource_def resource_key_def)
  have row: "get_pool_row live_tid live_db = Some \<lparr>p_tid = live_tid, p_revision = 0,
      p_state_json = Some (jsort (to_dict live_pool)), p_updated_at = ''now''\<rparr>"
    by (simp add: get_pool_row_def live_db_def)
  show ?thesis
    unfolding linked_def t live_list row
    by (simp add: live_seat_def r del: jsort.simps) (simp add: live_db_def live_resources_def live_resource_def has_evidence_def
        tokens_of_student_def bound_from_def bound_key_def)
qed

lemma live_follows: "follows live_tid live_pool live_world"
  using live_wf live_linked by (simp add: follows_def live_world_def live_pool_def)

lemma live_fresh: "fresh_secrets live_env (base live_world)"
  by (simp add: fresh_secrets_def live_world_def live_env_def live_db_def live_resources_def live_resource_def bound_from_def)

section \<open>Growth\<close>



section \<open>Replacement\<close>


lemma replacement_runs: "case replace_failed_seat (\<lambda>s. []) live_env live_tid 1 ''disk'' 0 True live_world of
    (Inl x, w') \<Rightarrow> False | (Inr rep, w') \<Rightarrow> \<not> rp_replayed rep \<and> rp_capacity_recovered rep"
  by code_simp


section \<open>The schedule\<close>

lemma rescheduled:
  assumes p: "pool_wf p" and t: "reschedule H b l cid (revision p) p = Inr t"
  shows "pool_wf (tr_state t) \<and> seats (tr_state t) = seats p \<and> pool_tid (tr_state t) = pool_tid p \<and> revision p \<le> revision (tr_state t)
     \<and> (if find_receipt cid p = None then begin_at_ms (tr_state t) = b \<and> release_at_ms (tr_state t) = b - l
        else begin_at_ms (tr_state t) = begin_at_ms p \<and> release_at_ms (tr_state t) = release_at_ms p)"
proof -
  have t': "run_op H (Reschedule b l) cid (revision p) p = Inr t" using t by simp
  have "seats (tr_state t) = seats p \<and> (if find_receipt cid p = None then begin_at_ms (tr_state t) = b \<and> release_at_ms (tr_state t) = b - l
        else begin_at_ms (tr_state t) = begin_at_ms p \<and> release_at_ms (tr_state t) = release_at_ms p)"
    using t unfolding reschedule_def
    by (auto simp: Let_def split: if_split_asm elim!: apply_cmd_cases)
  then show ?thesis using run_op_wf [OF p t'] run_op_le [OF p t'] by (auto simp: pool_le_def)
qed

lemma find_receipt_stored: "find_receipt cid (stored p) = None \<longleftrightarrow> find_receipt cid p = None"
  by (auto simp: find_receipt_def stored_def stored_receipt_def find_None_iff)

lemma commit_schedule_result:
  assumes f: "follows tid p w" and q: "pool_wf q" "seats q = seats p" "pool_tid q = pool_tid p"
    and c: "commit_schedule_sync dt tid cb ce b e rule obs n (to_dict q) (base w) = Inr (c', d)"
  shows "follows tid q (w\<lparr>base := d\<rparr>) \<and> get_contest tid d = Some c' \<and> c_begin_at_ms c' = b \<and> c_end_at_ms c' = e \<and> c_hydro_rule c' = rule"
proof -
  let ?u = "update_pool_row dt tid (revision q) (to_dict q) (base w)"
  have l: "linked p (base w)" "pool_tid p = tid" using f by (auto simp: follows_def)
  have d: "derived p q"
    using q unfolding derived_def by (auto simp: pool_wf_def log_wf_def)
  have "linked q ?u" using linked_derived [OF l(1) d, of dt] l(2) by simp
  moreover obtain g where g: "\<And>x. c_tid (g x) = c_tid x" "\<And>x. c_begin_at_ms (g x) = b" "\<And>x. c_end_at_ms (g x) = e" "\<And>x. c_hydro_rule (g x) = rule"
      "d = update_contest (\<lambda>c. c_tid c = tid) g ?u" "get_contest tid d = Some c'"
  proof -
    show ?thesis
      using c that [of "\<lambda>c. c\<lparr>c_begin_at_ms := b, c_end_at_ms := e, c_hydro_rule := rule, c_time_sync_at_ms := obs,
         c_time_sync_checked_at_ms := obs, c_time_sync_error := [], c_message := ''OJ contest time synchronised''\<rparr>"]
      by (auto simp: commit_schedule_sync_def to_dict_reads Let_def split: option.split_asm if_split_asm)
  qed
  ultimately have "linked q d"
    using linked_tables [of d ?u q] by (simp add: pool_tables_def update_contest_def)
  moreover have "c_begin_at_ms c' = b \<and> c_end_at_ms c' = e \<and> c_hydro_rule c' = rule"
  proof -
    have "c' \<in> set (contests d)" "c_tid c' = tid" using find_Some_iff_mem [OF g(6) [unfolded get_contest_def]] by simp_all
    then obtain x where "x \<in> set (contests ?u)" "c' = (if c_tid x = tid then g x else x)" 
      unfolding g(5) update_contest_def by (auto simp: set_sql_update split: if_split_asm)
    then show ?thesis using g(2-4) \<open>c_tid c' = tid\<close> by (auto split: if_split_asm)
  qed
  ultimately show ?thesis using q l(2) g(6) by (simp add: follows_def)
qed

lemma schedule_same_base:
  "keeps base (connect E)"
  unfolding connect_def set_frame_def by (intro keeps_intros keeps_modify) simp

definition schedule_followed :: "string \<Rightarrow> int \<Rightarrow> int \<Rightarrow> pool \<Rightarrow> db \<Rightarrow> schedule_report \<Rightarrow> world \<Rightarrow> bool" where
  "schedule_followed tid b e p d rep v \<longleftrightarrow> (\<exists>c q. get_contest tid d = Some c \<and> get_contest tid (base v) = Some (sr_contest rep)
     \<and> c_begin_at_ms (sr_contest rep) = b \<and> c_end_at_ms (sr_contest rep) = e \<and> follows tid q v \<and> seats q = seats p
     \<and> (if find_receipt (schedule_command tid b e) p = None
        then begin_at_ms q = b \<and> release_at_ms q = b - lead_ms c
        else begin_at_ms q = begin_at_ms p \<and> release_at_ms q = release_at_ms p))"

definition on_base :: "db \<Rightarrow> world \<Rightarrow> bool" where
  "on_base d v \<longleftrightarrow> base v = d"

lemma viewed_base: "viewed base (on_base d)"
  by (simp add: viewed_def on_base_def)

lemmas on_base_rules = triple_steady [OF _ viewed_base] triple_steady_fact [OF _ viewed_base]

lemma publish_schedule_triple:
  assumes f: "pool_wf p" "pool_tid p = tid" "linked p d" and c: "get_contest tid d = Some c"
  shows "triple (on_base d) (publish_schedule H E watchdog tid b e rule observed c n (stored p))
    (schedule_followed tid b e p d) (on_base d)"
  unfolding publish_schedule_def
proof (rule triple_lift_then, assumption, rule on_base_rules(1), intro keeps_intros schedule_same_base, assumption,
    rule triple_then [OF triple_store])
  fix t and x :: unit and v c' d'
  assume t: "reschedule H b (lead_ms c) (schedule_command tid b e) (revision (stored p)) (stored p) = Inr t"
    and v: "on_base d v" and s: "commit_schedule_sync (e_dt E) tid (c_begin_at_ms c) (c_end_at_ms c) b e rule observed n
       (to_dict (tr_state t)) (base v) = Inr (c', d')"
  note q = rescheduled [OF _ t, unfolded stored_wf find_receipt_stored, OF f(1)]
  have "follows tid p v" using v f by (simp add: follows_def on_base_def)
  from commit_schedule_result [OF this _ _ _ s] q c
  show "schedule_followed tid b e p d \<lparr>sr_deadline_reached = (e \<le> observed), sr_contest = c', sr_pool_revision = revision (tr_state t)\<rparr>
      (v\<lparr>base := d'\<rparr>)"
    unfolding schedule_followed_def by (intro exI [of _ c] exI [of _ "tr_state t"]) simp
qed (assumption, rule triple_ret, assumption)

lemma schedule_sync_triple:
  assumes f: "pool_wf p" "pool_tid p = tid" "linked p d"
  shows "triple (on_base d) (sync_contest_schedule H E watchdog tid b e rule observed) (schedule_followed tid b e p d) (on_base d)"
proof -
  obtain k where k: "seat_pool tid d = Inr (Some (revision p, jsort (to_dict p), k))"
    using linked_row [OF f(3)] f(2) by auto
  show ?thesis
    unfolding sync_contest_schedule_def
  proof (rule triple_require_then, assumption, rule exclusively_triple,
      rule on_base_rules(2) [where R = "\<lambda>x. x = get_contest tid d"], rule keeps_pure, assumption, simp add: on_base_def eff_defs,
      rule on_base_rules(2) [where R = "\<lambda>x. x = Inr (Some (revision p, jsort (to_dict p), k))"], rule keeps_pure, assumption,
      simp add: on_base_def eff_defs k, simp only: andThen_simps option.case prod.case read_pool_stored)
    fix found x
    show "triple (on_base d) (case get_contest tid d of None \<Rightarrow> raise (RuntimeError ''contest is not in a state that can be synchronised'')
      | Some c \<Rightarrow> andThen (require (c_state c = Ready) (RuntimeError ''contest is not in a state that can be synchronised''))
          (\<lambda>_. publish_schedule H E watchdog tid b e ''oi'' observed c (revision p) (stored p)))
      (schedule_followed tid b e p d) (on_base d)"
    proof (cases "get_contest tid d")
      case (Some c)
      show ?thesis
        unfolding Some option.case by (rule triple_require_then, assumption, rule publish_schedule_triple [OF f Some])
    qed (simp add: triple_raise)
  qed (auto simp: on_base_def schedule_followed_def)
qed


lemma schedule_runs: "case sync_contest_schedule (\<lambda>s. []) live_env (\<lambda>c. Inr ()) live_tid 500000 600000 ''oi'' 1 live_world of
    (Inl x, w') \<Rightarrow> False | (Inr rep, w') \<Rightarrow> find_receipt (schedule_command live_tid 500000 600000) live_pool = None"
  by code_simp


section \<open>What the operations do not do\<close>

definition stored_times :: "string \<Rightarrow> world \<Rightarrow> (int \<times> int) res" where
  "stored_times tid w = bindE (seat_pool tid (base w)) (\<lambda>s. case s of
     None \<Rightarrow> Inl (KeyError ''pool'')
   | Some (n, state, updated) \<Rightarrow> bindE (read_pool state) (\<lambda>p. Inr (begin_at_ms p, release_at_ms p)))"

text \<open>
  The judge moves the contest to another time, back, and to the other time again: the contest follows, the
  pool keeps the first time and its release.
\<close>

lemma schedule_returns_stale:
  "case andThen (sync_contest_schedule (\<lambda>s. []) live_env (\<lambda>c. Inr ()) live_tid 500000 600000 ''oi'' 1) (\<lambda>_.
     andThen (sync_contest_schedule (\<lambda>s. []) live_env (\<lambda>c. Inr ()) live_tid 400000 600000 ''oi'' 1) (\<lambda>_.
     sync_contest_schedule (\<lambda>s. []) live_env (\<lambda>c. Inr ()) live_tid 500000 600000 ''oi'' 1)) live_world of
     (Inl x, w') \<Rightarrow> False
   | (Inr rep, w') \<Rightarrow> c_begin_at_ms (sr_contest rep) = 500000 \<and> stored_times live_tid w' = Inr (400000, 100000)"
  by code_simp

text \<open>
  The connection breaks when the copy of the old gateway configuration is removed after the commit of a
  growth: the pool and its resources have three slots, the gateway is put back to two.
\<close>

lemma growth_loses_gateway:
  "case grow_pool (\<lambda>s. []) (live_env\<lparr>e_drop := Inl (RuntimeError ''SSH'')\<rparr>) live_tid 0 1 0 live_world of
     (Inl x, w') \<Rightarrow> map r_slot_no (seat_pool_resources (base w')) = [1, 2, 3] \<and> map r_slot_no (routes w') = [1, 2]
   | (Inr rep, w') \<Rightarrow> False"
  by code_simp

text \<open>A free seat of the primary role that failed is isolated, and no repair brings it back.\<close>

definition free_pool :: pool where
  "free_pool = live_pool\<lparr>seats := [live_seat 1 Primary Verified None [] ''c1'', live_seat 2 Spare Verified None [] ''c2'']\<rparr>"

definition free_world :: world where
  "free_world = live_world\<lparr>base := live_db\<lparr>seat_pools := [\<lparr>p_tid = live_tid, p_revision = 0,
     p_state_json = Some (jsort (to_dict free_pool)), p_updated_at = ''now''\<rparr>], bound_seats := []\<rparr>\<rparr>"

lemma primary_slot_lost:
  "case replace_failed_seat (\<lambda>s. []) live_env live_tid 1 ''disk'' 0 True free_world of
     (Inl x, w') \<Rightarrow> False
   | (Inr rep, w') \<Rightarrow> \<not> rp_capacity_recovered rep \<and> fst (repair_pool_capacity (\<lambda>s. []) live_env live_tid 1 1 w')
       = Inl (SubmissionConflictError ''a repair may not reset the failure history or the role'')"
  by code_simp

section \<open>The gateway during a repair\<close>


definition broken_env :: env where
  "broken_env = live_env\<lparr>e_wipe := (\<lambda>_. Inl (RuntimeError ''SSH''))\<rparr>"

lemma isolated_then_repaired:
  "case replace_failed_seat (\<lambda>s. []) broken_env live_tid 1 ''disk'' 0 True live_world of
     (Inl x, w) \<Rightarrow> False
   | (Inr rep, w) \<Rightarrow> map route (routes w) = map route (seat_pool_resources_of live_tid (base w)) \<and> length (routes w) = 1
      \<and> (case repair_pool_capacity (\<lambda>s. []) live_env live_tid 1 1 w of
         (Inl x, w') \<Rightarrow> False | (Inr k, w') \<Rightarrow> length (routes w') = 2)"
  by code_simp


section \<open>The roster\<close>

lemma validate_from:
  "validate_roster_from uids names xs = Inr ys \<longleftrightarrow>
     list_all (\<lambda>(u, n). 1 \<le> u \<and> py_strip n \<noteq> []) xs \<and> distinct (map fst xs) \<and> distinct (map (\<lambda>x. casefold (py_strip (snd x))) xs)
     \<and> fst ` set xs \<inter> set uids = {} \<and> (\<lambda>x. casefold (py_strip (snd x))) ` set xs \<inter> set names = {}
     \<and> ys = map (\<lambda>(u, n). (u, py_strip n)) xs"
proof (induction uids names xs arbitrary: ys rule: validate_roster_from.induct)
  case (2 uids names u name ps)
  show ?case
    using "2.IH" by (auto simp: Let_def)
qed auto

text \<open>The roster check accepts exactly the rosters whose accounts have a positive number and a name
  that is not blank, with no number twice and no two names that differ in case or surrounding space only;
  the accepted roster is the given one, in its order, with the names stripped.\<close>

theorem validate_roster_exact:
  "validate_roster xs = Inr ys \<longleftrightarrow>
     list_all (\<lambda>(u, n). 1 \<le> u \<and> py_strip n \<noteq> []) xs \<and> distinct (map fst xs)
     \<and> distinct (map (\<lambda>x. casefold (py_strip (snd x))) xs) \<and> ys = map (\<lambda>(u, n). (u, py_strip n)) xs"
  by (simp add: validate_roster_def validate_from)

text \<open>C13: A synchronisation of the roster that succeeds has seated every student of the judge's roster: each has
  a seat of the stored pool and the bound seat of that slot's resource. Wherever it stops, no student who had
  a seat lost it or was moved.\<close>

theorem roster_sync_seats_everyone:
  assumes "follows tid p w" and "fresh_secrets E (base w)" and "sync_roster H E tid now hydro w = (r, w')"
  shows "case r of Inl x \<Rightarrow> \<exists>q. follows tid q w' \<and> places_kept p q
    | Inr rep \<Rightarrow> \<exists>roster q. bindE hydro validate_roster = Inr roster \<and> follows tid q w' \<and> places_kept p q
        \<and> list_all (seated tid q (base w')) roster"
  using tripleD [OF sync_roster_triple [of E tid p] _ assms(3)] assms(1,2)
  by (auto simp: starts_def stopped_def on_way_def list_all_iff split: sum.splits)

definition preparing_world :: world where
  "preparing_world = free_world\<lparr>base := (base free_world)\<lparr>contests := [live_contest\<lparr>c_state := Preparing\<rparr>]\<rparr>\<rparr>"

lemma roster_runs: "case sync_roster (\<lambda>s. []) live_env live_tid 60 (Inr [(7, '' amy'')]) preparing_world of
    (Inl x, w') \<Rightarrow> False | (Inr rep, w') \<Rightarrow> rr_assigned rep = 1"
  by code_simp

lemma free_linked: "linked free_pool (base free_world)"
proof -
  have t: "pool_tid free_pool = live_tid" "revision free_pool = 0" by (simp_all add: live_pool_def free_pool_def)
  have l: "seats free_pool = [live_seat 1 Primary Verified None [] ''c1'', live_seat 2 Spare Verified None [] ''c2'']"
    by (simp add: free_pool_def)
  have r: "seat_pool_resource live_tid 1 (base free_world) = Some (live_resource 1 ''gateway-token-one'' ''s1'' ''c1'')"
    "seat_pool_resource live_tid 2 (base free_world) = Some (live_resource 2 ''gateway-token-two'' ''s2'' ''c2'')"
    by (simp_all add: seat_pool_resource_def free_world_def live_db_def live_resources_def live_resource_def resource_key_def)
  have row: "get_pool_row live_tid (base free_world) = Some \<lparr>p_tid = live_tid, p_revision = 0,
      p_state_json = Some (jsort (to_dict free_pool)), p_updated_at = ''now''\<rparr>"
    by (simp add: get_pool_row_def free_world_def)
  show ?thesis
    unfolding linked_def t l row
    by (simp add: live_seat_def r del: jsort.simps) (simp add: free_world_def live_db_def live_resources_def live_resource_def
      has_evidence_def tokens_of_student_def bound_from_def bound_key_def)
qed

lemma preparing_follows: "follows live_tid free_pool preparing_world"
proof -
  have "pool_wf free_pool"
    by (simp add: pool_wf_def seats_wf_def log_wf_def free_pool_def live_pool_def live_seat_def seat_wf_def role_count_def upto.simps)
  moreover have "linked free_pool (base preparing_world)"
    using linked_tables [of "base preparing_world" "base free_world"] free_linked by (simp add: preparing_world_def pool_tables_def)
  ultimately show ?thesis by (simp add: follows_def free_pool_def live_pool_def)
qed

lemma preparing_fresh: "fresh_secrets live_env (base preparing_world)"
  by (simp add: fresh_secrets_def preparing_world_def free_world_def live_env_def live_db_def live_resources_def live_resource_def)

theorem roster_sync_seats_everyone_witness:
  "\<exists>rep w' q. sync_roster (\<lambda>s. []) live_env live_tid 60 (Inr [(7, '' amy'')]) preparing_world = (Inr rep, w')
     \<and> follows live_tid q w' \<and> seated live_tid q (base w') (7, ''amy'')"
proof -
  obtain rep w' where g: "sync_roster (\<lambda>s. []) live_env live_tid 60 (Inr [(7, '' amy'')]) preparing_world = (Inr rep, w')"
    using roster_runs by (auto split: prod.splits sum.splits)
  have v: "validate_roster [(7, '' amy'')] = Inr [(7, ''amy'')]" by code_simp
  from roster_sync_seats_everyone [OF preparing_follows preparing_fresh g] v g show ?thesis by auto
qed

end
