(* ===== verification/NotifyDemo.thy ===== *)
theory NotifyDemo
  imports NotifyTrack PipelineThms
begin

text \<open>The small contest of \<^verbatim>\<open>PipelineThms\<close> with its student's seat released, on which the properties of the
  notification outbox are applied.\<close>

definition open_seat :: seat where
  "open_seat = (live_seat 1 Primary Released (Some 7) ''amy'' ''c1'')\<lparr>released_at_ms := Some 50\<rparr>"

definition open_pool_demo :: pool where
  "open_pool_demo = live_pool\<lparr>seats := [open_seat, live_seat 2 Spare Verified None [] ''c2'']\<rparr>"

definition open_db :: "notification list \<Rightarrow> db" where
  "open_db ns = live_db\<lparr>seat_pools := [\<lparr>p_tid = live_tid, p_revision = 0,
     p_state_json = Some (jsort (to_dict open_pool_demo)), p_updated_at = ''now''\<rparr>], seat_notifications := ns\<rparr>"

definition demo_hash :: "string \<Rightarrow> string" where
  "demo_hash s = ''h'' @ s"

definition demo_notifier :: notify_env where
  "demo_notifier = \<lparr>ne_dt = ''later'', ne_hash = demo_hash, ne_gateway = True, ne_status = Inr (''RUNNING'', ''ip''),
     ne_url = (\<lambda>ip t. ''https://exam/'' @ t), ne_exam_url = Inr, ne_post = (\<lambda>m. None), ne_type = (\<lambda>x. ''E'')\<rparr>"

definition login_row :: "notify_state \<Rightarrow> notification" where
  "login_row s = (new_notification ''now'' live_tid 7 ''seat_ready'' 1 ''hx'')\<lparr>n_state := s\<rparr>"

lemma open_linked: "linked open_pool_demo (open_db ns)"
proof -
  have t: "pool_tid open_pool_demo = live_tid" "revision open_pool_demo = 0" by (simp_all add: live_pool_def open_pool_demo_def)
  have l: "seats open_pool_demo = [open_seat, live_seat 2 Spare Verified None [] ''c2'']"
    by (simp add: open_pool_demo_def)
  have r: "seat_pool_resource live_tid 1 (open_db ns) = Some (live_resource 1 ''gateway-token-one'' ''s1'' ''c1'')"
    "seat_pool_resource live_tid 2 (open_db ns) = Some (live_resource 2 ''gateway-token-two'' ''s2'' ''c2'')"
    by (simp_all add: seat_pool_resource_def open_db_def live_db_def live_resources_def live_resource_def resource_key_def)
  have row: "get_pool_row live_tid (open_db ns) = Some \<lparr>p_tid = live_tid, p_revision = 0,
      p_state_json = Some (jsort (to_dict open_pool_demo)), p_updated_at = ''now''\<rparr>"
    by (simp add: get_pool_row_def open_db_def)
  show ?thesis
    unfolding linked_def t l row
    by (simp add: open_seat_def live_seat_def r del: jsort.simps) (simp add: open_db_def live_db_def live_resources_def live_resource_def
      has_evidence_def tokens_of_student_def bound_from_def bound_key_def)
qed

lemma demo_hash_nonempty: "demo_hash x \<noteq> []"
  by (simp add: demo_hash_def)

lemma one_row_wf: "notes_wf (open_db [login_row s])"
  by (simp add: notes_wf_def open_db_def login_row_def)

theorem notification_rows_kept_witness:
  "let d = open_db [login_row NSent]; cs = [Round demo_notifier True live_contest, Spawned demo_notifier True live_tid]
   in login_row NSent \<in> set (seat_notifications (history (notify_step demo_hash) cs d))"
  using notification_rows_kept [where H = demo_hash and n = "login_row NSent"
      and cs = "[Round demo_notifier True live_contest, Spawned demo_notifier True live_tid]", OF one_row_wf [of NSent] demo_hash_nonempty]
  by (auto simp: open_db_def login_row_def Let_def)

theorem round_attempts_bounded_witness:
  "\<exists>d'. notify_released_seats (Some demo_notifier) True live_contest (open_db []) = (Inr (), d')
     \<and> attempts_made (open_db []) = 0 \<and> attempts_made d' \<le> 3"
proof -
  have wf: "notes_wf (open_db [])" and zero: "attempts_made (open_db []) = 0"
    by (simp_all add: notes_wf_def attempts_made_def open_db_def)
  have h: "ne_hash demo_notifier x \<noteq> []" for x by (simp add: demo_notifier_def demo_hash_def)
  have "fst (notify_released_seats (Some demo_notifier) True live_contest (open_db [])) = Inr ()" by code_simp
  then obtain d' where r: "notify_released_seats (Some demo_notifier) True live_contest (open_db []) = (Inr (), d')"
    by (metis prod.collapse)
  from round_attempts_bounded [OF wf h r] zero r show ?thesis by auto
qed

theorem retry_is_exact_witness:
  "\<exists>d'. retry_failed_seat_notifications ''later'' live_tid (open_db [login_row NPermanentFailed]) = Inr (1, d')
     \<and> retry_failed_seat_notifications ''again'' live_tid d' = Inr (0, d')"
proof -
  have "case retry_failed_seat_notifications ''later'' live_tid (open_db [login_row NPermanentFailed]) of
      Inl x \<Rightarrow> False | Inr (k, d') \<Rightarrow> k = 1"
    by code_simp
  then obtain d' where r: "retry_failed_seat_notifications ''later'' live_tid (open_db [login_row NPermanentFailed]) = Inr (1, d')"
    by (auto split: sum.splits)
  from retry_is_exact [OF r] r show ?thesis by blast
qed

definition open_row :: pool_row where
  "open_row = \<lparr>p_tid = live_tid, p_revision = 0, p_state_json = Some (jsort (to_dict open_pool_demo)), p_updated_at = ''now''\<rparr>"

lemma open_seats:
  "seats open_pool_demo = [open_seat, live_seat 2 Spare Verified None [] ''c2'']"
  "pool_tid open_pool_demo = live_tid"
  by (simp_all add: open_pool_demo_def live_pool_def)

lemma open_resource:
  "seat_pool_resource live_tid 1 (open_db ns) = Some (live_resource 1 ''gateway-token-one'' ''s1'' ''c1'')"
  by (simp add: seat_pool_resource_def open_db_def live_db_def live_resources_def live_resource_def resource_key_def)

lemma open_wf: "pool_wf open_pool_demo"
  by (simp add: pool_wf_def seats_wf_def log_wf_def open_pool_demo_def live_pool_def open_seat_def live_seat_def seat_wf_def role_count_def upto.simps)

lemma open_notified: "all_notified (open_db [login_row NSent]) open_row \<and> \<not> all_notified (open_db [login_row NRetry]) open_row"
proof -
  have row: "get_pool_row (pool_tid open_pool_demo) (open_db ns) = Some open_row" for ns
    by (simp add: get_pool_row_def open_db_def open_row_def open_seats)
  have "student_notified live_tid (open_db [login_row s]) open_seat \<longleftrightarrow> s = NSent" for s
    by (simp add: student_notified_def open_seat_def live_seat_def open_resource live_resource_def)
      (simp add: find_notification_def open_db_def login_row_def new_notification_def notify_key_def)
  moreover have "st (live_seat n r s u name c) = s" for n r s u name c by (simp add: live_seat_def)
  moreover have "st open_seat = Released" by (simp add: open_seat_def live_seat_def)
  ultimately show ?thesis by (simp add: linked_notified [OF open_linked open_wf row] open_seats)
qed

theorem notification_health_exact_witness:
  "notification_healthy True (open_db [login_row NSent]) \<and> \<not> notification_healthy True (open_db [login_row NRetry])"
proof -
  have d: "distinct (map p_tid (seat_pools (open_db ns)))" for ns by (simp add: open_db_def)
  have pools: "seat_pools (open_db ns) = [open_row]" for ns by (simp add: open_db_def open_row_def)
  have active: "active_contest (open_db ns) (p_tid open_row)" for ns
    by (simp add: active_contest_def get_contest_def open_db_def live_db_def live_contest_def open_row_def)
  have "all_notified (open_db [login_row NSent]) open_row" "\<not> all_notified (open_db [login_row NRetry]) open_row"
    using open_notified by blast+
  then have "list_all (\<lambda>p. active_contest (open_db [login_row NSent]) (p_tid p) \<longrightarrow> all_notified (open_db [login_row NSent]) p)
      (seat_pools (open_db [login_row NSent]))"
    "\<not> list_all (\<lambda>p. active_contest (open_db [login_row NRetry]) (p_tid p) \<longrightarrow> all_notified (open_db [login_row NRetry]) p)
      (seat_pools (open_db [login_row NRetry]))"
    by (simp_all add: pools active)
  then show ?thesis using notification_health_exact [OF d] by blast
qed


end
