(* ===== verification/StaticCheck.thy ===== *)
theory StaticCheck
  imports RosterSync
begin

text \<open>
  \<^verbatim>\<open>orchestrator/services/static_check.py\<close>: the comment stripper, the advisory checks of a source and the check
  of a student's answer directory. A directory is the list of its entries in the order of \<open>iterdir\<close>; a file
  is its decoded text.
\<close>

section \<open>Comments\<close>

datatype scan = InCode | InLine | InBlock | InString char

text \<open>The characters that matter: slash, star, newline, backslash and the quotes.\<close>

definition slash :: char where "slash = CHR ''/''"
definition star :: char where "star = CHR ''*''"
definition newline :: char where "newline = char_of (10 :: nat)"
definition backslash :: char where "backslash = char_of (92 :: nat)"
definition quotes :: "char list" where "quotes = [char_of (34 :: nat), char_of (39 :: nat)]"

text \<open>The next character, where there is one.\<close>

definition starts :: "char \<Rightarrow> string \<Rightarrow> bool" where
  "starts c s \<longleftrightarrow> s \<noteq> [] \<and> hd s = c"

fun strip_from :: "scan \<Rightarrow> string \<Rightarrow> string" where
  "strip_from s [] = []"
| "strip_from InCode (c # cs) =
     (if c = slash \<and> starts slash cs then strip_from InLine (tl cs)
      else if c = slash \<and> starts star cs then strip_from InBlock (tl cs)
      else if c \<in> set quotes then c # strip_from (InString c) cs
      else c # strip_from InCode cs)"
| "strip_from InLine (c # cs) = (if c = newline then c # strip_from InCode cs else strip_from InLine cs)"
| "strip_from InBlock (c # cs) =
     (if c = star \<and> starts slash cs then strip_from InCode (tl cs)
      else if c = newline then c # strip_from InBlock cs else strip_from InBlock cs)"
| "strip_from (InString q) (c # cs) =
     (if c = backslash \<and> cs \<noteq> [] then c # hd cs # strip_from (InString q) (tl cs)
      else if c = q then c # strip_from InCode cs
      else c # strip_from (InString q) cs)"

definition strip_cpp_comments :: "string \<Rightarrow> string" where
  "strip_cpp_comments code = strip_from InCode code"

section \<open>The patterns\<close>

text \<open>A matcher consumes a prefix or fails; every repetition of these patterns is followed by a character it
  does not contain, so that taking it greedily finds every match.\<close>

type_synonym matcher = "string \<Rightarrow> string option"

definition lit_nocase :: "string \<Rightarrow> matcher" where
  "lit_nocase w s = (if map lower_char (take (length w) s) = w then Some (drop (length w) s) else None)"

definition lit :: "string \<Rightarrow> matcher" where
  "lit w s = (if take (length w) s = w then Some (drop (length w) s) else None)"

definition spaces :: matcher where
  "spaces s = Some (dropWhile py_space s)"

definition one_of :: "char list \<Rightarrow> matcher" where
  "one_of cs s = (case s of [] \<Rightarrow> None | c # r \<Rightarrow> if c \<in> set cs then Some r else None)"

definition seq :: "matcher list \<Rightarrow> matcher" where
  "seq ms s = foldl (\<lambda>r m. case r of None \<Rightarrow> None | Some x \<Rightarrow> m x) (Some s) ms"

definition include_of :: "string \<Rightarrow> matcher" where
  "include_of header = seq [lit ''#'', spaces, lit_nocase ''include'', spaces, one_of [CHR ''<'', char_of (34 :: nat)], lit_nocase header]"

definition system_pause :: matcher where
  "system_pause = seq [lit_nocase ''system'', spaces, lit ''('', spaces, one_of quotes, lit_nocase ''pause'', one_of quotes]"

definition getch_call :: matcher where
  "getch_call = seq [lit_nocase ''getch'', spaces, lit ''('']"

fun search :: "matcher \<Rightarrow> string \<Rightarrow> bool" where
  "search m [] = (m [] \<noteq> None)"
| "search m (c # cs) = (m (c # cs) \<noteq> None \<or> search m cs)"

text \<open>Letters and digits of the code points below 256.\<close>

definition word_char :: "char \<Rightarrow> bool" where
  "word_char c \<longleftrightarrow> (let n = of_char c :: nat in alnum c \<or> c = CHR ''_'' \<or> n \<in> {170, 178, 179, 181, 185, 186, 188, 189, 190}
     \<or> 192 \<le> n \<and> n \<notin> {215, 247})"

text \<open>\<open>\\b\<close> before a letter: the character before it is not part of a word.\<close>

fun search_word :: "matcher \<Rightarrow> bool \<Rightarrow> string \<Rightarrow> bool" where
  "search_word m inside [] = False"
| "search_word m inside (c # cs) = (\<not> inside \<and> m (c # cs) \<noteq> None \<or> search_word m (word_char c) cs)"

datatype issue = WindowsHeader | ConioHeader | SystemPause | Getch | InputName "string list" | OutputName "string list"

definition banned :: "string \<Rightarrow> issue list" where
  "banned source = (if search (include_of ''windows.h'') source then [WindowsHeader] else [])
     @ (if search (include_of ''conio.h'') source then [ConioHeader] else [])
     @ (if search system_pause source then [SystemPause] else [])
     @ (if search_word getch_call False source then [Getch] else [])"

text \<open>A quoted text without quotes in it: the text and what follows its closing quote.\<close>

definition quoted :: "string \<Rightarrow> (string \<times> string) option" where
  "quoted s = (let q = char_of (34 :: nat) in
     if take 1 s \<noteq> [q] then None else
     (let body = takeWhile (\<lambda>c. c \<noteq> q) (drop 1 s); rest = dropWhile (\<lambda>c. c \<noteq> q) (drop 1 s)
      in if rest = [] then None else Some (body, drop 1 rest)))"

text \<open>One call of \<open>freopen\<close> with literal arguments, the mode starting with \<open>r\<close> or \<open>w\<close>.\<close>

definition freopen_call :: "string \<Rightarrow> ((string \<times> string) \<times> string) option" where
  "freopen_call s = (case seq [lit ''freopen'', spaces, lit ''('', spaces] s of
     None \<Rightarrow> None
   | Some a \<Rightarrow> (case quoted a of
       None \<Rightarrow> None
     | Some (file, b) \<Rightarrow> if file = [] then None else
         (case seq [spaces, lit '','', spaces] b of
            None \<Rightarrow> None
          | Some c \<Rightarrow> (case quoted c of
              None \<Rightarrow> None
            | Some (mode, d) \<Rightarrow> if mode \<noteq> [] \<and> hd mode \<in> {CHR ''r'', CHR ''w''} then Some ((file, mode), d) else None))))"

text \<open>\<open>re.findall\<close>: the matches from left to right, none inside another. The optional \<open>std::\<close> before a match
  changes neither the groups nor where the next search starts. The first argument bounds the matches.\<close>

fun find_calls :: "nat \<Rightarrow> string \<Rightarrow> (string \<times> string) list" where
  "find_calls 0 s = []"
| "find_calls (Suc k) [] = []"
| "find_calls (Suc k) (c # cs) = (case freopen_call (c # cs) of
     None \<Rightarrow> find_calls k cs
   | Some (call, rest) \<Rightarrow> call # find_calls k rest)"

definition freopen_calls :: "string \<Rightarrow> (string \<times> string) list" where
  "freopen_calls s = find_calls (Suc (length s)) s"

definition check_code :: "string \<Rightarrow> string \<Rightarrow> issue list" where
  "check_code code name = (let source = strip_cpp_comments code; calls = freopen_calls source;
     inputs = map fst (filter (\<lambda>(f, m). take 1 m = ''r'') calls);
     outputs = map fst (filter (\<lambda>(f, m). take 1 m = ''w'') calls)
     in banned source
       @ (if inputs \<noteq> [] \<and> name @ ''.in'' \<notin> set inputs then [InputName inputs] else [])
       @ (if outputs \<noteq> [] \<and> name @ ''.out'' \<notin> set outputs then [OutputName outputs] else []))"

section \<open>The answer directory\<close>

datatype node = File string | Dir "(string \<times> node) list" | Special

datatype answer_issue = Advice issue | WrongPath string string | NotReceived string

datatype answer_status = Okay | InvalidFilename | Missing

record answer =
  an_status :: answer_status
  an_file :: string
  an_issues :: "answer_issue list"

fun entry :: "string \<Rightarrow> node \<Rightarrow> node option" where
  "entry n (Dir es) = map_of es n"
| "entry n _ = None"

fun lookup_path :: "string list \<Rightarrow> node \<Rightarrow> node option" where
  "lookup_path [] t = Some t"
| "lookup_path (n # ns) t = (case entry n t of None \<Rightarrow> None | Some x \<Rightarrow> lookup_path ns x)"

definition path_text :: "string list \<Rightarrow> string" where
  "path_text ns = join ''/'' ns"

definition entry_nocase :: "string \<Rightarrow> node \<Rightarrow> (string \<times> node) option" where
  "entry_nocase n t = (case t of Dir es \<Rightarrow> find (\<lambda>(k, x). casefold k = casefold n) es | _ \<Rightarrow> None)"

text \<open>The path that was meant: the same names in another case.\<close>

definition misspelt :: "node \<Rightarrow> string \<Rightarrow> string \<Rightarrow> string option" where
  "misspelt tree candidate name = (case entry candidate tree of
     None \<Rightarrow> None
   | Some c \<Rightarrow> (case entry_nocase name c of
       None \<Rightarrow> None
     | Some (p, d) \<Rightarrow> (case entry_nocase (name @ ''.cpp'') d of
         None \<Rightarrow> None | Some (f, x) \<Rightarrow> Some (path_text [candidate, p, f]))))"

definition check_answer :: "node \<Rightarrow> string \<Rightarrow> string \<Rightarrow> answer" where
  "check_answer tree candidate name = (let expected = path_text [candidate, name, name @ ''.cpp''] in
     case lookup_path [candidate, name, name @ ''.cpp''] tree of
       Some (File code) \<Rightarrow> \<lparr>an_status = Okay, an_file = expected, an_issues = map Advice (check_code code name)\<rparr>
     | _ \<Rightarrow> (case misspelt tree candidate name of
         Some actual \<Rightarrow> \<lparr>an_status = InvalidFilename, an_file = actual, an_issues = [WrongPath expected actual]\<rparr>
       | None \<Rightarrow> \<lparr>an_status = Missing, an_file = [], an_issues = [NotReceived expected]\<rparr>))"

text \<open>\<open>report[name] = ..\<close>: a dict, where a name that is asked for twice keeps its first place.\<close>

definition remdups_first :: "'a list \<Rightarrow> 'a list" where
  "remdups_first xs = rev (remdups (rev xs))"

definition check_submission :: "node option \<Rightarrow> string list \<Rightarrow> (string \<times> answer) list res" where
  "check_submission directory files = bindE (case directory of
       None \<Rightarrow> Inr []
     | Some (Dir es) \<Rightarrow> Inr (filter (\<lambda>(n, x). case x of File code \<Rightarrow> True | _ \<Rightarrow> False) es)
     | Some _ \<Rightarrow> Inl (OtherError ''NotADirectoryError'' []))
     (\<lambda>present. Inr (map (\<lambda>name. (name, (let expected = name @ ''.cpp'' in
        case map_of present expected of
          Some (File code) \<Rightarrow> \<lparr>an_status = Okay, an_file = expected, an_issues = map Advice (check_code code name)\<rparr>
        | _ \<Rightarrow> (case find (\<lambda>(k, x). casefold k = casefold expected) (rev present) of
            Some (actual, x) \<Rightarrow> \<lparr>an_status = InvalidFilename, an_file = actual, an_issues = [WrongPath expected actual]\<rparr>
          | None \<Rightarrow> \<lparr>an_status = Missing, an_file = [], an_issues = [NotReceived expected]\<rparr>)))) (remdups_first files)))"

definition check_answer_tree :: "node \<Rightarrow> string \<Rightarrow> string list \<Rightarrow> (string \<times> answer) list" where
  "check_answer_tree tree candidate files = map (\<lambda>n. (n, check_answer tree candidate n)) (remdups_first files)"

section \<open>The stripper\<close>

lemma newline_facts [simp]: "newline \<noteq> slash" "newline \<noteq> star" "slash \<noteq> newline" "star \<noteq> newline"
  "newline \<notin> set quotes" "backslash \<noteq> newline" "newline \<noteq> backslash" "slash \<noteq> star" "star \<noteq> slash"
  "slash \<notin> set quotes" "star \<notin> set quotes"
  by code_simp+

lemma starts_simps [simp]: "\<not> starts c []" "starts c (d # s) \<longleftrightarrow> d = c"
  by (simp_all add: starts_def)

lemma starts_split: "starts c s \<Longrightarrow> s = c # tl s"
  by (cases s) simp_all

abbreviation lines_of :: "string \<Rightarrow> string" where
  "lines_of \<equiv> filter (\<lambda>c. c = newline)"

lemma skip_lines: "\<lbrakk>starts c s; c \<noteq> newline\<rbrakk> \<Longrightarrow> lines_of s = lines_of (tl s)"
  by (cases s) simp_all

lemma strip_lines: "lines_of (strip_from s cs) = lines_of cs"
proof (induction s cs rule: strip_from.induct)
  case (2 c cs)
  then show ?case using skip_lines [of slash cs] skip_lines [of star cs] by (simp split: if_splits)
next
  case (4 c cs)
  then show ?case using skip_lines [of slash cs] by (simp split: if_splits)
next
  case (5 q c cs)
  show ?case
  proof (cases "c = backslash \<and> cs \<noteq> []")
    case True
    then show ?thesis using 5(1) [OF True] by (cases cs) simp_all
  next
    case False
    then show ?thesis using 5(2,3) by (cases "c = q") (simp_all del: not_not, auto)
  qed
qed simp_all

lemma strip_opens: "\<lbrakk>\<not> starts slash cs; \<not> starts star cs\<rbrakk>
    \<Longrightarrow> \<not> starts slash (strip_from InCode cs) \<and> \<not> starts star (strip_from InCode cs)"
  by (cases cs) (simp_all split: if_splits)

lemma strip_again: "case s of
    InString q \<Rightarrow> strip_from (InString q) (strip_from (InString q) cs) = strip_from (InString q) cs
  | _ \<Rightarrow> strip_from InCode (strip_from s cs) = strip_from s cs"
proof (induction s cs rule: strip_from.induct)
  case (1 s)
  then show ?case by (cases s) simp_all
next
  case (2 c cs)
  then show ?case using strip_opens [of cs] by (auto split: if_splits)
next
  case (5 q c cs)
  show ?case
  proof (cases "c = backslash \<and> cs \<noteq> []")
    case True
    then show ?thesis using 5(1) [OF True] by (cases cs) simp_all
  next
    case False
    then show ?thesis using 5(2,3) by (cases "c = q") (simp_all del: not_not, auto)
  qed
qed (simp_all split: if_splits)

lemma strip_idem: "strip_cpp_comments (strip_cpp_comments code) = strip_cpp_comments code"
  using strip_again [of InCode code] by (simp add: strip_cpp_comments_def)

section \<open>The report of an answer directory\<close>

definition answer_path :: "string \<Rightarrow> string \<Rightarrow> string list" where
  "answer_path candidate name = [candidate, name, name @ ''.cpp'']"

definition is_file :: "node option \<Rightarrow> bool" where
  "is_file x = (case x of Some (File code) \<Rightarrow> True | _ \<Rightarrow> False)"

text \<open>What an answer of the report may hold.\<close>

definition answer_typed :: "node \<Rightarrow> string \<Rightarrow> string \<Rightarrow> answer \<Rightarrow> bool" where
  "answer_typed tree candidate name a = (case an_status a of
     Okay \<Rightarrow> an_file a = path_text (answer_path candidate name)
       \<and> (case lookup_path (answer_path candidate name) tree of
            Some (File code) \<Rightarrow> an_issues a = map Advice (check_code code name) | _ \<Rightarrow> False)
   | InvalidFilename \<Rightarrow> \<not> is_file (lookup_path (answer_path candidate name) tree)
       \<and> (\<exists>p f x. an_file a = path_text [candidate, p, f] \<and> lookup_path [candidate, p, f] tree = Some x
         \<and> casefold p = casefold name \<and> casefold f = casefold (name @ ''.cpp'')
       \<and> an_issues a = [WrongPath (path_text (answer_path candidate name)) (an_file a)])
   | Missing \<Rightarrow> an_file a = [] \<and> misspelt tree candidate name = None \<and> \<not> is_file (lookup_path (answer_path candidate name) tree)
       \<and> an_issues a = [NotReceived (path_text (answer_path candidate name))])"

lemma entry_nocase_entry:
  assumes "entry_nocase n d = Some (k, x)"
  shows "entry k d = Some x" "casefold k = casefold n"
proof -
  obtain es where d: "d = Dir es" using assms by (cases d) (simp_all add: entry_nocase_def)
  have f: "find (\<lambda>(k, x). casefold k = casefold n) es = Some (k, x)" using assms by (simp add: d entry_nocase_def)
  then have "casefold k = casefold n \<and> map_of es k = Some x"
    by (induction es) (auto split: if_splits)
  then show "entry k d = Some x" "casefold k = casefold n" by (simp_all add: d)
qed

lemma misspelt_found:
  assumes "misspelt tree candidate name = Some path"
  shows "\<exists>p f x. path = path_text [candidate, p, f] \<and> lookup_path [candidate, p, f] tree = Some x
    \<and> casefold p = casefold name \<and> casefold f = casefold (name @ ''.cpp'')"
proof -
  obtain c p d f x where "entry candidate tree = Some c" "entry_nocase name c = Some (p, d)"
    "entry_nocase (name @ ''.cpp'') d = Some (f, x)" "path = path_text [candidate, p, f]"
    using assms by (auto simp: misspelt_def split: option.splits)
  with entry_nocase_entry show ?thesis by (intro exI [of _ p] exI [of _ f] exI [of _ x]) simp
qed

lemma check_answer_typed: "answer_typed tree candidate name (check_answer tree candidate name)"
proof (cases "is_file (lookup_path (answer_path candidate name) tree)")
  case True
  then show ?thesis
    by (auto simp: is_file_def check_answer_def answer_typed_def answer_path_def Let_def split: option.splits node.splits)
next
  case False
  then have c: "check_answer tree candidate name = (case misspelt tree candidate name of
        Some actual \<Rightarrow> \<lparr>an_status = InvalidFilename, an_file = actual, an_issues = [WrongPath (path_text (answer_path candidate name)) actual]\<rparr>
      | None \<Rightarrow> \<lparr>an_status = Missing, an_file = [], an_issues = [NotReceived (path_text (answer_path candidate name))]\<rparr>)"
    by (auto simp: is_file_def check_answer_def answer_path_def Let_def split: option.splits node.splits)
  show ?thesis
  proof (cases "misspelt tree candidate name")
    case None
    with False show ?thesis by (simp add: c answer_typed_def)
  next
    case (Some path)
    from misspelt_found [OF this] False show ?thesis by (simp add: c answer_typed_def Some)
  qed
qed

lemma set_remdups_first [simp]: "set (remdups_first xs) = set xs" "distinct (remdups_first xs)"
  by (simp_all add: remdups_first_def)


lemma comments_ignored: "check_code (strip_cpp_comments code) name = check_code code name"
  by (simp add: check_code_def strip_idem)

end
