(* ===== verification/Collection.thy ===== *)
theory Collection
  imports StaticCheck RealtimeJudge
begin

text \<open>
  \<^verbatim>\<open>orchestrator/services/pipeline.py\<close>: the collection of a contest (\<open>Pipeline.collect\<close>). The desktop access is
  revoked, the ss are frozen, web submissions are delivered, the answer directories are downloaded and
  graded, the selected sources are sent to the judge, and the evidence is written before the contest enters
  its safe wait. What the cloud, the server, the file system and the judge answer is the record
  \<open>collect_env\<close>. One method runs on a \<open>hall\<close>: the world and what the method does outside the database.
\<close>

section \<open>Documents\<close>

datatype chosen = WebSubmit | DeadlineSnapshot

datatype web_entry = WebMissing | WebCode "issue list" string int string

text \<open>One problem of a student's report; \<open>it_digest\<close> is the SHA-256 and the size of the source.\<close>

record item =
  it_status :: answer_status
  it_file :: string
  it_issues :: "answer_issue list"
  it_digest :: "(string \<times> int) option"
  it_chosen :: chosen

text \<open>What is known of one student: the dicts of \<open>folder_report\<close>, \<open>web_report\<close>, \<open>report\<close> (with \<open>selection\<close>),
  \<open>selected_sources\<close> and \<open>selected_web_rows\<close> under one user name.\<close>

record graded =
  gr_folder :: "(string \<times> answer) list"
  gr_web :: "(string \<times> web_entry) list"
  gr_report :: "(string \<times> item) list"
  gr_sources :: "(string \<times> string) list"
  gr_rows :: "(string \<times> submission option) list"

datatype log_entry =
    NoPid
  | Reused string bool json
  | ReuseFailed string
  | Skipped "answer_issue list"
  | Sent submit_result "answer_issue list"

record collect_receipt =
  cr_tid :: string
  cr_run_id :: string
  cr_completed_at_ms :: int
  cr_cutoff_at_ms :: int
  cr_shutdown_after_ms :: int
  cr_seat_count :: nat
  cr_problem_count :: nat
  cr_submit_failures :: nat
  cr_files :: "(string \<times> string) list"

datatype doc =
    FolderDoc "(string \<times> (string \<times> answer) list) list"
  | WebDoc "(string \<times> (string \<times> web_entry) list) list"
  | SelectionDoc "(string \<times> (string \<times> chosen) list) list"
  | ReportDoc "(string \<times> (string \<times> item) list) list"
  | SubmitDoc "(string \<times> (string \<times> log_entry) list) list option"
  | ManifestDoc "(string \<times> string \<times> int) list"
  | ReceiptDoc collect_receipt

fun doc_name :: "doc \<Rightarrow> string" where
  "doc_name (FolderDoc x) = ''folder_report.json''"
| "doc_name (WebDoc x) = ''web_report.json''"
| "doc_name (SelectionDoc x) = ''selection.json''"
| "doc_name (ReportDoc x) = ''report.json''"
| "doc_name (SubmitDoc x) = ''submit_log.json''"
| "doc_name (ManifestDoc x) = ''archive_manifest.json''"
| "doc_name (ReceiptDoc x) = ''collection_receipt.json''"

section \<open>The environment and the state\<close>

text \<open>One round of the loop that waits for the server's state: the state the cloud reports, the answers of the
  maintenance check and of the stop request if they are made.\<close>

record poll =
  po_status :: "string res"
  po_check :: "unit res"
  po_stop :: "unit res"

text \<open>
  The fields follow the order of the calls. A method that calls the same thing several times numbers the calls
  (\<open>ce_revoke\<close>, \<open>ce_stop\<close>): 0 at the start, 1 in the exception handler, 2 in the \<open>finally\<close>. A list of polls
  holds the rounds before the loop's deadline. \<open>ce_ensure\<close> is the realtime judge, if there is one, for the
  pass (0 before the grading, 1 while sending, 2 in the handler) and the row. \<open>ce_tree\<close> is the tree extracted
  from the archive, \<open>ce_write\<close> the digest of a document that is written, \<open>ce_loads\<close> is \<open>json.loads\<close>.
\<close>

record collect_env =
  ce_dt :: string
  ce_ms :: int
  ce_revoke :: "nat \<Rightarrow> unit res"
  ce_stop :: "nat \<Rightarrow> poll list"
  ce_status :: "(string \<times> string) res"
  ce_maintained :: "bool res"
  ce_wait :: "(string res) list"
  ce_start :: "unit res"
  ce_running :: "string res"
  ce_ssh :: "bool res"
  ce_pause :: "string list \<Rightarrow> unit res"
  ce_unwatch :: "unit res"
  ce_frozen_at :: int
  ce_submit_enabled :: bool
  ce_ensure :: "(nat \<Rightarrow> int \<Rightarrow> db \<Rightarrow> submission res \<times> db) option"
  ce_pack :: "unit res"
  ce_run_id :: string
  ce_mkdir :: "unit res"
  ce_tree :: "node res"
  ce_rm :: "unit res"
  ce_web_dir :: "int \<Rightarrow> unit res"
  ce_web_file :: "int \<Rightarrow> string \<Rightarrow> unit res"
  ce_write :: "doc \<Rightarrow> string res"
  ce_loads :: "string \<Rightarrow> json res"
  ce_lang :: string
  ce_post :: "http_request \<Rightarrow> http_response"
  ce_manifest :: "(string \<times> string \<times> int) list res"
  ce_completed :: int
  ce_grace :: int
  ce_directory :: string
  ce_frontend :: "unit res"

text \<open>\<open>h_frozen\<close> is the local \<open>desktops_frozen\<close>, \<open>h_final\<close> the seats and files of the closure
  \<open>finalize_realtime_web\<close> once it is defined, \<open>h_delivered\<close> its \<open>prefinalized_web\<close>.\<close>

record hall =
  h_world :: world
  h_closed :: bool
  h_stopped :: bool
  h_frozen :: bool
  h_final :: "(bound_seat list \<times> string list) option"
  h_delivered :: "((int \<times> string) \<times> submission) list"
  h_docs :: "doc list"

definition on_world :: "(world, 'a) eff \<Rightarrow> (hall, 'a) eff" where
  "on_world m h = (case m (h_world h) of (r, w) \<Rightarrow> (r, h\<lparr>h_world := w\<rparr>))"

definition set_message :: "collect_env \<Rightarrow> string \<Rightarrow> contest_state \<Rightarrow> string \<Rightarrow> (hall, unit) eff" where
  "set_message E tid s message = on_world (writing (set_state (ce_dt E) (ce_ms E) tid s message))"

section \<open>The server\<close>

text \<open>\<open>str.upper()\<close> as far as it matters for the words it is compared with.\<close>

definition upper_char :: "char \<Rightarrow> char" where
  "upper_char c = (if between (CHR ''a'') (CHR ''z'') c then char_of (of_char c - 32 :: nat) else c)"

text \<open>\<open>_stop_server_best_effort\<close>: it returns only when the cloud has reported a stopped server.\<close>

fun stop_polls :: "bool \<Rightarrow> string \<Rightarrow> poll list \<Rightarrow> unit res" where
  "stop_polls asked seen [] = Inl (OtherError ''TimeoutError'' seen)"
| "stop_polls asked seen (p # ps) = bindE (po_status p) (\<lambda>state. let s = map upper_char state in
     if s = ''RUNNING'' then
       (if asked then stop_polls True s ps
        else bindE (po_check p) (\<lambda>_. bindE (po_stop p) (\<lambda>_. stop_polls True s ps)))
     else if s = ''STOPPED'' then Inr ()
     else if s \<notin> {''STARTING'', ''PENDING'', ''STOPPING''} then Inl (RuntimeError ''server state does not allow a stop'')
     else stop_polls asked s ps)"

definition stop_server_best_effort :: "collect_env \<Rightarrow> nat \<Rightarrow> (hall, unit) eff" where
  "stop_server_best_effort E k = andThen (lift (stop_polls False ''UNKNOWN'' (ce_stop E k)))
     (\<lambda>_. modify (\<lambda>h. h\<lparr>h_stopped := True\<rparr>))"

definition revoke_desktop_access :: "collect_env \<Rightarrow> nat \<Rightarrow> (hall, unit) eff" where
  "revoke_desktop_access E k = andThen (lift (ce_revoke E k)) (\<lambda>_. modify (\<lambda>h. h\<lparr>h_closed := True\<rparr>))"

text \<open>\<open>_ensure_server\<close>: the loop that waits for a server that is stopping, and the whole method.\<close>

fun wait_stopped :: "string res list \<Rightarrow> unit res" where
  "wait_stopped [] = Inl (OtherError ''TimeoutError'' ''stopping'')"
| "wait_stopped (p # ps) = bindE p (\<lambda>state. if map upper_char state = ''STOPPED'' then Inr () else wait_stopped ps)"

definition ensure_server :: "collect_env \<Rightarrow> string res" where
  "ensure_server E = bindE (ce_status E) (\<lambda>(state, ip). let s = map upper_char state in
     if s = ''RUNNING'' \<and> ip \<noteq> [] then Inr ip else
     bindE (ce_maintained E) (\<lambda>kept.
     if kept then Inl (RuntimeError ''the server is started by the administrator'') else
     bindE (if s = ''STOPPING'' then bindE (wait_stopped (ce_wait E)) (\<lambda>_. Inr ''STOPPED'') else Inr s) (\<lambda>now.
     bindE (if now = ''STOPPED'' then ce_start E
        else if now \<notin> {''STARTING'', ''PENDING''} then Inl (RuntimeError ''server state does not allow a start'')
        else Inr ()) (\<lambda>_. ce_running E))))"

section \<open>The final delivery of web submissions\<close>

text \<open>\<open>finalize_realtime_web\<close>. A row that cannot be delivered is logged and left for the report.\<close>

definition finalize_row :: "collect_env \<Rightarrow> nat \<Rightarrow> int \<Rightarrow> (string \<times> submission) list \<Rightarrow> string \<Rightarrow> (hall, unit) eff" where
  "finalize_row E pass u latest name = (case (ce_ensure E, map_of latest name) of
     (Some ensure, Some row) \<Rightarrow> andThen (asks h_delivered) (\<lambda>have.
       if w_submission_id row = [] \<or> map_of have (u, name) \<noteq> None then ret () else
       andThen (on_world (\<lambda>w. case ensure pass (w_id row) (base w) of (r, d) \<Rightarrow> (Inr r, w\<lparr>base := d\<rparr>))) (\<lambda>r. case r of
         Inl x \<Rightarrow> ret ()
       | Inr row' \<Rightarrow> modify (\<lambda>h. h\<lparr>h_delivered := ((u, name), row') # h_delivered h\<rparr>)))
   | _ \<Rightarrow> ret ())"

definition finalize_seat :: "collect_env \<Rightarrow> nat \<Rightarrow> string \<Rightarrow> string list \<Rightarrow> bound_seat \<Rightarrow> unit \<Rightarrow> (hall, unit) eff" where
  "finalize_seat E pass tid files seat _ =
     andThen (on_world (reading (latest_web_submissions tid (b_uid seat)))) (\<lambda>latest.
     forEach files (\<lambda>name _. finalize_row E pass (b_uid seat) latest name) ())"

definition finalize_realtime_web ::
  "collect_env \<Rightarrow> nat \<Rightarrow> string \<Rightarrow> bound_seat list \<Rightarrow> string list \<Rightarrow> (hall, unit) eff" where
  "finalize_realtime_web E pass tid ss files =
     (if \<not> ce_submit_enabled E \<or> ce_ensure E = None then ret () else
      andThen (set_message E tid Collecting ''confirming the web submissions'') (\<lambda>_.
      forEach ss (finalize_seat E pass tid files) ()))"

section \<open>Freezing\<close>

definition freeze_command :: "string \<Rightarrow> contest \<Rightarrow> string" where
  "freeze_command tid c = ''freeze:'' @ tid @ '':'' @ int_str (c_end_at_ms c)"

definition save_pool :: "string \<Rightarrow> string \<Rightarrow> int \<Rightarrow> transition \<Rightarrow> (world, unit) eff" where
  "save_pool dt tid previous t = (if replayed t then ret () else
     store (\<lambda>d. bindE (put_seat_pool dt tid (Some previous) (to_dict (tr_state t)) d) (\<lambda>(n, d'). Inr ((), d'))))"

text \<open>A step of the stored seat pool, when there is one.\<close>

definition step_stored_pool :: "string \<Rightarrow> string \<Rightarrow> (pool \<Rightarrow> transition res) \<Rightarrow> (world, unit) eff" where
  "step_stored_pool dt tid f = andThen (asks (\<lambda>w. seat_pool tid (base w))) (\<lambda>stored.
     andThen (lift stored) (\<lambda>s. case s of
       None \<Rightarrow> ret ()
     | Some (n, state, updated) \<Rightarrow> andThen (lift (read_pool state)) (\<lambda>p.
         andThen (lift (f p)) (save_pool dt tid (revision p)))))"

definition freeze_for_collection :: "collect_env \<Rightarrow> string list \<Rightarrow> (hall, unit) eff" where
  "freeze_for_collection E names = andThen (lift (ce_pause E names)) (\<lambda>_. lift (ce_unwatch E))"

definition freeze_seats :: "(string \<Rightarrow> string) \<Rightarrow> collect_env \<Rightarrow> string \<Rightarrow> contest \<Rightarrow> string list \<Rightarrow> (hall, unit) eff" where
  "freeze_seats H E tid c names =
     andThen (set_message E tid Collecting ''freezing the desktops'') (\<lambda>_.
     andThen (freeze_for_collection E names) (\<lambda>_.
     andThen (modify (\<lambda>h. h\<lparr>h_frozen := True\<rparr>)) (\<lambda>_.
     on_world (step_stored_pool (ce_dt E) tid
       (\<lambda>p. freeze H (ce_frozen_at E) (freeze_command tid c) (revision p) p)))))"

section \<open>The download\<close>

text \<open>\<open>finally: remote.run(rm)\<close>: its exception replaces that of the download.\<close>

definition download :: "collect_env \<Rightarrow> string \<Rightarrow> (hall, node) eff" where
  "download E tid = andThen (set_message E tid Collecting ''packing and downloading'') (\<lambda>_.
     andThen (lift (ce_pack E)) (\<lambda>_.
     andThen (lift (ce_mkdir E)) (\<lambda>_.
     lift (case ce_rm E of Inl x \<Rightarrow> Inl x | Inr u \<Rightarrow> ce_tree E))))"

section \<open>Grading\<close>

text \<open>The path \<open>text\<close> below a directory, as \<open>directory / text\<close> finds it.\<close>

fun split_path :: "string \<Rightarrow> string \<Rightarrow> string list" where
  "split_path part [] = [part]"
| "split_path part (c # cs) = (if c = slash then part # split_path [] cs else split_path (part @ [c]) cs)"

definition read_text :: "string \<Rightarrow> node \<Rightarrow> string res" where
  "read_text path tree = (case lookup_path (split_path [] path) tree of
     None \<Rightarrow> Inl (OtherError ''FileNotFoundError'' path)
   | Some (File code) \<Rightarrow> Inr code
   | Some _ \<Rightarrow> Inl (OtherError ''IsADirectoryError'' path))"

definition source_digest :: "(string \<Rightarrow> string) \<Rightarrow> string \<Rightarrow> string \<times> int" where
  "source_digest H source = (H (utf8 source), int (length (utf8 source)))"

definition web_entry_of :: "submission option \<Rightarrow> string \<Rightarrow> web_entry" where
  "web_entry_of row name = (case row of
     None \<Rightarrow> WebMissing
   | Some r \<Rightarrow> WebCode (check_code (w_source r) name) (w_sha256 r) (w_size r) (w_created_at r))"

text \<open>The folder's answer, overridden by the web submission when there is one.\<close>

definition grade_problem ::
  "(string \<Rightarrow> string) \<Rightarrow> node \<Rightarrow> (string \<times> answer) list \<Rightarrow> submission option \<Rightarrow> string \<Rightarrow> (item \<times> string) res" where
  "grade_problem H answers folder row name =
     bindE (of_option (KeyError name) (map_of folder name)) (\<lambda>a.
     bindE (if an_file a = [] then Inr ([], None)
        else bindE (read_text (an_file a) answers) (\<lambda>code. Inr (code, Some (source_digest H code)))) (\<lambda>(code, digest).
     Inr (case row of
       None \<Rightarrow> (\<lparr>it_status = an_status a, it_file = an_file a, it_issues = an_issues a, it_digest = digest,
          it_chosen = DeadlineSnapshot\<rparr>, code)
     | Some r \<Rightarrow> (\<lparr>it_status = Okay, it_file = name @ ''.cpp'', it_issues = map Advice (check_code (w_source r) name),
          it_digest = Some (w_sha256 r, w_size r), it_chosen = WebSubmit\<rparr>, w_source r))))"

definition add_problem ::
  "(string \<Rightarrow> string) \<Rightarrow> node \<Rightarrow> (string \<times> submission) list \<Rightarrow> string \<Rightarrow> graded \<Rightarrow> (hall, graded) eff" where
  "add_problem H answers latest name g =
     andThen (lift (grade_problem H answers (gr_folder g) (map_of latest name) name)) (\<lambda>(item, code).
     ret (g\<lparr>gr_report := dict_set name item (gr_report g), gr_sources := dict_set name code (gr_sources g),
       gr_rows := dict_set name (map_of latest name) (gr_rows g)\<rparr>))"

definition add_web_entry ::
  "collect_env \<Rightarrow> int \<Rightarrow> (string \<times> submission) list \<Rightarrow> string \<Rightarrow> (string \<times> web_entry) list \<Rightarrow> (hall, (string \<times> web_entry) list) eff" where
  "add_web_entry E u latest name entries =
     andThen (if map_of latest name \<noteq> None then lift (ce_web_file E u name) else ret ()) (\<lambda>_.
     ret (dict_set name (web_entry_of (map_of latest name) name) entries))"

text \<open>Where the archive keeps the answers of a seat.\<close>

definition answer_root ::
  "string \<Rightarrow> bool \<Rightarrow> bound_seat \<Rightarrow> (json \<times> resource option) option \<Rightarrow> string list res" where
  "answer_root tid pooled seat assigned = (case assigned of
     Some (s, r) \<Rightarrow> bindE (of_option (KeyError ''slot_no'') (jfield ''slot_no'' s)) (\<lambda>v.
       bindE (py_int v) (\<lambda>n. Inr [''slots'', fmt03 n, ''answers'']))
   | None \<Rightarrow> if pooled then Inl (RuntimeError ''the seat of the student is not in the pool'')
       else Inr [int_str (b_uid seat), ''answers''])"

definition grade_seat ::
  "(string \<Rightarrow> string) \<Rightarrow> collect_env \<Rightarrow> string \<Rightarrow> string list \<Rightarrow> bool \<Rightarrow> node \<Rightarrow> bound_seat
     \<Rightarrow> (string \<times> graded) list \<Rightarrow> (hall, (string \<times> graded) list) eff" where
  "grade_seat H E tid files pooled tree seat report =
     andThen (on_world (reading (seat_pool_assignment tid (b_uid seat)))) (\<lambda>assigned.
     andThen (lift (bindE assigned (answer_root tid pooled seat))) (\<lambda>path.
     let answers = (case lookup_path path tree of Some x \<Rightarrow> x | None \<Rightarrow> Dir []) in
     andThen (on_world (reading (latest_web_submissions tid (b_uid seat)))) (\<lambda>latest.
     andThen (lift (ce_web_dir E (b_uid seat))) (\<lambda>_.
     andThen (forEach files (add_web_entry E (b_uid seat) latest) []) (\<lambda>web.
     andThen (forEach files (add_problem H answers latest)
       \<lparr>gr_folder = check_answer_tree answers (b_candidate seat) files, gr_web = web, gr_report = [], gr_sources = [],
         gr_rows = []\<rparr>) (\<lambda>g.
     ret (dict_set (b_uname seat) g report)))))))"

section \<open>Sending the answers\<close>

definition record_id :: "string \<Rightarrow> bool" where
  "record_id rid \<longleftrightarrow> re_exact hex_digit 24 rid"

text \<open>A web submission the realtime judge has delivered.\<close>

definition reused_entry :: "collect_env \<Rightarrow> submission \<Rightarrow> log_entry res" where
  "reused_entry E d = (if \<not> record_id (w_rid d) then Inl (RuntimeError ''OJ returned no valid record id'') else
     bindE (ce_loads E (if w_judge_issues d = [] then ''[]'' else w_judge_issues d)) (\<lambda>issues.
     Inr (Reused (w_rid d) (w_judge_source d = w_source d) issues)))"

definition reuse_delivery ::
  "collect_env \<Rightarrow> (nat \<Rightarrow> int \<Rightarrow> db \<Rightarrow> submission res \<times> db) \<Rightarrow> int \<Rightarrow> string \<Rightarrow> submission \<Rightarrow> (hall, log_entry \<times> nat) eff" where
  "reuse_delivery E ensure u name row = andThen (asks h_delivered) (\<lambda>have.
     andThen (case map_of have (u, name) of
         Some d \<Rightarrow> ret (Inr d)
       | None \<Rightarrow> on_world (\<lambda>w. case ensure 1 (w_id row) (base w) of (r, d) \<Rightarrow> (Inr r, w\<lparr>base := d\<rparr>))) (\<lambda>r.
     ret (case bindE r (reused_entry E) of Inl x \<Rightarrow> (ReuseFailed (exn_text x), 1) | Inr e \<Rightarrow> (e, 0))))"

definition checked_result :: "submit_result \<Rightarrow> submit_result" where
  "checked_result r = (if s_ok r \<and> \<not> record_id (case s_rid r of None \<Rightarrow> [] | Some rid \<Rightarrow> rid)
     then r\<lparr>s_ok := False, s_error := JStr ''OJ returned no valid record id''\<rparr> else r)"

definition send_source ::
  "(string \<Rightarrow> string) \<Rightarrow> collect_env \<Rightarrow> string \<Rightarrow> contest \<Rightarrow> int \<Rightarrow> string \<Rightarrow> string \<Rightarrow> item \<Rightarrow> (log_entry \<times> nat) res" where
  "send_source H E tid c u pid code it =
     bindE (submit_one (ce_lang E) [] NotConfigured (ce_post E) tid u pid code
       (submission_id H (c_submission_session c) tid u pid) None ''final'' None) (\<lambda>r.
     Inr (Sent (checked_result r) (it_issues it), if s_ok (checked_result r) then 0 else 1))"

definition nothing_to_send :: "item \<Rightarrow> string \<Rightarrow> bool" where
  "nothing_to_send it code \<longleftrightarrow> it_status it \<in> {Missing, InvalidFilename} \<or> py_strip code = []"

definition submit_problem ::
  "(string \<Rightarrow> string) \<Rightarrow> collect_env \<Rightarrow> string \<Rightarrow> contest \<Rightarrow> (string \<times> string) list \<Rightarrow> int \<Rightarrow> graded \<Rightarrow> string \<times> item
     \<Rightarrow> (hall, log_entry \<times> nat) eff" where
  "submit_problem H E tid c pids u g e = (case e of (name, it) \<Rightarrow>
     (case map_of pids name of
        None \<Rightarrow> ret (NoPid, 1)
      | Some pid \<Rightarrow>
          if pid = [] then ret (NoPid, 1) else
          (case (map_of (gr_rows g) name, ce_ensure E) of
             (Some (Some row), Some ensure) \<Rightarrow>
               if w_submission_id row \<noteq> [] then reuse_delivery E ensure u name row
               else andThen (lift (of_option (KeyError name) (map_of (gr_sources g) name))) (\<lambda>code.
                 if nothing_to_send it code then ret (Skipped (it_issues it), 0)
                 else lift (send_source H E tid c u pid code it))
           | _ \<Rightarrow> andThen (lift (of_option (KeyError name) (map_of (gr_sources g) name))) (\<lambda>code.
               if nothing_to_send it code then ret (Skipped (it_issues it), 0)
               else lift (send_source H E tid c u pid code it)))))"

definition log_problem ::
  "(string \<Rightarrow> string) \<Rightarrow> collect_env \<Rightarrow> string \<Rightarrow> contest \<Rightarrow> (string \<times> string) list \<Rightarrow> int \<Rightarrow> graded \<Rightarrow> string \<times> item
     \<Rightarrow> (string \<times> log_entry) list \<times> nat \<Rightarrow> (hall, (string \<times> log_entry) list \<times> nat) eff" where
  "log_problem H E tid c pids u g e acc =
     andThen (submit_problem H E tid c pids u g e) (\<lambda>(out, k).
     ret (dict_set (fst e) out (fst acc), snd acc + k))"

definition submit_seat ::
  "(string \<Rightarrow> string) \<Rightarrow> collect_env \<Rightarrow> string \<Rightarrow> contest \<Rightarrow> (string \<times> string) list \<Rightarrow> (string \<times> graded) list \<Rightarrow> bound_seat
     \<Rightarrow> (string \<times> (string \<times> log_entry) list) list \<times> nat \<Rightarrow> (hall, (string \<times> (string \<times> log_entry) list) list \<times> nat) eff" where
  "submit_seat H E tid c pids report seat acc =
     andThen (lift (of_option (KeyError (b_uname seat)) (map_of report (b_uname seat)))) (\<lambda>g.
     andThen (forEach (gr_report g) (log_problem H E tid c pids (b_uid seat) g) ([], snd acc)) (\<lambda>(log, failures).
     ret (dict_set (b_uname seat) log (fst acc), failures)))"

text \<open>\<open>json.loads(contest.get("pids") or "{}")\<close> and the loop over the seats, when the return to the judge is on.\<close>

definition submit_answers ::
  "(string \<Rightarrow> string) \<Rightarrow> collect_env \<Rightarrow> string \<Rightarrow> contest \<Rightarrow> bound_seat list \<Rightarrow> (string \<times> graded) list
     \<Rightarrow> (hall, (string \<times> (string \<times> log_entry) list) list option \<times> nat) eff" where
  "submit_answers H E tid c ss report = andThen (lift (of_option (ValueError ''pids'') (c_pids c))) (\<lambda>pids.
     if ce_submit_enabled E
     then andThen (forEach ss (submit_seat H E tid c pids report) ([], 0)) (\<lambda>(log, failures). ret (Some log, failures))
     else ret (None, 0))"

section \<open>The evidence\<close>

definition write_doc :: "collect_env \<Rightarrow> doc \<Rightarrow> (hall, string \<times> string) eff" where
  "write_doc E x = andThen (lift (ce_write E x)) (\<lambda>digest.
     andThen (modify (\<lambda>h. h\<lparr>h_docs := h_docs h @ [x]\<rparr>)) (\<lambda>_. ret (doc_name x, digest)))"

definition add_doc :: "collect_env \<Rightarrow> doc \<Rightarrow> (string \<times> string) list \<Rightarrow> (hall, (string \<times> string) list) eff" where
  "add_doc E x digests = andThen (write_doc E x) (\<lambda>(n, v). ret (dict_set n v digests))"

definition write_reports :: "collect_env \<Rightarrow> (string \<times> graded) list \<Rightarrow> (hall, (string \<times> string) list) eff" where
  "write_reports E report = forEach
     [FolderDoc (map (\<lambda>(u, g). (u, gr_folder g)) report), WebDoc (map (\<lambda>(u, g). (u, gr_web g)) report),
      SelectionDoc (map (\<lambda>(u, g). (u, map (\<lambda>(n, it). (n, it_chosen it)) (gr_report g))) report),
      ReportDoc (map (\<lambda>(u, g). (u, gr_report g)) report)] (add_doc E) []"

definition shutdown_time :: "collect_env \<Rightarrow> contest \<Rightarrow> int" where
  "shutdown_time E c = max (ce_completed E)
     ((if c_end_at_ms c \<noteq> 0 then c_end_at_ms c else ce_completed E) + ce_grace E * 60 * 1000)"

definition the_receipt :: "collect_env \<Rightarrow> string \<Rightarrow> contest \<Rightarrow> nat \<Rightarrow> nat \<Rightarrow> (string \<times> string) list \<Rightarrow> collect_receipt" where
  "the_receipt E tid c seat_count problem_count digests = \<lparr>cr_tid = tid, cr_run_id = ce_run_id E,
     cr_completed_at_ms = ce_completed E, cr_cutoff_at_ms = c_end_at_ms c, cr_shutdown_after_ms = shutdown_time E c,
     cr_seat_count = seat_count, cr_problem_count = problem_count, cr_submit_failures = 0, cr_files = digests\<rparr>"

definition seal_collection ::
  "collect_env \<Rightarrow> string \<Rightarrow> contest \<Rightarrow> bound_seat list \<Rightarrow> string list \<Rightarrow> (string \<times> string) list \<Rightarrow> (hall, unit) eff" where
  "seal_collection E tid c ss files digests =
     andThen (lift (ce_manifest E)) (\<lambda>manifest.
     andThen (write_doc E (ManifestDoc manifest)) (\<lambda>(n, v).
     andThen (write_doc E (ReceiptDoc (the_receipt E tid c (length ss) (length files) (dict_set n v digests)))) (\<lambda>(r, digest).
     andThen (on_world (store (enter_safe_wait tid (ce_run_id E) (ce_directory E) digest (ce_completed E)
       (shutdown_time E c) ''collected, waiting for the shutdown''))) (\<lambda>entered.
     require entered (RuntimeError ''the safe wait was not entered'')))))"

section \<open>The collection\<close>

text \<open>The steps up to the frozen seats: what is collected, from whom.\<close>

definition close_access :: "collect_env \<Rightarrow> (hall, unit) eff" where
  "close_access E = handle (revoke_desktop_access E 0)
     (\<lambda>x. andThen (stop_server_best_effort E 0) (\<lambda>_. raise x))"

definition claim_collection :: "collect_env \<Rightarrow> string \<Rightarrow> bool \<Rightarrow> (hall, contest) eff" where
  "claim_collection E tid claimed =
     andThen (if claimed then ret True else on_world (store (\<lambda>d. Inr
       (transition (ce_dt E) (ce_ms E) tid [Ready, Errored] Collecting ''stopping the desktops and collecting'' d)))) (\<lambda>won.
     andThen (require won (RuntimeError ''contest state does not allow a collection'')) (\<lambda>_.
     andThen (on_world (reading (get_contest tid))) (\<lambda>found.
     lift (of_option (RuntimeError ''contest is not registered'') found))))"

definition reach_server :: "collect_env \<Rightarrow> string \<Rightarrow> contest \<Rightarrow> (hall, bound_seat list \<times> string list) eff" where
  "reach_server E tid c =
     andThen (close_access E) (\<lambda>_.
     andThen (on_world (reading (seats_of tid))) (\<lambda>ss.
     andThen (require (ss \<noteq> []) (RuntimeError ''no seats'')) (\<lambda>_.
     andThen (lift (of_option (ValueError ''files'') (c_files c))) (\<lambda>files.
     andThen (modify (\<lambda>h. h\<lparr>h_final := Some (ss, files)\<rparr>)) (\<lambda>_.
     andThen (lift (ensure_server E)) (\<lambda>ip.
     andThen (lift (ce_ssh E)) (\<lambda>up.
     andThen (require up (RuntimeError ''SSH is not reachable'')) (\<lambda>_. ret (ss, files)))))))))"

definition container_names :: "resource list \<Rightarrow> bound_seat list \<Rightarrow> string list" where
  "container_names resources ss = (if resources \<noteq> [] then map r_container resources else map b_container ss)"

definition fetch_answers ::
  "(string \<Rightarrow> string) \<Rightarrow> collect_env \<Rightarrow> string \<Rightarrow> contest \<Rightarrow> bound_seat list \<Rightarrow> string list
     \<Rightarrow> (hall, (string \<times> graded) list) eff" where
  "fetch_answers H E tid c ss files =
     andThen (on_world (reading (seat_pool_resources_of tid))) (\<lambda>resources.
     andThen (freeze_seats H E tid c (container_names resources ss)) (\<lambda>_.
     andThen (finalize_realtime_web E 0 tid ss files) (\<lambda>_.
     andThen (download E tid) (\<lambda>tree.
     forEach ss (grade_seat H E tid files (resources \<noteq> []) tree) []))))"

definition deliver_answers ::
  "(string \<Rightarrow> string) \<Rightarrow> collect_env \<Rightarrow> string \<Rightarrow> contest \<Rightarrow> bound_seat list \<Rightarrow> string list
     \<Rightarrow> (string \<times> graded) list \<Rightarrow> (hall, unit) eff" where
  "deliver_answers H E tid c ss files report =
     andThen (write_reports E report) (\<lambda>digests.
     andThen (submit_answers H E tid c ss report) (\<lambda>(log, failures).
     andThen (write_doc E (SubmitDoc log)) (\<lambda>(n, v).
     andThen (require (failures = 0) (RuntimeError ''some answers did not reach the judge'')) (\<lambda>_.
     seal_collection E tid c ss files (dict_set n v digests)))))"

definition collect_steps ::
  "(string \<Rightarrow> string) \<Rightarrow> collect_env \<Rightarrow> string \<Rightarrow> bool \<Rightarrow> (hall, (string \<times> graded) list) eff" where
  "collect_steps H E tid claimed =
     andThen (claim_collection E tid claimed) (\<lambda>c.
     andThen (reach_server E tid c) (\<lambda>(ss, files).
     andThen (fetch_answers H E tid c ss files) (\<lambda>report.
     andThen (deliver_answers H E tid c ss files report) (\<lambda>_. ret report))))"

text \<open>\<open>except Exception as exc\<close>.\<close>

definition failed_collection :: "collect_env \<Rightarrow> string \<Rightarrow> exn \<Rightarrow> (hall, 'a) eff" where
  "failed_collection E tid x =
     andThen (asks h_frozen) (\<lambda>frozen.
     andThen (if frozen then ret () else quietly (stop_server_best_effort E 1)) (\<lambda>_.
     andThen (asks h_final) (\<lambda>f.
     andThen (case f of None \<Rightarrow> ret () | Some (ss, files) \<Rightarrow> quietly (finalize_realtime_web E 2 tid ss files)) (\<lambda>_.
     andThen (set_message E tid Errored (exn_text x)) (\<lambda>_. raise x)))))"

text \<open>\<open>finally\<close>: \<open>failed\<close> says whether the exception handler ran.\<close>

definition after_collection :: "collect_env \<Rightarrow> string \<Rightarrow> bool \<Rightarrow> (hall, unit) eff" where
  "after_collection E tid failed =
     andThen (handle (andThen (revoke_desktop_access E 2) (\<lambda>_. ret None)) (\<lambda>x. ret (Some x))) (\<lambda>unclosed.
     andThen (quietly (lift (ce_frontend E))) (\<lambda>_.
     andThen (if unclosed \<noteq> None then quietly (stop_server_best_effort E 2) else ret ()) (\<lambda>_.
     andThen (modify (\<lambda>h. h\<lparr>h_world := leave tid (h_world h)\<rparr>)) (\<lambda>_.
     if unclosed \<noteq> None \<and> \<not> failed
     then andThen (set_message E tid Errored ''collected, but the desktop access was not confirmed closed'')
       (\<lambda>_. raise (RuntimeError ''the desktop access was not confirmed closed''))
     else ret ()))))"

definition new_hall :: "hall \<Rightarrow> hall" where
  "new_hall h = h\<lparr>h_closed := False, h_stopped := False, h_frozen := False, h_final := None, h_delivered := [], h_docs := []\<rparr>"

definition collect_contest ::
  "(string \<Rightarrow> string) \<Rightarrow> collect_env \<Rightarrow> string \<Rightarrow> bool \<Rightarrow> (hall, (string \<times> graded) list) eff" where
  "collect_contest H E tid claimed =
     andThen (on_world (enter tid)) (\<lambda>_.
     andThen (modify new_hall) (\<lambda>_ h.
       (case handle (collect_steps H E tid claimed) (failed_collection E tid) h of
         (Inl x, h') \<Rightarrow> andThen (after_collection E tid True) (\<lambda>_. raise x) h'
       | (Inr report, h') \<Rightarrow> andThen (after_collection E tid False) (\<lambda>_. ret report) h')))"

section \<open>The safe wait\<close>

text \<open>\<open>_verify_collection_receipt\<close>: what is found in the collection directory. \<open>sd_receipt\<close> and \<open>sd_manifest\<close> are
  the decoded files, \<open>sd_digest\<close> the SHA-256 of a regular file of the directory that is no symbolic link.\<close>

record saved_dir =
  sd_symlink :: bool
  sd_inside :: bool
  sd_is_dir :: bool
  sd_digest :: "string \<Rightarrow> string option"
  sd_receipt :: "json res"
  sd_manifest :: "json res"
  sd_current :: "json res"

definition receipt_file :: string where "receipt_file = ''collection_receipt.json''"

definition expected_files :: "string list" where
  "expected_files = [''archive_manifest.json'', ''folder_report.json'', ''report.json'', ''selection.json'',
     ''submit_log.json'', ''web_report.json'']"

text \<open>\<open>dict.get(k, default)\<close> through \<open>int()\<close>.\<close>

definition int_field :: "string \<Rightarrow> int \<Rightarrow> jdict \<Rightarrow> int res" where
  "int_field k dflt d = (case map_of d k of None \<Rightarrow> Inr dflt | Some v \<Rightarrow> py_int v)"

definition receipt_means :: "contest \<Rightarrow> jdict \<Rightarrow> jdict res" where
  "receipt_means c d =
     (let bad = RuntimeError ''the receipt is incomplete'' in
      if \<not> json_eq (case map_of d ''schema_version'' of None \<Rightarrow> JNull | Some v \<Rightarrow> v) (JInt 1)
         \<or> str_or (map_of d ''tid'') \<noteq> c_tid c \<or> str_or (map_of d ''run_id'') \<noteq> c_collection_run_id c
      then Inl bad else
      bindE (int_field ''submit_failures'' (- 1) d) (\<lambda>failures.
      if failures \<noteq> 0 then Inl bad else
      case map_of d ''files'' of
        Some (JObj files) \<Rightarrow> if set (map fst files) = set expected_files then Inr files else Inl bad
      | _ \<Rightarrow> Inl bad))"

definition verify_collection_receipt :: "saved_dir \<Rightarrow> contest \<Rightarrow> json res" where
  "verify_collection_receipt S c =
     (if sd_symlink S then Inl (RuntimeError ''the collection directory is a symbolic link'')
      else if \<not> sd_inside S then Inl (RuntimeError ''the collection directory is outside the archive'')
      else if \<not> sd_is_dir S then Inl (RuntimeError ''the collection directory does not exist'')
      else case sd_digest S receipt_file of None \<Rightarrow> Inl (RuntimeError ''the receipt does not exist'')
      | Some digest \<Rightarrow>
        if digest \<noteq> c_collection_receipt_sha256 c then Inl (RuntimeError ''the receipt has another digest'') else
        bindE (sd_receipt S) (\<lambda>receipt. case receipt of
          JObj d \<Rightarrow>
            bindE (receipt_means c d) (\<lambda>files.
            if \<not> list_all (\<lambda>n. sd_digest S n = Some (case map_of files n of None \<Rightarrow> [] | Some v \<Rightarrow> py_str v)) expected_files
            then Inl (RuntimeError ''an evidence file has another digest'') else
            bindE (sd_manifest S) (\<lambda>manifest. bindE (sd_current S) (\<lambda>current.
            if \<not> json_eq manifest current then Inl (RuntimeError ''the tree differs from its manifest'')
            else Inr receipt)))
        | _ \<Rightarrow> Inl (AttributeError ''get'')))"

record wait_env =
  fw_dt :: string
  fw_ms :: int
  fw_now :: int
  fw_dir :: saved_dir
  fw_revoke :: "unit res"
  fw_frontend :: "unit res"
  fw_status :: "(string \<times> string) res"
  fw_ssh :: "bool res"
  fw_remove :: "string list \<Rightarrow> unit res"
  fw_unwatch :: "unit res"
  fw_ungateway :: "unit res"
  fw_stop :: "poll list"
  fw_final :: "string res"
  fw_observed :: int

datatype wait_result =
    InGrace int
  | DeliveryPending "(judge_state \<times> int) list \<times> int \<times> bool"
  | SafelyEnded "(judge_state \<times> int) list \<times> int \<times> bool"

definition wait_message :: "wait_env \<Rightarrow> string \<Rightarrow> string \<Rightarrow> (hall, unit) eff" where
  "wait_message E tid message = on_world (writing (set_state (fw_dt E) (fw_ms E) tid SafeWait message))"

text \<open>The seats are removed from a server that still runs.\<close>

definition clear_server :: "wait_env \<Rightarrow> string \<Rightarrow> (hall, unit) eff" where
  "clear_server E tid = andThen (lift (fw_status E)) (\<lambda>(state, ip).
     if map upper_char state \<noteq> ''RUNNING'' then ret () else
     andThen (lift (fw_ssh E)) (\<lambda>up.
     andThen (require up (RuntimeError ''contest server is not reachable'')) (\<lambda>_.
     andThen (on_world (reading (seat_pool_resources_of tid))) (\<lambda>resources.
     andThen (on_world (reading (seats_of tid))) (\<lambda>ss.
     let names = container_names resources ss in
     andThen (if names \<noteq> [] then lift (fw_remove E names) else ret ()) (\<lambda>_.
     andThen (lift (fw_unwatch E)) (\<lambda>_. lift (fw_ungateway E))))))))"

definition collect_command :: "string \<Rightarrow> contest \<Rightarrow> string" where
  "collect_command tid c = ''collect:'' @ tid @ '':'' @ int_str (c_end_at_ms c)"

definition shut_down :: "(string \<Rightarrow> string) \<Rightarrow> wait_env \<Rightarrow> string \<Rightarrow> contest \<Rightarrow> (hall, unit) eff" where
  "shut_down H E tid c =
     andThen (lift (fw_revoke E)) (\<lambda>_.
     andThen (modify (\<lambda>h. h\<lparr>h_closed := True\<rparr>)) (\<lambda>_.
     andThen (lift (fw_frontend E)) (\<lambda>_.
     andThen (clear_server E tid) (\<lambda>_.
     andThen (on_world (step_stored_pool (fw_dt E) tid (\<lambda>p. collect H (fw_now E) (collect_command tid c) (revision p) p))) (\<lambda>_.
     andThen (lift (stop_polls False ''UNKNOWN'' (fw_stop E))) (\<lambda>_.
     andThen (lift (fw_final E)) (\<lambda>state.
     andThen (require (map upper_char state = ''STOPPED'') (RuntimeError ''the server is not confirmed stopped'')) (\<lambda>_.
     modify (\<lambda>h. h\<lparr>h_stopped := True\<rparr>)))))))))"

definition end_contest ::
  "(string \<Rightarrow> string) \<Rightarrow> wait_env \<Rightarrow> string \<Rightarrow> contest \<Rightarrow> (judge_state \<times> int) list \<times> int \<times> bool \<Rightarrow> (hall, wait_result) eff" where
  "end_contest H E tid c delivery =
     andThen (shut_down H E tid c) (\<lambda>_.
     andThen (on_world (store (\<lambda>d. Inr (mark_safe_ended tid (fw_observed E) ''delivery, receipt and shutdown are confirmed'' d)))) (\<lambda>ended.
     andThen (require ended (RuntimeError ''the safe end was not stored'')) (\<lambda>_. ret (SafelyEnded delivery))))"

definition wait_steps :: "(string \<Rightarrow> string) \<Rightarrow> wait_env \<Rightarrow> string \<Rightarrow> (hall, wait_result) eff" where
  "wait_steps H E tid =
     andThen (on_world (reading (get_contest tid))) (\<lambda>found. case found of
       None \<Rightarrow> raise (RuntimeError ''contest is not in the safe wait'')
     | Some c \<Rightarrow>
       if c_state c \<noteq> SafeWait then raise (RuntimeError ''contest is not in the safe wait'')
       else if fw_now E < c_shutdown_after_ms c then ret (InGrace (c_shutdown_after_ms c)) else
       andThen (lift (verify_collection_receipt (fw_dir E) c)) (\<lambda>_.
       andThen (on_world (reading (contest_delivery_health tid))) (\<lambda>delivery.
       if \<not> snd (snd delivery)
       then andThen (wait_message E tid ''waiting for the delivery of submissions'') (\<lambda>_. ret (DeliveryPending delivery)) else
       end_contest H E tid c delivery)))"

definition failed_wait :: "wait_env \<Rightarrow> string \<Rightarrow> exn \<Rightarrow> (hall, 'a) eff" where
  "failed_wait E tid x = andThen (on_world (reading (get_contest tid))) (\<lambda>found.
     andThen (case found of
         None \<Rightarrow> ret ()
       | Some c \<Rightarrow> if c_state c = SafeWait then wait_message E tid ''the safe shutdown will be tried again'' else ret ()) (\<lambda>_.
     raise x))"

definition finish_safe_wait :: "(string \<Rightarrow> string) \<Rightarrow> wait_env \<Rightarrow> string \<Rightarrow> (hall, wait_result) eff" where
  "finish_safe_wait H E tid =
     andThen (on_world (enter tid)) (\<lambda>_.
     andThen (modify new_hall) (\<lambda>_ h.
       (case handle (wait_steps H E tid) (failed_wait E tid) h of (r, h') \<Rightarrow> (r, h'\<lparr>h_world := leave tid (h_world h')\<rparr>))))"

end
