(* ===== verification/SubmitRoutes.thy ===== *)
theory SubmitRoutes
  imports NotifyAdmin Collection
begin

text \<open>
  \<^verbatim>\<open>orchestrator/main.py\<close>: the routes below \<open>/submit/<token>\<close>, by which a student hands in programs and sees what was
  received. A token names a bound seat; a cookie proves the login. Only an upload writes: one row of the outbox.
  The routes run on the \<open>world\<close>; the clock, the cookies, the judge's contest document and the answers of the
  contest server are the record \<open>submit_env\<close>.
\<close>

section \<open>The environment\<close>

text \<open>\<open>pipe.read_formal_source\<close>: the server's state, its SSH, the output of the capture script, \<open>json.loads\<close>, and
  \<open>base64.b64decode\<close> of the field (\<open>None\<close> when it is missing, which decodes the empty text).\<close>

record formal_env =
  fr_status :: "(string \<times> string) res"
  fr_ssh :: "bool res"
  fr_run :: "string res"
  fr_loads :: "string \<Rightarrow> json res"
  fr_bytes :: "json option \<Rightarrow> string res"

datatype codec = Utf8Sig | Gb18030

text \<open>
  The clock is read several times in one request: for the seat (\<open>sb_seen\<close>), for the page (\<open>sb_clock\<close>), for the window (\<open>sb_window\<close>) and for
  the acceptance (\<open>sb_accepted\<close>), in milliseconds. \<open>sb_document k\<close> is \<open>hydro.get_contest\<close>, asked for the window (0)
  and for the acceptance (1). \<open>sb_codec\<close>: the text of a byte string, or \<open>None\<close> when it is malformed. \<open>sb_nonce\<close> draws the
  nonce of a form, \<open>sb_paper\<close> is the digest of the paper, if it is a file; \<open>sb_feedback\<close> what
  \<open>directory_receipts\<close> returns.
\<close>

record submit_env =
  sb_dt :: string
  sb_seen :: int
  sb_clock :: int
  sb_window :: int
  sb_accepted :: int
  sb_document :: "nat \<Rightarrow> oj_contest option res"
  sb_cookies :: "string \<Rightarrow> string"
  sb_transport :: string
  sb_scheme :: string
  sb_password :: string
  sb_hash :: "string \<Rightarrow> string"
  sb_hmac :: "string \<Rightarrow> string \<Rightarrow> string"
  sb_maximum :: int
  sb_codec :: "codec \<Rightarrow> string \<Rightarrow> string option"
  sb_judge :: "judge option"
  sb_nonce :: "string \<Rightarrow> string"
  sb_formal :: formal_env
  sb_paper :: "string option"
  sb_feedback :: "bound_seat \<Rightarrow> contest \<Rightarrow> string list \<Rightarrow> (string \<times> submission) list \<Rightarrow> json"

section \<open>The contest window\<close>

definition contest_submission_open :: "oj_contest option res \<Rightarrow> int \<Rightarrow> bool" where
  "contest_submission_open document now = (case document of
     Inr (Some x) \<Rightarrow> (case (oj_begin x, oj_end x) of
         (Some b, Some e) \<Rightarrow> oj_rule x = ''oi'' \<and> b \<le> now \<and> now < e
       | _ \<Rightarrow> False)
   | _ \<Rightarrow> False)"

definition snapshot_submission_open :: "contest \<Rightarrow> int \<Rightarrow> bool option" where
  "snapshot_submission_open c at_ms = (if c_begin_at_ms c = 0 \<or> c_end_at_ms c = 0 then None
     else Some (c_state c = Ready \<and> c_hydro_rule c = ''oi'' \<and> c_begin_at_ms c \<le> at_ms \<and> at_ms < c_end_at_ms c))"

definition submission_window_open :: "submit_env \<Rightarrow> contest \<Rightarrow> bool" where
  "submission_window_open E c = (case snapshot_submission_open c (sb_window E) of
     Some b \<Rightarrow> b
   | None \<Rightarrow> c_state c = Ready \<and> contest_submission_open (sb_document E 0) (sb_window E))"

record clock =
  ck_server_ms :: int
  ck_begin_ms :: int
  ck_end_ms :: int
  ck_opened :: bool

definition clock_context :: "submit_env \<Rightarrow> contest \<Rightarrow> clock" where
  "clock_context E c = \<lparr>ck_server_ms = sb_clock E, ck_begin_ms = c_begin_at_ms c, ck_end_ms = c_end_at_ms c,
     ck_opened = submission_window_open E c\<rparr>"

section \<open>The seat behind a token\<close>

text \<open>A seat that is not released may still be read once its contest is over.\<close>

definition ended_readonly :: "submit_env \<Rightarrow> contest \<Rightarrow> json \<Rightarrow> bool" where
  "ended_readonly E c seat \<longleftrightarrow> jfield ''state'' seat \<in> {Some (JStr ''frozen''), Some (JStr ''collected'')}
     \<and> c_state c \<in> {Collecting, SafeWait, SafeEnded, Done, Errored} \<and> 0 < c_end_at_ms c \<and> c_end_at_ms c \<le> sb_seen E"

definition seat_usable :: "submit_env \<Rightarrow> contest \<Rightarrow> bool \<Rightarrow> (json \<times> resource option) option \<Rightarrow> bool" where
  "seat_usable E c pooled assigned = (case assigned of
     None \<Rightarrow> \<not> pooled
   | Some (seat, r) \<Rightarrow> is_released seat \<or> ended_readonly E c seat)"

type_synonym seat_context = "bound_seat \<times> contest \<times> string list \<times> (string \<times> submission) list"

definition web_submit_context :: "submit_env \<Rightarrow> string \<Rightarrow> (world, seat_context) eff" where
  "web_submit_context E tok =
     andThen (reading (seat_by_submit_token tok)) (\<lambda>found. case found of None \<Rightarrow> raise (http 404) | Some seat \<Rightarrow>
     andThen (reading (get_contest (b_tid seat))) (\<lambda>contest. case contest of None \<Rightarrow> raise (http 404) | Some c \<Rightarrow>
     andThen (reading (seat_pool (b_tid seat))) (\<lambda>pool.
     andThen (lift pool) (\<lambda>pool.
     andThen (reading (seat_pool_assignment (b_tid seat) (b_uid seat))) (\<lambda>assigned.
     andThen (lift assigned) (\<lambda>assigned.
     andThen (require (seat_usable E c (pool \<noteq> None) assigned) (http 403)) (\<lambda>_.
     andThen (lift (of_option (ValueError ''files'') (c_files c))) (\<lambda>problems.
     andThen (reading (latest_web_submissions (b_tid seat) (b_uid seat))) (\<lambda>latest.
     ret (seat, c, problems, latest))))))))))"

section \<open>The login cookie\<close>

definition submit_cookie_name :: "submit_env \<Rightarrow> string \<Rightarrow> string" where
  "submit_cookie_name E tok = ''noi_submit_'' @ take 12 (sb_hash E (utf8 tok))"

definition submit_cookie_value :: "submit_env \<Rightarrow> string \<Rightarrow> string" where
  "submit_cookie_value E tok = sb_hmac E (utf8 (sb_password E)) (utf8 (''submit:'' @ tok))"

definition submit_cookie_secure :: "submit_env \<Rightarrow> bool" where
  "submit_cookie_secure E \<longleftrightarrow> py_lower (sb_transport E) \<noteq> ''private-http'' \<and> py_lower (sb_scheme E) = ''https''"

definition submit_authenticated :: "submit_env \<Rightarrow> string \<Rightarrow> bool res" where
  "submit_authenticated E tok = (let actual = sb_cookies E (submit_cookie_name E tok); value = submit_cookie_value E tok in
     if \<not> (ascii_text actual \<and> ascii_text value) then Inl (TypeError ''compare_digest'') else Inr (actual = value))"

section \<open>The source\<close>

definition CR :: char where "CR = char_of (13 :: nat)"
definition NUL :: char where "NUL = char_of (0 :: nat)"

text \<open>\<open>code.replace("\r\n", "\n")\<close>, and then every other carriage return.\<close>

fun replace_crlf :: "string \<Rightarrow> string" where
  "replace_crlf [] = []"
| "replace_crlf (c # cs) = (if c = CR \<and> starts newline cs then newline # replace_crlf (tl cs) else c # replace_crlf cs)"

definition unify_newlines :: "string \<Rightarrow> string" where
  "unify_newlines code = map (\<lambda>c. if c = CR then newline else c) (replace_crlf code)"

definition normalize_pasted_source :: "string \<Rightarrow> int \<Rightarrow> string res" where
  "normalize_pasted_source code maximum = (let normalized = unify_newlines code in
     if py_strip normalized = [] \<or> NUL \<in> set normalized then Inl (http 400)
     else if int (length (utf8 normalized)) > maximum then Inl (http 413)
     else Inr normalized)"

definition normalize_uploaded_source :: "submit_env \<Rightarrow> string \<Rightarrow> string res" where
  "normalize_uploaded_source E payload =
     (if int (length payload) > sb_maximum E then Inl (http 413)
      else case sb_codec E Utf8Sig payload of
        Some code \<Rightarrow> normalize_pasted_source code (sb_maximum E)
      | None \<Rightarrow> (case sb_codec E Gb18030 payload of
          None \<Rightarrow> Inl (http 400)
        | Some code \<Rightarrow> normalize_pasted_source code (sb_maximum E)))"

section \<open>The receipts\<close>

text \<open>\<open>json.dumps(value, ensure_ascii=True, sort_keys=True, separators=(",", ":"))\<close>.\<close>

fun dumps_ascii :: "json \<Rightarrow> string" where
  "dumps_ascii JNull = ''null''"
| "dumps_ascii (JBool b) = (if b then ''true'' else ''false'')"
| "dumps_ascii (JInt i) = int_str i"
| "dumps_ascii (JStr s) = quote_ascii s"
| "dumps_ascii (JArr xs) = ''['' @ join '','' (map dumps_ascii xs) @ '']''"
| "dumps_ascii (JObj d) = ''{'' @ join '','' (map (\<lambda>(k, v). quote_ascii k @ '':'' @ v)
     (sort_key fst (map (\<lambda>(k, v). (k, dumps_ascii v)) d))) @ ''}''"

fun judge_state_text :: "judge_state \<Rightarrow> string" where
  "judge_state_text Local = ''local''"
| "judge_state_text Pending = ''pending''"
| "judge_state_text Retry = ''retry''"
| "judge_state_text Sending = ''sending''"
| "judge_state_text Submitted = ''submitted''"
| "judge_state_text PermanentFailed = ''permanent_failed''"
| "judge_state_text Ambiguous = ''ambiguous''"

definition receipt_row :: "string \<times> submission \<Rightarrow> json" where
  "receipt_row = (\<lambda>(problem, r). JArr [JStr problem, JInt (w_id r), JStr (judge_state_text (w_judge_state r)), JStr (w_sha256 r), JInt (w_size r)])"

text \<open>The marker by which a page notices that something about its receipts has changed.\<close>

definition receipt_revision :: "(string \<Rightarrow> string) \<Rightarrow> (string \<times> submission) list \<Rightarrow> json \<Rightarrow> string" where
  "receipt_revision H latest directory = H (utf8 (dumps_ascii (JArr (map receipt_row (sort_key fst latest)
     @ (if py_truthy directory then [JArr [JStr ''directory'', directory]] else [])))))"

section \<open>Accepting a source\<close>

text \<open>The sentences of \<open>check_code\<close>.\<close>

definition found_text :: "string list \<Rightarrow> string" where
  "found_text names = py_repr (JArr (map JStr names))"

fun issue_text :: "string \<Rightarrow> issue \<Rightarrow> string" where
  "issue_text problem WindowsHeader = ''windows.h is used''"
| "issue_text problem ConioHeader = ''conio.h is used''"
| "issue_text problem SystemPause = ''system pause is used''"
| "issue_text problem Getch = ''getch is used''"
| "issue_text problem (InputName names) = ''input file: expected '' @ problem @ ''.in, found '' @ found_text names"
| "issue_text problem (OutputName names) = ''output file: expected '' @ problem @ ''.out, found '' @ found_text names"

text \<open>Whether a new row may be made, from the contest's own window or from the judge's document.\<close>

definition allow_new :: "submit_env \<Rightarrow> contest \<Rightarrow> bool res" where
  "allow_new E c = (case snapshot_submission_open c (sb_accepted E) of
     Some b \<Rightarrow> Inr b
   | None \<Rightarrow> (case sb_document E 1 of
       Inl x \<Rightarrow> Inl (http 503)
     | Inr None \<Rightarrow> Inl (http 409)
     | Inr (Some x) \<Rightarrow> if oj_rule x \<noteq> ''oi'' then Inl (http 409) else
         (case (oj_begin x, oj_end x) of
            (Some b, Some e) \<Rightarrow> Inr (b \<le> sb_accepted E \<and> sb_accepted E < e)
          | _ \<Rightarrow> Inl (http 503))))"

definition clean_nonce :: "string \<Rightarrow> string" where
  "clean_nonce nonce = py_lower (py_strip nonce)"

definition valid_nonce :: "string \<Rightarrow> bool" where
  "valid_nonce nonce \<longleftrightarrow> re_exact is_hex 32 nonce"

definition problem_pid :: "contest \<Rightarrow> string \<Rightarrow> string res" where
  "problem_pid c problem = (case c_pids c of
     None \<Rightarrow> Inl (http 503)
   | Some pids \<Rightarrow> (let pid = py_strip (case map_of pids problem of None \<Rightarrow> [] | Some v \<Rightarrow> v) in
       if pid = [] then Inl (http 503) else Inr pid))"

definition enqueue_error :: "exn \<Rightarrow> exn" where
  "enqueue_error x = (case x of
     SubmissionClosedError m \<Rightarrow> http 409
   | SubmissionConflictError m \<Rightarrow> http 409
   | KeyError m \<Rightarrow> http 503
   | ValueError m \<Rightarrow> http 503
   | _ \<Rightarrow> x)"

definition enqueue_web_source ::
  "submit_env \<Rightarrow> bound_seat \<Rightarrow> contest \<Rightarrow> string \<Rightarrow> string \<Rightarrow> string \<Rightarrow> (world, submission \<times> bool) eff" where
  "enqueue_web_source E seat c problem source nonce = (case sb_judge E of None \<Rightarrow> raise (http 503) | Some g \<Rightarrow>
     andThen (lift (allow_new E c)) (\<lambda>allowed.
     andThen (require (valid_nonce (clean_nonce nonce)) (http 400)) (\<lambda>_.
     andThen (lift (problem_pid c problem)) (\<lambda>pid.
     handle (store (judge_enqueue (sb_hash E) (sb_dt E) g (c_submission_session c) (c_tid c) (b_uid seat) problem pid source source
         (map (issue_text problem) (check_code source problem)) (clean_nonce nonce) (sb_accepted E) allowed None))
       (\<lambda>x. raise (enqueue_error x))))))"

section \<open>The formal answer directory\<close>

definition slot_container :: "string \<Rightarrow> bool" where
  "slot_container s \<longleftrightarrow> take 5 s = ''seat-'' \<and> re_exact is_hex 8 (take 8 (drop 5 s)) \<and> take 6 (drop 13 s) = ''-slot-''
     \<and> re_exact is_digit 3 (drop 19 s)"

definition csp_candidate :: "string \<Rightarrow> bool" where
  "csp_candidate s \<longleftrightarrow> take 3 s = ''CSP'' \<and> re_exact is_digit 3 (drop 3 s)"

definition resource_text :: "(resource \<Rightarrow> string) \<Rightarrow> resource option \<Rightarrow> string" where
  "resource_text f r = (case r of None \<Rightarrow> [] | Some x \<Rightarrow> f x)"

text \<open>The student's released seat and its container.\<close>

definition formal_seat :: "string \<Rightarrow> int \<Rightarrow> string \<Rightarrow> (world, unit) eff" where
  "formal_seat tid u problem =
     andThen (reading (get_contest tid)) (\<lambda>contest. case contest of None \<Rightarrow> raise (RuntimeError ''no hand-in at present'') | Some c \<Rightarrow>
     andThen (require (c_state c = Ready) (RuntimeError ''no hand-in at present'')) (\<lambda>_.
     andThen (lift (of_option (ValueError ''files'') (c_files c))) (\<lambda>files.
     andThen (require (problem \<in> set files) (ValueError ''not a problem of the contest'')) (\<lambda>_.
     andThen (reading (seat_pool_assignment tid u)) (\<lambda>assigned.
     andThen (lift assigned) (\<lambda>assigned. case assigned of None \<Rightarrow> raise (RuntimeError ''the seat is not released'') | Some (seat, r) \<Rightarrow>
     andThen (require (is_released seat) (RuntimeError ''the seat is not released'')) (\<lambda>_.
     andThen (require (str_or (jfield ''container_ref'' seat) = resource_text r_container r) (RuntimeError ''the container differs'')) (\<lambda>_.
     andThen (require (slot_container (resource_text r_container r)) (RuntimeError ''container name'')) (\<lambda>_.
     require (csp_candidate (resource_text r_candidate r)) (RuntimeError ''candidate number''))))))))))"

text \<open>The envelope that the capture script prints.\<close>

definition snapshot_envelope :: "formal_env \<Rightarrow> json \<Rightarrow> (string \<times> json \<times> json option) res" where
  "snapshot_envelope F snapshot =
     bindE (jget ''schema'' snapshot) (\<lambda>schema.
     bindE (jget ''sha256'' snapshot) (\<lambda>digest.
     bindE (jget ''size'' snapshot) (\<lambda>size.
     if \<not> json_eq (case schema of None \<Rightarrow> JNull | Some v \<Rightarrow> v) (JInt 1) \<or> \<not> re_exact is_hex 64 (str_or digest)
       \<or> (case size of Some (JInt n) \<Rightarrow> False | Some (JBool b) \<Rightarrow> False | _ \<Rightarrow> True)
     then Inl (ValueError ''invalid snapshot envelope'')
     else bindE (jget ''base64'' snapshot) (\<lambda>b64. bindE (fr_bytes F b64) (\<lambda>payload. Inr (payload, the size, digest))))))"

definition unreadable :: "exn \<Rightarrow> exn" where
  "unreadable x = (case x of ValueError m \<Rightarrow> RuntimeError ''the capture cannot be read'' | TypeError m \<Rightarrow> RuntimeError ''the capture cannot be read''
     | _ \<Rightarrow> x)"

definition captured_source :: "(string \<Rightarrow> string) \<Rightarrow> formal_env \<Rightarrow> int \<Rightarrow> string res" where
  "captured_source H F maximum =
     bindE (fr_run F) (\<lambda>raw.
     bindE (case bindE (fr_loads F (py_strip raw)) (snapshot_envelope F) of Inl x \<Rightarrow> Inl (unreadable x) | Inr y \<Rightarrow> Inr y)
       (\<lambda>(payload, size, digest).
     if payload = [] \<or> int (length payload) > maximum \<or> \<not> json_eq (JInt (int (length payload))) size \<or> digest \<noteq> Some (JStr (H payload))
     then Inl (RuntimeError ''the snapshot is not stable'') else Inr payload))"

definition read_formal_source :: "(string \<Rightarrow> string) \<Rightarrow> formal_env \<Rightarrow> string \<Rightarrow> int \<Rightarrow> string \<Rightarrow> int \<Rightarrow> (world, string) eff" where
  "read_formal_source H F tid u problem maximum =
     andThen (require (re_head is_lower slug_char 0 63 problem) (ValueError ''problem name'')) (\<lambda>_.
     andThen (require (1 \<le> maximum) (ValueError ''maximum'')) (\<lambda>_.
     exclusively tid (
       andThen (formal_seat tid u problem) (\<lambda>_.
       andThen (lift (fr_status F)) (\<lambda>(state, ip).
       andThen (require (map upper_char state = ''RUNNING'' \<and> ip \<noteq> []) (RuntimeError ''the server cannot be read'')) (\<lambda>_.
       andThen (lift (fr_ssh F)) (\<lambda>up.
       andThen (require up (RuntimeError ''the server is not reachable'')) (\<lambda>_.
       lift (captured_source H F maximum)))))))))"

section \<open>The routes\<close>

text \<open>What the browser gets. A failing request is an exception \<open>http code\<close>.\<close>

datatype reply =
    LoginPage nat string
  | SubmitPage seat_context clock "string \<times> string \<times> string" "string \<Rightarrow> string" json string
  | StatusReply clock string
  | ToSubmit string
  | ToSubmitWith string string string bool
  | ToSubmitWithout string string
  | PaperFile string
  | EditPage string nat clock string
  | ViewPage submission
  | SourceFile string string

datatype visit =
    Status
  | Page string string string string
  | Formal string string
  | Login string string
  | Logout
  | Paper
  | Edit string
  | View string
  | Download string
  | Upload string string string string
  | Paste

definition submit_url :: "string \<Rightarrow> string" where
  "submit_url tok = ''/submit/'' @ tok"

text \<open>A route that needs the login sends the browser back to it.\<close>

definition logged_in :: "submit_env \<Rightarrow> string \<Rightarrow> (world, reply) eff \<Rightarrow> (world, reply) eff" where
  "logged_in E tok m = andThen (lift (submit_authenticated E tok)) (\<lambda>yes. if yes then m else ret (ToSubmit (submit_url tok)))"

definition feedback :: "submit_env \<Rightarrow> seat_context \<Rightarrow> json" where
  "feedback E = (\<lambda>(seat, c, problems, latest). sb_feedback E seat c problems latest)"

definition revision_of :: "submit_env \<Rightarrow> seat_context \<Rightarrow> string" where
  "revision_of E = (\<lambda>(seat, c, problems, latest). receipt_revision (sb_hash E) latest (sb_feedback E seat c problems latest))"

definition web_submit_status :: "submit_env \<Rightarrow> string \<Rightarrow> (world, reply) eff" where
  "web_submit_status E tok =
     andThen (lift (submit_authenticated E tok)) (\<lambda>yes.
     andThen (require yes (http 401)) (\<lambda>_.
     andThen (web_submit_context E tok) (\<lambda>ctx.
     ret (StatusReply (clock_context E (fst (snd ctx))) (revision_of E ctx)))))"

definition known :: "string \<Rightarrow> string list \<Rightarrow> string" where
  "known x xs = (if x \<in> set xs then x else [])"

definition web_submit_page :: "submit_env \<Rightarrow> string \<Rightarrow> string \<Rightarrow> string \<Rightarrow> string \<Rightarrow> string \<Rightarrow> (world, reply) eff" where
  "web_submit_page E tok saved login error problem =
     andThen (web_submit_context E tok) (\<lambda>(seat, c, problems, latest).
     andThen (lift (submit_authenticated E tok)) (\<lambda>yes.
     if \<not> yes then ret (LoginPage 200 (if login = ''accepted'' then ''the browser did not keep the login'' else [])) else
     ret (SubmitPage (seat, c, problems, latest) (clock_context E c)
       (known (known saved problems) (map fst latest), known error [''missing_file'', ''read_failed'', ''web_locked''], known problem problems)
       (sb_nonce E) (feedback E (seat, c, problems, latest)) (revision_of E (seat, c, problems, latest)))))"

definition missing_source :: "exn \<Rightarrow> string option" where
  "missing_source x = (let why = (\<lambda>m. if contains ''No such file or directory'' m \<or> contains ''does not exist'' m
       then ''missing_file'' else ''read_failed'') in
     case x of RuntimeError m \<Rightarrow> Some (why m) | ValueError m \<Rightarrow> Some (why m) | _ \<Rightarrow> None)"

definition saved_url :: "string \<Rightarrow> string \<Rightarrow> string" where
  "saved_url tok problem = submit_url tok @ ''?saved='' @ problem"

definition error_url :: "string \<Rightarrow> string \<Rightarrow> string \<Rightarrow> string" where
  "error_url tok error problem = submit_url tok @ ''?error='' @ error @ ''&problem='' @ problem"

definition accept_payload :: "submit_env \<Rightarrow> string \<Rightarrow> bound_seat \<Rightarrow> contest \<Rightarrow> string \<Rightarrow> string \<Rightarrow> string \<Rightarrow> (world, reply) eff" where
  "accept_payload E tok seat c problem nonce payload =
     andThen (lift (normalize_uploaded_source E payload)) (\<lambda>source.
     andThen (enqueue_web_source E seat c problem source nonce) (\<lambda>_.
     ret (ToSubmit (saved_url tok problem))))"

definition web_submit_formal_file :: "submit_env \<Rightarrow> string \<Rightarrow> string \<Rightarrow> string \<Rightarrow> (world, reply) eff" where
  "web_submit_formal_file E tok problem nonce =
     andThen (web_submit_context E tok) (\<lambda>(seat, c, problems, latest). logged_in E tok (
     andThen (require (problem \<in> set problems) (http 400)) (\<lambda>_.
     if map_of latest problem \<noteq> None then ret (ToSubmit (error_url tok ''web_locked'' problem)) else
     andThen (require (submission_window_open E c) (http 409)) (\<lambda>_.
     andThen (handle (andThen (read_formal_source (sb_hash E) (sb_formal E) (c_tid c) (b_uid seat) problem (sb_maximum E)) (\<lambda>p. ret (Inr p)))
       (\<lambda>x. case missing_source x of None \<Rightarrow> raise x | Some error \<Rightarrow> ret (Inl error))) (\<lambda>r.
     case r of
       Inl error \<Rightarrow> ret (ToSubmit (error_url tok error problem))
     | Inr payload \<Rightarrow> accept_payload E tok seat c problem nonce payload)))))"

definition web_submit_login :: "submit_env \<Rightarrow> string \<Rightarrow> string \<Rightarrow> string \<Rightarrow> (world, reply) eff" where
  "web_submit_login E tok candidate password =
     andThen (web_submit_context E tok) (\<lambda>(seat, c, problems, latest).
     ret (if py_strip candidate \<in> {b_candidate seat, b_uname seat} \<and> password = b_vnc_pass seat
       then ToSubmitWith (submit_url tok @ ''?login=accepted'') (submit_cookie_name E tok) (submit_cookie_value E tok) (submit_cookie_secure E)
       else LoginPage 401 (py_strip candidate)))"

definition web_submit_logout :: "submit_env \<Rightarrow> string \<Rightarrow> (world, reply) eff" where
  "web_submit_logout E tok = andThen (web_submit_context E tok) (\<lambda>_.
     ret (ToSubmitWithout (submit_url tok) (submit_cookie_name E tok)))"

definition web_submit_paper :: "submit_env \<Rightarrow> string \<Rightarrow> (world, reply) eff" where
  "web_submit_paper E tok =
     andThen (web_submit_context E tok) (\<lambda>(seat, c, problems, latest). logged_in E tok (
     if c_paper_sha256 c = [] then raise (http 404) else
     case sb_paper E of None \<Rightarrow> raise (http 404)
     | Some digest \<Rightarrow> andThen (require (digest = c_paper_sha256 c) (http 409)) (\<lambda>_. ret (PaperFile digest))))"

definition position :: "string \<Rightarrow> string list \<Rightarrow> nat" where
  "position x xs = length (takeWhile (\<lambda>y. y \<noteq> x) xs)"

definition web_submit_edit :: "submit_env \<Rightarrow> string \<Rightarrow> string \<Rightarrow> (world, reply) eff" where
  "web_submit_edit E tok problem =
     andThen (web_submit_context E tok) (\<lambda>(seat, c, problems, latest). logged_in E tok (
     andThen (require (problem \<in> set problems) (http 404)) (\<lambda>_.
     andThen (require (submission_window_open E c) (http 409)) (\<lambda>_.
     ret (EditPage problem (position problem problems + 1) (clock_context E c) (sb_nonce E problem))))))"

definition received :: "string \<Rightarrow> string list \<Rightarrow> (string \<times> submission) list \<Rightarrow> submission res" where
  "received problem problems latest = (if problem \<notin> set problems then Inl (http 404) else of_option (http 404) (map_of latest problem))"

definition web_submit_view :: "submit_env \<Rightarrow> string \<Rightarrow> string \<Rightarrow> (world, reply) eff" where
  "web_submit_view E tok problem =
     andThen (web_submit_context E tok) (\<lambda>(seat, c, problems, latest). logged_in E tok (
     andThen (lift (received problem problems latest)) (\<lambda>row. ret (ViewPage row))))"

definition web_submit_download :: "submit_env \<Rightarrow> string \<Rightarrow> string \<Rightarrow> (world, reply) eff" where
  "web_submit_download E tok problem =
     andThen (web_submit_context E tok) (\<lambda>(seat, c, problems, latest). logged_in E tok (
     andThen (lift (received problem problems latest)) (\<lambda>row. ret (SourceFile (problem @ ''.cpp'') (utf8 (w_source row))))))"

text \<open>After the end only a request that was accepted before may reach the replay check.\<close>

definition known_request :: "contest \<Rightarrow> bound_seat \<Rightarrow> string \<Rightarrow> string \<Rightarrow> db \<Rightarrow> bool" where
  "known_request c seat problem nonce d \<longleftrightarrow> valid_nonce (clean_nonce nonce)
     \<and> get_web_submission_by_nonce (c_tid c) (b_uid seat) problem (clean_nonce nonce) d \<noteq> None"

definition cpp_file :: "string \<Rightarrow> bool" where
  "cpp_file name \<longleftrightarrow> (let s = py_lower name in 4 \<le> length s \<and> drop (length s - 4) s = ''.cpp'')"

definition web_submit_code :: "submit_env \<Rightarrow> string \<Rightarrow> string \<Rightarrow> string \<Rightarrow> string \<Rightarrow> string \<Rightarrow> (world, reply) eff" where
  "web_submit_code E tok problem nonce filename content =
     andThen (web_submit_context E tok) (\<lambda>(seat, c, problems, latest). logged_in E tok (
     andThen (require (problem \<in> set problems) (http 400)) (\<lambda>_.
     andThen (reading (known_request c seat problem nonce)) (\<lambda>before.
     andThen (require (submission_window_open E c \<or> before) (http 409)) (\<lambda>_.
     andThen (require (cpp_file filename) (http 400)) (\<lambda>_.
     accept_payload E tok seat c problem nonce (take (nat (sb_maximum E + 1)) content)))))))"

definition web_submit_paste :: "submit_env \<Rightarrow> string \<Rightarrow> (world, reply) eff" where
  "web_submit_paste E tok = andThen (web_submit_context E tok) (\<lambda>_. logged_in E tok (raise (http 410)))"

fun serve :: "submit_env \<Rightarrow> string \<Rightarrow> visit \<Rightarrow> (world, reply) eff" where
  "serve E tok Status = web_submit_status E tok"
| "serve E tok (Page saved login error problem) = web_submit_page E tok saved login error problem"
| "serve E tok (Formal problem nonce) = web_submit_formal_file E tok problem nonce"
| "serve E tok (Login candidate password) = web_submit_login E tok candidate password"
| "serve E tok Logout = web_submit_logout E tok"
| "serve E tok Paper = web_submit_paper E tok"
| "serve E tok (Edit problem) = web_submit_edit E tok problem"
| "serve E tok (View problem) = web_submit_view E tok problem"
| "serve E tok (Download problem) = web_submit_download E tok problem"
| "serve E tok (Upload problem nonce filename content) = web_submit_code E tok problem nonce filename content"
| "serve E tok Paste = web_submit_paste E tok"

end
