(* ===== verification/CollectFrame.thy ===== *)
theory CollectFrame
  imports Collection PoolThms
begin

text \<open>What the steps of a collection leave alone: conditions on the state that every step keeps, whether it ends
  normally or raises.\<close>

section \<open>Conditions every step keeps\<close>

definition stable :: "('s \<Rightarrow> bool) \<Rightarrow> ('s, 'a) eff \<Rightarrow> bool" where
  "stable P m \<longleftrightarrow> (\<forall>h. P h \<longrightarrow> P (snd (m h)))"

named_theorems stable_rules \<open>steps that keep a condition\<close>

lemma stableD: "\<lbrakk>stable P m; P h; m h = (r, h')\<rbrakk> \<Longrightarrow> P h'"
  by (auto simp: stable_def)

lemma stable_triple: "stable P m \<Longrightarrow> triple P m (\<lambda>_. P) P"
  unfolding stable_def triple_def by (auto split: prod.split sum.split)

lemma triple_then_pair:
  assumes "triple P m (\<lambda>(a, b). R a b) E" and "\<And>a b. triple (R a b) (f a b) Q E"
  shows "triple P (andThen m (\<lambda>(a, b). f a b)) Q E"
  by (rule triple_then [OF assms(1)]) (use assms(2) in \<open>simp split: prod.split\<close>)

lemma stable_basic [stable_rules]:
  "stable P (ret a)" "stable P (raise e)" "stable P (lift x)" "stable P (asks f)" "stable P (require b e)"
  by (simp_all add: stable_def eff_defs)

lemma stable_then [stable_rules]: "\<lbrakk>stable P m; \<And>a. stable P (f a)\<rbrakk> \<Longrightarrow> stable P (andThen m f)"
  unfolding stable_def andThen_def by (force split: prod.split sum.split)

lemma stable_handle [stable_rules]: "\<lbrakk>stable P m; \<And>e. stable P (h e)\<rbrakk> \<Longrightarrow> stable P (handle m h)"
  unfolding stable_def handle_def by (force split: prod.split sum.split)

lemma stable_quietly [stable_rules]: "stable P m \<Longrightarrow> stable P (quietly m)"
  unfolding quietly_def by (intro stable_rules)

lemma quietly_fst: "fst (quietly m h) = Inr ()"
  by (simp add: eff_defs split: prod.split sum.split)

lemma stable_forEach [stable_rules]: "(\<And>x a. stable P (f x a)) \<Longrightarrow> stable P (forEach xs f a)"
  by (induction xs arbitrary: a) (auto intro: stable_rules)

lemma stable_modify: "(\<And>h. P h \<Longrightarrow> P (f h)) \<Longrightarrow> stable P (modify f)"
  by (simp add: stable_def modify_def)

lemma stable_cases [stable_rules]:
  "\<lbrakk>b \<Longrightarrow> stable P m; \<not> b \<Longrightarrow> stable P n\<rbrakk> \<Longrightarrow> stable P (if b then m else n)"
  "\<lbrakk>\<And>a c. x = (a, c) \<Longrightarrow> stable P (f a c)\<rbrakk> \<Longrightarrow> stable P (case x of (a, c) \<Rightarrow> f a c)"
  "\<lbrakk>o' = None \<Longrightarrow> stable P m; \<And>y. o' = Some y \<Longrightarrow> stable P (g y)\<rbrakk> \<Longrightarrow> stable P (case o' of None \<Rightarrow> m | Some y \<Rightarrow> g y)"
  "\<lbrakk>\<And>e. r = Inl e \<Longrightarrow> stable P (k e); \<And>y. r = Inr y \<Longrightarrow> stable P (l y)\<rbrakk> \<Longrightarrow> stable P (case r of Inl e \<Rightarrow> k e | Inr y \<Rightarrow> l y)"
  by (auto split: prod.splits option.splits sum.splits)

section \<open>Conditions on the database\<close>

text \<open>\<open>kept C z h\<close>: the tables satisfy \<open>C\<close>, and the students are kept from working as \<open>z\<close> says. A collection itself writes the
  contest's state and message and the seat pool; the realtime judge is quiet when it keeps \<open>C\<close> as well.\<close>

datatype barrier = Unbarred | AllFrozen | Barred

fun barred :: "barrier \<Rightarrow> hall \<Rightarrow> bool" where
  "barred Unbarred h = True"
| "barred AllFrozen h = h_frozen h"
| "barred Barred h = (h_frozen h \<or> h_stopped h)"

definition kept :: "(db \<Rightarrow> bool) \<Rightarrow> barrier \<Rightarrow> hall \<Rightarrow> bool" where
  "kept C z h \<longleftrightarrow> C (base (h_world h)) \<and> barred z h"

lemma barred_world [simp]: "barred z (h\<lparr>h_world := w\<rparr>) = barred z h"
  by (cases z) simp_all

definition collect_keeps :: "string \<Rightarrow> (db \<Rightarrow> bool) \<Rightarrow> bool" where
  "collect_keeps tid C \<longleftrightarrow> (\<forall>d. C d \<longrightarrow> (\<forall>dt ms s m. C (set_state dt ms tid s m d))
     \<and> (\<forall>dt prev v n d'. put_seat_pool dt tid prev v d = Inr (n, d') \<longrightarrow> C d'))"

definition quiet_judge :: "(db \<Rightarrow> bool) \<Rightarrow> collect_env \<Rightarrow> bool" where
  "quiet_judge C E \<longleftrightarrow> (case ce_ensure E of None \<Rightarrow> True | Some f \<Rightarrow> \<forall>k i d. C d \<longrightarrow> C (snd (f k i d)))"

definition quiet :: "string \<Rightarrow> (db \<Rightarrow> bool) \<Rightarrow> collect_env \<Rightarrow> bool" where
  "quiet tid C E \<longleftrightarrow> collect_keeps tid C \<and> quiet_judge C E"

lemma stable_reading [stable_rules]: "stable P (on_world (reading f))"
  by (simp add: stable_def on_world_def eff_defs)

lemma stable_on_store:
  "(\<And>d a d'. C d \<Longrightarrow> f d = Inr (a, d') \<Longrightarrow> C d') \<Longrightarrow> stable (kept C z) (on_world (store f))"
  by (auto simp: stable_def on_world_def kept_def eff_defs split: prod.splits sum.splits)

lemma stable_message [stable_rules]: "quiet tid C E \<Longrightarrow> stable (kept C z) (set_message E' tid s m)"
  by (auto simp: stable_def set_message_def on_world_def kept_def quiet_def collect_keeps_def eff_defs)

lemma stable_ensure [stable_rules]:
  "\<lbrakk>quiet tid C E; ce_ensure E = Some f\<rbrakk>
    \<Longrightarrow> stable (kept C z) (on_world (\<lambda>w. case f k i (base w) of (r, d) \<Rightarrow> (Inr r, w\<lparr>base := d\<rparr>)))"
  by (auto simp: stable_def on_world_def kept_def quiet_def quiet_judge_def split: prod.splits) (metis snd_conv)+

lemma stable_modify_kept [stable_rules]:
  "\<lbrakk>\<And>h. h_world (f h) = h_world h; \<And>h. h_frozen h \<Longrightarrow> h_frozen (f h); \<And>h. h_stopped h \<Longrightarrow> h_stopped (f h)\<rbrakk>
    \<Longrightarrow> stable (kept C z) (modify f)"
  by (cases z) (auto simp: stable_def modify_def kept_def)

lemma stable_step_pool:
  assumes "\<And>d prev v n d'. C d \<Longrightarrow> put_seat_pool dt tid prev v d = Inr (n, d') \<Longrightarrow> C d'"
  shows "stable (kept C z) (on_world (step_stored_pool dt tid f))"
  using assms by (auto simp: stable_def on_world_def kept_def step_stored_pool_def save_pool_def
      eff_defs bindE_eq_Inr split: prod.splits sum.splits option.splits if_splits)

lemma quiet_step_pool: "quiet tid C E \<Longrightarrow> stable (kept C z) (on_world (step_stored_pool dt tid f))"
  by (rule stable_step_pool) (auto simp: quiet_def collect_keeps_def)

lemma put_pool_tables: "put_seat_pool dt tid prev v d = Inr (n, d') \<Longrightarrow> contests d' = contests d \<and> bound_seats d' = bound_seats d
    \<and> seat_pool_resources d' = seat_pool_resources d \<and> web_submissions d' = web_submissions d"
  by (auto simp: put_seat_pool_def bindE_eq_Inr update_pool_row_def Let_def split: if_splits option.splits)

section \<open>The steps of a collection\<close>

lemma stable_server [stable_rules]:
  "stable (kept C z) (stop_server_best_effort E k)" "stable (kept C z) (revoke_desktop_access E k)"
  unfolding stop_server_best_effort_def revoke_desktop_access_def by (intro stable_rules; simp)+

lemma stable_close [stable_rules]: "stable (kept C z) (close_access E)"
  unfolding close_access_def by (intro stable_rules)

lemma stable_finalize_row [stable_rules]: "quiet tid C E \<Longrightarrow> stable (kept C z) (finalize_row E k u latest name)"
  unfolding finalize_row_def by (intro stable_rules; assumption?) simp_all

lemma stable_finalize [stable_rules]: "quiet tid C E \<Longrightarrow> stable (kept C z) (finalize_realtime_web E k tid ss files)"
  unfolding finalize_realtime_web_def finalize_seat_def by (intro stable_rules; assumption?)

lemma stable_download [stable_rules]: "quiet tid C E \<Longrightarrow> stable (kept C z) (download E tid)"
  unfolding download_def by (intro stable_rules; assumption?)

lemma stable_grade [stable_rules]: "stable P (grade_seat H E tid files pooled tree seat report)"
  unfolding grade_seat_def add_web_entry_def add_problem_def Let_def by (intro stable_rules)

lemma stable_docs [stable_rules]: "stable (kept C z) (write_doc E x)" "stable (kept C z) (write_reports E report)"
  unfolding write_reports_def add_doc_def write_doc_def by (intro stable_rules; simp)+

lemma stable_submit [stable_rules]: "quiet tid C E \<Longrightarrow> stable (kept C z) (submit_answers H E tid c ss report)"
  unfolding submit_answers_def submit_seat_def log_problem_def submit_problem_def reuse_delivery_def
  by (intro stable_rules; assumption?) simp_all

end
