(* ===== verification/SubmitThms.thy ===== *)
theory SubmitThms
  imports SubmitRoutes CollectFrame
begin

text \<open>The properties of the student's routes.\<close>

section \<open>The source\<close>

lemma starts_iff: "starts c s \<longleftrightarrow> (\<exists>t. s = c # t)"
  by (cases s) auto

lemma newline_not_CR [simp]: "newline \<noteq> CR" "CR \<noteq> newline"
  by code_simp+

lemma unify_no_CR: "CR \<notin> set (unify_newlines s)"
  by (auto simp: unify_newlines_def)

lemma replace_no_CR: "CR \<notin> set s \<Longrightarrow> replace_crlf s = s"
  by (induction s rule: replace_crlf.induct) auto

lemma unify_clean: "CR \<notin> set s \<Longrightarrow> unify_newlines s = s"
  unfolding unify_newlines_def by (simp add: replace_no_CR) (auto intro: map_idI)

text \<open>A source the judge can be given.\<close>

definition proper_source :: "int \<Rightarrow> string \<Rightarrow> bool" where
  "proper_source maximum s \<longleftrightarrow> py_strip s \<noteq> [] \<and> NUL \<notin> set s \<and> CR \<notin> set s \<and> int (length (utf8 s)) \<le> maximum"

lemma normalize_Inr: "normalize_pasted_source s m = Inr t \<longleftrightarrow> t = unify_newlines s \<and> proper_source m t"
  using unify_no_CR [of s] by (auto simp: normalize_pasted_source_def proper_source_def Let_def split: if_splits)


lemma uploaded_proper: "normalize_uploaded_source E p = Inr t \<Longrightarrow> proper_source (sb_maximum E) t"
  by (auto simp: normalize_uploaded_source_def normalize_Inr split: if_splits option.splits)

section \<open>What a request leaves alone\<close>

text \<open>A route that only reads.\<close>

lemma stable_world_reading [stable_rules]: "stable P (reading f)"
  by (simp add: reading_def stable_rules)

lemma stable_context [stable_rules]: "stable P (web_submit_context E tok)"
  unfolding web_submit_context_def by (intro stable_rules)

lemma context_same: "web_submit_context E tok w = (r, w') \<Longrightarrow> w' = w"
  using stableD [OF stable_context [of "\<lambda>x. x = w"]] by blast

lemma stable_logged_in [stable_rules]: "stable P m \<Longrightarrow> stable P (logged_in E tok m)"
  unfolding logged_in_def by (intro stable_rules)

lemma stable_exclusively [stable_rules]:
  assumes "stable (\<lambda>w. base w = d) m"
  shows "stable (\<lambda>w. base w = d) (exclusively tid m)"
proof -
  have "stable (\<lambda>w. base w = d) (enter tid)"
    unfolding enter_def by (intro stable_rules stable_modify) simp
  moreover have "stable (\<lambda>w. base w = d) (\<lambda>w. case m w of (r, w') \<Rightarrow> (r, leave tid w'))"
    using assms by (simp add: stable_def leave_def split: prod.split) (metis snd_conv)
  ultimately show ?thesis unfolding exclusively_def by (rule stable_then)
qed

lemma stable_formal [stable_rules]: "stable (\<lambda>w. base w = d) (read_formal_source H F tid u problem maximum)"
  unfolding read_formal_source_def formal_seat_def by (intro stable_rules)

text \<open>The problem and the nonce of a request that hands in a program.\<close>

fun handed_in :: "visit \<Rightarrow> (string \<times> string) option" where
  "handed_in (Formal problem nonce) = Some (problem, nonce)"
| "handed_in (Upload problem nonce f content) = Some (problem, nonce)"
| "handed_in _ = None"

lemma reading_routes:
  assumes "handed_in v = None"
  shows "stable (\<lambda>w. base w = d) (serve E tok v)"
  using assms
  by (cases v) (simp_all add: web_submit_status_def web_submit_page_def web_submit_login_def web_submit_logout_def web_submit_paper_def
      web_submit_edit_def web_submit_view_def web_submit_download_def web_submit_paste_def stable_rules)

section \<open>Accepting\<close>

text \<open>The row that a request adds, for the seat and the contest behind its token.\<close>

definition fresh_submission :: "submit_env \<Rightarrow> bound_seat \<Rightarrow> contest \<Rightarrow> string \<Rightarrow> string \<Rightarrow> db \<Rightarrow> submission \<Rightarrow> bool" where
  "fresh_submission E seat c problem nonce d row \<longleftrightarrow> w_id row = web_seq d + 1
     \<and> w_tid row = c_tid c \<and> w_uid row = b_uid seat \<and> w_problem row = problem \<and> w_client_nonce row = clean_nonce nonce
     \<and> proper_source (sb_maximum E) (w_source row) \<and> w_judge_source row = w_source row
     \<and> w_submission_session row = c_submission_session c \<and> problem_pid c problem = Inr (w_judge_pid row)
     \<and> w_accepted_at_ms row = sb_accepted E \<and> w_judge_state row = Pending"

lemma enqueue_changes:
  assumes "get_contest (c_tid c) (base w) = Some c" and "proper_source (sb_maximum E) source"
    and "enqueue_web_source E seat c problem source nonce w = (r, w')" and "base w' \<noteq> base w"
  shows "c_state c = Ready \<and> allow_new E c = Inr True \<and> valid_nonce (clean_nonce nonce) \<and> r \<in> range Inr
    \<and> (\<exists>row. fresh_submission E seat c problem nonce (base w) row
        \<and> base w' = (base w)\<lparr>web_submissions := web_submissions (base w) @ [row], web_seq := web_seq (base w) + 1\<rparr>)"
proof -
  obtain g allowed pid where g: "sb_judge E = Some g" "allow_new E c = Inr allowed" "valid_nonce (clean_nonce nonce)"
      "problem_pid c problem = Inr pid"
    using assms(3,4) by (auto simp: enqueue_web_source_def eff_defs split: option.splits sum.splits if_splits)
  let ?e = "judge_enqueue (sb_hash E) (sb_dt E) g (c_submission_session c) (c_tid c) (b_uid seat) problem pid source source
      (map (issue_text problem) (check_code source problem)) (clean_nonce nonce) (sb_accepted E) allowed None (base w)"
  have run: "handle (store (judge_enqueue (sb_hash E) (sb_dt E) g (c_submission_session c) (c_tid c) (b_uid seat) problem pid source source
      (map (issue_text problem) (check_code source problem)) (clean_nonce nonce) (sb_accepted E) allowed None))
       (\<lambda>x. raise (enqueue_error x)) w = (r, w')"
    using assms(3) by (simp add: enqueue_web_source_def g andThen_def [of "require _ _"] require_def)
  then obtain row b d' where e: "?e = Inr ((row, b), d')" "r = Inr (row, b)" "w' = w\<lparr>base := d'\<rparr>"
    using assms(4) by (auto simp: eff_defs split: sum.splits)
  then have "g_lang g \<noteq> []" by (auto simp: judge_enqueue_def Let_def split: if_splits)
  with e(1) obtain q where q: "enqueue_web_submission (sb_hash E) (sb_dt E) q (base w) = Inr ((row, b), d')"
    "q_tid q = c_tid c" "q_uid q = b_uid seat" "q_problem q = problem" "q_source q = source" "q_client_nonce q = clean_nonce nonce"
    "q_submission_session q = c_submission_session c" "q_judge_pid q = pid" "q_judge_source q = source"
    "q_accepted_at_ms q = sb_accepted E" "q_allow_new q = allowed"
    by (fastforce simp: judge_enqueue_def Let_def)
  from q(1) show ?thesis
  proof (cases rule: enqueue_cases)
    case replay
    with e(3) assms(4) show ?thesis by simp
  next
    case (new c')
    then have "c' = c" using assms(1) q(2) by simp
    with new(5) have "c_state c = Ready" by (auto simp: window_error_def split: if_splits)
    moreover have "fresh_submission E seat c problem nonce (base w) row"
      using assms(2) by (simp add: fresh_submission_def new(8) new_row_def q g)
    moreover have "allowed" using new(4) q(11) by simp
    ultimately show ?thesis using g e(2,3) new(9) by auto
  qed
qed


lemma accept_changes:
  assumes "get_contest (c_tid c) (base w) = Some c"
    and "accept_payload E tok seat c problem nonce payload w = (r, w')" and "base w' \<noteq> base w"
  shows "c_state c = Ready \<and> allow_new E c = Inr True \<and> valid_nonce (clean_nonce nonce) \<and> r = Inr (ToSubmit (saved_url tok problem))
    \<and> (\<exists>row. fresh_submission E seat c problem nonce (base w) row
        \<and> base w' = (base w)\<lparr>web_submissions := web_submissions (base w) @ [row], web_seq := web_seq (base w) + 1\<rparr>)"
proof -
  obtain source where source: "normalize_uploaded_source E payload = Inr source"
    using assms(2,3) by (cases "normalize_uploaded_source E payload") (auto simp: accept_payload_def eff_defs)
  obtain r1 w1 where e: "enqueue_web_source E seat c problem source nonce w = (r1, w1)" by fastforce
  have w1: "w1 = w'" "r = (case r1 of Inl x \<Rightarrow> Inl x | Inr y \<Rightarrow> Inr (ToSubmit (saved_url tok problem)))"
    using assms(2) e by (auto simp: accept_payload_def source andThen_def ret_def split: sum.splits)
  from enqueue_changes [OF assms(1) uploaded_proper [OF source] e] assms(3) w1 show ?thesis by auto
qed

text \<open>What a successful lookup of the token has found.\<close>

definition token_seat :: "submit_env \<Rightarrow> string \<Rightarrow> db \<Rightarrow> bound_seat \<Rightarrow> contest \<Rightarrow> bool" where
  "token_seat E tok d seat c \<longleftrightarrow> seat_by_submit_token tok d = Some seat \<and> get_contest (b_tid seat) d = Some c
     \<and> (\<exists>pool assigned. seat_pool (b_tid seat) d = Inr pool \<and> seat_pool_assignment (b_tid seat) (b_uid seat) d = Inr assigned
        \<and> seat_usable E c (pool \<noteq> None) assigned)"

lemma context_run:
  assumes "web_submit_context E tok w = (Inr (seat, c, problems, latest), w')"
  shows "token_seat E tok (base w) seat c \<and> c_files c = Some problems \<and> c_tid c = b_tid seat
    \<and> latest = latest_web_submissions (b_tid seat) (b_uid seat) (base w) \<and> w' = w"
  using assms
  by (auto simp: web_submit_context_def token_seat_def eff_defs get_contest_def split: option.splits sum.splits if_splits
      dest: find_Some_iff_mem)


section \<open>The routes\<close>

lemma logged_in_run:
  assumes "logged_in E tok m w = (r, w')"
  shows "w' = w \<and> submit_authenticated E tok \<noteq> Inr True \<or> submit_authenticated E tok = Inr True \<and> m w = (r, w')"
  using assms by (auto simp: logged_in_def eff_defs split: sum.splits if_splits)

lemma same_base: "stable (\<lambda>w. base w = d) m \<Longrightarrow> m w = (r, w') \<Longrightarrow> base w = d \<Longrightarrow> base w' = d"
  by (auto dest: stableD)

text \<open>A request that changes the database has come to the acceptance of a source, from the same database.\<close>

lemma handed_in_accepts:
  assumes run: "serve E tok v w = (r, w')" and changed: "base w' \<noteq> base w"
  shows "\<exists>problem nonce seat c problems payload w1. handed_in v = Some (problem, nonce) \<and> token_seat E tok (base w) seat c
    \<and> c_tid c = b_tid seat \<and> c_files c = Some problems \<and> problem \<in> set problems \<and> submit_authenticated E tok = Inr True
    \<and> base w1 = base w \<and> accept_payload E tok seat c problem nonce payload w1 = (r, w')"
proof -
  have "handed_in v \<noteq> None" using same_base [OF reading_routes run] changed by blast
  then consider (formal) problem nonce where "v = Formal problem nonce"
    | (upload) problem nonce f content where "v = Upload problem nonce f content"
    by (cases v) auto
  then show ?thesis
  proof cases
    case formal
    obtain seat c problems latest where ctx: "web_submit_context E tok w = (Inr (seat, c, problems, latest), w)"
      using run changed unfolding formal serve.simps web_submit_formal_file_def
      by (auto simp: andThen_def split: prod.splits sum.splits dest: context_same)
    note found = context_run [OF ctx]
    note run' = run [unfolded formal serve.simps web_submit_formal_file_def andThen_Inr [of "web_submit_context E tok" w, OF ctx] prod.case]
    have open': "submit_authenticated E tok = Inr True" "problem \<in> set problems" "map_of latest problem = None" "submission_window_open E c"
      using run' changed by (auto simp: logged_in_def eff_defs split: sum.splits if_splits)
    obtain r1 w1 where f: "read_formal_source (sb_hash E) (sb_formal E) (c_tid c) (b_uid seat) problem (sb_maximum E) w = (r1, w1)"
      by fastforce
    have w1: "base w1 = base w" using same_base [OF stable_formal f] by simp
    with run' changed open' f obtain payload where "accept_payload E tok seat c problem nonce payload w1 = (r, w')"
      by (auto simp: logged_in_def eff_defs split: sum.splits option.splits)
    moreover have "handed_in v = Some (problem, nonce)" using formal by simp
    ultimately show ?thesis using found open' w1 by blast
  next
    case upload
    obtain seat c problems latest where ctx: "web_submit_context E tok w = (Inr (seat, c, problems, latest), w)"
      using run changed unfolding upload serve.simps web_submit_code_def
      by (auto simp: andThen_def split: prod.splits sum.splits dest: context_same)
    note found = context_run [OF ctx]
    note run' = run [unfolded upload serve.simps web_submit_code_def andThen_Inr [of "web_submit_context E tok" w, OF ctx] prod.case]
    have "submit_authenticated E tok = Inr True \<and> problem \<in> set problems
        \<and> accept_payload E tok seat c problem nonce (take (nat (sb_maximum E + 1)) content) w = (r, w')"
      using run' changed by (auto simp: logged_in_def eff_defs world_run split: sum.splits if_splits)
    moreover have "handed_in v = Some (problem, nonce)" using upload by simp
    ultimately show ?thesis using found by blast
  qed
qed



section \<open>A request that is sent again\<close>

lemma upload_accepts:
  assumes run: "serve E tok (Upload problem nonce f content) w = (r, w')" and changed: "base w' \<noteq> base w"
  shows "\<exists>seat c problems. token_seat E tok (base w) seat c \<and> c_tid c = b_tid seat \<and> c_files c = Some problems
    \<and> problem \<in> set problems \<and> cpp_file f \<and> submit_authenticated E tok = Inr True
    \<and> accept_payload E tok seat c problem nonce (take (nat (sb_maximum E + 1)) content) w = (r, w')"
proof -
  obtain seat c problems latest where ctx: "web_submit_context E tok w = (Inr (seat, c, problems, latest), w)"
    using run changed unfolding serve.simps web_submit_code_def
    by (auto simp: andThen_def split: prod.splits sum.splits dest: context_same)
  note run' = run [unfolded serve.simps web_submit_code_def andThen_Inr [of "web_submit_context E tok" w, OF ctx] prod.case]
  have "submit_authenticated E tok = Inr True \<and> problem \<in> set problems \<and> cpp_file f
      \<and> accept_payload E tok seat c problem nonce (take (nat (sb_maximum E + 1)) content) w = (r, w')"
    using run' changed by (auto simp: logged_in_def eff_defs world_run split: sum.splits if_splits)
  with context_run [OF ctx] show ?thesis by blast
qed

lemma find_snoc: "find P xs = None \<Longrightarrow> find P (xs @ [x]) = (if P x then Some x else None)"
  by (induction xs) (auto split: if_splits)

lemma enqueue_accepts:
  assumes "enqueue_web_submission H dt q d = Inr ((row, b), d')"
  shows "accepts q d"
proof -
  have "q_judge_pid q \<noteq> []" using request_ok [OF enqueue_payload(3) [OF assms]] by simp
  then show ?thesis using assms by (auto simp: enqueue_web_submission_def accepts_def split: option.splits if_splits)
qed

text \<open>The request that the judge's queue is given.\<close>

definition judge_request :: "submit_env \<Rightarrow> judge \<Rightarrow> int \<Rightarrow> contest \<Rightarrow> string \<Rightarrow> string \<Rightarrow> string \<Rightarrow> string \<Rightarrow> bool \<Rightarrow> submit_request" where
  "judge_request E g u c problem pid source nonce allowed = \<lparr>q_tid = c_tid c, q_uid = u, q_problem = problem, q_source = source,
     q_client_nonce = clean_nonce nonce,
     q_submission_id = realtime_submission_id (sb_hash E) (c_submission_session c) (c_tid c) u pid (clean_nonce nonce),
     q_submission_session = c_submission_session c, q_judge_pid = pid, q_judge_lang = g_lang g, q_judge_source = source,
     q_issues = map (issue_text problem) (check_code source problem), q_accepted_at_ms = sb_accepted E, q_allow_new = allowed\<rparr>"

lemma enqueue_eq:
  assumes "sb_judge E = Some g" "g_lang g \<noteq> []" "allow_new E c = Inr allowed" "valid_nonce (clean_nonce nonce)" "problem_pid c problem = Inr pid"
  shows "enqueue_web_source E seat c problem source nonce w =
    (case enqueue_web_submission (sb_hash E) (sb_dt E) (judge_request E g (b_uid seat) c problem pid source nonce allowed) (base w) of
       Inl x \<Rightarrow> (Inl (enqueue_error x), w) | Inr (y, d) \<Rightarrow> (Inr y, w\<lparr>base := d\<rparr>))"
  using assms(2) by (simp add: enqueue_web_source_def assms judge_enqueue_def judge_request_def eff_defs split: sum.split)

text \<open>What does not depend on the clock: the configuration of the service and what the contest's row says of the problems.\<close>

definition same_service :: "submit_env \<Rightarrow> submit_env \<Rightarrow> bool" where
  "same_service E F \<longleftrightarrow> sb_hash F = sb_hash E \<and> sb_codec F = sb_codec E \<and> sb_maximum F = sb_maximum E
     \<and> sb_judge F = sb_judge E"

definition same_problems :: "contest \<Rightarrow> contest \<Rightarrow> bool" where
  "same_problems c e \<longleftrightarrow> c_tid e = c_tid c \<and> c_submission_session e = c_submission_session c \<and> c_pids e = c_pids c \<and> c_files e = c_files c"

definition receipt_of :: "contest \<Rightarrow> bound_seat \<Rightarrow> string \<Rightarrow> string \<Rightarrow> db \<Rightarrow> submission option" where
  "receipt_of c seat problem nonce d = get_web_submission_by_nonce (c_tid c) (b_uid seat) problem (clean_nonce nonce) d"

lemma enqueue_again:
  assumes first: "enqueue_web_source E seat c problem source nonce w = (Inr x, w1)" "base w1 \<noteq> base w" "get_contest (c_tid c) (base w) = Some c"
    and same: "same_service E F" "same_problems c e" "b_uid seat2 = b_uid seat" "get_contest (c_tid e) (base w2) = Some e"
    and now: "allow_new F e = Inr al" "0 < sb_accepted F"
    and kept: "map_option payload_of (receipt_of c seat problem nonce (base w2)) = map_option payload_of (receipt_of c seat problem nonce (base w1))"
  shows "valid_nonce (clean_nonce nonce) \<and> receipt_of c seat problem nonce (base w2) \<noteq> None
    \<and> (\<exists>y. enqueue_web_source F seat2 e problem source nonce w2 = (Inr y, w2))"
proof -
  obtain g allowed pid where g: "sb_judge E = Some g" "allow_new E c = Inr allowed" "valid_nonce (clean_nonce nonce)"
      "problem_pid c problem = Inr pid"
    using first(1) by (auto simp: enqueue_web_source_def eff_defs split: option.splits sum.splits if_splits)
  have lang: "g_lang g \<noteq> []"
    using first(1) by (auto simp: enqueue_web_source_def g judge_enqueue_def eff_defs split: sum.splits if_splits)
  let ?q = "judge_request E g (b_uid seat) c problem pid source nonce allowed"
  let ?p = "judge_request F g (b_uid seat2) e problem pid source nonce al"
  obtain row b d where q: "enqueue_web_submission (sb_hash E) (sb_dt E) ?q (base w) = Inr ((row, b), d)" "w1 = w\<lparr>base := d\<rparr>"
    using first(1) unfolding enqueue_eq [OF g(1) lang g(2-4)] by (auto split: sum.splits)
  from q(1) show ?thesis
  proof (cases rule: enqueue_cases)
    case replay
    with q(2) first(2) show ?thesis by simp
  next
    case (new c')
    then have c': "c' = c" using first(3) by (simp add: judge_request_def)
    have "receipt_of c seat problem nonce (base w1) = Some row"
      using new(6) by (simp add: receipt_of_def q(2) new(8,9) judge_request_def get_web_submission_by_nonce_def new_row_def find_snoc)
    with kept obtain row2 where row2: "receipt_of c seat problem nonce (base w2) = Some row2" "payload_of row2 = payload_of row" by auto
    have "same_payload (sb_hash E) ?q row" by (simp add: new(8) same_payload_def new_row_def)
    then have "same_payload (sb_hash E) ?q row2" using row2(2) by (rule same_payload_le)
    then have same_row: "same_payload (sb_hash F) ?p row2"
      using same(1-3) by (simp add: same_payload_def judge_request_def issues_json_def same_service_def same_problems_def)
    have "accepts ?q (base w)" using enqueue_accepts [OF q(1)] by simp
    then have "accepts ?p (base w2)"
      using first(3) same(2,4) by (auto simp: accepts_def judge_request_def same_problems_def split: option.splits)
    moreover have "request_error ?p = None"
      using new(3) now(2) same(1-3) by (auto simp: request_error_def judge_request_def same_service_def same_problems_def split: if_splits)
    moreover have "get_web_submission_by_nonce (q_tid ?p) (q_uid ?p) (q_problem ?p) (q_client_nonce ?p) (base w2) = Some row2"
      using row2(1) same(2,3) by (simp add: receipt_of_def judge_request_def same_problems_def)
    ultimately have "enqueue_web_submission (sb_hash F) (sb_dt F) ?p (base w2) = Inr ((row2, True), base w2)"
      using enqueue_known_nonce same_row by (simp add: checked_replay_def)
    moreover have "sb_judge F = Some g" "problem_pid e problem = Inr pid"
      using g(1,4) same(1,2) by (simp_all add: same_service_def same_problems_def problem_pid_def)
    ultimately show ?thesis
      using g(3) row2(1) lang now(1) by (simp add: enqueue_eq) blast
  qed
qed



section \<open>What a reply shows\<close>

lemma latest_own: "(p, row) \<in> set (latest_web_submissions tid u d)
    \<Longrightarrow> row \<in> set (web_submissions d) \<and> w_tid row = tid \<and> w_uid row = u \<and> w_problem row = p"
  by (auto simp: latest_web_submissions_def Let_def)

text \<open>The rows of the outbox that a reply discloses, given those of the token's owner.\<close>

definition discloses :: "(submission \<Rightarrow> bool) \<Rightarrow> reply \<Rightarrow> bool" where
  "discloses own reply = (case reply of
     SubmitPage (seat, c, problems, latest) ck x nonces fb rv \<Rightarrow> list_all own (map snd latest)
   | ViewPage row \<Rightarrow> own row
   | SourceFile name text \<Rightarrow> \<exists>row. own row \<and> text = utf8 (w_source row)
   | _ \<Rightarrow> True)"

text \<open>Replies with nothing of a student in them.\<close>

definition public :: "reply \<Rightarrow> bool" where
  "public reply = (case reply of
     LoginPage code text \<Rightarrow> True | ToSubmit url \<Rightarrow> True | ToSubmitWith url name v secure \<Rightarrow> True | ToSubmitWithout url name \<Rightarrow> True
   | _ \<Rightarrow> False)"


definition own_row :: "bound_seat \<Rightarrow> db \<Rightarrow> submission \<Rightarrow> bool" where
  "own_row seat d row \<longleftrightarrow> row \<in> set (web_submissions d) \<and> w_tid row = b_tid seat \<and> w_uid row = b_uid seat"

lemma logged_in_Inr:
  assumes "logged_in E tok m w = (Inr reply, w')"
  shows "public reply \<or> submit_authenticated E tok = Inr True \<and> m w = (Inr reply, w')"
  using assms by (auto simp: logged_in_def eff_defs public_def split: sum.splits if_splits)

lemma received_own:
  assumes "received problem problems latest = Inr row" and "latest = latest_web_submissions (b_tid seat) (b_uid seat) d"
  shows "own_row seat d row"
  using assms latest_own [of problem row] by (auto simp: received_def own_row_def split: if_splits dest: map_of_SomeD)

lemma latest_all_own: "list_all (own_row seat d) (map snd (latest_web_submissions (b_tid seat) (b_uid seat) d))"
  by (auto simp: list_all_iff own_row_def dest: latest_own)

text \<open>C8: A token shows its own student's work and nobody else's: every reply is either one of the pages that hold
  nothing of a student, or it went to a browser that is logged in for the token and every submission in it
  belongs to the student and the contest of the token's seat.\<close>

theorem replies_are_private:
  assumes run: "serve E tok v w = (Inr reply, w')" and seat: "seat_by_submit_token tok (base w) = Some seat"
  shows "public reply \<or> submit_authenticated E tok = Inr True \<and> discloses (own_row seat (base w)) reply"
proof -
  let ?ok = "public reply \<or> submit_authenticated E tok = Inr True \<and> discloses (own_row seat (base w)) reply"
  have found: "s = seat \<and> latest = latest_web_submissions (b_tid seat) (b_uid seat) (base w) \<and> w1 = w"
    if "web_submit_context E tok w = (Inr (s, c, problems, latest), w1)" for s c problems latest w1
    using context_run [OF that] seat by (simp add: token_seat_def)
  show ?thesis
  proof (cases v)
    case Status
    with run show ?thesis
      by (auto simp: web_submit_status_def discloses_def eff_defs split: prod.splits sum.splits if_splits)
  next
    case (Page saved login error problem)
    with run obtain s c problems latest w1 where ctx: "web_submit_context E tok w = (Inr (s, c, problems, latest), w1)"
      by (auto simp: web_submit_page_def andThen_def split: prod.splits sum.splits)
    note f = found [OF ctx]
    have "web_submit_page E tok saved login error problem w = (Inr reply, w')" using run Page by simp
    then show ?thesis
      using latest_all_own [of seat "base w"] f
      unfolding web_submit_page_def andThen_Inr [of "web_submit_context E tok" w, OF ctx] prod.case
      by (auto simp: eff_defs discloses_def public_def split: sum.splits if_splits)
  next
    case (View problem)
    with run obtain s c problems latest w1 where ctx: "web_submit_context E tok w = (Inr (s, c, problems, latest), w1)"
      by (auto simp: web_submit_view_def andThen_def split: prod.splits sum.splits)
    note f = found [OF ctx]
    have "web_submit_view E tok problem w = (Inr reply, w')" using run View by simp
    from logged_in_Inr [OF this [unfolded web_submit_view_def andThen_Inr [of "web_submit_context E tok" w, OF ctx] prod.case]]
    show ?thesis using f by (auto simp: eff_defs discloses_def split: sum.splits dest!: received_own [OF _ refl])
  next
    case (Download problem)
    with run obtain s c problems latest w1 where ctx: "web_submit_context E tok w = (Inr (s, c, problems, latest), w1)"
      by (auto simp: web_submit_download_def andThen_def split: prod.splits sum.splits)
    note f = found [OF ctx]
    have "web_submit_download E tok problem w = (Inr reply, w')" using run Download by simp
    from logged_in_Inr [OF this [unfolded web_submit_download_def andThen_Inr [of "web_submit_context E tok" w, OF ctx] prod.case]]
    show ?thesis using f by (auto simp: eff_defs discloses_def split: sum.splits dest!: received_own [OF _ refl])
  qed (use run in \<open>auto simp: web_submit_formal_file_def web_submit_login_def web_submit_logout_def web_submit_paper_def
      web_submit_edit_def web_submit_code_def web_submit_paste_def accept_payload_def logged_in_def eff_defs discloses_def public_def
      split: prod.splits sum.splits option.splits if_splits\<close>)
qed

end
