(* ===== verification/CollectThms.thy ===== *)
theory CollectThms
  imports CollectFrame ContestThms
begin

text \<open>
  The collection as a whole: it either brings the contest to its safe wait with evidence, or it leaves it in
  the error state with the students kept from working. And what a second attempt meets.
\<close>

section \<open>The contest during a collection\<close>

definition contest_of :: "string \<Rightarrow> hall \<Rightarrow> contest option" where
  "contest_of tid h = get_contest tid (base (h_world h))"

definition registered :: "string \<Rightarrow> db \<Rightarrow> bool" where
  "registered tid d \<longleftrightarrow> distinct (map c_tid (contests d)) \<and> get_contest tid d \<noteq> None"

lemma get_contest_cong: "contests d' = contests d \<Longrightarrow> get_contest tid d' = get_contest tid d"
  by (simp add: get_contest_def)

lemma get_contest_set_state: "get_contest tid (set_state dt ms tid s m d)
    = map_option (\<lambda>c. if c_tid c = tid then c\<lparr>c_state := s, c_message := m\<rparr> else c) (get_contest tid d)"
  by (simp add: set_state_def get_contest_update)

lemma get_contest_tid: "get_contest tid d = Some c \<Longrightarrow> c_tid c = tid"
  by (auto simp: get_contest_def find_Some_iff)

lemma registered_update:
  assumes "registered tid d" and "\<And>c. c_tid (f c) = c_tid c"
  shows "registered tid (update_contest p f d)"
proof -
  have "map c_tid (contests (update_contest p f d)) = map c_tid (contests d)"
    by (simp add: update_contest_simps map_sql_update assms(2))
  then show ?thesis using assms by (auto simp: registered_def get_contest_update)
qed

lemma registered_audit [simp]: "registered tid (add_audit dt t actor action outcome details ms d) = registered tid d"
  by (simp add: registered_def add_audit_simps)

lemma registered_set_state: "registered tid d \<Longrightarrow> registered tid (set_state dt ms tid s m d)"
  by (simp add: set_state_def registered_update)

lemma collect_keeps_registered: "collect_keeps tid (registered tid)"
proof -
  have "registered tid d'" if "registered tid d" "put_seat_pool dt tid prev v d = Inr (n, d')" for dt prev v n d d'
    using that(1) put_pool_tables [OF that(2)] by (simp add: registered_def get_contest_def)
  then show ?thesis by (auto simp: collect_keeps_def registered_set_state)
qed

lemma contest_message: "\<lbrakk>set_message E tid s m h = (r, h'); contest_of tid h = Some c\<rbrakk>
    \<Longrightarrow> r = Inr () \<and> contest_of tid h' = Some (c\<lparr>c_state := s, c_message := m\<rparr>)
      \<and> h_frozen h' = h_frozen h \<and> h_stopped h' = h_stopped h \<and> h_closed h' = h_closed h"
  using get_contest_tid [of tid "base (h_world h)" c]
  by (auto simp: set_message_def on_world_def contest_of_def eff_defs get_contest_set_state)

section \<open>The handler\<close>

text \<open>Whatever went wrong: the error is stored, and the students are kept from working unless the server could not
  be stopped.\<close>

lemma handler_bars:
  assumes q: "quiet tid (registered tid) E" and h: "registered tid (base (h_world h))"
    and run: "failed_collection E tid x h = (r, h')"
  shows "r = Inl x \<and> (\<exists>c. contest_of tid h' = Some c \<and> c_state c = Errored)
     \<and> (h_frozen h' \<or> h_stopped h' \<or> (\<exists>y. stop_polls False ''UNKNOWN'' (ce_stop E 1) = Inl y))"
proof -
  let ?z = "if \<exists>y. stop_polls False ''UNKNOWN'' (ce_stop E 1) = Inl y then Unbarred else Barred"
  define h1 where "h1 = (if h_frozen h then h else case stop_polls False ''UNKNOWN'' (ce_stop E 1) of
    Inl y \<Rightarrow> h | Inr u \<Rightarrow> h\<lparr>h_stopped := True\<rparr>)"
  have "(if h_frozen h then ret () else quietly (stop_server_best_effort E 1)) h = (Inr (), h1)"
    by (simp add: h1_def stop_server_best_effort_def eff_defs split: sum.split)
  then have run1: "andThen (asks h_final) (\<lambda>f. andThen (case f of None \<Rightarrow> ret ()
      | Some (ss, files) \<Rightarrow> quietly (finalize_realtime_web E 2 tid ss files)) (\<lambda>_.
      andThen (set_message E tid Errored (exn_text x)) (\<lambda>_. raise x))) h1 = (r, h')"
    using run by (simp add: failed_collection_def andThen_def asks_def)
  have k1: "kept (registered tid) ?z h1"
    using h by (auto simp: kept_def h1_def split: sum.split)
  let ?F = "case h_final h1 of None \<Rightarrow> ret () | Some (ss, files) \<Rightarrow> quietly (finalize_realtime_web E 2 tid ss files)"
  have st: "stable (kept (registered tid) ?z) ?F" by (intro stable_rules; (rule q)?)
  have "fst (?F h1) = Inr ()" by (simp add: quietly_fst ret_def split: option.split prod.split)
  then obtain h2 where F: "?F h1 = (Inr (), h2)" by (metis prod.collapse)
  from stableD [OF st k1 this] have k2: "kept (registered tid) ?z h2" .
  then obtain c where c: "contest_of tid h2 = Some c" by (auto simp: kept_def registered_def contest_of_def)
  obtain r3 h3 where m: "set_message E tid Errored (exn_text x) h2 = (r3, h3)" by fastforce
  from contest_message [OF m c] run1 F m have "r = Inl x" "h' = h3"
    by (auto simp: andThen_def asks_def raise_def)
  with contest_message [OF m c] k2 show ?thesis by (auto simp: kept_def split: if_splits)
qed

section \<open>The way to the safe wait\<close>

text \<open>The contest waits safely: its row names a receipt that was written, with the same run and shutdown time, and
  the receipt names every document of the evidence.\<close>

definition sealed :: "collect_env \<Rightarrow> string \<Rightarrow> hall \<Rightarrow> bool" where
  "sealed E tid h \<longleftrightarrow> (\<exists>c r digest. contest_of tid h = Some c \<and> c_state c = SafeWait
     \<and> ReceiptDoc r \<in> set (h_docs h) \<and> ce_write E (ReceiptDoc r) = Inr digest
     \<and> c_collection_receipt_sha256 c = map lower_char digest
     \<and> cr_tid r = tid \<and> cr_run_id r = c_collection_run_id c \<and> cr_shutdown_after_ms r = c_shutdown_after_ms c
     \<and> c_collection_completed_at_ms c \<le> c_shutdown_after_ms c \<and> c_shutdown_verified_at_ms c = 0
     \<and> set (map fst (cr_files r)) = set expected_files)"

lemma sealed_cong: "\<lbrakk>sealed E tid h; contest_of tid h' = contest_of tid h; h_docs h' = h_docs h\<rbrakk> \<Longrightarrow> sealed E tid h'"
  by (simp add: sealed_def)

lemma set_dict_set: "set (map fst (dict_set k v d)) = insert k (set (map fst d))"
  by (induction k v d rule: dict_set.induct) auto

lemma write_doc_Inr: "write_doc E x h = (Inr (n, v), h') \<longleftrightarrow> ce_write E x = Inr v \<and> n = doc_name x \<and> h' = h\<lparr>h_docs := h_docs h @ [x]\<rparr>"
  by (auto simp: write_doc_def eff_defs split: sum.splits)

lemma add_doc_Inr: "add_doc E x acc h = (Inr acc', h') \<Longrightarrow> set (map fst acc') = insert (doc_name x) (set (map fst acc))"
  by (auto simp: add_doc_def write_doc_Inr set_dict_set ret_def simp del: set_map elim!: andThen_InrE)

lemma docs_names:
  "forEach xs (add_doc E) acc h = (Inr digests, h') \<Longrightarrow> set (map fst digests) = set (map fst acc) \<union> doc_name ` set xs"
proof (induction xs arbitrary: acc h)
  case (Cons x xs)
  from Cons.prems obtain acc1 h1 where "add_doc E x acc h = (Inr acc1, h1)" and "forEach xs (add_doc E) acc1 h1 = (Inr digests, h')"
    unfolding forEach.simps by (rule andThen_InrE)
  from Cons.IH [OF this(2)] add_doc_Inr [OF this(1)] show ?case by simp
qed (simp add: ret_def)

lemma reports_names:
  assumes "write_reports E report h = (Inr digests, h')"
  shows "set (map fst digests) = {''folder_report.json'', ''web_report.json'', ''selection.json'', ''report.json''}"
  using docs_names [OF assms [unfolded write_reports_def]] by simp

lemma one_contest:
  assumes "distinct (map c_tid (contests d))" and "rowcount (\<lambda>c. c_tid c = tid \<and> q c) (contests d) = 1"
  shows "\<exists>c. get_contest tid d = Some c \<and> c_tid c = tid \<and> q c"
proof -
  let ?p = "\<lambda>c. c_tid c = tid \<and> q c"
  have r: "rowcount ?p (contests d) = (case get_contest tid d of None \<Rightarrow> 0 | Some c \<Rightarrow> if ?p c then 1 else 0)"
    unfolding get_contest_def by (rule rowcount_by_key [OF assms(1)]) simp
  show ?thesis
  proof (cases "get_contest tid d")
    case None
    with r assms(2) show ?thesis by simp
  next
    case (Some c)
    with r assms(2) have "(if ?p c then 1 else (0::nat)) = 1" by simp
    then have "?p c" by presburger
    with Some show ?thesis by blast
  qed
qed

lemma three_checks:
  "(if a then Inl x else if b then Inl y else if c then Inl z else Inr (e, d)) = Inr (t, d') \<Longrightarrow> \<not> c \<and> e = t \<and> d = d'"
  by (simp split: if_split_asm)

lemma enter_safe_wait_won:
  assumes "enter_safe_wait tid run dir receipt done_at after message d = Inr (True, d')"
    and "distinct (map c_tid (contests d))"
  shows "\<exists>c. get_contest tid d' = Some c \<and> c_state c = SafeWait \<and> c_collection_run_id c = run
    \<and> c_collection_receipt_sha256 c = map lower_char receipt \<and> c_collection_completed_at_ms c = done_at
    \<and> c_shutdown_after_ms c = after \<and> done_at \<le> after \<and> c_shutdown_verified_at_ms c = 0"
proof -
  let ?p = "\<lambda>c. c_tid c = tid \<and> c_state c = Collecting"
  let ?f = "\<lambda>c. c\<lparr>c_state := SafeWait, c_message := message, c_collection_run_id := run,
    c_collection_dir := py_strip dir, c_collection_receipt_sha256 := map lower_char receipt,
    c_collection_completed_at_ms := done_at, c_shutdown_after_ms := after, c_shutdown_verified_at_ms := 0\<rparr>"
  have t: "\<not> (done_at \<le> 0 \<or> after < done_at) \<and> (rowcount ?p (contests d) = 1) = True \<and> update_contest ?p ?f d = d'"
    by (rule three_checks [OF assms(1) [unfolded enter_safe_wait_def Let_def]])
  then have d': "update_contest ?p ?f d = d'" and one: "rowcount ?p (contests d) = 1" by (blast, blast)
  from t have "done_at \<le> after" by linarith
  from one_contest [OF assms(2) one] obtain c where "get_contest tid d = Some c" "?p c" by blast
  then show ?thesis using \<open>done_at \<le> after\<close> by (simp add: d' [symmetric] get_contest_update)
qed

lemma enter_safe_wait_registered:
  assumes "enter_safe_wait tid run dir receipt done_at after message d = Inr (b, d')" and "registered tid d"
  shows "registered tid d'"
proof -
  have "\<exists>p f. update_contest p f d = d' \<and> (\<forall>c. c_tid (f c) = c_tid c)"
    using three_checks [OF assms(1) [unfolded enter_safe_wait_def Let_def]] by (intro exI conjI) (rule conjunct2 [OF conjunct2], assumption, simp)
  then show ?thesis using registered_update [OF assms(2)] by blast
qed

lemma the_receipt_simps [simp]:
  "cr_tid (the_receipt E tid c k m ds) = tid" "cr_run_id (the_receipt E tid c k m ds) = ce_run_id E"
  "cr_shutdown_after_ms (the_receipt E tid c k m ds) = shutdown_time E c" "cr_files (the_receipt E tid c k m ds) = ds"
  by (simp_all add: the_receipt_def)

lemma seal_triple:
  assumes "set (map fst digests) = set expected_files - {''archive_manifest.json''}"
  shows "triple (kept (registered tid) AllFrozen) (seal_collection E tid c ss files digests)
    (\<lambda>_ h. sealed E tid h \<and> h_frozen h) (kept (registered tid) AllFrozen)"
proof -
  let ?K = "kept (registered tid) AllFrozen"
  let ?r = "\<lambda>n v. the_receipt E tid c (length ss) (length files) (dict_set n v digests)"
  have manifest: "triple ?K (write_doc E (ManifestDoc m)) (\<lambda>(n, v) h. ?K h \<and> n = ''archive_manifest.json'') ?K" for m
    by (auto simp: triple_def kept_def write_doc_def eff_defs split: sum.splits)
  have receipt: "triple (\<lambda>h. ?K h \<and> n = ''archive_manifest.json'') (write_doc E (ReceiptDoc (?r n v)))
      (\<lambda>(k, digest) h. ?K h \<and> n = ''archive_manifest.json'' \<and> ReceiptDoc (?r n v) \<in> set (h_docs h)
        \<and> ce_write E (ReceiptDoc (?r n v)) = Inr digest) ?K" for n v
    by (auto simp: triple_def kept_def write_doc_def eff_defs split: sum.splits)
  have wait: "triple (\<lambda>h. ?K h \<and> n = ''archive_manifest.json'' \<and> ReceiptDoc (?r n v) \<in> set (h_docs h)
        \<and> ce_write E (ReceiptDoc (?r n v)) = Inr digest)
      (andThen (on_world (store (enter_safe_wait tid (ce_run_id E) (ce_directory E) digest (ce_completed E)
         (shutdown_time E c) msg))) (\<lambda>entered. require entered x))
      (\<lambda>_ h. sealed E tid h \<and> h_frozen h) ?K" for n v digest msg x
    unfolding triple_def
  proof (intro allI impI)
    fix h
    assume h: "?K h \<and> n = ''archive_manifest.json'' \<and> ReceiptDoc (?r n v) \<in> set (h_docs h)
      \<and> ce_write E (ReceiptDoc (?r n v)) = Inr digest"
    let ?e = "enter_safe_wait tid (ce_run_id E) (ce_directory E) digest (ce_completed E) (shutdown_time E c) msg (base (h_world h))"
    have d: "distinct (map c_tid (contests (base (h_world h))))" using h by (simp add: kept_def registered_def)
    show "case andThen (on_world (store (enter_safe_wait tid (ce_run_id E) (ce_directory E) digest (ce_completed E)
         (shutdown_time E c) msg))) (\<lambda>entered. require entered x) h of
        (Inl e, s') \<Rightarrow> ?K s' | (Inr a, s') \<Rightarrow> sealed E tid s' \<and> h_frozen s'"
    proof (cases ?e)
      case (Inl y)
      then show ?thesis using h by (simp add: eff_defs on_world_def)
    next
      case (Inr q)
      obtain b d' where q: "q = (b, d')" by fastforce
      have "registered tid d'"
        using h enter_safe_wait_registered [of tid _ _ _ _ _ _ _ b d'] Inr q by (auto simp: kept_def)
      show ?thesis
      proof (cases b)
        case True
        then have won: "?e = Inr (True, d')" using Inr q by simp
        let ?h = "h\<lparr>h_world := (h_world h)\<lparr>base := d'\<rparr>\<rparr>"
        from enter_safe_wait_won [OF won d] obtain c' where c': "contest_of tid ?h = Some c'" "c_state c' = SafeWait"
          "c_collection_run_id c' = ce_run_id E" "c_collection_receipt_sha256 c' = map lower_char digest"
          "c_collection_completed_at_ms c' \<le> c_shutdown_after_ms c'" "c_shutdown_after_ms c' = shutdown_time E c"
          "c_shutdown_verified_at_ms c' = 0"
          by (auto simp: contest_of_def)
        have "set (map fst (cr_files (?r n v))) = set expected_files"
          using h assms by (auto simp: set_dict_set expected_files_def simp del: set_map)
        moreover have "ReceiptDoc (?r n v) \<in> set (h_docs h)" "ce_write E (ReceiptDoc (?r n v)) = Inr digest" using h by blast+
        ultimately have "sealed E tid ?h" using c' unfolding sealed_def
          by (intro exI [of _ c'] exI [of _ "?r n v"] exI [of _ digest]) simp
        then show ?thesis using h won by (simp add: eff_defs on_world_def kept_def)
      next
        case False
        with Inr q h \<open>registered tid d'\<close> show ?thesis by (simp add: eff_defs on_world_def kept_def)
      qed
    qed
  qed
  show ?thesis
    unfolding seal_collection_def
    by (rule triple_lift_then, assumption, rule triple_then [OF manifest], rule triple_prod,
        rule triple_conseq [OF triple_then [OF receipt]], rule triple_prod, rule triple_conseq [OF wait], auto)
qed

lemma transition_registered: "transition dt ms tid ss s m d = (b, d') \<Longrightarrow> registered tid' d \<Longrightarrow> registered tid' d'"
  by (auto simp: transition_def Let_def registered_update split: if_splits)

lemma claim_stable:
  assumes "\<And>dt ms m d b d'. C d \<Longrightarrow> transition dt ms tid [Ready, Errored] Collecting m d = (b, d') \<Longrightarrow> C d'"
  shows "stable (kept C z) (claim_collection E tid claimed)"
proof -
  have "stable (kept C z) (on_world (store (\<lambda>d. Inr (transition dt ms tid [Ready, Errored] Collecting m d))))" for dt ms m
    by (rule stable_on_store) (use assms in auto)
  then show ?thesis unfolding claim_collection_def by (intro stable_rules)
qed

lemma reach_stable [stable_rules]: "stable (kept C z) (reach_server E tid c)"
  unfolding reach_server_def by (intro stable_rules) simp_all

lemma claimed_contest:
  assumes "claim_collection E tid claimed h = (Inr c, h')"
  shows "get_contest tid (base (h_world h')) = Some c"
proof -
  obtain found h1 h2 where "on_world (reading (get_contest tid)) h1 = (Inr found, h2)"
    "lift (of_option (RuntimeError ''contest is not registered'') found) h2 = (Inr c, h')"
    using assms unfolding claim_collection_def by (elim andThen_InrE) blast
  then show ?thesis by (cases found) (auto simp: on_world_def eff_defs)
qed

lemma freeze_triple:
  assumes q: "quiet tid (registered tid) E"
  shows "triple (kept (registered tid) Unbarred) (freeze_seats H E tid c names)
    (\<lambda>_. kept (registered tid) AllFrozen) (kept (registered tid) Unbarred)"
proof -
  let ?K = "kept (registered tid)"
  have frozen: "triple (?K Unbarred) (modify (\<lambda>h. h\<lparr>h_frozen := True\<rparr>)) (\<lambda>_. ?K AllFrozen) (?K Unbarred)"
    by (rule triple_modify) (simp add: kept_def)
  have pool: "triple (?K AllFrozen) (on_world (step_stored_pool dt tid f)) (\<lambda>_. ?K AllFrozen) (?K Unbarred)" for dt f
    by (rule triple_weaken [OF stable_triple [OF quiet_step_pool [OF q, where z = AllFrozen]]]) (simp_all add: kept_def)
  have pause: "stable (?K Unbarred) (freeze_for_collection E names)"
    unfolding freeze_for_collection_def by (intro stable_rules)
  show ?thesis
    unfolding freeze_seats_def
    by (rule triple_then [OF stable_triple [OF stable_message [OF q]]], rule triple_then [OF stable_triple [OF pause]],
        rule triple_then [OF frozen], rule pool)
qed

lemma fetch_triple:
  assumes q: "quiet tid (registered tid) E"
  shows "triple (kept (registered tid) Unbarred) (fetch_answers H E tid c ss files)
    (\<lambda>_. kept (registered tid) AllFrozen) (kept (registered tid) Unbarred)"
proof -
  let ?K = "kept (registered tid)"
  have rest: "stable (?K AllFrozen) (andThen (finalize_realtime_web E 0 tid ss files) (\<lambda>_. andThen (download E tid) (\<lambda>tree.
      forEach ss (grade_seat H E tid files p tree) [])))" for p
    by (intro stable_rules; (rule q)?)
  show ?thesis
    unfolding fetch_answers_def
    by (rule triple_then [OF stable_triple [OF stable_reading]], rule triple_then [OF freeze_triple [OF q]],
        rule triple_weaken [OF stable_triple [OF rest]]) (simp_all add: kept_def)
qed

lemma deliver_triple:
  assumes q: "quiet tid (registered tid) E"
  shows "triple (kept (registered tid) AllFrozen) (deliver_answers H E tid c ss files report)
    (\<lambda>_ h. sealed E tid h \<and> h_frozen h) (kept (registered tid) AllFrozen)"
proof -
  let ?K = "kept (registered tid) AllFrozen"
  let ?names = "{''folder_report.json'', ''web_report.json'', ''selection.json'', ''report.json''}"
  have reports: "triple ?K (write_reports E report) (\<lambda>ds h. ?K h \<and> set (map fst ds) = ?names) ?K"
    using stable_docs(2) [of "registered tid" AllFrozen E report] reports_names
    unfolding stable_def triple_def by (auto split: prod.split sum.split simp del: set_map)
  have log: "triple (\<lambda>h. ?K h \<and> F) (write_doc E (SubmitDoc l)) (\<lambda>(n, v) h. ?K h \<and> F \<and> n = ''submit_log.json'') ?K" for l F
    by (auto simp: triple_def kept_def write_doc_def eff_defs split: sum.splits)
  have send: "triple (\<lambda>h. ?K h \<and> F) (submit_answers H E tid c ss report) (\<lambda>_ h. ?K h \<and> F) ?K" for F
    using stable_triple [OF stable_submit [OF q, of AllFrozen H c ss report]] by (cases F) (auto simp: triple_def)
  have seal: "triple (\<lambda>h. ?K h \<and> set (map fst ds) = ?names \<and> n = ''submit_log.json'')
      (seal_collection E tid c ss files (dict_set n v ds)) (\<lambda>_ h. sealed E tid h \<and> h_frozen h) ?K" for ds n v
  proof (rule triple_fact [of "set (map fst ds) = ?names \<and> n = ''submit_log.json''"])
    assume "set (map fst ds) = ?names \<and> n = ''submit_log.json''"
    then have "set (map fst (dict_set n v ds)) = set expected_files - {''archive_manifest.json''}"
      by (auto simp: set_dict_set expected_files_def simp del: set_map)
    then show "triple (\<lambda>h. ?K h \<and> set (map fst ds) = ?names \<and> n = ''submit_log.json'')
      (seal_collection E tid c ss files (dict_set n v ds)) (\<lambda>_ h. sealed E tid h \<and> h_frozen h) ?K"
      by (rule triple_conseq [OF seal_triple]) (elim conjE)
  qed (elim conjE, intro conjI)
  show ?thesis
    unfolding deliver_answers_def
    by (rule triple_then [OF reports], rule triple_then [OF send], rule triple_prod, rule triple_then_pair [OF log],
        rule triple_require_then, elim conjE, assumption, rule seal)
qed

lemma steps_triple:
  assumes q: "quiet tid (registered tid) E"
  shows "triple (kept (registered tid) Unbarred) (collect_steps H E tid claimed)
    (\<lambda>_ h. sealed E tid h \<and> h_frozen h) (kept (registered tid) Unbarred)"
proof -
  have deliver: "triple (kept (registered tid) AllFrozen) (andThen (deliver_answers H E tid c ss files report) (\<lambda>_. ret report))
     (\<lambda>_ h. sealed E tid h \<and> h_frozen h) (kept (registered tid) Unbarred)" for c ss files report
    by (rule triple_then [where R = "\<lambda>_ h. sealed E tid h \<and> h_frozen h"], rule triple_weaken [OF deliver_triple [OF q]])
      (auto simp: kept_def intro: triple_ret)
  have claim: "stable (kept (registered tid) Unbarred) (claim_collection E tid claimed)"
    by (rule claim_stable) (rule transition_registered)
  show ?thesis
    unfolding collect_steps_def
    by (rule triple_then [OF stable_triple [OF claim]], rule triple_then [OF stable_triple [OF reach_stable]], rule triple_prod,
        rule triple_then [OF fetch_triple [OF q]], rule deliver)
qed

lemma quietly_stop: "snd (quietly (stop_server_best_effort E k) h) = (case stop_polls False ''UNKNOWN'' (ce_stop E k) of
    Inl y \<Rightarrow> h | Inr u \<Rightarrow> h\<lparr>h_stopped := True\<rparr>)"
  by (simp add: stop_server_best_effort_def eff_defs split: sum.split)

text \<open>The \<open>finally\<close> closes the access once more and lets the contest go.\<close>

lemma after_closed:
  assumes "ce_revoke E 2 = Inr u"
  shows "after_collection E tid failed h = (Inr (), h\<lparr>h_closed := True, h_world := leave tid (h_world h)\<rparr>)"
  using assms by (simp add: after_collection_def revoke_desktop_access_def eff_defs split: sum.split)

lemma after_unclosed:
  assumes "ce_revoke E 2 = Inl x"
  shows "after_collection E tid failed h = (let h1 = snd (quietly (stop_server_best_effort E 2) h);
       h2 = h1\<lparr>h_world := leave tid (h_world h1)\<rparr> in if failed then (Inr (), h2) else
    andThen (set_message E tid Errored ''collected, but the desktop access was not confirmed closed'')
       (\<lambda>_. raise (RuntimeError ''the desktop access was not confirmed closed'')) h2)"
  by (cases "stop_polls False ''UNKNOWN'' (ce_stop E 2)"; cases "ce_frontend E")
    (simp_all add: assms(1) after_collection_def revoke_desktop_access_def stop_server_best_effort_def eff_defs Let_def)

text \<open>The state in which the steps of a collection start.\<close>

definition entered :: "string \<Rightarrow> hall \<Rightarrow> hall" where
  "entered tid h = new_hall (h\<lparr>h_world := (h_world h)\<lparr>active := insert tid (active (h_world h))\<rparr>\<rparr>)"

lemma entered_base [simp]: "base (h_world (entered tid h)) = base (h_world h)"
  by (simp add: entered_def new_hall_def)

lemma collect_run:
  assumes "re_exact hex_digit 24 tid" "tid \<notin> active (h_world h)"
  shows "collect_contest H E tid claimed h =
    (case handle (collect_steps H E tid claimed) (failed_collection E tid) (entered tid h) of
       (Inl x, h') \<Rightarrow> andThen (after_collection E tid True) (\<lambda>_. raise x) h'
     | (Inr report, h') \<Rightarrow> andThen (after_collection E tid False) (\<lambda>_. ret report) h')"
  using assms by (simp add: collect_contest_def on_world_def enter_def eff_defs entered_def)

text \<open>How the students are kept from working after a failure.\<close>

definition shut_out :: "collect_env \<Rightarrow> hall \<Rightarrow> bool" where
  "shut_out E h \<longleftrightarrow> h_frozen h \<or> h_stopped h \<or> (\<exists>y. stop_polls False ''UNKNOWN'' (ce_stop E 1) = Inl y)"

lemma outcome_failed:
  assumes q: "quiet tid (registered tid) E" and reg: "registered tid (base (h_world h))"
    and ok: "re_exact hex_digit 24 tid" "tid \<notin> active (h_world h)"
    and run: "collect_contest H E tid claimed h = (r, h')"
    and steps: "collect_steps H E tid claimed (entered tid h) = (Inl x, h1)"
  shows "r = Inl x \<and> (\<exists>c. contest_of tid h' = Some c \<and> c_state c = Errored) \<and> shut_out E h' \<and> tid \<notin> active (h_world h')"
proof -
  obtain r2 :: "(string \<times> graded) list res" and h2 where f: "failed_collection E tid x h1 = (r2, h2)" by fastforce
  have "kept (registered tid) Unbarred (entered tid h)" using reg by (simp add: kept_def)
  from tripleD [OF steps_triple [OF q] this steps] have "registered tid (base (h_world h1))" by (simp add: kept_def)
  from handler_bars [OF q this f] have r2: "r2 = Inl x" and c: "\<exists>c. contest_of tid h2 = Some c \<and> c_state c = Errored"
    and b: "shut_out E h2" unfolding shut_out_def by blast+
  have a: "andThen (after_collection E tid True) (\<lambda>_. raise x) h2 = (r, h')"
    using run steps f r2 by (simp add: handle_def collect_run [OF ok])
  show ?thesis
  proof (cases "ce_revoke E 2")
    case (Inl y)
    with a c b show ?thesis
      by (auto simp: after_unclosed Let_def andThen_def raise_def quietly_stop contest_of_def leave_def shut_out_def split: sum.splits)
  next
    case (Inr u)
    with a c b show ?thesis by (auto simp: after_closed andThen_def raise_def contest_of_def leave_def shut_out_def)
  qed
qed

lemma outcome_done:
  assumes q: "quiet tid (registered tid) E" and reg: "registered tid (base (h_world h))"
    and ok: "re_exact hex_digit 24 tid" "tid \<notin> active (h_world h)"
    and run: "collect_contest H E tid claimed h = (r, h')"
    and steps: "collect_steps H E tid claimed (entered tid h) = (Inr report, h1)"
  shows "(r = Inr report \<and> sealed E tid h' \<and> h_closed h' \<or> (\<exists>x c. r = Inl x \<and> contest_of tid h' = Some c \<and> c_state c = Errored))
    \<and> h_frozen h' \<and> tid \<notin> active (h_world h')"
proof -
  have "kept (registered tid) Unbarred (entered tid h)" using reg by (simp add: kept_def)
  from tripleD [OF steps_triple [OF q] this steps] have s: "sealed E tid h1" "h_frozen h1" by simp_all
  have a: "andThen (after_collection E tid False) (\<lambda>_. ret report) h1 = (r, h')"
    using run steps by (simp add: handle_def collect_run [OF ok])
  show ?thesis
  proof (cases "ce_revoke E 2")
    case (Inr u)
    let ?h = "h1\<lparr>h_closed := True, h_world := leave tid (h_world h1)\<rparr>"
    have "sealed E tid ?h" using s(1) by (rule sealed_cong) (simp_all add: contest_of_def leave_def)
    with a s Inr show ?thesis by (auto simp: after_closed andThen_def ret_def leave_def)
  next
    case (Inl y)
    let ?h1 = "snd (quietly (stop_server_best_effort E 2) h1)"
    let ?h2 = "?h1\<lparr>h_world := leave tid (h_world ?h1)\<rparr>"
    let ?m = "set_message E tid Errored ''collected, but the desktop access was not confirmed closed''"
    obtain c where "contest_of tid h1 = Some c" using s by (auto simp: sealed_def)
    then have c: "contest_of tid ?h2 = Some c" by (simp add: quietly_stop contest_of_def leave_def split: sum.split)
    obtain r3 h3 where m: "?m ?h2 = (r3, h3)" by fastforce
    have "r = Inl (RuntimeError ''the desktop access was not confirmed closed'') \<and> h' = h3"
      using a contest_message [OF m c] m by (simp add: after_unclosed [OF Inl] Let_def andThen_def raise_def)
    moreover have "h_frozen ?h2" using s by (simp add: quietly_stop split: sum.split)
    moreover have "tid \<notin> active (h_world h3)" using m by (auto simp: set_message_def on_world_def eff_defs leave_def)
    ultimately show ?thesis using contest_message [OF m c] by simp
  qed
qed


section \<open>A second attempt\<close>

text \<open>The stored pool and the contest's end, which a collection does not change before it freezes the pool.\<close>

definition pooled_end :: "string \<Rightarrow> pool_row \<Rightarrow> int \<Rightarrow> db \<Rightarrow> bool" where
  "pooled_end tid row e d \<longleftrightarrow> get_pool_row tid d = Some row \<and> (\<exists>c. get_contest tid d = Some c \<and> c_end_at_ms c = e)"

lemma pooled_end_update:
  assumes "pooled_end tid row e d" and "\<And>c. c_tid (f c) = c_tid c \<and> c_end_at_ms (f c) = c_end_at_ms c"
  shows "pooled_end tid row e (update_contest p f d)"
proof -
  have "get_contest tid (update_contest p f d) = map_option (\<lambda>c. if p c then f c else c) (get_contest tid d)"
    using assms(2) by (simp add: get_contest_update)
  moreover have "get_pool_row tid (update_contest p f d) = get_pool_row tid d"
    by (simp add: get_pool_row_def update_contest_def)
  moreover obtain c where "get_contest tid d = Some c" "c_end_at_ms c = e" using assms(1) by (auto simp: pooled_end_def)
  ultimately show ?thesis using assms by (simp add: pooled_end_def)
qed

lemma pooled_end_audit [simp]: "pooled_end tid row e (add_audit dt t actor action outcome details ms d) = pooled_end tid row e d"
  by (simp add: pooled_end_def get_pool_row_def get_contest_def add_audit_def)

lemma pooled_end_transition:
  "pooled_end tid row e d \<Longrightarrow> transition dt ms t ss s m d = (b, d') \<Longrightarrow> pooled_end tid row e d'"
  by (auto simp: transition_def Let_def pooled_end_update split: if_splits)

lemma step_pool_raises:
  assumes "get_pool_row tid (base w) = Some row" and "load_state row = Inr state" and "read_pool state = Inr p" and "f p = Inl x"
  shows "step_stored_pool dt tid f w = (Inl x, w)"
  using assms by (simp add: step_stored_pool_def seat_pool_def eff_defs)

lemma conflicting_freeze:
  assumes row: "load_state row = Inr state" "read_pool state = Inr p" and nonblank: "py_strip (freeze_command tid c) \<noteq> []"
    and rc: "find_receipt (freeze_command tid c) p = Some rc"
      "fingerprint rc \<noteq> fingerprint_of H ''freeze'' [(''now_ms'', JInt (ce_frozen_at E))]"
  shows "triple (kept (pooled_end tid row (c_end_at_ms c)) Unbarred) (freeze_seats H E tid c names) (\<lambda>_ _. False) (\<lambda>_. True)"
proof -
  let ?K = "kept (pooled_end tid row (c_end_at_ms c)) Unbarred"
  have x: "freeze H (ce_frozen_at E) (freeze_command tid c) (revision p) p
      = Inl (CommandConflictError ''command_id was reused with different arguments'')"
    using assms by (simp add: freeze_def apply_cmd_def Let_def)
  have pool: "triple ?K (on_world (step_stored_pool dt tid (\<lambda>p. freeze H (ce_frozen_at E) (freeze_command tid c) (revision p) p)))
      (\<lambda>_ _. False) (\<lambda>_. True)" for dt
    using step_pool_raises [OF _ row, where f = "\<lambda>p. freeze H (ce_frozen_at E) (freeze_command tid c) (revision p) p", OF _ x]
    by (auto simp: triple_def kept_def pooled_end_def on_world_def)
  have message: "triple ?K (set_message E tid s m) (\<lambda>_. ?K) (\<lambda>_. True)" for s m
    by (auto simp: triple_def set_message_def on_world_def kept_def eff_defs set_state_def pooled_end_update)
  have pause: "triple ?K (freeze_for_collection E names) (\<lambda>_. ?K) (\<lambda>_. True)"
    by (auto simp: triple_def freeze_for_collection_def eff_defs split: sum.split)
  have flag: "triple ?K (modify (\<lambda>h. h\<lparr>h_frozen := True\<rparr>)) (\<lambda>_. ?K) (\<lambda>_. True)"
    by (auto simp: triple_def kept_def eff_defs)
  show ?thesis
    unfolding freeze_seats_def
    by (rule triple_then [OF message], rule triple_then [OF pause], rule triple_then [OF flag], rule pool)
qed

lemma freeze_command_nonblank: "py_strip (freeze_command tid c) \<noteq> []"
proof -
  have "\<not> py_space (CHR ''f'')" by code_simp
  then show ?thesis by (simp add: freeze_command_def py_strip_def)
qed

lemma steps_conflict:
  assumes row: "get_pool_row tid (base (h_world h)) = Some row" "load_state row = Inr state" "read_pool state = Inr p"
    and c: "contest_of tid h = Some c" and rc: "find_receipt (freeze_command tid c) p = Some rc"
      "fingerprint rc \<noteq> fingerprint_of H ''freeze'' [(''now_ms'', JInt (ce_frozen_at E))]"
  shows "\<exists>x. fst (collect_steps H E tid claimed h) = Inl x"
proof -
  let ?K = "kept (pooled_end tid row (c_end_at_ms c)) Unbarred"
  have claim: "triple ?K (claim_collection E tid claimed) (\<lambda>c'. \<lambda>h. ?K h \<and> c_end_at_ms c' = c_end_at_ms c) (\<lambda>_. True)"
  proof (unfold triple_def, intro allI impI)
    fix h assume h: "?K h"
    obtain r h' where run: "claim_collection E tid claimed h = (r, h')" by fastforce
    have "stable ?K (claim_collection E tid claimed)" by (rule claim_stable) (rule pooled_end_transition)
    from stableD [OF this h run] have k: "?K h'" .
    show "case claim_collection E tid claimed h of (Inl e, s') \<Rightarrow> True | (Inr c', s') \<Rightarrow> ?K s' \<and> c_end_at_ms c' = c_end_at_ms c"
    proof (cases r)
      case (Inr c')
      from claimed_contest [OF run [unfolded Inr]] k show ?thesis by (auto simp: run Inr kept_def pooled_end_def)
    qed (simp add: run)
  qed
  have reach: "triple (\<lambda>h. ?K h \<and> F) (reach_server E tid c') (\<lambda>_ h. ?K h \<and> F) (\<lambda>_. True)" for c' F
    using stable_triple [OF reach_stable [of "pooled_end tid row (c_end_at_ms c)" Unbarred E tid c']]
    by (cases F) (auto simp: triple_def split: prod.splits sum.splits)
  have fetch: "triple (\<lambda>h. ?K h \<and> c_end_at_ms c' = c_end_at_ms c) (fetch_answers H E tid c' ss files) (\<lambda>_ _. False) (\<lambda>_. True)" for c' ss files
  proof (rule triple_fact [of "c_end_at_ms c' = c_end_at_ms c"])
    assume e: "c_end_at_ms c' = c_end_at_ms c"
    then have same: "freeze_command tid c' = freeze_command tid c" by (simp add: freeze_command_def)
    note conflict = conflicting_freeze [OF row(2,3) freeze_command_nonblank [of tid c'], of rc H E, unfolded same e, OF rc]
    have "triple ?K (freeze_seats H E tid c' names) (\<lambda>_ _. False) (\<lambda>_. True)" for names
      using conflict [of names] same by (simp add: freeze_seats_def)
    then show "triple (\<lambda>h. ?K h \<and> c_end_at_ms c' = c_end_at_ms c) (fetch_answers H E tid c' ss files) (\<lambda>_ _. False) (\<lambda>_. True)"
      unfolding fetch_answers_def
      by (intro triple_then [where R = "\<lambda>_. ?K"] triple_then [where R = "\<lambda>_ _. False"])
        (auto simp: triple_def on_world_def eff_defs)
  qed simp
  have "triple ?K (collect_steps H E tid claimed) (\<lambda>_ _. False) (\<lambda>_. True)"
    unfolding collect_steps_def
    by (rule triple_then [OF claim], rule triple_then [OF reach], rule triple_prod, rule triple_then [OF fetch])
      (simp add: triple_def)
  moreover have "?K h" using row(1) c by (simp add: kept_def pooled_end_def contest_of_def)
  ultimately show ?thesis
    by (cases "collect_steps H E tid claimed h"; cases "fst (collect_steps H E tid claimed h)") (auto dest: tripleD)
qed

text \<open>C10: A collection that failed after the seats were frozen can never be repeated. The command id of the freeze
  is made of the contest and its end only, while the arguments hold the clock: a second attempt at another
  time finds its own receipt with another fingerprint, and the collection ends in the error state again,
  whatever the cloud, the server and the judge answer.\<close>

theorem frozen_collection_stuck:
  assumes "quiet tid (registered tid) E" and "re_exact hex_digit 24 tid" and "tid \<notin> active (h_world h)"
    and "registered tid (base (h_world h))" and "contest_of tid h = Some c"
    and "seat_pool tid (base (h_world h)) = Inr (Some (n, state, updated))" and "read_pool state = Inr p"
    and "find_receipt (freeze_command tid c) p = Some rc"
    and "fingerprint rc \<noteq> fingerprint_of H ''freeze'' [(''now_ms'', JInt (ce_frozen_at E))]"
  shows "\<exists>x h' c'. collect_contest H E tid claimed h = (Inl x, h') \<and> contest_of tid h' = Some c' \<and> c_state c' = Errored"
proof -
  obtain row where row: "get_pool_row tid (base (h_world h)) = Some row" "load_state row = Inr state"
    using assms(6) by (auto simp: seat_pool_def bindE_eq_Inr split: option.splits)
  have "contest_of tid (entered tid h) = Some c" using assms(5) by (simp add: contest_of_def)
  then obtain x h1 where "collect_steps H E tid claimed (entered tid h) = (Inl x, h1)"
    using steps_conflict [of tid "entered tid h" row state p c rc H E claimed] row assms(7-9) by (metis entered_base prod.collapse)
  moreover obtain r h' where "collect_contest H E tid claimed h = (r, h')" by fastforce
  ultimately show ?thesis using outcome_failed [OF assms(1,4,2,3)] by blast
qed

end
