(* ===== verification/CollectDelivery.thy ===== *)
theory CollectDelivery
  imports CollectThms
begin

text \<open>What a collection that returns has done for every student and every problem: the web submission is preferred to
  the answer directory, and what was chosen has reached the judge unless there is nothing to send.\<close>

section \<open>Loops that fill a dict\<close>

text \<open>Every round sets one key of the accumulator, and a count that must not rise tells whether it went well.\<close>

lemma forEach_updates:
  assumes step: "\<And>x acc h acc' h'. x \<in> set xs \<Longrightarrow> f x acc h = (Inr acc', h') \<Longrightarrow>
      \<exists>v. get acc' = (get acc)(key x := v) \<and> count acc \<le> count acc' \<and> (count acc' = (count acc :: nat) \<longrightarrow> P x v)"
    and inj: "inj_on key (set xs)" and run: "forEach xs f acc h = (Inr acc', h')"
  shows "count acc \<le> count acc' \<and> (count acc' = count acc \<longrightarrow> (\<forall>x \<in> set xs. P x (get acc' (key x))))"
proof -
  have "count acc \<le> count acc' \<and> (count acc' = count acc \<longrightarrow> (\<forall>x \<in> set done_xs \<union> set ys. P x (get acc' (key x))))"
    if "set done_xs \<union> set ys \<subseteq> set xs" "forEach ys f acc h = (Inr acc', h')" "\<forall>x \<in> set done_xs. P x (get acc (key x))"
    for done_xs ys acc h
    using that
  proof (induction ys arbitrary: done_xs acc h)
    case Nil
    then show ?case by (simp add: ret_def)
  next
    case (Cons y ys)
    from Cons.prems(2) obtain a1 h1 where r: "f y acc h = (Inr a1, h1)" "forEach ys f a1 h1 = (Inr acc', h')"
      unfolding forEach.simps by (rule andThen_InrE)
    from step [OF _ r(1)] Cons.prems(1) obtain v where v: "get a1 = (get acc)(key y := v)" "count acc \<le> count a1"
      "count a1 = count acc \<longrightarrow> P y v" by auto
    show ?case
    proof (cases "count a1 = count acc")
      case True
      have "\<forall>x \<in> set (y # done_xs). P x (get a1 (key x))"
        using v True Cons.prems(1,3) inj by (auto simp: inj_on_def)
      from Cons.IH [OF _ r(2) this] Cons.prems(1) True show ?thesis by auto
    next
      case False
      from Cons.IH [of "[]", OF _ r(2)] Cons.prems(1) v(2) False show ?thesis by auto
    qed
  qed
  from this [of "[]" xs] run show ?thesis by simp
qed

lemma forEach_inv:
  assumes "\<And>x acc h acc' h'. f x acc h = (Inr acc', h') \<Longrightarrow> I acc \<Longrightarrow> I acc'"
    and "forEach xs f acc h = (Inr acc', h')" and "I acc"
  shows "I acc'"
  using assms(2,3)
proof (induction xs arbitrary: acc h)
  case (Cons x xs)
  from Cons.prems(1) obtain a1 h1 where "f x acc h = (Inr a1, h1)" "forEach xs f a1 h1 = (Inr acc', h')"
    unfolding forEach.simps by (rule andThen_InrE)
  with Cons.IH assms(1) Cons.prems(2) show ?case by blast
qed (simp add: ret_def)

lemma map_of_fun_upd: "map_of (dict_set k v d) = (map_of d)(k := Some v)"
  by (simp add: fun_eq_iff)

lemma distinct_dict_set: "distinct (map fst d) \<Longrightarrow> distinct (map fst (dict_set k v d))"
proof (induction k v d rule: dict_set.induct)
  case (2 k v k' v' d)
  have "fst ` set (dict_set k v d) = insert k (fst ` set d)" using set_dict_set [of k v d] by simp
  with 2 show ?case by auto
qed simp

section \<open>Grading\<close>

text \<open>A web submission is authoritative for its problem.\<close>

definition chosen_right :: "item \<Rightarrow> string \<Rightarrow> submission option \<Rightarrow> bool" where
  "chosen_right it code row \<longleftrightarrow> (case row of
     Some r \<Rightarrow> it_chosen it = WebSubmit \<and> it_status it = Okay \<and> code = w_source r
   | None \<Rightarrow> it_chosen it = DeadlineSnapshot)"

definition problem_graded :: "graded \<Rightarrow> string \<Rightarrow> bool" where
  "problem_graded g name \<longleftrightarrow> (\<exists>it code row. map_of (gr_report g) name = Some it \<and> map_of (gr_sources g) name = Some code
     \<and> map_of (gr_rows g) name = Some row \<and> chosen_right it code row)"

lemma grade_chosen: "grade_problem H answers folder row name = Inr (it, code) \<Longrightarrow> chosen_right it code row"
  by (auto simp: grade_problem_def chosen_right_def bindE_eq_Inr split: option.splits)

lemma add_problem_Inr:
  assumes "add_problem H answers latest name g h = (Inr g', h')"
  shows "\<exists>it code. g' = g\<lparr>gr_report := dict_set name it (gr_report g), gr_sources := dict_set name code (gr_sources g),
     gr_rows := dict_set name (map_of latest name) (gr_rows g)\<rparr> \<and> chosen_right it code (map_of latest name)"
proof (cases "grade_problem H answers (gr_folder g) (map_of latest name) name")
  case (Inl x)
  then show ?thesis using assms by (simp add: add_problem_def eff_defs)
next
  case (Inr y)
  then obtain it code where y: "grade_problem H answers (gr_folder g) (map_of latest name) name = Inr (it, code)"
    by (cases y) simp
  then have "g' = g\<lparr>gr_report := dict_set name it (gr_report g), gr_sources := dict_set name code (gr_sources g),
      gr_rows := dict_set name (map_of latest name) (gr_rows g)\<rparr>"
    using assms by (simp add: add_problem_def eff_defs)
  with grade_chosen [OF y] show ?thesis by blast
qed

lemma add_problems_Inr:
  assumes run: "forEach files (add_problem H answers latest) g h = (Inr g', h')" and d: "distinct (map fst (gr_report g))"
  shows "(\<forall>name \<in> set files. problem_graded g' name) \<and> distinct (map fst (gr_report g'))"
proof -
  let ?get = "\<lambda>g n. (map_of (gr_report g) n, map_of (gr_sources g) n, map_of (gr_rows g) n)"
  let ?P = "\<lambda>(n :: string) v. \<exists>it code row. v = (Some it, Some code, Some row) \<and> chosen_right it code row"
  have step: "\<exists>v. ?get g' = (?get g)(n := v) \<and> ?P n v" if "add_problem H answers latest n g h = (Inr g', h')" for n g h g' h'
    using add_problem_Inr [OF that] by (elim exE conjE, intro exI conjI) (auto simp: fun_eq_iff)
  have "\<forall>name \<in> set files. ?P name (?get g' name)"
    using forEach_updates [of files "add_problem H answers latest" ?get "\<lambda>n. n" "\<lambda>_. 0" ?P, OF _ _ run] step by simp
  then have "\<forall>name \<in> set files. problem_graded g' name" by (simp add: problem_graded_def)
  moreover have "distinct (map fst (gr_report g'))"
    by (rule forEach_inv [where I = "\<lambda>g. distinct (map fst (gr_report g))", OF _ run d])
      (drule add_problem_Inr, elim exE conjE, simp add: distinct_dict_set del: distinct_map)
  ultimately show ?thesis by blast
qed

definition seat_graded :: "string list \<Rightarrow> graded \<Rightarrow> bool" where
  "seat_graded files g \<longleftrightarrow> (\<forall>name \<in> set files. problem_graded g name) \<and> distinct (map fst (gr_report g))"

lemma grade_seat_Inr:
  assumes "grade_seat H E tid files pooled tree seat report h = (Inr report', h')"
  shows "\<exists>g. report' = dict_set (b_uname seat) g report \<and> seat_graded files g"
proof -
  obtain answers latest g0 g h1 h2 where "forEach files (add_problem H answers latest) g0 h1 = (Inr g, h2)"
    "gr_report g0 = []" "ret (dict_set (b_uname seat) g report) h2 = (Inr report', h')"
    using assms unfolding grade_seat_def Let_def by (elim andThen_InrE) simp
  with add_problems_Inr [of files H answers latest g0 h1 g h2] show ?thesis by (auto simp: seat_graded_def ret_def)
qed

lemma grade_seats_Inr:
  assumes "forEach ss (grade_seat H E tid files pooled tree) [] h = (Inr report, h')" and "distinct (map b_uname ss)"
  shows "\<forall>seat \<in> set ss. \<exists>g. map_of report (b_uname seat) = Some g \<and> seat_graded files g"
proof -
  let ?P = "\<lambda>(seat :: bound_seat) v. \<exists>g. v = Some g \<and> seat_graded files g"
  have "\<exists>v. map_of acc' = (map_of acc)(b_uname x := v) \<and> ?P x v"
    if "grade_seat H E tid files pooled tree x acc h = (Inr acc', h')" for x acc h acc' h'
    using grade_seat_Inr [OF that] map_of_fun_upd by fast
  moreover have "inj_on b_uname (set ss)" using assms(2) by (simp add: distinct_map)
  ultimately show ?thesis
    using forEach_updates [of ss "grade_seat H E tid files pooled tree" map_of b_uname "\<lambda>_. 0" ?P, OF _ _ assms(1)] by simp
qed

section \<open>Sending\<close>

text \<open>What has become of a problem: its chosen code is with the judge under a valid record id, or there was none.\<close>

definition settled :: "(string \<Rightarrow> string) \<Rightarrow> collect_env \<Rightarrow> string \<Rightarrow> contest \<Rightarrow> int \<Rightarrow> item \<Rightarrow> string \<Rightarrow> submission option \<Rightarrow> log_entry \<Rightarrow> bool" where
  "settled H E tid c u it code row e \<longleftrightarrow> (case e of
     NoPid \<Rightarrow> False
   | Reused rid same issues \<Rightarrow> row \<noteq> None \<and> record_id rid
   | ReuseFailed m \<Rightarrow> False
   | Skipped issues \<Rightarrow> nothing_to_send it code
   | Sent r issues \<Rightarrow> \<not> nothing_to_send it code \<and> s_ok r \<and> (\<exists>rid. s_rid r = Some rid \<and> record_id rid)
       \<and> (\<exists>pid. submit_one (ce_lang E) [] NotConfigured (ce_post E) tid u pid code
            (submission_id H (c_submission_session c) tid u pid) None ''final'' None = Inr r))"

lemma checked_ok: "s_ok (checked_result r) \<Longrightarrow> checked_result r = r \<and> (\<exists>rid. s_rid r = Some rid \<and> record_id rid)"
  by (auto simp: checked_result_def record_id_def re_exact_def split: if_splits option.splits)

lemma send_settled:
  assumes "send_source H E tid c u pid code it = Inr (e, 0)" and "\<not> nothing_to_send it code"
  shows "settled H E tid c u it code row e"
proof -
  from assms(1) obtain r where r: "submit_one (ce_lang E) [] NotConfigured (ce_post E) tid u pid code
      (submission_id H (c_submission_session c) tid u pid) None ''final'' None = Inr r"
    "e = Sent (checked_result r) (it_issues it)" "s_ok (checked_result r)"
    by (auto simp: send_source_def bindE_eq_Inr split: if_splits)
  with checked_ok [OF r(3)] assms(2) show ?thesis by (auto simp: settled_def)
qed

lemma reused_settled: "reused_entry E d = Inr e \<Longrightarrow> settled H E tid c u it code (Some row) e"
  by (auto simp: reused_entry_def settled_def bindE_eq_Inr split: if_splits)

lemma reuse_settled:
  "reuse_delivery E ensure u name row h = (Inr (e, 0), h') \<Longrightarrow> settled H E tid c u it code (Some row) e"
  unfolding reuse_delivery_def
  by (elim andThen_InrE) (auto simp: ret_def intro: reused_settled split: sum.splits)

lemma submit_settled:
  assumes run: "submit_problem H E tid c pids u g (name, it) h = (Inr (e, 0), h')"
    and code: "map_of (gr_sources g) name = Some code" and row: "map_of (gr_rows g) name = Some row"
  shows "settled H E tid c u it code row e"
proof -
  have send: "settled H E tid c u it code row e" if "andThen (lift (of_option (KeyError name) (map_of (gr_sources g) name))) (\<lambda>code.
      if nothing_to_send it code then ret (Skipped (it_issues it), 0) else lift (send_source H E tid c u pid code it)) h
      = (Inr (e, 0), h')" for pid
    using that code by (auto simp: settled_def [of _ _ _ _ _ _ _ _ "Skipped _"] eff_defs intro: send_settled split: if_splits)
  show ?thesis
    using run row send reuse_settled
    by (auto simp: submit_problem_def ret_def split: option.splits if_splits)
qed

text \<open>One student's log: every problem of the report is settled when no failure was counted.\<close>

definition problem_settled :: "(string \<Rightarrow> string) \<Rightarrow> collect_env \<Rightarrow> string \<Rightarrow> contest \<Rightarrow> int \<Rightarrow> graded \<Rightarrow> (string \<times> log_entry) list \<Rightarrow> string \<Rightarrow> bool" where
  "problem_settled H E tid c u g l name \<longleftrightarrow> (\<exists>it code row e. map_of (gr_report g) name = Some it
     \<and> map_of (gr_sources g) name = Some code \<and> map_of (gr_rows g) name = Some row \<and> chosen_right it code row
     \<and> map_of l name = Some e \<and> settled H E tid c u it code row e)"

lemma log_problem_Inr:
  assumes "log_problem H E tid c pids u g (name, it) acc h = (Inr acc', h')"
    and "map_of (gr_sources g) name = Some code" and "map_of (gr_rows g) name = Some row"
  shows "\<exists>e. map_of (fst acc') = (map_of (fst acc))(name := Some e) \<and> snd acc \<le> snd acc'
    \<and> (snd acc' = snd acc \<longrightarrow> settled H E tid c u it code row e)"
proof -
  obtain e k h1 where "submit_problem H E tid c pids u g (name, it) h = (Inr (e, k), h1)"
    and "acc' = (dict_set name e (fst acc), snd acc + k)"
    using assms(1) unfolding log_problem_def by (elim andThen_InrE) (auto simp: ret_def split: prod.splits)
  with submit_settled [OF _ assms(2,3)] show ?thesis by (auto simp: fun_eq_iff)
qed

lemma log_problems_Inr:
  assumes run: "forEach (gr_report g) (log_problem H E tid c pids u g) ([], n) h = (Inr (l, m), h')"
    and g: "seat_graded files g"
  shows "n \<le> m \<and> (m = n \<longrightarrow> (\<forall>name \<in> set files. problem_settled H E tid c u g l name))"
proof -
  let ?P = "\<lambda>(name, it) v. name \<in> set files \<longrightarrow> (\<exists>code row e. map_of (gr_sources g) name = Some code
    \<and> map_of (gr_rows g) name = Some row \<and> v = Some e \<and> settled H E tid c u it code row e)"
  have d: "distinct (map fst (gr_report g))" using g by (simp add: seat_graded_def)
  have step: "\<exists>v. map_of (fst acc') = (map_of (fst acc))(fst x := v) \<and> snd acc \<le> snd acc' \<and> (snd acc' = snd acc \<longrightarrow> ?P x v)"
    if r: "log_problem H E tid c pids u g x acc h = (Inr acc', h')" for x acc h acc' h'
  proof (cases x)
    case (Pair name it)
    show ?thesis
    proof (cases "name \<in> set files")
      case True
      then obtain code row where "map_of (gr_sources g) name = Some code" "map_of (gr_rows g) name = Some row"
        using g by (auto simp: seat_graded_def problem_graded_def)
      from log_problem_Inr [OF r [unfolded Pair] this] this show ?thesis by (auto simp: Pair)
    next
      case False
      from r obtain e k h1 where "acc' = (dict_set name e (fst acc), snd acc + k)"
        unfolding log_problem_def Pair by (elim andThen_InrE) (auto simp: ret_def split: prod.splits)
      with False show ?thesis by (auto simp: fun_eq_iff Pair)
    qed
  qed
  from forEach_updates [of "gr_report g" "log_problem H E tid c pids u g" "\<lambda>a. map_of (fst a)" fst snd ?P, OF step _ run] d
  have all: "n \<le> m \<and> (m = n \<longrightarrow> (\<forall>x \<in> set (gr_report g). ?P x (map_of l (fst x))))" by (simp add: distinct_map)
  have "problem_settled H E tid c u g l name" if "m = n" "name \<in> set files" for name
  proof -
    from that(2) g obtain it code row where it: "map_of (gr_report g) name = Some it"
      "map_of (gr_sources g) name = Some code" "map_of (gr_rows g) name = Some row" "chosen_right it code row"
      by (auto simp: seat_graded_def problem_graded_def)
    then have "(name, it) \<in> set (gr_report g)" by (auto dest: map_of_SomeD)
    with all that it(2,3) have "\<exists>e. map_of l name = Some e \<and> settled H E tid c u it code row e" by force
    with it show ?thesis by (auto simp: problem_settled_def)
  qed
  with all show ?thesis by blast
qed

text \<open>Every student's log.\<close>

definition seat_settled ::
  "(string \<Rightarrow> string) \<Rightarrow> collect_env \<Rightarrow> string \<Rightarrow> contest \<Rightarrow> string list \<Rightarrow> (string \<times> graded) list \<Rightarrow> bound_seat
     \<Rightarrow> (string \<times> log_entry) list option \<Rightarrow> bool" where
  "seat_settled H E tid c files report seat l \<longleftrightarrow> (\<exists>g entries. map_of report (b_uname seat) = Some g \<and> l = Some entries
     \<and> (\<forall>name \<in> set files. problem_settled H E tid c (b_uid seat) g entries name))"

lemma submit_seat_Inr:
  assumes run: "submit_seat H E tid c pids report seat acc h = (Inr acc', h')"
    and g: "map_of report (b_uname seat) = Some g" "seat_graded files g"
  shows "\<exists>v. map_of (fst acc') = (map_of (fst acc))(b_uname seat := v) \<and> snd acc \<le> snd acc'
    \<and> (snd acc' = snd acc \<longrightarrow> seat_settled H E tid c files report seat v)"
proof -
  from run g(1) obtain l m h1 where r: "forEach (gr_report g) (log_problem H E tid c pids (b_uid seat) g) ([], snd acc) h = (Inr (l, m), h1)"
    and "acc' = (dict_set (b_uname seat) l (fst acc), m)"
    unfolding submit_seat_def by (elim andThen_InrE) (auto simp: ret_def lift_def of_option_def split: prod.splits)
  with log_problems_Inr [OF r g(2)] g(1) show ?thesis
    by (intro exI [of _ "Some l"]) (auto simp: fun_eq_iff seat_settled_def)
qed

lemma submit_seats_Inr:
  assumes run: "forEach ss (submit_seat H E tid c pids report) ([], 0) h = (Inr (sent, 0), h')"
    and g: "\<forall>seat \<in> set ss. \<exists>g. map_of report (b_uname seat) = Some g \<and> seat_graded files g"
    and d: "distinct (map b_uname ss)"
  shows "\<forall>seat \<in> set ss. seat_settled H E tid c files report seat (map_of sent (b_uname seat))"
proof -
  have "\<exists>v. map_of (fst acc') = (map_of (fst acc))(b_uname x := v) \<and> snd acc \<le> snd acc'
      \<and> (snd acc' = snd acc \<longrightarrow> seat_settled H E tid c files report x v)"
    if "x \<in> set ss" "submit_seat H E tid c pids report x acc h = (Inr acc', h')" for x acc h acc' h'
    using submit_seat_Inr [OF that(2)] that(1) g by blast
  from forEach_updates [of ss "submit_seat H E tid c pids report" "\<lambda>a. map_of (fst a)" b_uname snd
      "\<lambda>seat v. seat_settled H E tid c files report seat v", OF this _ run] d
  show ?thesis by (simp add: distinct_map)
qed

section \<open>The whole collection\<close>

lemma docs_kept:
  "stable (\<lambda>h. x \<in> set (h_docs h)) (on_world m)"
  "stable (\<lambda>h. x \<in> set (h_docs h)) (write_doc E y)"
  "stable (\<lambda>h. x \<in> set (h_docs h)) (revoke_desktop_access E k)"
  "stable (\<lambda>h. x \<in> set (h_docs h)) (stop_server_best_effort E k)"
  "stable (\<lambda>h. x \<in> set (h_docs h)) (modify (\<lambda>h. h\<lparr>h_world := leave tid (h_world h)\<rparr>))"
  by (auto simp: stable_def on_world_def write_doc_def revoke_desktop_access_def stop_server_best_effort_def eff_defs
      split: prod.splits sum.splits)

lemma seal_keeps_docs: "stable (\<lambda>h. x \<in> set (h_docs h)) (seal_collection E tid c ss files digests)"
  unfolding seal_collection_def by (intro stable_rules docs_kept)

lemma after_keeps_docs: "stable (\<lambda>h. x \<in> set (h_docs h)) (after_collection E tid failed)"
  unfolding after_collection_def set_message_def by (intro stable_rules docs_kept)

lemma lift_InrD: "lift x s = (Inr a, s') \<Longrightarrow> x = Inr a \<and> s' = s"
  by (simp add: lift_def)

lemma deliver_Inr:
  assumes run: "deliver_answers H E tid c ss files report h = (Inr u, h')" and "ce_submit_enabled E"
    and "\<forall>seat \<in> set ss. \<exists>g. map_of report (b_uname seat) = Some g \<and> seat_graded files g" and "distinct (map b_uname ss)"
  shows "\<exists>sent. SubmitDoc (Some sent) \<in> set (h_docs h')
    \<and> (\<forall>seat \<in> set ss. seat_settled H E tid c files report seat (map_of sent (b_uname seat)))"
proof -
  from run obtain digests h1 sent failures h2 n v h3 where
    s: "submit_answers H E tid c ss report h1 = (Inr (sent, failures), h2)" "write_doc E (SubmitDoc sent) h2 = (Inr (n, v), h3)"
      "failures = 0" "seal_collection E tid c ss files (dict_set n v digests) h3 = (Inr u, h')"
    unfolding deliver_answers_def
    by (elim andThen_InrE) (auto dest!: eff_InrD elim!: andThen_InrE split: prod.splits)
  from s(1) obtain l pids h4 h5 where l: "sent = Some l" "forEach ss (submit_seat H E tid c pids report) ([], 0) h4 = (Inr (l, failures), h5)"
    using assms(2) unfolding submit_answers_def
    by (elim andThen_InrE) (auto dest!: eff_InrD lift_InrD elim!: andThen_InrE split: prod.splits)
  have "SubmitDoc sent \<in> set (h_docs h3)" using s(2) by (simp add: write_doc_Inr)
  from stableD [OF seal_keeps_docs this s(4)] submit_seats_Inr [OF l(2) [unfolded s(3)] assms(3,4)] l(1) show ?thesis by blast
qed

lemma fetch_Inr:
  assumes "fetch_answers H E tid c ss files h = (Inr report, h')" and "distinct (map b_uname ss)"
  shows "\<forall>seat \<in> set ss. \<exists>g. map_of report (b_uname seat) = Some g \<and> seat_graded files g"
proof -
  from assms(1) obtain p tree h1 where "forEach ss (grade_seat H E tid files p tree) [] h1 = (Inr report, h')"
    unfolding fetch_answers_def by (elim andThen_InrE) blast
  from grade_seats_Inr [OF this assms(2)] show ?thesis .
qed

lemma reach_Inr:
  assumes "reach_server E tid c h = (Inr (ss, files), h')"
  shows "c_files c = Some files \<and> ss = seats_of tid (base (h_world h))"
proof -
  from assms obtain h1 h2 u where "close_access E h = (Inr u, h1)" and s: "on_world (reading (seats_of tid)) h1 = (Inr ss, h2)"
    and f: "of_option (ValueError ''files'') (c_files c) = Inr files"
    unfolding reach_server_def by (elim andThen_InrE) (auto dest!: eff_InrD lift_InrD)
  with stableD [OF stable_close [of "\<lambda>d. d = base (h_world h)" Unbarred E], of h "Inr u" h1]
  have "base (h_world h1) = base (h_world h)" by (simp add: kept_def)
  with s f show ?thesis by (auto simp: on_world_def eff_defs of_option_def split: option.splits)
qed

definition collected_from :: "string \<Rightarrow> bound_seat list \<Rightarrow> contest \<Rightarrow> db \<Rightarrow> bool" where
  "collected_from tid ss c0 d \<longleftrightarrow> seats_of tid d = ss
     \<and> (\<exists>c. get_contest tid d = Some c \<and> c_files c = c_files c0 \<and> c_submission_session c = c_submission_session c0)"

lemma collected_from_transition:
  assumes "collected_from tid ss c0 d" and "transition dt ms t [Ready, Errored] Collecting m d = (b, d')"
  shows "collected_from tid ss c0 d'"
proof -
  let ?f = "\<lambda>c. c\<lparr>c_state := Collecting, c_message := m\<rparr>"
  have "collected_from tid ss c0 (update_contest p ?f d)" for p
  proof -
    have "seats_of tid (update_contest p ?f d) = seats_of tid d" by (simp add: seats_of_def update_contest_def)
    moreover have "get_contest tid (update_contest p ?f d) = map_option (\<lambda>c. if p c then ?f c else c) (get_contest tid d)"
      by (rule get_contest_update) simp
    moreover obtain c where "get_contest tid d = Some c" "c_files c = c_files c0" "c_submission_session c = c_submission_session c0" using assms(1) by (auto simp: collected_from_def)
    ultimately show ?thesis using assms(1) by (simp add: collected_from_def)
  qed
  moreover have "collected_from tid ss c0 (add_audit dt t actor action outcome details ms d) = collected_from tid ss c0 d"
    for actor action outcome details and d :: db
    by (simp add: collected_from_def seats_of_def get_contest_def add_audit_def)
  ultimately show ?thesis using assms by (auto simp: transition_def Let_def split: if_splits)
qed

lemma failed_raises: "failed_collection E tid x h \<noteq> (Inr a, h')"
  by (auto simp: failed_collection_def elim!: andThen_InrE)


end
