(* ===== verification/SafeWaitThms.thy ===== *)
theory SafeWaitThms
  imports CollectThms
begin

text \<open>The end of a contest: what \<open>finish_safe_wait\<close> has checked when it says that the contest is safely ended, and
  that every other outcome leaves the evidence alone.\<close>

section \<open>The evidence\<close>

definition evidence_intact :: "saved_dir \<Rightarrow> contest \<Rightarrow> bool" where
  "evidence_intact S c \<longleftrightarrow> \<not> sd_symlink S \<and> sd_inside S \<and> sd_is_dir S
     \<and> sd_digest S receipt_file = Some (c_collection_receipt_sha256 c)
     \<and> (\<exists>d files manifest current. sd_receipt S = Inr (JObj d) \<and> str_or (map_of d ''tid'') = c_tid c
          \<and> str_or (map_of d ''run_id'') = c_collection_run_id c \<and> int_field ''submit_failures'' (- 1) d = Inr 0
          \<and> map_of d ''files'' = Some (JObj files) \<and> set (map fst files) = set expected_files
          \<and> list_all (\<lambda>n. sd_digest S n = map_option py_str (map_of files n)) expected_files
          \<and> sd_manifest S = Inr manifest \<and> sd_current S = Inr current \<and> json_eq manifest current)"

lemma receipt_means_Inr:
  assumes "receipt_means c d = Inr files"
  shows "str_or (map_of d ''tid'') = c_tid c \<and> str_or (map_of d ''run_id'') = c_collection_run_id c
    \<and> int_field ''submit_failures'' (- 1) d = Inr 0 \<and> map_of d ''files'' = Some (JObj files)
    \<and> set (map fst files) = set expected_files"
  using assms by (auto simp: receipt_means_def Let_def bindE_eq_Inr simp del: set_map
      split: if_splits option.splits json.splits)

lemma verified_intact:
  assumes "verify_collection_receipt S c = Inr receipt"
  shows "evidence_intact S c"
proof -
  have dir: "\<not> sd_symlink S" "sd_inside S" "sd_is_dir S"
      "sd_digest S receipt_file = Some (c_collection_receipt_sha256 c)"
    using assms by (auto simp: verify_collection_receipt_def split: if_splits option.splits)
  have "\<exists>x. sd_receipt S = Inr x" using assms by (auto simp: verify_collection_receipt_def dir bindE_eq_Inr)
  then obtain x where x: "sd_receipt S = Inr x" by blast
  from assms obtain d files manifest current where r: "sd_receipt S = Inr (JObj d)" "receipt_means c d = Inr files"
    and l: "list_all (\<lambda>n. sd_digest S n = Some (case map_of files n of None \<Rightarrow> [] | Some v \<Rightarrow> py_str v)) expected_files"
    and m: "sd_manifest S = Inr manifest" "sd_current S = Inr current" "json_eq manifest current"
    by (cases x) (auto simp: verify_collection_receipt_def dir bindE_eq_Inr x split: if_splits)
  from receipt_means_Inr [OF r(2)] have f: "set (map fst files) = set expected_files" by blast
  have "list_all (\<lambda>n. sd_digest S n = map_option py_str (map_of files n)) expected_files"
    unfolding list_all_iff
  proof
    fix n assume n: "n \<in> set expected_files"
    then have "map_of files n \<noteq> None" using f by (simp add: map_of_eq_None_iff)
    with n l show "sd_digest S n = map_option py_str (map_of files n)" by (auto simp: list_all_iff)
  qed
  with dir r m receipt_means_Inr [OF r(2)] show ?thesis unfolding evidence_intact_def by blast
qed

section \<open>The shutdown\<close>

lemma wait_message_contest: "\<lbrakk>contest_of tid h = Some c; c_state c = SafeWait; wait_message E tid m h = (r, h')\<rbrakk>
    \<Longrightarrow> r = Inr () \<and> contest_of tid h' = Some (c\<lparr>c_message := m\<rparr>)"
  using get_contest_tid [of tid "base (h_world h)" c]
  by (auto simp: wait_message_def on_world_def contest_of_def eff_defs get_contest_set_state)

lemma clear_stable [stable_rules]: "stable P (clear_server E tid)"
  unfolding clear_server_def Let_def by (intro stable_rules)

definition holds :: "string \<Rightarrow> contest \<Rightarrow> hall \<Rightarrow> bool" where
  "holds tid c h \<longleftrightarrow> contest_of tid h = Some c \<and> distinct (map c_tid (contests (base (h_world h))))"

text \<open>A shutdown that returns has closed the access and seen the server stopped; it does not touch the contest.\<close>

lemma shut_down_triple:
  "triple (holds tid c) (shut_down H E tid c')
    (\<lambda>_ h. holds tid c h \<and> h_closed h \<and> h_stopped h) (holds tid c)"
proof -
  let ?K = "holds tid c" and ?KC = "\<lambda>h. holds tid c h \<and> h_closed h"
  have closed: "triple ?K (modify (\<lambda>h. h\<lparr>h_closed := True\<rparr>)) (\<lambda>_. ?KC) ?K"
    by (simp add: triple_def modify_def holds_def contest_of_def)
  have pool: "triple ?KC (on_world (step_stored_pool dt tid f)) (\<lambda>_. ?KC) ?K" for dt f
  proof -
    have "stable (kept (\<lambda>d. get_contest tid d = Some c \<and> distinct (map c_tid (contests d))) Unbarred) (on_world (step_stored_pool dt tid f))"
      by (rule stable_step_pool) (auto dest: put_pool_tables simp: get_contest_def)
    then show ?thesis
      by (auto simp: triple_def stable_def kept_def holds_def contest_of_def on_world_def split: prod.splits sum.splits)
  qed
  have stopped: "triple ?KC (modify (\<lambda>h. h\<lparr>h_stopped := True\<rparr>)) (\<lambda>_ h. holds tid c h \<and> h_closed h \<and> h_stopped h) ?K"
    by (simp add: triple_def modify_def holds_def contest_of_def)
  have clear: "triple ?KC (clear_server E tid) (\<lambda>_. ?KC) ?K"
    by (rule triple_weaken [OF stable_triple [OF clear_stable [of ?KC]]]) auto
  show ?thesis
    unfolding shut_down_def
    by (rule triple_lift_then, assumption, rule triple_then [OF closed], rule triple_lift_then, erule conjunct1,
        rule triple_then [OF clear], rule triple_then [OF pool], rule triple_lift_then, erule conjunct1,
        rule triple_lift_then, erule conjunct1, rule triple_require_then, erule conjunct1, rule stopped)
qed

lemma mark_ended_contest:
  assumes "mark_safe_ended tid t m d = (True, d')" and "get_contest tid d = Some c" and "distinct (map c_tid (contests d))"
  shows "c_state c = SafeWait \<and> c_shutdown_after_ms c \<le> t
    \<and> get_contest tid d' = Some (c\<lparr>c_state := SafeEnded, c_message := m, c_shutdown_verified_at_ms := t\<rparr>)"
proof -
  let ?q = "\<lambda>c. c_state c = SafeWait \<and> 0 < c_shutdown_after_ms c \<and> c_shutdown_after_ms c \<le> t"
  have one: "rowcount (\<lambda>c. c_tid c = tid \<and> ?q c) (contests d) = 1"
    and d': "d' = update_contest (\<lambda>c. c_tid c = tid \<and> ?q c)
      (\<lambda>c. c\<lparr>c_state := SafeEnded, c_message := m, c_shutdown_verified_at_ms := t\<rparr>) d"
    using assms(1) by (simp_all add: mark_safe_ended_def Let_def)
  from one_contest [OF assms(3) one] assms(2) have "c_tid c = tid \<and> ?q c" by auto
  then show ?thesis by (simp add: d' get_contest_update assms(2))
qed

lemma mark_refused:
  assumes "mark_safe_ended tid t m d = (False, d')" and "get_contest tid d = Some c" and "distinct (map c_tid (contests d))"
  shows "d' = d"
proof -
  let ?p = "\<lambda>c. c_tid c = tid \<and> c_state c = SafeWait \<and> 0 < c_shutdown_after_ms c \<and> c_shutdown_after_ms c \<le> t"
  have many: "rowcount ?p (contests d) \<noteq> 1" and d': "d' = update_contest ?p
      (\<lambda>c. c\<lparr>c_state := SafeEnded, c_message := m, c_shutdown_verified_at_ms := t\<rparr>) d"
    using assms(1) by (simp_all add: mark_safe_ended_def Let_def)
  have "rowcount ?p (contests d) = (case find (\<lambda>c. c_tid c = tid) (contests d) of None \<Rightarrow> 0 | Some r \<Rightarrow> if ?p r then 1 else 0)"
    by (rule rowcount_by_key [OF assms(3)]) simp
  then have "rowcount ?p (contests d) \<le> 1" by (cases "find (\<lambda>c. c_tid c = tid) (contests d)") simp_all
  with many have "rowcount ?p (contests d) = 0" by linarith
  then have "\<forall>c \<in> set (contests d). \<not> ?p c" by (simp only: rowcount_0)
  then have "sql_update ?p f (contests d) = contests d" for f by (intro sql_update_id) blast
  then show ?thesis by (simp add: d' update_contest_def)
qed

text \<open>Where the steps leave the contest.\<close>

definition waited :: "wait_env \<Rightarrow> string \<Rightarrow> contest \<Rightarrow> db \<Rightarrow> wait_result \<Rightarrow> hall \<Rightarrow> bool" where
  "waited E tid c d x h \<longleftrightarrow> c_state c = SafeWait \<and> (case x of
     InGrace t \<Rightarrow> t = c_shutdown_after_ms c \<and> fw_now E < t \<and> contest_of tid h = Some c
   | DeliveryPending report \<Rightarrow> c_shutdown_after_ms c \<le> fw_now E \<and> evidence_intact (fw_dir E) c
       \<and> report = contest_delivery_health tid d \<and> \<not> snd (snd report)
       \<and> (\<exists>m. contest_of tid h = Some (c\<lparr>c_message := m\<rparr>))
   | SafelyEnded report \<Rightarrow> c_shutdown_after_ms c \<le> fw_now E \<and> evidence_intact (fw_dir E) c
       \<and> report = contest_delivery_health tid d \<and> snd (snd report) \<and> h_closed h \<and> h_stopped h
       \<and> (\<exists>m. contest_of tid h = Some (c\<lparr>c_state := SafeEnded, c_message := m, c_shutdown_verified_at_ms := fw_observed E\<rparr>)))"

lemma end_run:
  assumes c: "holds tid c h" and run: "end_contest H E tid c delivery h = (r, h')"
  shows "case r of Inl x \<Rightarrow> holds tid c h' | Inr x \<Rightarrow> x = SafelyEnded delivery \<and> h_closed h' \<and> h_stopped h'
    \<and> (\<exists>m. contest_of tid h' = Some (c\<lparr>c_state := SafeEnded, c_message := m, c_shutdown_verified_at_ms := fw_observed E\<rparr>))"
proof -
  obtain r2 h2 where s: "shut_down H E tid c h = (r2, h2)" by fastforce
  note post = tripleD [OF shut_down_triple c s]
  let ?m = "mark_safe_ended tid (fw_observed E) ''delivery, receipt and shutdown are confirmed''"
  obtain b d' where b: "?m (base (h_world h2)) = (b, d')" by fastforce
  show ?thesis
  proof (cases r2)
    case (Inl x)
    with run s post show ?thesis by (auto simp: end_contest_def andThen_def)
  next
    case (Inr u)
    with post have h2: "get_contest tid (base (h_world h2)) = Some c" "distinct (map c_tid (contests (base (h_world h2))))"
      "h_closed h2" "h_stopped h2" by (auto simp: holds_def contest_of_def)
    have tail: "((if b then Inr (SafelyEnded delivery) else Inl (RuntimeError ''the safe end was not stored'')),
        h2\<lparr>h_world := (h_world h2)\<lparr>base := d'\<rparr>\<rparr>) = (r, h')"
      using run s b Inr by (cases b) (simp_all add: end_contest_def eff_defs on_world_def)
    show ?thesis
    proof (cases b)
      case True
      with b have "?m (base (h_world h2)) = (True, d')" by simp
      from mark_ended_contest [OF this h2(1,2)] tail True h2 show ?thesis by (auto simp: contest_of_def)
    next
      case False
      with b have "?m (base (h_world h2)) = (False, d')" by simp
      from mark_refused [OF this h2(1,2)] have "d' = base (h_world h2)" .
      with tail False h2 show ?thesis by (auto simp: holds_def contest_of_def)
    qed
  qed
qed

lemma wait_steps_run:
  assumes c: "holds tid c h" and run: "wait_steps H E tid h = (r, h')"
  shows "case r of Inr x \<Rightarrow> waited E tid c (base (h_world h)) x h' | Inl x \<Rightarrow> holds tid c h'"
proof -
  have found: "on_world (reading (get_contest tid)) h = (Inr (Some c), h)"
    using c by (simp add: on_world_def holds_def contest_of_def eff_defs)
  let ?d = "contest_delivery_health tid (base (h_world h))"
  have health: "on_world (reading (contest_delivery_health tid)) h = (Inr ?d, h)" by (simp add: on_world_def eff_defs)
  note steps = run [unfolded wait_steps_def andThen_def found, simplified]
  show ?thesis
  proof (cases "c_state c = SafeWait \<and> c_shutdown_after_ms c \<le> fw_now E")
    case False
    then show ?thesis using steps c by (auto simp: raise_def ret_def waited_def holds_def split: if_splits)
  next
    case here: True
    show ?thesis
    proof (cases "verify_collection_receipt (fw_dir E) c")
      case (Inl y)
      then show ?thesis using steps c here by (auto simp: lift_def raise_def)
    next
      case (Inr receipt)
      note e = verified_intact [OF this]
      show ?thesis
      proof (cases "snd (snd ?d)")
        case False
        obtain r2 h2 where m: "wait_message E tid ''waiting for the delivery of submissions'' h = (r2, h2)" by fastforce
        from wait_message_contest [OF _ _ m] c here show ?thesis using steps m e False Inr
          by (auto simp: lift_def health ret_def waited_def holds_def)
      next
        case True
        have "end_contest H E tid c ?d h = (r, h')" using steps True Inr here by (simp add: lift_def health)
        from end_run [OF c this] True here e show ?thesis by (auto simp: waited_def split: sum.splits)
      qed
    qed
  qed
qed

lemma wait_run:
  assumes "re_exact hex_digit 24 tid" "tid \<notin> active (h_world h)"
  shows "finish_safe_wait H E tid h = (case handle (wait_steps H E tid) (failed_wait E tid) (entered tid h) of
    (r, h') \<Rightarrow> (r, h'\<lparr>h_world := leave tid (h_world h')\<rparr>))"
  using assms by (simp add: finish_safe_wait_def on_world_def enter_def eff_defs entered_def)

lemma failed_wait_contest:
  assumes "holds tid c h" and "failed_wait E tid x h = (r, h')"
  shows "r = Inl x \<and> (\<exists>m. contest_of tid h' = Some (c\<lparr>c_message := m\<rparr>))"
proof -
  have found: "on_world (reading (get_contest tid)) h = (Inr (Some c), h)"
    using assms(1) by (simp add: on_world_def holds_def contest_of_def eff_defs)
  have same: "c\<lparr>c_message := c_message c\<rparr> = c" by simp
  show ?thesis
  proof (cases "c_state c = SafeWait")
    case True
    obtain r2 h2 where m: "wait_message E tid ''the safe shutdown will be tried again'' h = (r2, h2)" by fastforce
    from wait_message_contest [OF _ True m] assms show ?thesis
      by (auto simp: failed_wait_def andThen_def found True m raise_def holds_def)
  next
    case False
    then have "r = Inl x" "h' = h" using assms(2) by (simp_all add: failed_wait_def andThen_def found ret_def raise_def)
    then show ?thesis using assms(1) same by (intro conjI exI [of _ "c_message c"]) (simp_all add: holds_def)
  qed
qed

lemma waited_leave: "waited E tid c d x (h\<lparr>h_world := leave tid (h_world h)\<rparr>) = waited E tid c d x h"
  by (cases x) (simp_all add: waited_def contest_of_def leave_def)

text \<open>C9: A contest is declared safely ended only with proof: the grace period is over, every file of the evidence
  still has the digest the receipt names and the receipt is the one the contest was collected with, every
  submission has reached the judge, the access is closed and the server has been seen stopped. In every other
  case, errors included, the contest row keeps all its evidence: at most its message changes.\<close>

theorem safe_end_exact:
  assumes ok: "re_exact hex_digit 24 tid" "tid \<notin> active (h_world h)" and c: "holds tid c h"
    and run: "finish_safe_wait H E tid h = (r, h')"
  shows "(case r of
      Inr x \<Rightarrow> waited E tid c (base (h_world h)) x h'
    | Inl x \<Rightarrow> (\<exists>m. contest_of tid h' = Some (c\<lparr>c_message := m\<rparr>))) \<and> tid \<notin> active (h_world h')"
proof -
  have c0: "holds tid c (entered tid h)" using c by (simp add: holds_def contest_of_def)
  obtain s h1 where s: "wait_steps H E tid (entered tid h) = (s, h1)" by fastforce
  show ?thesis
  proof (cases s)
    case (Inr x)
    have "r = Inr x" and h': "h' = h1\<lparr>h_world := leave tid (h_world h1)\<rparr>"
      using run s Inr by (simp_all add: wait_run [OF ok] handle_def)
    with wait_steps_run [OF c0 s] Inr show ?thesis by (simp add: waited_leave) (simp add: leave_def)
  next
    case (Inl x)
    with wait_steps_run [OF c0 s] have h1: "holds tid c h1" by simp
    obtain r2 :: "wait_result res" and h2 where f: "failed_wait E tid x h1 = (r2, h2)" by fastforce
    from failed_wait_contest [OF h1 f] run s Inl f show ?thesis
      by (auto simp: wait_run [OF ok] handle_def contest_of_def leave_def)
  qed
qed

section \<open>A second shutdown\<close>

lemma conflicting_collect:
  assumes "seat_pool tid d = Inr (Some (n, state, updated))" and "read_pool state = Inr p"
    and rc: "find_receipt (collect_command tid c) p = Some rc"
      "fingerprint rc \<noteq> fingerprint_of H ''collect'' [(''now_ms'', JInt (fw_now E))]"
  shows "triple (\<lambda>h. base (h_world h) = d) (shut_down H E tid c) (\<lambda>_ _. False) (\<lambda>_. True)"
proof -
  let ?K = "\<lambda>h. base (h_world h) = d"
  obtain row where row: "get_pool_row tid d = Some row" "load_state row = Inr state"
    using assms(1) by (auto simp: seat_pool_def bindE_eq_Inr split: option.splits)
  have "\<not> py_space (CHR ''c'')" by code_simp
  then have "py_strip (collect_command tid c) \<noteq> []" by (simp add: collect_command_def py_strip_def)
  then have x: "collect H (fw_now E) (collect_command tid c) (revision p) p
      = Inl (CommandConflictError ''command_id was reused with different arguments'')"
    using rc by (simp add: collect_def apply_cmd_def Let_def)
  let ?f = "\<lambda>p. collect H (fw_now E) (collect_command tid c) (revision p) p"
  have pool: "triple ?K (on_world (step_stored_pool dt tid ?f)) (\<lambda>_ _. False) (\<lambda>_. True)" for dt
    using step_pool_raises [OF _ row(2) assms(2), where f = ?f, OF _ x] row(1) by (auto simp: triple_def on_world_def)
  have closed: "triple ?K (modify (\<lambda>h. h\<lparr>h_closed := True\<rparr>)) (\<lambda>_. ?K) (\<lambda>_. True)"
    by (simp add: triple_def modify_def)
  have clear: "triple ?K (clear_server E tid) (\<lambda>_. ?K) (\<lambda>_. True)"
    by (rule triple_weaken [OF stable_triple [OF clear_stable]]) auto
  have rest: "triple (\<lambda>_. False) m (\<lambda>_ _. False) (\<lambda>_. True)" for m :: "(hall, unit) eff"
    by (simp add: triple_def)
  show ?thesis
    unfolding shut_down_def
    by (rule triple_lift_then, rule TrueI, rule triple_then [OF closed], rule triple_lift_then, rule TrueI,
        rule triple_then [OF clear], rule triple_then [OF pool], rule rest)
qed

lemma ended_through:
  assumes c: "holds tid c h" and run: "wait_steps H E tid h = (Inr (SafelyEnded report), h')"
  shows "end_contest H E tid c report h = (Inr (SafelyEnded report), h')"
proof -
  have found: "on_world (reading (get_contest tid)) h = (Inr (Some c), h)"
    using c by (simp add: on_world_def holds_def contest_of_def eff_defs)
  let ?d = "contest_delivery_health tid (base (h_world h))"
  have health: "on_world (reading (contest_delivery_health tid)) h = (Inr ?d, h)" by (simp add: on_world_def eff_defs)
  note steps = run [unfolded wait_steps_def andThen_def found, simplified]
  have here: "c_state c = SafeWait" "\<not> fw_now E < c_shutdown_after_ms c"
    using steps by (auto simp: ret_def split: if_splits)
  obtain receipt where v: "verify_collection_receipt (fw_dir E) c = Inr receipt"
    using steps here by (cases "verify_collection_receipt (fw_dir E) c") (auto simp: lift_def)
  obtain r2 h2 where m: "wait_message E tid ''waiting for the delivery of submissions'' h = (r2, h2)" by fastforce
  have safe: "snd (snd ?d)"
    using steps here v m by (cases "snd (snd ?d)"; cases r2) (auto simp: lift_def health ret_def)
  have "end_contest H E tid c ?d h = (Inr (SafelyEnded report), h')"
    using steps here v safe by (simp add: lift_def health)
  with end_run [OF c this] show ?thesis by simp
qed

text \<open>C32: A shutdown that was interrupted after the pool was marked as collected can never be completed. Its command
  id is made of the contest and its end, its arguments hold the clock: every later attempt is refused by its
  own receipt, so the contest waits for ever although nothing is missing.\<close>

theorem interrupted_shutdown_stuck:
  assumes ok: "re_exact hex_digit 24 tid" "tid \<notin> active (h_world h)" and c: "holds tid c h"
    and pool: "seat_pool tid (base (h_world h)) = Inr (Some (n, state, updated))" "read_pool state = Inr p"
    and rc: "find_receipt (collect_command tid c) p = Some rc"
      "fingerprint rc \<noteq> fingerprint_of H ''collect'' [(''now_ms'', JInt (fw_now E))]"
    and run: "finish_safe_wait H E tid h = (r, h')"
  shows "\<exists>c'. contest_of tid h' = Some c' \<and> c_state c' = c_state c \<and> (\<forall>report. r \<noteq> Inr (SafelyEnded report))"
proof -
  have c0: "holds tid c (entered tid h)" using c by (simp add: holds_def contest_of_def)
  obtain s h1 where s: "wait_steps H E tid (entered tid h) = (s, h1)" by fastforce
  have stuck: "\<exists>x h2. end_contest H E tid c report (entered tid h) = (Inl x, h2)" for report
    using tripleD [OF conflicting_collect [OF pool rc], of "entered tid h"]
    by (cases "shut_down H E tid c (entered tid h)"; cases "fst (shut_down H E tid c (entered tid h))")
      (auto simp: end_contest_def andThen_def)
  have no_end: "s \<noteq> Inr (SafelyEnded report)" for report
    using ended_through [OF c0, of H E report h1] s stuck [of report] by auto
  show ?thesis
  proof (cases s)
    case (Inr x)
    have r: "r = Inr x" and h': "h' = h1\<lparr>h_world := leave tid (h_world h1)\<rparr>"
      using run s Inr by (simp_all add: wait_run [OF ok] handle_def)
    with wait_steps_run [OF c0 s] Inr have "waited E tid c (base (h_world h)) x h'" by (simp add: waited_leave)
    then have "\<exists>c'. contest_of tid h' = Some c' \<and> c_state c' = c_state c"
    proof (cases x)
      case (SafelyEnded report)
      with no_end [of report] Inr show ?thesis by blast
    qed (auto simp: waited_def)
    moreover have "\<forall>report. r \<noteq> Inr (SafelyEnded report)" using r no_end Inr by blast
    ultimately show ?thesis by blast
  next
    case (Inl x)
    with wait_steps_run [OF c0 s] have h1: "holds tid c h1" by simp
    obtain r2 :: "wait_result res" and h2 where f: "failed_wait E tid x h1 = (r2, h2)" by fastforce
    from failed_wait_contest [OF h1 f] run s Inl f show ?thesis
      by (auto simp: wait_run [OF ok] handle_def contest_of_def leave_def)
  qed
qed

end
