(* ===== verification/CollectDemo.thy ===== *)
theory CollectDemo
  imports CollectDelivery SafeWaitThms PipelineThms
begin

text \<open>The small contest of \<^verbatim>\<open>PipelineThms\<close> is collected, without its seat pool: its one student has handed in a program for its one problem.\<close>

definition demo_tree :: "node \<Rightarrow> node" where
  "demo_tree answer = Dir [(''7'', Dir [(''answers'', Dir [(''c1'', Dir [(''a'', Dir [(''a.cpp'', answer)])])])])]"

definition demo_code :: node where
  "demo_code = File ''x''"

definition demo_rid :: string where
  "demo_rid = ''0123456789abcdef01234567''"

definition stopping :: "poll list" where
  "stopping = [\<lparr>po_status = Inr ''RUNNING'', po_check = Inr (), po_stop = Inr ()\<rparr>, \<lparr>po_status = Inr ''STOPPED'', po_check = Inr (), po_stop = Inr ()\<rparr>]"

definition demo_digest :: string where
  "demo_digest = replicate 64 CHR ''0''"

text \<open>A run at a given time in which the server, the files and the judge work.\<close>

definition demo_collect :: "int \<Rightarrow> node \<Rightarrow> collect_env" where
  "demo_collect at_ms answer = \<lparr>ce_dt = ''now'', ce_ms = at_ms, ce_revoke = (\<lambda>k. Inr ()), ce_stop = (\<lambda>k. stopping),
     ce_status = Inr (''RUNNING'', ''ip''), ce_maintained = Inr False, ce_wait = [], ce_start = Inr (), ce_running = Inr ''ip'',
     ce_ssh = Inr True, ce_pause = (\<lambda>ns. Inr ()), ce_unwatch = Inr (), ce_frozen_at = at_ms, ce_submit_enabled = True,
     ce_ensure = None, ce_pack = Inr (), ce_run_id = ''run1'', ce_mkdir = Inr (), ce_tree = Inr (demo_tree answer), ce_rm = Inr (),
     ce_web_dir = (\<lambda>u. Inr ()), ce_web_file = (\<lambda>u n. Inr ()), ce_write = (\<lambda>x. Inr demo_digest), ce_loads = (\<lambda>s. Inr (JArr [])),
     ce_lang = ''cc'', ce_post = (\<lambda>q. Response 200 (Some (JObj [(''rid'', JStr demo_rid)])) []),
     ce_manifest = Inr [], ce_completed = at_ms, ce_grace = 30, ce_directory = ''/collected'', ce_frontend = Inr ()\<rparr>"

definition judged_contest :: contest where
  "judged_contest = live_contest\<lparr>c_pids := Some [(''a'', ''P1'')]\<rparr>"

definition judged_world :: world where
  "judged_world = live_world\<lparr>base := live_db\<lparr>contests := [judged_contest], seat_pools := [], seat_pool_resources := []\<rparr>\<rparr>"

definition hall_of :: "world \<Rightarrow> hall" where
  "hall_of w = \<lparr>h_world = w, h_closed = False, h_stopped = False, h_frozen = False, h_final = None, h_delivered = [], h_docs = []\<rparr>"

lemma collection_runs: "case collect_contest (\<lambda>s. s) (demo_collect 300 demo_code) live_tid False (hall_of judged_world) of
    (Inl x, h') \<Rightarrow> False | (Inr report, h') \<Rightarrow> length (h_docs h') = 7"
  by code_simp

lemma judged_contest_found: "contest_of live_tid (hall_of judged_world) = Some judged_contest"
  by (simp add: contest_of_def hall_of_def judged_world_def get_contest_def judged_contest_def live_contest_def)

lemma judged_registered: "registered live_tid (base judged_world)"
  using judged_contest_found by (simp add: registered_def contest_of_def hall_of_def judged_world_def)

lemma live_tid_hex: "re_exact hex_digit 24 live_tid"
  by code_simp

lemma nobody_active: "live_tid \<notin> active (h_world (hall_of w))" if "w = judged_world \<or> w = live_world\<lparr>base := d\<rparr>" for d
  using that by (auto simp: hall_of_def judged_world_def live_world_def)

lemma demo_quiet: "quiet tid (registered tid) (demo_collect n a)"
  by (simp add: quiet_def quiet_judge_def collect_keeps_registered demo_collect_def)



text \<open>A directory under the name of the expected source is reported as a misnamed file and then read as a file:
  one student's directory makes the collection of the whole contest fail.\<close>

theorem directory_answer_blocks:
  "case collect_contest (\<lambda>s. s) (demo_collect 300 (Dir [])) live_tid False (hall_of judged_world) of
     (Inl (OtherError n t), h') \<Rightarrow> n = ''IsADirectoryError'' \<and> t = ''c1/a/a.cpp'' | _ \<Rightarrow> False"
  by code_simp

section \<open>A collection that is tried again\<close>

text \<open>The pool was frozen at 150; the collection that did it failed later and is tried again at 300.\<close>

definition frozen_pool :: pool where
  "frozen_pool = (case freeze (\<lambda>s. s) 150 (freeze_command live_tid judged_contest) 0 live_pool of
     Inl x \<Rightarrow> live_pool | Inr t \<Rightarrow> tr_state t)"

definition world_with :: "contest \<Rightarrow> pool \<Rightarrow> world" where
  "world_with c p = live_world\<lparr>base := live_db\<lparr>contests := [c],
     seat_pools := [\<lparr>p_tid = live_tid, p_revision = revision p, p_state_json = Some (jsort (to_dict p)), p_updated_at = ''now''\<rparr>]\<rparr>\<rparr>"

definition frozen_world :: world where
  "frozen_world = world_with judged_contest frozen_pool"

lemma frozen_receipt: "case seat_pool live_tid (base frozen_world) of
    Inr (Some (n, state, updated)) \<Rightarrow> (case read_pool state of
      Inr p \<Rightarrow> (case find_receipt (freeze_command live_tid judged_contest) p of
        Some rc \<Rightarrow> fingerprint rc \<noteq> fingerprint_of (\<lambda>s. s) ''freeze'' [(''now_ms'', JInt 300)]
      | None \<Rightarrow> False) | Inl x \<Rightarrow> False) | _ \<Rightarrow> False"
  by code_simp

theorem frozen_collection_stuck_witness:
  "\<exists>x h' c'. collect_contest (\<lambda>s. s) (demo_collect 300 demo_code) live_tid False (hall_of frozen_world) = (Inl x, h')
     \<and> contest_of live_tid h' = Some c' \<and> c_state c' = Errored"
proof -
  have w: "h_world (hall_of frozen_world) = frozen_world" by (simp add: hall_of_def)
  have at: "ce_frozen_at (demo_collect 300 demo_code) = 300" by (simp add: demo_collect_def)
  have found: "contest_of live_tid (hall_of frozen_world) = Some judged_contest" "distinct (map c_tid (contests (base frozen_world)))"
    "live_tid \<notin> active frozen_world"
    by (simp_all add: contest_of_def hall_of_def frozen_world_def world_with_def get_contest_def judged_contest_def live_contest_def
        live_world_def)
  then have reg: "registered live_tid (base frozen_world)"
    by (simp add: registered_def contest_of_def hall_of_def)
  obtain n state updated p rc where pool: "seat_pool live_tid (base frozen_world) = Inr (Some (n, state, updated))"
    "read_pool state = Inr p" "find_receipt (freeze_command live_tid judged_contest) p = Some rc"
    "fingerprint rc \<noteq> fingerprint_of (\<lambda>s. s) ''freeze'' [(''now_ms'', JInt 300)]"
    using frozen_receipt by (auto split: sum.splits option.splits prod.splits)
  show ?thesis
    by (rule frozen_collection_stuck [OF demo_quiet live_tid_hex _ _ found(1) _ pool(2,3)]) (simp_all add: w at found reg pool)
qed

section \<open>The safe wait\<close>

definition waiting_contest :: contest where
  "waiting_contest = judged_contest\<lparr>c_state := SafeWait, c_collection_run_id := ''run1'', c_collection_dir := ''/collected'',
     c_collection_receipt_sha256 := demo_digest, c_collection_completed_at_ms := 300, c_shutdown_after_ms := 400\<rparr>"

definition demo_receipt :: json where
  "demo_receipt = JObj [(''schema_version'', JInt 1), (''tid'', JStr live_tid), (''run_id'', JStr ''run1''),
     (''submit_failures'', JInt 0), (''files'', JObj (map (\<lambda>n. (n, JStr demo_digest)) expected_files))]"

definition demo_dir :: saved_dir where
  "demo_dir = \<lparr>sd_symlink = False, sd_inside = True, sd_is_dir = True, sd_digest = (\<lambda>n. Some demo_digest),
     sd_receipt = Inr demo_receipt, sd_manifest = Inr (JArr []), sd_current = Inr (JArr [])\<rparr>"

definition demo_wait :: wait_env where
  "demo_wait = \<lparr>fw_dt = ''now'', fw_ms = 500, fw_now = 500, fw_dir = demo_dir, fw_revoke = Inr (), fw_frontend = Inr (),
     fw_status = Inr (''RUNNING'', ''ip''), fw_ssh = Inr True, fw_remove = (\<lambda>ns. Inr ()), fw_unwatch = Inr (),
     fw_ungateway = Inr (), fw_stop = stopping, fw_final = Inr ''STOPPED'', fw_observed = 501\<rparr>"

definition waiting_world :: world where
  "waiting_world = live_world\<lparr>base := live_db\<lparr>contests := [waiting_contest], seat_pools := [], seat_pool_resources := []\<rparr>\<rparr>"

definition safely_over :: "wait_result \<Rightarrow> bool" where
  "safely_over r = (case r of SafelyEnded d \<Rightarrow> True | _ \<Rightarrow> False)"

lemma wait_runs: "case finish_safe_wait (\<lambda>s. s) demo_wait live_tid (hall_of waiting_world) of
    (Inl x, h') \<Rightarrow> False | (Inr x, h') \<Rightarrow> safely_over x"
  by code_simp

text \<open>The pool was marked as collected at 450 and the shutdown is tried again at 500.\<close>

definition collected_pool :: pool where
  "collected_pool = (case collect (\<lambda>s. s) 450 (collect_command live_tid waiting_contest) (revision frozen_pool) frozen_pool of
     Inl x \<Rightarrow> live_pool | Inr t \<Rightarrow> tr_state t)"

definition interrupted_world :: world where
  "interrupted_world = world_with waiting_contest collected_pool"

lemma collected_receipt: "case seat_pool live_tid (base interrupted_world) of
    Inr (Some (n, state, updated)) \<Rightarrow> (case read_pool state of
      Inr p \<Rightarrow> (case find_receipt (collect_command live_tid waiting_contest) p of
        Some rc \<Rightarrow> fingerprint rc \<noteq> fingerprint_of (\<lambda>s. s) ''collect'' [(''now_ms'', JInt 500)]
      | None \<Rightarrow> False) | Inl x \<Rightarrow> False) | _ \<Rightarrow> False"
  by code_simp

lemma demo_holds:
  "holds live_tid waiting_contest (hall_of waiting_world)" "holds live_tid waiting_contest (hall_of interrupted_world)"
  "live_tid \<notin> active (h_world (hall_of waiting_world))" "live_tid \<notin> active (h_world (hall_of interrupted_world))"
  by (simp_all add: holds_def contest_of_def hall_of_def waiting_world_def interrupted_world_def world_with_def get_contest_def
      waiting_contest_def judged_contest_def live_contest_def live_world_def)

theorem safe_end_exact_witness:
  "\<exists>x h'. finish_safe_wait (\<lambda>s. s) demo_wait live_tid (hall_of waiting_world) = (Inr x, h') \<and> safely_over x
     \<and> waited demo_wait live_tid waiting_contest (base waiting_world) x h'"
proof -
  obtain x h' where run: "finish_safe_wait (\<lambda>s. s) demo_wait live_tid (hall_of waiting_world) = (Inr x, h')" "safely_over x"
    using wait_runs by (auto split: prod.splits sum.splits)
  have "h_world (hall_of waiting_world) = waiting_world" by (simp add: hall_of_def)
  with safe_end_exact [OF live_tid_hex demo_holds(3,1) run(1)] run show ?thesis by auto
qed

theorem interrupted_shutdown_stuck_witness:
  "\<exists>r h' c'. finish_safe_wait (\<lambda>s. s) demo_wait live_tid (hall_of interrupted_world) = (r, h')
     \<and> contest_of live_tid h' = Some c' \<and> c_state c' = SafeWait"
proof -
  obtain r h' where run: "finish_safe_wait (\<lambda>s. s) demo_wait live_tid (hall_of interrupted_world) = (r, h')" by fastforce
  have w: "h_world (hall_of interrupted_world) = interrupted_world" by (simp add: hall_of_def)
  have at: "fw_now demo_wait = 500" "c_state waiting_contest = SafeWait" by (simp_all add: demo_wait_def waiting_contest_def)
  obtain n state updated p rc where pool: "seat_pool live_tid (base interrupted_world) = Inr (Some (n, state, updated))"
    "read_pool state = Inr p" "find_receipt (collect_command live_tid waiting_contest) p = Some rc"
    "fingerprint rc \<noteq> fingerprint_of (\<lambda>s. s) ''collect'' [(''now_ms'', JInt 500)]"
    using collected_receipt by (auto split: sum.splits option.splits prod.splits)
  have "\<exists>c'. contest_of live_tid h' = Some c' \<and> c_state c' = c_state waiting_contest \<and> (\<forall>report. r \<noteq> Inr (SafelyEnded report))"
    by (rule interrupted_shutdown_stuck [OF live_tid_hex demo_holds(4,2) _ pool(2,3) _ run]) (simp_all add: w at pool)
  with run at show ?thesis by auto
qed

end
