(* ===== verification/SubmitDemo.thy ===== *)
theory SubmitDemo
  imports SubmitThms CollectDemo
begin

text \<open>A student of the small contest hands in a program in its last second, and the routes' properties at that request.\<close>

definition demo_formal :: formal_env where
  "demo_formal = \<lparr>fr_status = Inr (''RUNNING'', ''ip''), fr_ssh = Inr True, fr_run = Inr [], fr_loads = (\<lambda>s. Inr JNull),
     fr_bytes = (\<lambda>x. Inr [])\<rparr>"

definition demo_judge :: judge where
  "demo_judge = \<lparr>g_lang = ''cc'', g_qualification_marker = [], g_lease_seconds = 90, g_retry_delays = [1]\<rparr>"

text \<open>A browser that is logged in, at a given time.\<close>

definition demo_browser :: "int \<Rightarrow> submit_env" where
  "demo_browser t = \<lparr>sb_dt = ''now'', sb_seen = t, sb_clock = t, sb_window = t, sb_accepted = t, sb_document = (\<lambda>k. Inr None),
     sb_cookies = (\<lambda>n. ''cookie''), sb_transport = [], sb_scheme = ''https'', sb_password = ''pw'', sb_hash = (\<lambda>s. demo_digest),
     sb_hmac = (\<lambda>k m. ''cookie''), sb_maximum = 100, sb_codec = (\<lambda>k s. Some s), sb_judge = Some demo_judge,
     sb_nonce = (\<lambda>p. []), sb_formal = demo_formal, sb_paper = None, sb_feedback = (\<lambda>seat c ps latest. JNull)\<rparr>"

definition demo_nonce :: string where
  "demo_nonce = replicate 32 (CHR ''0'')"

definition demo_upload :: visit where
  "demo_upload = Upload ''a'' demo_nonce ''a.cpp'' ''x''"

lemma upload_runs: "case serve (demo_browser 199) ''s1'' demo_upload judged_world of
    (r, w') \<Rightarrow> length (web_submissions (base w')) = 1 \<and> length (web_submissions (base judged_world)) = 0"
  by code_simp



text \<open>The same request 301 milliseconds after the end.\<close>

lemma upload_again_runs: "case serve (demo_browser 199) ''s1'' demo_upload judged_world of (r, w1) \<Rightarrow>
    (case web_submit_context (demo_browser 500) ''s1'' w1 of
       (Inr (seat, c, problems, latest), w2) \<Rightarrow> b_uid seat = 7 \<and> c_tid c = live_tid \<and> c_submission_session c = ''s''
         \<and> c_pids c = Some [(''a'', ''P1'')] \<and> c_files c = Some [''a''] \<and> allow_new (demo_browser 500) c = Inr False
     | _ \<Rightarrow> False)"
  by code_simp

lemma demo_token: "token_seat (demo_browser 199) ''s1'' (base judged_world)
    (bound_from live_tid 7 ''amy'' (live_resource 1 ''gateway-token-one'' ''s1'' ''c1'')) judged_contest"
  by (simp add: token_seat_def seat_by_submit_token_def judged_world_def live_db_def live_world_def bound_from_def live_resource_def
      get_contest_def judged_contest_def live_contest_def seat_pool_def seat_pool_assignment_def get_pool_row_def seat_usable_def)


theorem replies_are_private_witness:
  "\<exists>reply w'. serve (demo_browser 199) ''s1'' (Page [] [] [] []) judged_world = (Inr reply, w') \<and> \<not> public reply
     \<and> discloses (own_row (bound_from live_tid 7 ''amy'' (live_resource 1 ''gateway-token-one'' ''s1'' ''c1'')) (base judged_world)) reply"
proof -
  have "case serve (demo_browser 199) ''s1'' (Page [] [] [] []) judged_world of (Inr reply, w') \<Rightarrow> \<not> public reply | _ \<Rightarrow> False"
    by code_simp
  then obtain reply w' where run: "serve (demo_browser 199) ''s1'' (Page [] [] [] []) judged_world = (Inr reply, w')" "\<not> public reply"
    by (auto split: prod.splits sum.splits)
  have "seat_by_submit_token ''s1'' (base judged_world)
      = Some (bound_from live_tid 7 ''amy'' (live_resource 1 ''gateway-token-one'' ''s1'' ''c1''))"
    using demo_token by (simp add: token_seat_def)
  from replies_are_private [OF run(1) this] run show ?thesis by auto
qed

end
