(* ===== verification/DesktopAccess.thy ===== *)
theory DesktopAccess
  imports CollectFrame
begin

text \<open>
  \<^verbatim>\<open>orchestrator/services/pipeline.py\<close>: who may reach the desktops. One cloud rule opens the contest server to the
  students; \<open>reconcile_desktop_access\<close>, run every few seconds, opens it for the one contest that is ready and
  closes it otherwise, and falls back to stopping the server when the rule cannot be closed. The cloud's
  answers are the record \<open>access_env\<close>.
\<close>

section \<open>State and environment\<close>

record access_status =
  as_open :: bool
  as_closed :: bool
  as_conflicts :: int
  as_management :: bool
  as_healthy :: bool

text \<open>
  \<open>g_rule\<close>: the contest whose rule may be in place; \<open>g_stopped\<close>: the server has been seen stopped;
  \<open>g_route\<close>: the compatibility route of the web front end; \<open>g_latch\<close> is \<open>_frontend_stopped_reconciled\<close> and
  \<open>g_closing\<close> is \<open>_service_closing\<close>.
\<close>

record gate =
  g_db :: db
  g_rule :: "string option"
  g_stopped :: bool
  g_closing :: bool
  g_route :: bool
  g_latch :: bool

text \<open>
  \<open>ae_revoke k\<close>, \<open>ae_stop k\<close>: the calls of one operation in order (0 the first, 1 in the fail-closed cleanup).
  A revocation that returns a status has removed the rule. \<open>ae_ensure\<close>: whether the rule is in place after the
  call, and its result. \<open>ae_url\<close>: the gateway's address is well formed; \<open>ae_check\<close>: the maintenance check.
\<close>

record access_env =
  ae_dt :: string
  ae_ms :: int
  ae_now :: int
  ae_enabled :: bool
  ae_tls :: bool
  ae_revoke :: "nat \<Rightarrow> access_status res"
  ae_stop :: "nat \<Rightarrow> poll list"
  ae_status :: "(string \<times> string) res"
  ae_url :: "string \<Rightarrow> string res"
  ae_check :: "unit res"
  ae_ensure :: "string \<Rightarrow> int \<Rightarrow> bool \<times> access_status res"
  ae_health :: "(string \<times> int) option \<Rightarrow> access_status res"
  ae_read :: "db \<Rightarrow> contest list res"
  ae_frontend :: "unit res"
  ae_start :: "unit res"

section \<open>The steps\<close>

definition stop_server :: "access_env \<Rightarrow> nat \<Rightarrow> (gate, unit) eff" where
  "stop_server E k = andThen (lift (stop_polls False ''UNKNOWN'' (ae_stop E k)))
     (\<lambda>_. modify (\<lambda>g. g\<lparr>g_stopped := True\<rparr>))"

definition cloud_revoke :: "access_env \<Rightarrow> nat \<Rightarrow> (gate, access_status) eff" where
  "cloud_revoke E k = andThen (lift (ae_revoke E k)) (\<lambda>s.
     andThen (modify (\<lambda>g. g\<lparr>g_rule := None\<rparr>)) (\<lambda>_. ret s))"

definition not_enabled :: access_status where
  "not_enabled = \<lparr>as_open = False, as_closed = True, as_conflicts = 0, as_management = False, as_healthy = True\<rparr>"

definition revoke_access :: "access_env \<Rightarrow> nat \<Rightarrow> (gate, access_status) eff" where
  "revoke_access E k = (if \<not> ae_enabled E then ret not_enabled else cloud_revoke E k)"

text \<open>\<open>fail_closed_desktop_cleanup\<close>: it raises also after a successful fallback.\<close>

definition fail_closed_cleanup :: "access_env \<Rightarrow> (gate, access_status) eff" where
  "fail_closed_cleanup E = handle (revoke_access E 1) (\<lambda>x.
     andThen (handle (stop_server E 1) (\<lambda>y. raise (RuntimeError ''the rule is not revoked and the server not stopped''))) (\<lambda>_.
     raise (RuntimeError ''the rule is not revoked, the server is stopped'')))"

definition validate_ready_gateway :: "access_env \<Rightarrow> string res" where
  "validate_ready_gateway E = bindE (ae_status E) (\<lambda>(state, ip).
     if map upper_char state \<noteq> ''RUNNING'' \<or> ip = [] then Inl (RuntimeError ''the server is not running'')
     else bindE (ae_url E ip) (\<lambda>_. Inr ip))"

definition put_rule :: "access_env \<Rightarrow> contest \<Rightarrow> (gate, access_status) eff" where
  "put_rule E c = (case ae_ensure E (c_tid c) (c_end_at_ms c) of (placed, r) \<Rightarrow>
     andThen (modify (\<lambda>g. if placed then g\<lparr>g_rule := Some (c_tid c)\<rparr> else g)) (\<lambda>_. lift r))"

text \<open>\<open>_ensure_desktop_access\<close>, used at the end of a preparation.\<close>

definition ensure_access :: "access_env \<Rightarrow> contest \<Rightarrow> (gate, access_status) eff" where
  "ensure_access E c = andThen (lift (ae_check E)) (\<lambda>_.
     if \<not> ae_enabled E then ret not_enabled else
     andThen (asks g_closing) (\<lambda>closing.
     andThen (require (\<not> closing) (RuntimeError ''the service is closing'')) (\<lambda>_.
     andThen (lift (validate_ready_gateway E)) (\<lambda>_. put_rule E c))))"

datatype access_reason = ServiceClosing | OneReady | PastDeadline | ManyReady | NoneReady

definition desired_access :: "int \<Rightarrow> contest list \<Rightarrow> contest option \<times> access_reason" where
  "desired_access now cs = (case filter (\<lambda>c. c_state c = Ready) cs of
     [] \<Rightarrow> (None, NoneReady)
   | [c] \<Rightarrow> if now < c_end_at_ms c then (Some c, OneReady) else (None, PastDeadline)
   | _ \<Rightarrow> (None, ManyReady))"

text \<open>\<open>self.store.contests()\<close> may raise.\<close>

definition desired_desktop_access :: "access_env \<Rightarrow> (gate, contest option \<times> access_reason) eff" where
  "desired_desktop_access E = andThen (asks (\<lambda>g. ae_read E (g_db g))) (\<lambda>r.
     andThen (lift r) (\<lambda>cs. ret (desired_access (ae_now E) cs)))"

record access_report =
  ar_enabled :: bool
  ar_desired_open :: bool
  ar_healthy :: bool
  ar_contest :: "(string \<times> int) option"
  ar_reason :: "access_reason option"

definition closed_report :: "access_reason \<Rightarrow> bool \<Rightarrow> access_report" where
  "closed_report r healthy = \<lparr>ar_enabled = True, ar_desired_open = False, ar_healthy = healthy, ar_contest = None,
     ar_reason = Some r\<rparr>"

definition closed_healthy :: "access_status \<Rightarrow> access_reason \<Rightarrow> bool" where
  "closed_healthy s r \<longleftrightarrow> as_closed s \<and> as_conflicts s = 0 \<and> as_management s \<and> r = NoneReady"

definition disabled_report :: access_report where
  "disabled_report = \<lparr>ar_enabled = False, ar_desired_open = False, ar_healthy = True, ar_contest = None, ar_reason = None\<rparr>"

text \<open>Revoke, or stop the server; the exception of the revocation is raised in any case.\<close>

definition revoke_or_stop :: "access_env \<Rightarrow> (gate, access_status) eff" where
  "revoke_or_stop E = handle (cloud_revoke E 0) (\<lambda>x. andThen (quietly (stop_server E 0)) (\<lambda>_. raise x))"

definition open_access :: "access_env \<Rightarrow> contest \<Rightarrow> (gate, access_status) eff" where
  "open_access E c = andThen (lift (validate_ready_gateway E)) (\<lambda>_.
     andThen (handle (lift (ae_check E)) (\<lambda>x.
       andThen (modify (\<lambda>g. g\<lparr>g_db := set_state (ae_dt E) (ae_ms E) (c_tid c) Errored ''maintenance protection lost'' (g_db g)\<rparr>))
         (\<lambda>_. raise x))) (\<lambda>_.
     put_rule E c))"

definition then_closed :: "access_env \<Rightarrow> (gate, 'a) eff \<Rightarrow> (gate, 'a) eff" where
  "then_closed E m = handle m (\<lambda>x.
     andThen (handle (fail_closed_cleanup E) (\<lambda>y. raise (RuntimeError ''failing closed did not converge''))) (\<lambda>_. raise x))"

definition reconcile_desktop_access :: "access_env \<Rightarrow> (gate, access_report) eff" where
  "reconcile_desktop_access E =
     (if \<not> ae_enabled E then ret disabled_report else
      andThen (asks g_closing) (\<lambda>closing.
      if closing then andThen (revoke_or_stop E) (\<lambda>s. ret (closed_report ServiceClosing (as_closed s))) else
      andThen (then_closed E (desired_desktop_access E)) (\<lambda>(desired, reason).
      case desired of
        None \<Rightarrow> andThen (revoke_or_stop E) (\<lambda>s. ret (closed_report reason (closed_healthy s reason)))
      | Some c \<Rightarrow> andThen (then_closed E (open_access E c)) (\<lambda>s.
          ret \<lparr>ar_enabled = True, ar_desired_open = True, ar_healthy = as_healthy s, ar_contest = Some (c_tid c, c_end_at_ms c),
            ar_reason = Some reason\<rparr>))))"

text \<open>\<open>desktop_access_health\<close> only reads.\<close>

definition desktop_access_health :: "access_env \<Rightarrow> (gate, access_report) eff" where
  "desktop_access_health E =
     (if \<not> ae_enabled E then ret disabled_report else
      andThen (desired_desktop_access E) (\<lambda>(desired, reason).
      case desired of
        None \<Rightarrow> andThen (lift (ae_health E None)) (\<lambda>s. ret (closed_report reason (closed_healthy s reason)))
      | Some c \<Rightarrow>
          andThen (lift (validate_ready_gateway E)) (\<lambda>_.
          andThen (lift (ae_check E)) (\<lambda>_.
          andThen (lift (ae_health E (Some (c_tid c, c_end_at_ms c)))) (\<lambda>s.
          ret \<lparr>ar_enabled = True, ar_desired_open = True, ar_healthy = (as_open s \<and> as_conflicts s = 0 \<and> as_management s),
            ar_contest = Some (c_tid c, c_end_at_ms c), ar_reason = Some reason\<rparr>)))))"

section \<open>The front end and the server\<close>

definition front_end :: "access_env \<Rightarrow> bool \<Rightarrow> (gate, unit) eff" where
  "front_end E on = andThen (lift (ae_frontend E)) (\<lambda>_. modify (\<lambda>g. g\<lparr>g_route := on, g_latch := \<not> on\<rparr>))"

definition disable_frontend :: "access_env \<Rightarrow> bool \<Rightarrow> (gate, bool) eff" where
  "disable_frontend E force = andThen (asks g_latch) (\<lambda>latch.
     if latch \<and> \<not> force then ret False else andThen (front_end E False) (\<lambda>_. ret True))"

definition enable_frontend :: "access_env \<Rightarrow> (gate, unit) eff" where
  "enable_frontend E = (if ae_tls E then andThen (disable_frontend E True) (\<lambda>_. ret ()) else front_end E True)"

definition reconcile_frontend :: "access_env \<Rightarrow> bool \<Rightarrow> (gate, bool) eff" where
  "reconcile_frontend E force =
     (if ae_tls E then disable_frontend E force
      else if ae_enabled E then
        andThen (desired_desktop_access E) (\<lambda>(desired, reason).
        andThen (lift (ae_status E)) (\<lambda>(state, ip).
        if desired \<noteq> None \<and> map upper_char state = ''RUNNING'' \<and> ip \<noteq> [] then
          andThen (asks g_latch) (\<lambda>latch. if \<not> force \<and> \<not> latch then ret False
            else andThen (front_end E True) (\<lambda>_. ret True))
        else disable_frontend E force))
      else andThen (lift (ae_status E)) (\<lambda>(state, ip).
        if map upper_char state \<noteq> ''STOPPED'' then andThen (modify (\<lambda>g. g\<lparr>g_latch := False\<rparr>)) (\<lambda>_. ret False)
        else disable_frontend E force))"

definition begin_shutdown :: "gate \<Rightarrow> gate" where
  "begin_shutdown g = g\<lparr>g_closing := True\<rparr>"

text \<open>\<open>shutdown_server\<close>: every step is tried; the errors are raised together at the end. The states are written in
  one loop over the contests that were read.\<close>

definition close_contest :: "access_env \<Rightarrow> contest \<Rightarrow> db \<Rightarrow> db" where
  "close_contest E c d = (if c_state c \<in> {Preparing, Ready, Collecting}
     then set_state (ae_dt E) (ae_ms E) (c_tid c) Errored ''the server was shut down by the teacher'' d else d)"

definition suppress_contests :: "access_env \<Rightarrow> (gate, unit) eff" where
  "suppress_contests E = andThen (asks (\<lambda>g. ae_read E (g_db g))) (\<lambda>r. andThen (lift r) (\<lambda>cs.
     modify (\<lambda>g. g\<lparr>g_db := foldl (\<lambda>d c. close_contest E c d) (g_db g) cs\<rparr>)))"

definition attempt_all :: "('s, unit) eff list \<Rightarrow> ('s, nat) eff" where
  "attempt_all ms = forEach ms (\<lambda>m n. handle (andThen m (\<lambda>_. ret n)) (\<lambda>x. ret (n + 1))) 0"

definition shutdown_server :: "access_env \<Rightarrow> (gate, unit) eff" where
  "shutdown_server E =
     andThen (attempt_all [suppress_contests E, andThen (revoke_access E 0) (\<lambda>_. ret ()),
       andThen (disable_frontend E True) (\<lambda>_. ret ()), stop_server E 0]) (\<lambda>errors.
     require (errors = 0) (RuntimeError ''the shutdown did not converge''))"

definition boot_server :: "access_env \<Rightarrow> (gate, bool) eff" where
  "boot_server E = andThen (asks g_closing) (\<lambda>closing.
     andThen (require (\<not> closing) (RuntimeError ''the service is closing'')) (\<lambda>_.
     andThen (lift (ae_status E)) (\<lambda>(state, ip).
     if map upper_char state \<noteq> ''STOPPED'' then ret False else
     andThen (revoke_access E 0) (\<lambda>_.
     andThen (lift (ae_start E)) (\<lambda>_.
     andThen (modify (\<lambda>g. g\<lparr>g_stopped := False\<rparr>)) (\<lambda>_. ret True))))))"

section \<open>Properties\<close>

lemma stop_server_run: "stop_server E k g = (case stop_polls False ''UNKNOWN'' (ae_stop E k) of
    Inl y \<Rightarrow> (Inl y, g) | Inr u \<Rightarrow> (Inr (), g\<lparr>g_stopped := True\<rparr>))"
  by (simp add: stop_server_def eff_defs split: sum.split)

lemma cloud_revoke_run: "cloud_revoke E k g = (case ae_revoke E k of Inl y \<Rightarrow> (Inl y, g) | Inr s \<Rightarrow> (Inr s, g\<lparr>g_rule := None\<rparr>))"
  by (simp add: cloud_revoke_def eff_defs split: sum.split)

text \<open>The rule is gone, or the server is stopped, or the cloud refused both in one of the two rounds.\<close>

definition shut :: "access_env \<Rightarrow> gate \<Rightarrow> bool" where
  "shut E g \<longleftrightarrow> g_rule g = None \<or> g_stopped g
     \<or> (\<exists>k x y. ae_revoke E k = Inl x \<and> stop_polls False ''UNKNOWN'' (ae_stop E k) = Inl y)"

lemma revoke_or_stop_run:
  assumes "revoke_or_stop E g = (r, g')"
  shows "case r of Inr s \<Rightarrow> g_rule g' = None | Inl x \<Rightarrow> shut E g'"
  using assms by (auto simp: revoke_or_stop_def eff_defs cloud_revoke_run stop_server_run shut_def split: sum.splits)

lemma then_closed_run:
  assumes "ae_enabled E" and "then_closed E m g = (r, g')"
  shows "case r of Inr a \<Rightarrow> m g = (Inr a, g') | Inl x \<Rightarrow> shut E g'"
  using assms
  by (auto simp: then_closed_def fail_closed_cleanup_def revoke_access_def eff_defs cloud_revoke_run stop_server_run shut_def
      split: sum.splits prod.splits)

lemma desired_one: "desired_access now cs = (Some c, r) \<Longrightarrow> filter (\<lambda>c. c_state c = Ready) cs = [c] \<and> now < c_end_at_ms c \<and> r = OneReady"
  by (auto simp: desired_access_def split: list.splits if_splits)

lemma open_access_run:
  assumes "open_access E c g = (Inr s, g')"
  shows "ae_check E = Inr () \<and> (\<exists>ip. validate_ready_gateway E = Inr ip) \<and> snd (ae_ensure E (c_tid c) (c_end_at_ms c)) = Inr s
    \<and> g_rule g' = (if fst (ae_ensure E (c_tid c) (c_end_at_ms c)) then Some (c_tid c) else g_rule g)"
  using assms by (auto simp: open_access_def put_rule_def eff_defs split: sum.splits prod.splits)

text \<open>A cloud that answers, before any contest is ready.\<close>

definition demo_access :: access_env where
  "demo_access = \<lparr>ae_dt = ''now'', ae_ms = 0, ae_now = 0, ae_enabled = True, ae_tls = False,
     ae_revoke = (\<lambda>k. Inr not_enabled), ae_stop = (\<lambda>k. []), ae_status = Inr (''RUNNING'', ''ip''), ae_url = Inr,
     ae_check = Inr (), ae_ensure = (\<lambda>t e. (True, Inr not_enabled)), ae_health = (\<lambda>x. Inr not_enabled),
     ae_read = (\<lambda>d. Inr (contests d)), ae_frontend = Inr (), ae_start = Inr ()\<rparr>"

definition demo_gate :: "contest list \<Rightarrow> gate" where
  "demo_gate cs = \<lparr>g_db = empty_db\<lparr>contests := cs\<rparr>, g_rule = Some ''c'', g_stopped = False, g_closing = False,
     g_route = True, g_latch = False\<rparr>"

lemma closed_runs: "case reconcile_desktop_access demo_access (demo_gate []) of
    (Inl x, g') \<Rightarrow> False | (Inr rep, g') \<Rightarrow> \<not> ar_desired_open rep"
  by code_simp

text \<open>C11: The desktops are never left open unattended. A reconciliation that says \<open>open\<close> has found exactly one
  ready contest before its end, a service that is not closing, a running server and a valid maintenance
  state, and the rule in place is that contest's; one that says \<open>closed\<close> has removed the rule; and one that
  fails leaves the rule removed or the server stopped, unless the cloud refused both.\<close>

theorem desktop_fails_closed:
  assumes enabled: "ae_enabled E" and honest: "\<And>t e s. snd (ae_ensure E t e) = Inr s \<Longrightarrow> fst (ae_ensure E t e)"
    and run: "reconcile_desktop_access E g = (r, g')"
  shows "case r of
      Inr rep \<Rightarrow> if ar_desired_open rep
        then \<exists>cs c ip. ae_read E (g_db g) = Inr cs \<and> filter (\<lambda>c. c_state c = Ready) cs = [c] \<and> ae_now E < c_end_at_ms c
          \<and> \<not> g_closing g \<and> validate_ready_gateway E = Inr ip \<and> ae_check E = Inr ()
          \<and> ar_contest rep = Some (c_tid c, c_end_at_ms c) \<and> g_rule g' = Some (c_tid c)
        else g_rule g' = None
    | Inl x \<Rightarrow> shut E g'"
proof (cases "g_closing g")
  case True
  obtain r1 g1 where s: "revoke_or_stop E g = (r1, g1)" by fastforce
  from revoke_or_stop_run [OF s] run enabled True s show ?thesis
    by (auto simp: reconcile_desktop_access_def andThen_def asks_def ret_def closed_report_def split: sum.splits)
next
  case closing: False
  obtain r1 g1 where d: "then_closed E (desired_desktop_access E) g = (r1, g1)" by fastforce
  note d' = then_closed_run [OF enabled d]
  show ?thesis
  proof (cases r1)
    case (Inl x)
    with d d' run enabled closing show ?thesis by (auto simp: reconcile_desktop_access_def andThen_def asks_def)
  next
    case (Inr y)
    obtain desired reason where y: "y = (desired, reason)" by fastforce
    from d' Inr y obtain cs where cs: "ae_read E (g_db g) = Inr cs" "desired_access (ae_now E) cs = (desired, reason)" "g1 = g"
      by (auto simp: desired_desktop_access_def eff_defs split: sum.splits)
    show ?thesis
    proof (cases desired)
      case None
      obtain r2 g2 where s: "revoke_or_stop E g = (r2, g2)" by fastforce
      from revoke_or_stop_run [OF s] run enabled closing d Inr y cs(3) None s show ?thesis
        by (auto simp: reconcile_desktop_access_def andThen_def asks_def ret_def closed_report_def split: sum.splits)
    next
      case (Some c)
      obtain r2 g2 where o: "then_closed E (open_access E c) g = (r2, g2)" by fastforce
      note o' = then_closed_run [OF enabled o]
      have r: "(r, g') = (case r2 of Inl x \<Rightarrow> (Inl x, g2) | Inr s \<Rightarrow> (Inr \<lparr>ar_enabled = True, ar_desired_open = True,
          ar_healthy = as_healthy s, ar_contest = Some (c_tid c, c_end_at_ms c), ar_reason = Some reason\<rparr>, g2))"
        using run enabled closing d Inr y cs(3) Some o
        by (auto simp: reconcile_desktop_access_def andThen_def asks_def ret_def split: sum.splits)
      show ?thesis
      proof (cases r2)
        case (Inl x)
        with r o' show ?thesis by simp
      next
        case (Inr s)
        with o' have "open_access E c g = (Inr s, g2)" by simp
        from open_access_run [OF this] desired_one [OF cs(2) [unfolded Some]] cs(1) closing r Inr honest show ?thesis by auto
      qed
    qed
  qed
qed

theorem desktop_fails_closed_witness:
  "\<exists>rep g'. reconcile_desktop_access demo_access (demo_gate []) = (Inr rep, g') \<and> \<not> ar_desired_open rep \<and> g_rule g' = None"
proof -
  obtain rep g' where run: "reconcile_desktop_access demo_access (demo_gate []) = (Inr rep, g')" "\<not> ar_desired_open rep"
    using closed_runs by (auto split: prod.splits sum.splits)
  have "ae_enabled demo_access" and "snd (ae_ensure demo_access t e) = Inr s \<Longrightarrow> fst (ae_ensure demo_access t e)" for t e s
    by (simp_all add: demo_access_def)
  from desktop_fails_closed [OF this run(1)] run show ?thesis by auto
qed

section \<open>Shutting the server down\<close>

definition live_state :: "contest_state \<Rightarrow> bool" where
  "live_state s \<longleftrightarrow> s \<in> {Preparing, Ready, Collecting}"

definition closed_contest :: "contest \<Rightarrow> contest" where
  "closed_contest c = (if live_state (c_state c)
     then c\<lparr>c_state := Errored, c_message := ''the server was shut down by the teacher''\<rparr> else c)"

lemma closed_contest_keeps [simp]: "c_tid (closed_contest c) = c_tid c" "\<not> live_state (c_state (closed_contest c))"
  by (simp_all add: closed_contest_def live_state_def)

lemma close_contest_contests:
  "contests (close_contest E c d) = map (\<lambda>x. if live_state (c_state c) \<and> c_tid x = c_tid c
     then x\<lparr>c_state := Errored, c_message := ''the server was shut down by the teacher''\<rparr> else x) (contests d)"
  by (auto simp: close_contest_def live_state_def set_state_def add_audit_def update_contest_def sql_update_def)

lemma foldl_close:
  assumes "distinct (map c_tid (contests d))" and "set cs \<subseteq> set (contests d)"
  shows "contests (foldl (\<lambda>d c. close_contest E c d) d cs) = map (\<lambda>x. if x \<in> set cs then closed_contest x else x) (contests d)"
  using assms(2)
proof (induction cs rule: rev_induct)
  case (snoc c cs)
  then have c: "c \<in> set (contests d)" by simp
  have same: "x \<in> set (contests d) \<Longrightarrow> c_tid x = c_tid c \<longleftrightarrow> x = c" for x
    using assms(1) c by (auto simp: distinct_map dest: inj_onD)
  have old: "contests (foldl (\<lambda>d c. close_contest E c d) d cs) = map (\<lambda>x. if x \<in> set cs then closed_contest x else x) (contests d)"
    using snoc by simp
  have tid: "c_tid (if x \<in> set cs then closed_contest x else x) = c_tid x" for x by simp
  show ?case
    unfolding foldl_append foldl.simps close_contest_contests old map_map comp_def tid
  proof (rule map_cong [OF refl], goal_cases)
    case (1 x)
    show ?case
      by (cases "x = c"; cases "live_state (c_state c)"; cases "x \<in> set cs") (simp_all add: same [OF 1] closed_contest_def)
  qed
qed simp

lemma close_all:
  assumes "distinct (map c_tid (contests d))" and "set cs = set (contests d)"
  shows "contests (foldl (\<lambda>d c. close_contest E c d) d cs) = map closed_contest (contests d)"
  using foldl_close [OF assms(1), of cs E] assms(2) by simp

lemma attempt_each:
  "forEach (m # ms) (\<lambda>m n. handle (andThen m (\<lambda>_. ret n)) (\<lambda>x. ret (n + 1))) n g =
     (case m g of (r, g1) \<Rightarrow> forEach ms (\<lambda>m n. handle (andThen m (\<lambda>_. ret n)) (\<lambda>x. ret (n + 1))) (if r = Inr () then n else n + 1) g1)"
  by (simp add: eff_defs split: sum.split prod.split)

lemma suppress_run:
  assumes "distinct (map c_tid (contests (g_db g)))" and "\<And>cs. ae_read E (g_db g) = Inr cs \<Longrightarrow> set cs = set (contests (g_db g))"
    and "suppress_contests E g = (r, g')"
  shows "(r = Inr () \<longleftrightarrow> ae_read E (g_db g) \<in> range Inr) \<and> g_rule g' = g_rule g \<and> g_route g' = g_route g \<and> g_stopped g' = g_stopped g
    \<and> contests (g_db g') = (if ae_read E (g_db g) \<in> range Inr then map closed_contest else id) (contests (g_db g))"
proof (cases "ae_read E (g_db g)")
  case (Inl x)
  with assms(3) show ?thesis by (auto simp: suppress_contests_def eff_defs)
next
  case (Inr cs)
  with assms(3) have "r = Inr ()" "g' = g\<lparr>g_db := foldl (\<lambda>d c. close_contest E c d) (g_db g) cs\<rparr>"
    by (simp_all add: suppress_contests_def eff_defs)
  with close_all [OF assms(1) assms(2) [OF Inr], of E] Inr show ?thesis by simp
qed

lemma revoke_run:
  assumes "andThen (revoke_access E k) (\<lambda>_. ret ()) g = (r, g')"
  shows "(r = Inr () \<longleftrightarrow> (ae_enabled E \<longrightarrow> ae_revoke E k \<in> range Inr)) \<and> g_db g' = g_db g \<and> g_route g' = g_route g \<and> g_stopped g' = g_stopped g
    \<and> g_rule g' = (if ae_enabled E \<and> ae_revoke E k \<in> range Inr then None else g_rule g)"
  using assms by (cases "ae_revoke E k") (auto simp: revoke_access_def eff_defs cloud_revoke_run split: if_splits)

lemma disable_run:
  assumes "andThen (disable_frontend E True) (\<lambda>_. ret ()) g = (r, g')"
  shows "(r = Inr () \<longleftrightarrow> ae_frontend E = Inr ()) \<and> g_db g' = g_db g \<and> g_rule g' = g_rule g \<and> g_stopped g' = g_stopped g
    \<and> g_route g' = (g_route g \<and> ae_frontend E \<noteq> Inr ())"
  using assms by (cases "ae_frontend E") (auto simp: disable_frontend_def front_end_def eff_defs)

lemma stop_run:
  assumes "stop_server E k g = (r, g')"
  shows "(r = Inr () \<longleftrightarrow> stop_polls False ''UNKNOWN'' (ae_stop E k) = Inr ()) \<and> g_db g' = g_db g \<and> g_rule g' = g_rule g \<and> g_route g' = g_route g
    \<and> g_stopped g' = (g_stopped g \<or> stop_polls False ''UNKNOWN'' (ae_stop E k) = Inr ())"
  using assms by (cases "stop_polls False ''UNKNOWN'' (ae_stop E k)") (auto simp: stop_server_run)

text \<open>C33: The emergency shutdown tries everything whatever fails: the contests that could be read are suppressed, the
  rule is removed if the cloud allows it, the route is taken away and the server is stopped, each independently
  of the other three; it returns exactly when all four succeeded.\<close>

theorem shutdown_tries_everything:
  assumes "distinct (map c_tid (contests (g_db g)))" and "\<And>cs. ae_read E (g_db g) = Inr cs \<Longrightarrow> set cs = set (contests (g_db g))"
    and "shutdown_server E g = (r, g')"
  shows "contests (g_db g') = (if ae_read E (g_db g) \<in> range Inr then map closed_contest else id) (contests (g_db g))
    \<and> g_rule g' = (if ae_enabled E \<and> ae_revoke E 0 \<in> range Inr then None else g_rule g)
    \<and> g_route g' = (g_route g \<and> ae_frontend E \<noteq> Inr ())
    \<and> g_stopped g' = (g_stopped g \<or> stop_polls False ''UNKNOWN'' (ae_stop E 0) = Inr ())
    \<and> (r = Inr () \<longleftrightarrow> ae_read E (g_db g) \<in> range Inr \<and> (ae_enabled E \<longrightarrow> ae_revoke E 0 \<in> range Inr)
        \<and> ae_frontend E = Inr () \<and> stop_polls False ''UNKNOWN'' (ae_stop E 0) = Inr ())"
proof -
  obtain r1 g1 where 1: "suppress_contests E g = (r1, g1)" by fastforce
  obtain r2 g2 where 2: "andThen (revoke_access E 0) (\<lambda>_. ret ()) g1 = (r2, g2)" by fastforce
  obtain r3 g3 where 3: "andThen (disable_frontend E True) (\<lambda>_. ret ()) g2 = (r3, g3)" by fastforce
  obtain r4 g4 where 4: "stop_server E 0 g3 = (r4, g4)" by fastforce
  have "attempt_all [suppress_contests E, andThen (revoke_access E 0) (\<lambda>_. ret ()), andThen (disable_frontend E True) (\<lambda>_. ret ()),
      stop_server E 0] g = (Inr (length (filter (\<lambda>r. r \<noteq> Inr ()) [r1, r2, r3, r4])), g4)"
    unfolding attempt_all_def attempt_each 1 2 3 4 split by (simp add: ret_def)
  then have "shutdown_server E g = (if r1 = Inr () \<and> r2 = Inr () \<and> r3 = Inr () \<and> r4 = Inr () then Inr ()
      else Inl (RuntimeError ''the shutdown did not converge''), g4)"
    by (simp add: shutdown_server_def andThen_def require_def ret_def raise_def)
  with assms(3) have r: "g' = g4" "r = Inr () \<longleftrightarrow> r1 = Inr () \<and> r2 = Inr () \<and> r3 = Inr () \<and> r4 = Inr ()"
    by (auto split: if_splits)
  note s1 = suppress_run [OF assms(1,2) 1] and s2 = revoke_run [OF 2] and s3 = disable_run [OF 3] and s4 = stop_run [OF 4]
  from s1 s2 s3 s4 show ?thesis unfolding r by (elim conjE) (simp only: simp_thms conj_assoc)
qed

theorem shutdown_tries_everything_witness:
  "\<exists>r g'. shutdown_server demo_access (demo_gate []) = (r, g') \<and> g_rule g' = None \<and> r \<noteq> Inr ()"
proof -
  obtain r g' where run: "shutdown_server demo_access (demo_gate []) = (r, g')" by fastforce
  have "g_rule g' = None \<and> r \<noteq> Inr ()"
    using shutdown_tries_everything [OF _ _ run] by (simp add: demo_access_def demo_gate_def empty_db_def)
  with run show ?thesis by blast
qed

end
