(* ===== verification/Spec2Isabelle.thy ===== *)
theory Spec2Isabelle
  imports RealtimeThms NotifyDemo SubmitDemo DesktopAccess
begin

text \<open>
  The core of the contest system: a FastAPI controller (\<^verbatim>\<open>orchestrator/\<close>) that prepares one container seat
  per student for a programming contest of a Hydro online judge, accepts source submissions through a
  browser during the contest, delivers them to the judge, collects the seats at the end and shuts the cloud
  machines down. All durable state is one SQLite database; this development models that database, the
  operations on it and the two state machines above it.

  \<^bold>\<open>Parts and theories.\<close>

  \<^item> \<^verbatim>\<open>Prelude\<close>, \<^verbatim>\<open>Json\<close>: exceptions (\<open>exn\<close>) and results (\<open>exn + 'a\<close>) with \<open>bindE\<close>, Python's strings
    (Unicode code points up to 255), decimal text, lists as SQL tables (\<open>sql_update\<close>, \<open>sql_delete\<close>), decoded
    JSON with Python's equality and \<open>json.dumps\<close>. The locale \<open>machine\<close> states that an operation which fails
    changes nothing and one that succeeds keeps an invariant; \<open>progress_machine\<close> adds an order every
    operation respects; \<open>keyed_table\<close> is a table with a primary key. Histories of operations are folds of
    \<open>attempt\<close>, so a theorem about a history covers every interleaving of successful and failed calls.

  \<^item> \<^verbatim>\<open>SeatPool\<close> (\<^verbatim>\<open>services/seat_pool.py\<close>): the seat pool as a record, every command as a definition, the
    receipts that make retries idempotent (\<open>apply_cmd\<close>, \<open>run_op\<close>). \<^verbatim>\<open>SeatPoolInv\<close> proves the structural
    invariant \<open>pool_wf\<close> of every command, \<^verbatim>\<open>SeatPoolLife\<close> the life cycle of a seat and of a student's
    assignment, \<^verbatim>\<open>SeatPoolThms\<close> the properties.

  \<^item> \<^verbatim>\<open>StoreState\<close> (\<^verbatim>\<open>services/store.py\<close>, \<open>SCHEMA\<close>): the twelve tables as lists of records in rowid order.

  \<^item> \<^verbatim>\<open>Outbox\<close>, \<^verbatim>\<open>OutboxInv\<close>, \<^verbatim>\<open>OutboxLife\<close>, \<^verbatim>\<open>OutboxThms\<close>: web submissions in \<^verbatim>\<open>store.py\<close>: acceptance, claims
    with leases, completion, ambiguous outcomes, requeue for the final delivery, queries.

  \<^item> \<^verbatim>\<open>RealtimeJudge\<close>, \<^verbatim>\<open>RealtimeInv\<close>, \<^verbatim>\<open>RealtimeThms\<close> (\<^verbatim>\<open>services/realtime_judge.py\<close>,
    \<^verbatim>\<open>services/hydro_submit.py\<close>): one round of the dispatcher, the waiting loop, the read-only resolution of
    ambiguous deliveries. The HTTP service is a parameter: an arbitrary response, and an arbitrary
    interference with the database while it is under way.

  \<^item> \<^verbatim>\<open>ContestStore\<close>, \<^verbatim>\<open>ContestInv\<close>, \<^verbatim>\<open>ContestThms\<close>: registration, time synchronisation, problem mapping,
    state changes, safe wait and safe end, retention marks, restart recovery and the audit trail.

  \<^item> \<^verbatim>\<open>MaterialStore\<close>, \<^verbatim>\<open>MaterialInv\<close>, \<^verbatim>\<open>MaterialThms\<close>: material revisions, their publication receipts, the
    approval that selects one for the contest, and the generation jobs. SHA-256 is a parameter \<open>H\<close>.

  \<^item> \<^verbatim>\<open>PoolStore\<close>, \<^verbatim>\<open>PoolThms\<close>: the serialized pool in the database, the connection resources of its slots, the
    bound seats, and the atomic commits of an expansion, a replacement and a repair. \<^verbatim>\<open>PoolLink\<close> joins
    them with the machine of \<^verbatim>\<open>SeatPool\<close>: the store accepts what the machine produces, and the relation
    \<open>linked\<close> between the two is kept.

  \<^item> \<^verbatim>\<open>Effects\<close>: operations on the contest server as state passing with exceptions (\<open>('s, 'a) eff\<close>), the world they
    act on (the database, the live gateway configuration, the containers, the local variables that the
    exception handlers read) and their Hoare triples: \<open>triple P m Q E\<close> has a condition for the normal end and
    one for every exception.

  \<^item> \<^verbatim>\<open>PoolOps\<close>, \<^verbatim>\<open>RosterSync\<close> (\<^verbatim>\<open>services/pipeline.py\<close>): growth, repair and replacement of seats of a running
    contest, the synchronisation of the roster and of the contest's time. The answers of SSH, Docker, the
    cloud and the judge are the fields of the record \<open>env\<close>; any of them may be an exception.
    \<^verbatim>\<open>StoredPool\<close> shows that a pool read back from the database is the machine's pool, \<^verbatim>\<open>OpsFrame\<close> what the steps
    leave alone (\<open>keeps\<close>), \<^verbatim>\<open>GrowLink\<close>, \<^verbatim>\<open>GrowThms\<close>, \<^verbatim>\<open>RepairThms\<close>, \<^verbatim>\<open>RosterThms\<close> that every operation leads from a
    linked pool to a linked pool, and what it may change; \<^verbatim>\<open>GatewayThms\<close> follows the live gateway
    configuration. \<^verbatim>\<open>PipelineThms\<close> holds the properties and a small running contest on which they are applied.

  \<^item> \<^verbatim>\<open>NotifyStore\<close> (\<^verbatim>\<open>store.py\<close>), \<^verbatim>\<open>NotifyRound\<close> (\<^verbatim>\<open>services/hydro_notify.py\<close>, \<^verbatim>\<open>main.py\<close>): the outbox of login
    messages to the students, the client that sends one and a round of the scheduler's deliveries.
    \<^verbatim>\<open>NotifyAdmin\<close> adds the teacher's routes (retry, reminder), the background round and the health verdict.
    \<^verbatim>\<open>NotifyLife\<close> proves what each operation keeps of a row, \<^verbatim>\<open>NotifyThms\<close> lifts it to histories
    (\<open>progress_machine\<close>), \<^verbatim>\<open>NotifyHealth\<close> that the retry and the health report are exact, \<^verbatim>\<open>NotifyTrack\<close> that a
    round forgets nobody; \<^verbatim>\<open>NotifyDemo\<close> applies them to the small contest.

  \<^item> \<^verbatim>\<open>StaticCheck\<close> (\<^verbatim>\<open>services/static_check.py\<close>): the comment stripper, the advisory patterns and the report of a
    student's answer directory. The regular expressions are written as matchers, directories as trees.

  \<^item> \<^verbatim>\<open>Collection\<close> (\<^verbatim>\<open>services/pipeline.py\<close>: \<open>collect\<close>, \<open>_verify_collection_receipt\<close>, \<open>finish_safe_wait\<close>): the collection of
    a contest with its exception handler and \<open>finally\<close> block, and the safe wait that ends it. The state is a
    \<open>hall\<close>: the world and what one run has done outside the database. \<^verbatim>\<open>CollectFrame\<close> has the rules for what the steps
    leave alone, \<^verbatim>\<open>CollectThms\<close> that a collection seals everything or ends in the error state (and that a
    retry after the freeze cannot succeed), \<^verbatim>\<open>CollectDelivery\<close> that no student's work is lost, \<^verbatim>\<open>SafeWaitThms\<close> what a
    safe end proves; \<^verbatim>\<open>CollectDemo\<close> runs them on the small contest.

  \<^item> \<^verbatim>\<open>DesktopAccess\<close> (\<^verbatim>\<open>services/pipeline.py\<close>: \<open>reconcile_desktop_access\<close>, \<open>shutdown_server\<close> and their neighbours): who may
    reach the desktops, failing closed, and the emergency shutdown.

  \<^item> \<^verbatim>\<open>SubmitRoutes\<close> (\<^verbatim>\<open>main.py\<close>: the routes below \<open>/submit/<token>\<close>; \<open>read_formal_source\<close> of \<^verbatim>\<open>services/pipeline.py\<close>): what a
    student's browser can ask for. A page is the value its template is given. \<^verbatim>\<open>SubmitThms\<close> shows that only an
    accepted program writes, that a lost response can be asked for again, and that a reply shows nobody else's
    work; \<^verbatim>\<open>SubmitDemo\<close> applies them.

  \<^bold>\<open>Reading the model.\<close> A method that may raise returns \<open>exn + 'a\<close>; because every store method runs in one
  transaction, \<open>Inl\<close> means that the database is unchanged. A call of \<open>datetime('now')\<close>, \<open>time.time\<close> or
  \<open>secrets\<close> is an argument. Exception messages that depend on nothing are short English glosses.
  Reads of a single row use \<open>find\<close>, an \<open>ORDER BY\<close> is \<open>sort_key\<close>.

  \<^bold>\<open>Bounds and fuel.\<close> Integers are Python's and SQLite's (the latter's 64 bit limit is not reached by
  the revisions, counters and millisecond times stored). The only loop with a fuel argument is the waiting
  loop of the realtime judge; the property \<open>wait_ends\<close> shows how much is enough.

  \<^bold>\<open>Not modelled.\<close> The preparation of a server, the freeze watchdog and the smoke test of
  \<^verbatim>\<open>services/pipeline.py\<close>, what SSH commands do on the server (their results are parameters), the scheduler's loop, the teacher's
  pages and the desktop pages of \<^verbatim>\<open>main.py\<close>, the receipts that \<^verbatim>\<open>collection_feedback.py\<close> reads back, the parsing
  and typesetting of uploaded materials, the schema migration, logging, the operation scripts and the
  JavaScript plugin of the judge: their effects lie outside the database and the two state machines.
\<close>

end
